(* ===== verification/PyStr.thy ===== *)
theory PyStr
  imports Prelude
begin

text \<open>
  The part of Python's \<open>str\<close> the program uses.  A string is a list of characters, a character
  one code point of the range U+0000..U+00FF (\<open>char\<close>), and every operation below is exact on
  that range: \<open>lower\<close>, \<open>isalnum\<close>, \<open>isdigit\<close>, \<open>isspace\<close> and the general category \<open>C*\<close> of
  \<open>unicodedata\<close> follow the Unicode tables for Latin-1, and \<open>utf8_len\<close> counts one byte below
  U+0080 and two from there on.  Regular expressions of the source are recognisers on strings.
\<close>

section \<open>Characters\<close>

abbreviation cp :: "char \<Rightarrow> nat" where
  "cp c \<equiv> of_char c"

definition ascii_upper :: "char \<Rightarrow> bool" where
  "ascii_upper c \<longleftrightarrow> 65 \<le> cp c \<and> cp c \<le> 90"

definition ascii_lower :: "char \<Rightarrow> bool" where
  "ascii_lower c \<longleftrightarrow> 97 \<le> cp c \<and> cp c \<le> 122"

definition ascii_digit :: "char \<Rightarrow> bool" where
  "ascii_digit c \<longleftrightarrow> 48 \<le> cp c \<and> cp c \<le> 57"

definition ascii_alpha :: "char \<Rightarrow> bool" where
  "ascii_alpha c \<longleftrightarrow> ascii_upper c \<or> ascii_lower c"

definition ascii_alnum :: "char \<Rightarrow> bool" where
  "ascii_alnum c \<longleftrightarrow> ascii_alpha c \<or> ascii_digit c"

text \<open>\<open>str.isalnum\<close>: letters, digits and the numeric signs of Latin-1.\<close>

definition py_isalnum :: "char \<Rightarrow> bool" where
  "py_isalnum c \<longleftrightarrow> ascii_alnum c
     \<or> cp c \<in> {170, 178, 179, 181, 185, 186, 188, 189, 190}
     \<or> (192 \<le> cp c \<and> cp c \<noteq> 215 \<and> cp c \<noteq> 247)"

text \<open>\<open>str.isdigit\<close> also accepts the superscripts two, three and one, which \<open>int\<close> rejects.\<close>

definition py_isdigit :: "char \<Rightarrow> bool" where
  "py_isdigit c \<longleftrightarrow> ascii_digit c \<or> cp c \<in> {178, 179, 185}"

definition py_isspace :: "char \<Rightarrow> bool" where
  "py_isspace c \<longleftrightarrow> (9 \<le> cp c \<and> cp c \<le> 13) \<or> (28 \<le> cp c \<and> cp c \<le> 32)
     \<or> cp c = 133 \<or> cp c = 160"

definition category_C :: "char \<Rightarrow> bool" where
  "category_C c \<longleftrightarrow> cp c < 32 \<or> (127 \<le> cp c \<and> cp c \<le> 159) \<or> cp c = 173"

definition lower_char :: "char \<Rightarrow> char" where
  "lower_char c = (if ascii_upper c \<or> (192 \<le> cp c \<and> cp c \<le> 222 \<and> cp c \<noteq> 215)
                   then char_of (cp c + 32) else c)"

text \<open>\<open>\w\<close> of a regular expression on \<open>str\<close>.\<close>

definition word_char :: "char \<Rightarrow> bool" where
  "word_char c \<longleftrightarrow> py_isalnum c \<or> c = CHR ''_''"

section \<open>Strings\<close>

definition py_lower :: "string \<Rightarrow> string" where
  "py_lower s = map lower_char s"

definition py_strip :: "string \<Rightarrow> string" where
  "py_strip s = rev (dropWhile py_isspace (rev (dropWhile py_isspace s)))"

definition rstrip_char :: "char \<Rightarrow> string \<Rightarrow> string" where
  "rstrip_char c s = rev (dropWhile (\<lambda>d. d = c) (rev s))"

definition utf8_len :: "string \<Rightarrow> nat" where
  "utf8_len s = sum_list (map (\<lambda>c. if cp c < 128 then 1 else 2) s)"

definition starts_with :: "string \<Rightarrow> string \<Rightarrow> bool" where
  "starts_with p s \<longleftrightarrow> prefix p s"

definition ends_with :: "string \<Rightarrow> string \<Rightarrow> bool" where
  "ends_with p s \<longleftrightarrow> prefix (rev p) (rev s)"

text \<open>\<open>p in s\<close>.\<close>

fun contains :: "string \<Rightarrow> string \<Rightarrow> bool" where
  "contains p [] = (p = [])"
| "contains p (c # s) = (prefix p (c # s) \<or> contains p s)"

lemma contains_iff: "contains p s \<longleftrightarrow> sublist p s"
  by (induction s) (auto simp: sublist_Cons_right)

lemma contains_infix: "contains p (u @ p @ v)"
  by (simp add: contains_iff sublist_appendI)

text \<open>\<open>s.split(c)\<close> for one character: never empty, and \<open>c.join\<close> is its inverse.\<close>

fun split_on :: "char \<Rightarrow> string \<Rightarrow> string list" where
  "split_on c [] = [[]]"
| "split_on c (x # xs) =
     (if x = c then [] # split_on c xs
      else case split_on c xs of [] \<Rightarrow> [[x]] | w # ws \<Rightarrow> (x # w) # ws)"

fun join_with :: "string \<Rightarrow> string list \<Rightarrow> string" where
  "join_with sep [] = []"
| "join_with sep [w] = w"
| "join_with sep (w # ws) = w @ sep @ join_with sep ws"

lemma split_on_ne [simp]: "split_on c s \<noteq> []"
  by (induction s) (auto split: list.splits)

lemma join_split_on: "join_with [c] (split_on c s) = s"
proof (induction s)
  case Nil then show ?case by simp
next
  case (Cons x xs)
  then show ?case by (cases "split_on c xs"; cases "tl (split_on c xs)") auto
qed

lemma split_on_no_sep: "w \<in> set (split_on c s) \<Longrightarrow> c \<notin> set w"
  by (induction s arbitrary: w) (auto split: if_splits list.splits)

lemma split_on_append: "c \<notin> set w \<Longrightarrow> split_on c (w @ c # s) = w # split_on c s"
  by (induction w) auto

lemma split_on_single: "c \<notin> set w \<Longrightarrow> split_on c w = [w]"
  by (induction w) auto

lemma split_on_join:
  "ws \<noteq> [] \<Longrightarrow> \<forall>w\<in>set ws. c \<notin> set w \<Longrightarrow> split_on c (join_with [c] ws) = ws"
  by (induction "[c]" ws rule: join_with.induct) (auto simp: split_on_append split_on_single)

text \<open>\<open>s.replace(old, new)\<close> with a non-empty \<open>old\<close>: leftmost, non-overlapping.\<close>

fun py_replace :: "string \<Rightarrow> string \<Rightarrow> string \<Rightarrow> string" where
  "py_replace old new [] = []"
| "py_replace old new (c # s) =
     (if old \<noteq> [] \<and> prefix old (c # s)
      then new @ py_replace old new (drop (length old - 1) s)
      else c # py_replace old new s)"

text \<open>The maximal runs of characters that satisfy \<open>P\<close>, as \<open>re.split\<close> on the others.\<close>

function runs :: "(char \<Rightarrow> bool) \<Rightarrow> string \<Rightarrow> string list" where
  "runs P [] = []"
| "runs P (c # s) =
     (if P c then (c # takeWhile P s) # runs P (dropWhile P s) else runs P s)"
  by pat_completeness auto
termination
  by (relation "measure (\<lambda>(P, s). length s)")
    (simp_all add: less_Suc_eq_le length_dropWhile_le)

lemma takeWhile_all: "\<forall>c\<in>set (takeWhile P s). P c"
  by (induction s) auto

lemma runs_all: "w \<in> set (runs P s) \<Longrightarrow> w \<noteq> [] \<and> (\<forall>c\<in>set w. P c)"
proof (induction P s rule: runs.induct)
  case (1 P)
  then show ?case by simp
next
  case (2 P c s)
  then show ?case using takeWhile_all [of P s] by (cases "P c") auto
qed

section \<open>Decimal numerals\<close>

definition digit_char :: "nat \<Rightarrow> char" where
  "digit_char d = char_of (48 + d)"

fun nat_str :: "nat \<Rightarrow> string" where
  "nat_str n = (if n < 10 then [digit_char n] else nat_str (n div 10) @ [digit_char (n mod 10)])"

declare nat_str.simps [simp del]

definition int_str :: "int \<Rightarrow> string" where
  "int_str i = (if i < 0 then CHR ''-'' # nat_str (nat (- i)) else nat_str (nat i))"

definition digits_val :: "string \<Rightarrow> nat" where
  "digits_val s = foldl (\<lambda>n c. 10 * n + (cp c - 48)) 0 s"

lemma cp_digit_char: "d < 10 \<Longrightarrow> cp (digit_char d) = 48 + d"
  by (simp add: digit_char_def of_char_of)

lemma nat_str_ne: "nat_str n \<noteq> []"
  by (subst nat_str.simps) simp

lemma nat_str_digits: "c \<in> set (nat_str n) \<Longrightarrow> ascii_digit c"
proof (induction n rule: nat_str.induct)
  case (1 n)
  then show ?case
    by (subst (asm) nat_str.simps) (auto simp: ascii_digit_def cp_digit_char split: if_splits)
qed

lemma digits_val_nat_str: "digits_val (nat_str n) = n"
proof (induction n rule: nat_str.induct)
  case (1 n)
  then show ?case
    by (subst nat_str.simps) (auto simp: digits_val_def cp_digit_char)
qed

section \<open>Recognisers\<close>

text \<open>
  \<open>[first][rest]{0,n}\<close> matched by \<open>fullmatch\<close>; an end anchor then adds nothing.
\<close>

definition first_rest :: "(char \<Rightarrow> bool) \<Rightarrow> (char \<Rightarrow> bool) \<Rightarrow> nat \<Rightarrow> string \<Rightarrow> bool" where
  "first_rest f r n s =
     (case s of [] \<Rightarrow> False | c # cs \<Rightarrow> f c \<and> list_all r cs \<and> length cs \<le> n)"

definition ident_rest :: "char \<Rightarrow> bool" where
  "ident_rest c \<longleftrightarrow> ascii_alnum c \<or> c = CHR ''_'' \<or> c = CHR ''.'' \<or> c = CHR ''-''"

definition step_rest :: "char \<Rightarrow> bool" where
  "step_rest c \<longleftrightarrow> ascii_alnum c \<or> c = CHR ''_'' \<or> c = CHR ''-''"

text \<open>\<open>^[A-Za-z][A-Za-z0-9_.-]{0,127}$\<close>, the identifier of several modules.\<close>

definition ident_re :: "string \<Rightarrow> bool" where
  "ident_re = first_rest ascii_alpha ident_rest 127"

lemma first_rest_length: "first_rest f r n s \<Longrightarrow> 0 < length s \<and> length s \<le> Suc n"
  by (auto simp: first_rest_def split: list.splits)

lemma first_rest_chars:
  "first_rest f r n s \<Longrightarrow> c \<in> set s \<Longrightarrow> f c \<or> r c"
  by (auto simp: first_rest_def list_all_iff split: list.splits)

lemma ident_re_length: "ident_re s \<Longrightarrow> 0 < length s \<and> length s \<le> 128"
  by (auto simp: ident_re_def dest: first_rest_length)

section \<open>Bytes\<close>

text \<open>\<open>s.encode("utf-8")\<close> and \<open>n.to_bytes(k, "big")\<close> for \<open>n < 256 ^ k\<close>.\<close>

definition utf8_char :: "char \<Rightarrow> nat list" where
  "utf8_char c = (if cp c < 128 then [cp c] else [192 + cp c div 64, 128 + cp c mod 64])"

definition utf8 :: "string \<Rightarrow> nat list" where
  "utf8 s = concat (map utf8_char s)"

fun to_bytes :: "nat \<Rightarrow> nat \<Rightarrow> nat list" where
  "to_bytes 0 n = []"
| "to_bytes (Suc k) n = to_bytes k (n div 256) @ [n mod 256]"

lemma length_utf8: "length (utf8 s) = utf8_len s"
  by (induction s) (simp_all add: utf8_def utf8_len_def utf8_char_def)

lemma length_to_bytes [simp]: "length (to_bytes k n) = k"
  by (induction k arbitrary: n) simp_all

lemma to_bytes_inj: "to_bytes k m = to_bytes k n \<Longrightarrow> m < 256 ^ k \<Longrightarrow> n < 256 ^ k \<Longrightarrow> m = n"
proof (induction k arbitrary: m n)
  case 0 then show ?case by simp
next
  case (Suc k)
  have "m div 256 < 256 ^ k" "n div 256 < 256 ^ k"
    using Suc.prems(2,3) by (simp_all add: less_mult_imp_div_less mult.commute)
  moreover have "to_bytes k (m div 256) = to_bytes k (n div 256)" "m mod 256 = n mod 256"
    using Suc.prems(1) by simp_all
  ultimately have "m div 256 = n div 256" "m mod 256 = n mod 256" using Suc.IH by blast+
  then show ?case by (metis div_mult_mod_eq)
qed

fun utf8_decode :: "nat list \<Rightarrow> string" where
  "utf8_decode [] = []"
| "utf8_decode [b] = [char_of b]"
| "utf8_decode (b # b' # bs) =
     (if b < 128 then char_of b # utf8_decode (b' # bs)
      else char_of ((b - 192) * 64 + (b' - 128)) # utf8_decode bs)"

lemma utf8_decode_char: "utf8_decode (utf8_char c @ bs) = c # utf8_decode bs"
proof (cases "cp c < 128")
  case True
  then show ?thesis by (cases bs) (simp_all add: utf8_char_def)
next
  case False
  have "(cp c div 64) * 64 + cp c mod 64 = cp c" by simp
  then show ?thesis using False by (simp add: utf8_char_def)
qed

lemma utf8_decode_utf8: "utf8_decode (utf8 s) = s"
  by (induction s) (simp_all add: utf8_def utf8_decode_char)

lemma utf8_inj: "utf8 s = utf8 t \<Longrightarrow> s = t"
  by (metis utf8_decode_utf8)

end
