(* ===== verification/PyVal.thy ===== *)
theory PyVal
  imports PyStr Complex_Main
begin

text \<open>
  Dynamically typed Python values, as JSON documents, policies, schemas and tool results hold
  them.  \<open>PMap\<close> is any \<open>Mapping\<close> (a \<open>dict\<close> or a read-only proxy of one), its entries in
  insertion order; \<open>PObj\<close> is an instance of a class with its attributes.  A finite \<open>float\<close> is the
  rational number it denotes; its textual form (\<open>repr\<close>) is the parameter \<open>fr\<close> of \<open>py_str\<close> and
  \<open>json_dumps\<close>.
\<close>

datatype pyfloat = Fin rat | PosInf | NegInf | NaN

datatype pyval =
    PNone
  | PBool bool
  | PInt int
  | PFloat pyfloat
  | PStr string
  | PBytes "nat list"
  | PList "pyval list"
  | PTuple "pyval list"
  | PMap "(pyval \<times> pyval) list"
  | PObj string "(string \<times> pyval) list"

section \<open>Type tests\<close>

text \<open>\<open>bool\<close> is a subclass of \<open>int\<close>: \<open>isinstance(True, int)\<close> holds.\<close>

fun is_bool :: "pyval \<Rightarrow> bool" where
  "is_bool (PBool _) = True"
| "is_bool _ = False"

fun is_int :: "pyval \<Rightarrow> bool" where
  "is_int (PInt _) = True"
| "is_int (PBool _) = True"
| "is_int _ = False"

fun is_str :: "pyval \<Rightarrow> bool" where
  "is_str (PStr _) = True"
| "is_str _ = False"

fun is_mapping :: "pyval \<Rightarrow> bool" where
  "is_mapping (PMap _) = True"
| "is_mapping _ = False"

fun is_list :: "pyval \<Rightarrow> bool" where
  "is_list (PList _) = True"
| "is_list _ = False"

fun is_tuple :: "pyval \<Rightarrow> bool" where
  "is_tuple (PTuple _) = True"
| "is_tuple _ = False"

fun float_finite :: "pyfloat \<Rightarrow> bool" where
  "float_finite (Fin _) = True"
| "float_finite _ = False"

text \<open>An \<open>int\<close> that is not a \<open>bool\<close>, as its number.\<close>

fun strict_int :: "pyval \<Rightarrow> int option" where
  "strict_int (PInt i) = Some i"
| "strict_int _ = None"

text \<open>Truth of a value: \<open>bool(v)\<close>.\<close>

fun truthy :: "pyval \<Rightarrow> bool" where
  "truthy PNone = False"
| "truthy (PBool b) = b"
| "truthy (PInt i) = (i \<noteq> 0)"
| "truthy (PFloat f) = (f \<noteq> Fin 0)"
| "truthy (PStr s) = (s \<noteq> [])"
| "truthy (PBytes b) = (b \<noteq> [])"
| "truthy (PList vs) = (vs \<noteq> [])"
| "truthy (PTuple vs) = (vs \<noteq> [])"
| "truthy (PMap m) = (m \<noteq> [])"
| "truthy (PObj _ _) = True"

text \<open>Values of the built-in collections and \<open>dict\<close> are unhashable.\<close>

fun hashable :: "pyval \<Rightarrow> bool" where
  "hashable (PList _) = False"
| "hashable (PMap _) = False"
| "hashable (PTuple vs) = list_all hashable vs"
| "hashable _ = True"

section \<open>Equality\<close>

text \<open>
  \<open>==\<close>: numbers compare across \<open>bool\<close>, \<open>int\<close> and \<open>float\<close>, a list never equals a tuple,
  mappings compare without order, a NaN differs from everything.
\<close>

fun num_of :: "pyval \<Rightarrow> pyfloat option" where
  "num_of (PBool b) = Some (Fin (if b then 1 else 0))"
| "num_of (PInt i) = Some (Fin (of_int i))"
| "num_of (PFloat f) = Some f"
| "num_of _ = None"

definition num_eq :: "pyval \<Rightarrow> pyval \<Rightarrow> bool" where
  "num_eq v w = (case (num_of v, num_of w) of
       (Some x, Some y) \<Rightarrow> x = y \<and> x \<noteq> NaN | _ \<Rightarrow> False)"

function py_eq :: "pyval \<Rightarrow> pyval \<Rightarrow> bool"
  and py_eq_list :: "pyval list \<Rightarrow> pyval list \<Rightarrow> bool"
  and py_eq_sub :: "(pyval \<times> pyval) list \<Rightarrow> (pyval \<times> pyval) list \<Rightarrow> bool"
  and py_eq_find :: "pyval \<Rightarrow> pyval \<Rightarrow> (pyval \<times> pyval) list \<Rightarrow> bool"
  and py_eq_attrs :: "(string \<times> pyval) list \<Rightarrow> (string \<times> pyval) list \<Rightarrow> bool" where
  "py_eq v w =
     (case (v, w) of
        (PNone, PNone) \<Rightarrow> True
      | (PStr s, PStr t) \<Rightarrow> s = t
      | (PBytes s, PBytes t) \<Rightarrow> s = t
      | (PList vs, PList ws) \<Rightarrow> py_eq_list vs ws
      | (PTuple vs, PTuple ws) \<Rightarrow> py_eq_list vs ws
      | (PMap m, PMap n) \<Rightarrow> length m = length n \<and> py_eq_sub m n
      | (PObj c a, PObj d b) \<Rightarrow> c = d \<and> py_eq_attrs a b
      | _ \<Rightarrow> num_eq v w)"
| "py_eq_list vs ws =
     (case (vs, ws) of
        ([], []) \<Rightarrow> True
      | (v # vs', w # ws') \<Rightarrow> py_eq v w \<and> py_eq_list vs' ws'
      | _ \<Rightarrow> False)"
| "py_eq_sub m n =
     (case m of [] \<Rightarrow> True
      | (k, v) # m' \<Rightarrow> py_eq_find k v n \<and> py_eq_sub m' n)"
| "py_eq_find k v n =
     (case n of [] \<Rightarrow> False
      | (k', v') # n' \<Rightarrow> py_eq k k' \<and> py_eq v v' \<or> py_eq_find k v n')"
| "py_eq_attrs a b =
     (case (a, b) of
        ([], []) \<Rightarrow> True
      | ((x, v) # a', (y, w) # b') \<Rightarrow> x = y \<and> py_eq v w \<and> py_eq_attrs a' b'
      | _ \<Rightarrow> False)"
  by pat_completeness auto
termination
  by (relation "measure (\<lambda>x. case x of
        Inl (Inl (v, w)) \<Rightarrow> size v + size w
      | Inl (Inr (vs, ws)) \<Rightarrow> size_list size vs + size_list size ws
      | Inr (Inl (m, n)) \<Rightarrow> size_list (size_prod size size) m + size_list (size_prod size size) n
      | Inr (Inr (Inl (k, v, n))) \<Rightarrow> size k + size v + size_list (size_prod size size) n
      | Inr (Inr (Inr (a, b))) \<Rightarrow> size_list (size_prod (\<lambda>_. 0) size) a
           + size_list (size_prod (\<lambda>_. 0) size) b)") auto

declare py_eq.simps [simp del] py_eq_list.simps [simp del] py_eq_sub.simps [simp del]
  py_eq_find.simps [simp del] py_eq_attrs.simps [simp del]

text \<open>\<open>v in ws\<close> for a sequence.\<close>

definition py_in :: "pyval \<Rightarrow> pyval list \<Rightarrow> bool" where
  "py_in v ws \<longleftrightarrow> list_ex (py_eq v) ws"

section \<open>Mapping access\<close>

text \<open>\<open>m.get(k)\<close> for a string key.\<close>

fun mget :: "(pyval \<times> pyval) list \<Rightarrow> string \<Rightarrow> pyval option" where
  "mget [] k = None"
| "mget ((k', v) # m) k = (if k' = PStr k then Some v else mget m k)"

definition mget_none :: "(pyval \<times> pyval) list \<Rightarrow> string \<Rightarrow> pyval" where
  "mget_none m k = (case mget m k of None \<Rightarrow> PNone | Some v \<Rightarrow> v)"

definition mget_or :: "(pyval \<times> pyval) list \<Rightarrow> string \<Rightarrow> pyval \<Rightarrow> pyval" where
  "mget_or m k d = (case mget m k of None \<Rightarrow> d | Some v \<Rightarrow> v)"

definition has_key :: "(pyval \<times> pyval) list \<Rightarrow> string \<Rightarrow> bool" where
  "has_key m k \<longleftrightarrow> mget m k \<noteq> None"

lemma mget_in: "mget m k = Some v \<Longrightarrow> (PStr k, v) \<in> set m"
  by (induction m) (auto split: if_splits)

lemma mget_map_value [simp]: "mget (map (\<lambda>(k, v). (k, f v)) m) k = map_option f (mget m k)"
  by (induction m) auto

lemma has_key_map_value [simp]: "has_key (map (\<lambda>(k, v). (k, f v)) m) k = has_key m k"
  by (simp add: has_key_def)

text \<open>The size of a value bounds that of a component, for recursion over mappings.\<close>

lemma size_mget: "mget m k = Some v \<Longrightarrow> size v < size (PMap m)"
  by (induction m) (auto split: if_splits)

lemma size_member: "(k, v) \<in> set m \<Longrightarrow> size v < size (PMap m)"
  by (induction m) auto

lemma size_item: "v \<in> set vs \<Longrightarrow> size v < size (PTuple vs)"
  by (induction vs) auto

lemma size_list_item: "v \<in> set vs \<Longrightarrow> size v < size (PList vs)"
  by (induction vs) auto

text \<open>\<open>dict\<close> literals and comprehensions over string keys.\<close>

definition pdict :: "(string \<times> pyval) list \<Rightarrow> pyval" where
  "pdict kvs = PMap (map (\<lambda>(k, v). (PStr k, v)) kvs)"

lemma mget_pdict [simp]: "mget (map (\<lambda>(k, v). (PStr k, v)) kvs) k = map_of kvs k"
  by (induction kvs) auto

lemma mget_pdict_map [simp]:
  "mget (map (\<lambda>(k, v). (PStr k, f v)) kvs) k = map_option f (map_of kvs k)"
  by (induction kvs) auto

section \<open>JSON text\<close>

definition hex_digit :: "nat \<Rightarrow> char" where
  "hex_digit d = char_of (if d < 10 then 48 + d else 87 + d)"

definition json_escape_char :: "char \<Rightarrow> string" where
  "json_escape_char c =
     (if c = CHR 0x22 then [CHR 0x5C, CHR 0x22]
      else if c = CHR 0x5C then [CHR 0x5C, CHR 0x5C]
      else if cp c = 10 then [CHR 0x5C, CHR ''n'']
      else if cp c = 13 then [CHR 0x5C, CHR ''r'']
      else if cp c = 9 then [CHR 0x5C, CHR ''t'']
      else if cp c = 12 then [CHR 0x5C, CHR ''f'']
      else if cp c = 8 then [CHR 0x5C, CHR ''b'']
      else if cp c < 32 then
        [CHR 0x5C, CHR ''u'', CHR ''0'', CHR ''0'',
         hex_digit (cp c div 16), hex_digit (cp c mod 16)]
      else [c])"

definition json_string :: "string \<Rightarrow> string" where
  "json_string s = CHR 0x22 # concat (map json_escape_char s) @ [CHR 0x22]"

definition json_float :: "(rat \<Rightarrow> string) \<Rightarrow> pyfloat \<Rightarrow> string option" where
  "json_float fr f = (case f of Fin q \<Rightarrow> Some (fr q) | _ \<Rightarrow> None)"

definition json_key :: "(rat \<Rightarrow> string) \<Rightarrow> pyval \<Rightarrow> string option" where
  "json_key fr k =
     (case k of PStr s \<Rightarrow> Some s
      | PNone \<Rightarrow> Some ''null''
      | PBool b \<Rightarrow> Some (if b then ''true'' else ''false'')
      | PInt i \<Rightarrow> Some (int_str i)
      | PFloat f \<Rightarrow> json_float fr f
      | _ \<Rightarrow> None)"

text \<open>
  \<open>json.dumps(v, ensure_ascii=False, separators=(",", ":"), allow_nan=False)\<close>: \<open>None\<close> where it
  raises \<open>TypeError\<close> or \<open>ValueError\<close> (a value JSON has no form for, a non-finite number).
\<close>

fun json_dumps :: "(rat \<Rightarrow> string) \<Rightarrow> pyval \<Rightarrow> string option"
  and json_items :: "(rat \<Rightarrow> string) \<Rightarrow> pyval list \<Rightarrow> string list option"
  and json_members :: "(rat \<Rightarrow> string) \<Rightarrow> (pyval \<times> pyval) list \<Rightarrow> string list option" where
  "json_dumps fr PNone = Some ''null''"
| "json_dumps fr (PBool b) = Some (if b then ''true'' else ''false'')"
| "json_dumps fr (PInt i) = Some (int_str i)"
| "json_dumps fr (PFloat f) = json_float fr f"
| "json_dumps fr (PStr s) = Some (json_string s)"
| "json_dumps fr (PBytes _) = None"
| "json_dumps fr (PList vs) =
     map_option (\<lambda>ws. ''['' @ join_with '','' ws @ '']'') (json_items fr vs)"
| "json_dumps fr (PTuple vs) =
     map_option (\<lambda>ws. ''['' @ join_with '','' ws @ '']'') (json_items fr vs)"
| "json_dumps fr (PMap m) =
     map_option (\<lambda>ws. ''{'' @ join_with '','' ws @ ''}'') (json_members fr m)"
| "json_dumps fr (PObj _ _) = None"
| "json_items fr [] = Some []"
| "json_items fr (v # vs) =
     (case json_dumps fr v of None \<Rightarrow> None
      | Some w \<Rightarrow> map_option (Cons w) (json_items fr vs))"
| "json_members fr [] = Some []"
| "json_members fr ((k, v) # m) =
     (case json_key fr k of None \<Rightarrow> None
      | Some ks \<Rightarrow>
        (case json_dumps fr v of None \<Rightarrow> None
         | Some w \<Rightarrow> map_option (Cons (json_string ks @ '':'' @ w)) (json_members fr m)))"

text \<open>\<open>str(v)\<close> of a scalar.\<close>

definition py_float_str :: "(rat \<Rightarrow> string) \<Rightarrow> pyfloat \<Rightarrow> string" where
  "py_float_str fr f =
     (case f of Fin q \<Rightarrow> fr q | PosInf \<Rightarrow> ''inf'' | NegInf \<Rightarrow> ''-inf'' | NaN \<Rightarrow> ''nan'')"

text \<open>\<open>str(v)\<close> of \<open>None\<close>, a boolean, a number or a string.\<close>

fun py_str :: "(rat \<Rightarrow> string) \<Rightarrow> pyval \<Rightarrow> string" where
  "py_str fr (PStr s) = s"
| "py_str fr (PBool b) = (if b then ''True'' else ''False'')"
| "py_str fr (PInt i) = int_str i"
| "py_str fr (PFloat f) = py_float_str fr f"
| "py_str fr _ = ''None''"

text \<open>Membership in a literal set of strings hashes the value first.\<close>

definition in_strings :: "pyval \<Rightarrow> string list \<Rightarrow> bool result" where
  "in_strings v names =
     (if hashable v then Inr (list_ex (\<lambda>s. v = PStr s) names)
      else Inl (Exc TypeError ''unhashable type''))"

lemma in_strings_str [simp]: "in_strings (PStr s) names = Inr (s \<in> set names)"
  by (auto simp: in_strings_def list_ex_iff)

lemma in_strings_True: "in_strings v names = Inr True \<longleftrightarrow> (\<exists>s\<in>set names. v = PStr s)"
  by (auto simp: in_strings_def list_ex_iff)

section \<open>Size of a document\<close>

text \<open>The nodes of a value and its nesting, used to state the bounds of the guards.\<close>

fun val_depth :: "pyval \<Rightarrow> nat" where
  "val_depth (PList vs) = Suc (fold max (map val_depth vs) 0)"
| "val_depth (PTuple vs) = Suc (fold max (map val_depth vs) 0)"
| "val_depth (PMap m) = Suc (fold max (map (\<lambda>(k, v). val_depth v) m) 0)"
| "val_depth _ = 0"

lemma fold_max_ge: "(a :: nat) \<le> fold max xs a"
proof (induction xs arbitrary: a)
  case (Cons x xs)
  have "max x a \<le> fold max xs (max x a)" by (rule Cons.IH)
  then show ?case by simp
qed simp

lemma fold_max_le_iff: "fold max xs a \<le> (n :: nat) \<longleftrightarrow> a \<le> n \<and> (\<forall>x\<in>set xs. x \<le> n)"
  by (induction xs arbitrary: a) auto

section \<open>Conversion to a float\<close>

text \<open>
  \<open>float(x)\<close> and \<open>x / 1000\<close> of an \<open>int\<close>, a \<open>bool\<close> or a \<open>float\<close>; both raise \<open>OverflowError\<close> beyond
  the largest double.
\<close>

definition overflow_error :: exc where
  "overflow_error = Exc (OtherError ''OverflowError'') ''too large to convert to float''"

definition DOUBLE_OVERFLOW :: rat where "DOUBLE_OVERFLOW = 2 ^ 1024 - 2 ^ 970"

definition float_result :: "pyfloat \<Rightarrow> pyfloat result" where
  "float_result f =
     (case f of Fin q \<Rightarrow> (if \<bar>q\<bar> < DOUBLE_OVERFLOW then Inr f else Inl overflow_error) | _ \<Rightarrow> Inr f)"

end
