(* ===== verification/TtlStore.thy ===== *)
theory TtlStore
  imports PyVal
begin

text \<open>
  The contract shared by the two expiring caches of the gateway (the response cache and the
  OAuth token cache): a store of values with an expiry time, read through a clock, in which every
  key belongs to one connection and a whole connection can be dropped.  The laws are stated on
  the view of the store as a map; the lemmas follow from the laws alone and are used through the
  interpretations of \<open>ConnCache\<close> and \<open>TokenCache\<close>.
\<close>

type_synonym time = rat

definition live_at :: "time \<Rightarrow> ('v \<times> time) option \<Rightarrow> 'v option" where
  "live_at now x = (case x of None \<Rightarrow> None | Some (v, e) \<Rightarrow> if e \<le> now then None else Some v)"

lemma live_at_simps [simp]:
  "live_at now None = None"
  "live_at now (Some (v, e)) = (if e \<le> now then None else Some v)"
  by (simp_all add: live_at_def)

lemma live_at_Some_iff: "live_at now x = Some v \<longleftrightarrow> (\<exists>e. x = Some (v, e) \<and> now < e)"
  by (cases x) (auto simp: not_le split: if_splits)

lemma live_at_antimono: "live_at later x = Some v \<Longrightarrow> now \<le> later \<Longrightarrow> live_at now x = Some v"
  by (auto simp: live_at_Some_iff)

locale ttl_store =
  fixes view :: "'s \<Rightarrow> 'k \<Rightarrow> ('v \<times> time) option"
    and read :: "time \<Rightarrow> 's \<Rightarrow> 'k \<Rightarrow> 'v option \<times> 's"
    and store :: "'s \<Rightarrow> 'k \<Rightarrow> 'v \<Rightarrow> time \<Rightarrow> 's"
    and drop_owner :: "'s \<Rightarrow> 'c \<Rightarrow> 's"
    and owner :: "'k \<Rightarrow> 'c"
    and inv :: "'s \<Rightarrow> bool"
  assumes read_value: "inv s \<Longrightarrow> fst (read now s k) = live_at now (view s k)"
    and read_view: "inv s \<Longrightarrow> view (snd (read now s k)) =
          (if live_at now (view s k) = None then (view s)(k := None) else view s)"
    and read_inv: "inv s \<Longrightarrow> inv (snd (read now s k))"
    and store_view: "inv s \<Longrightarrow> view (store s k v e) = (view s)(k \<mapsto> (v, e))"
    and store_inv: "inv s \<Longrightarrow> inv (store s k v e)"
    and drop_view: "inv s \<Longrightarrow>
          view (drop_owner s c) = (\<lambda>k. if owner k = c then None else view s k)"
    and drop_inv: "inv s \<Longrightarrow> inv (drop_owner s c)"
begin

lemma read_after_store:
  assumes "inv s"
  shows "fst (read now (store s k v e) k) = (if e \<le> now then None else Some v)"
  using assms by (simp add: read_value store_inv store_view)

lemma read_store_other:
  assumes "inv s" and "k' \<noteq> k"
  shows "fst (read now (store s k v e) k') = fst (read now s k')"
  using assms by (simp add: read_value store_inv store_view)

lemma read_after_drop:
  assumes "inv s" and "owner k = c"
  shows "fst (read now (drop_owner s c) k) = None"
  using assms by (simp add: read_value drop_inv drop_view)

lemma read_drop_other:
  assumes "inv s" and "owner k \<noteq> c"
  shows "fst (read now (drop_owner s c) k) = fst (read now s k)"
  using assms by (simp add: read_value drop_inv drop_view)

text \<open>Reading evicts only what has expired, so it never changes what any later read returns.\<close>

lemma read_transparent:
  assumes "inv s" and "now \<le> later"
  shows "fst (read later (snd (read now s k)) k') = fst (read later s k')"
proof (cases "live_at now (view s k) = None \<and> k' = k")
  case True
  then have "live_at later (view s k) = None"
    using assms(2) live_at_antimono by (metis not_None_eq)
  with True assms show ?thesis by (simp add: read_value read_inv read_view)
next
  case False
  with assms show ?thesis by (auto simp: read_value read_inv read_view)
qed

text \<open>A value that a later read returns was already live before.\<close>

lemma read_antimono:
  assumes "inv s" and "now \<le> later" and "fst (read later s k) = Some v"
  shows "fst (read now s k) = Some v"
  using assms live_at_antimono by (simp add: read_value)

end

end
