(* ===== verification/ConnCache.thy ===== *)
theory ConnCache
  imports TtlStore "HOL-Library.Multiset"
begin

text \<open>
  \<open>app/connections/cache.py\<close>: the connection-scoped response cache.  First the checks that
  keep credentials and raw bodies out (\<open>_contains_sensitive_value\<close>, \<open>_canonical_arguments\<close>,
  \<open>_safe_value\<close>), then the cache operations \<open>get\<close>, \<open>put\<close>, \<open>invalidate_connection\<close>, then
  \<open>get_or_load\<close>, cut at its suspension points into the segments an event loop runs without
  interruption, and the step relation of any number of concurrent calls.
\<close>

section \<open>Sensitive material\<close>

definition SENSITIVE_KEY_PARTS :: "string list" where
  "SENSITIVE_KEY_PARTS =
     [''authorization'', ''bearer'', ''cookie'', ''credential'', ''password'', ''secret'',
      ''session'', ''token'', ''apikey'', ''body'', ''payload'', ''request'', ''response'']"

definition SENSITIVE_VALUE_MARKERS :: "string list" where
  "SENSITIVE_VALUE_MARKERS =
     [''apikey'', ''authorization'', ''bearer'', ''cookie'', ''credential'', ''password'',
      ''rawresponse'', ''secret'', ''session'', ''token'']"

definition OMITTED :: pyval where
  "OMITTED = PStr ''[omitted]''"

definition scope_rest :: "char \<Rightarrow> bool" where
  "scope_rest c \<longleftrightarrow> ident_rest c \<or> c = CHR '':''"

text \<open>\<open>_SAFE_SCOPE_KEY_RE\<close>.\<close>

definition safe_scope_key_re :: "string \<Rightarrow> bool" where
  "safe_scope_key_re = first_rest ascii_alnum scope_rest 127"

text \<open>
  \<open>_JWT_LIKE_RE\<close>, \<open>\beyJ T* . T+ . T+ \b\<close> ignoring case, with \<open>T\<close> the URL-safe base64
  alphabet.  A dot is not in \<open>T\<close>, so the first two runs are forced and only the end of the
  third one is searched, for a word boundary.
\<close>

definition b64url :: "char \<Rightarrow> bool" where
  "b64url c \<longleftrightarrow> ascii_alnum c \<or> c = CHR ''_'' \<or> c = CHR ''-''"

definition boundary_after :: "string \<Rightarrow> nat \<Rightarrow> bool" where
  "boundary_after s n \<longleftrightarrow> word_char (s ! (n - 1)) \<noteq> (n < length s \<and> word_char (s ! n))"

definition jwt_tail :: "string \<Rightarrow> bool" where
  "jwt_tail s = (let a = takeWhile b64url s; s1 = drop (length a) s in
     (case s1 of [] \<Rightarrow> False | d # s2 \<Rightarrow> d = CHR ''.'' \<and>
       (let b = takeWhile b64url s2; s3 = drop (length b) s2 in
         b \<noteq> [] \<and> (case s3 of [] \<Rightarrow> False | d' # s4 \<Rightarrow> d' = CHR ''.'' \<and>
           list_ex (boundary_after s4) [1 ..< Suc (length (takeWhile b64url s4))]))))"

fun jwt_search_from :: "bool \<Rightarrow> string \<Rightarrow> bool" where
  "jwt_search_from prev_word [] = False"
| "jwt_search_from prev_word (c # s) =
     ((\<not> prev_word \<and> prefix ''eyj'' (py_lower (take 3 (c # s))) \<and> jwt_tail (drop 3 (c # s)))
      \<or> jwt_search_from (word_char c) s)"

definition jwt_like :: "string \<Rightarrow> bool" where
  "jwt_like s = jwt_search_from False s"

text \<open>\<open>_identifier\<close>: the whole name is checked as a list of words, each against the key parts.\<close>

definition scope_identifier :: "string \<Rightarrow> pyval \<Rightarrow> string result" where
  "scope_identifier name value =
     (case value of
        PStr s \<Rightarrow>
          (if \<not> safe_scope_key_re s
              \<or> list_ex (\<lambda>p. p \<in> set SENSITIVE_KEY_PARTS)
                  (runs (\<lambda>c. ascii_lower c \<or> ascii_digit c) (py_lower s))
           then Inl (Exc ValueError (name @ '' is required'')) else Inr s)
      | _ \<Rightarrow> Inl (Exc ValueError (name @ '' is required'')))"

definition normalized_key_name :: "string \<Rightarrow> string" where
  "normalized_key_name s = filter py_isalnum (py_lower s)"

definition is_sensitive_key :: "string \<Rightarrow> bool" where
  "is_sensitive_key s = list_ex (\<lambda>p. contains p (normalized_key_name s)) SENSITIVE_KEY_PARTS"

definition sensitive_text :: "string \<Rightarrow> bool" where
  "sensitive_text s \<longleftrightarrow> jwt_like s \<or>
     list_ex (\<lambda>m. contains m (normalized_key_name s)) SENSITIVE_VALUE_MARKERS"

fun unsafe_key :: "pyval \<Rightarrow> bool" where
  "unsafe_key (PStr s) = is_sensitive_key s"
| "unsafe_key _ = True"

fun contains_sensitive :: "nat \<Rightarrow> pyval \<Rightarrow> bool"
  and sensitive_list :: "nat \<Rightarrow> pyval list \<Rightarrow> bool"
  and sensitive_items :: "nat \<Rightarrow> (pyval \<times> pyval) list \<Rightarrow> bool" where
  "contains_sensitive d PNone = (d > 8)"
| "contains_sensitive d (PBool _) = (d > 8)"
| "contains_sensitive d (PInt _) = (d > 8)"
| "contains_sensitive d (PFloat f) = (d > 8 \<or> \<not> float_finite f)"
| "contains_sensitive d (PStr s) = (d > 8 \<or> sensitive_text s)"
| "contains_sensitive d (PBytes _) = True"
| "contains_sensitive d (PMap m) = (d > 8 \<or> length m > 200 \<or> sensitive_items (Suc d) m)"
| "contains_sensitive d (PList vs) = (d > 8 \<or> length vs > 200 \<or> sensitive_list (Suc d) vs)"
| "contains_sensitive d (PTuple vs) = (d > 8 \<or> length vs > 200 \<or> sensitive_list (Suc d) vs)"
| "contains_sensitive d (PObj _ _) = True"
| "sensitive_list d [] = False"
| "sensitive_list d (v # vs) = (contains_sensitive d v \<or> sensitive_list d vs)"
| "sensitive_items d [] = False"
| "sensitive_items d ((k, v) # m) =
     (unsafe_key k \<or> contains_sensitive d v \<or> sensitive_items d m)"

text \<open>\<open>_canonical_arguments\<close>: JSON-safe copy of the arguments, tuples as lists, or \<open>ValueError\<close>.\<close>

fun canonical_args :: "nat \<Rightarrow> pyval \<Rightarrow> pyval result"
  and canonical_list :: "nat \<Rightarrow> pyval list \<Rightarrow> pyval list result"
  and canonical_items :: "nat \<Rightarrow> (pyval \<times> pyval) list \<Rightarrow> (pyval \<times> pyval) list result" where
  "canonical_args d v =
     (if d > 8 then Inl (Exc ValueError ''arguments are too deeply nested'')
      else case v of
        PNone \<Rightarrow> Inr v | PStr _ \<Rightarrow> Inr v | PBool _ \<Rightarrow> Inr v | PInt _ \<Rightarrow> Inr v
      | PFloat f \<Rightarrow>
          (if float_finite f then Inr v
           else Inl (Exc ValueError ''arguments contain a non-finite number''))
      | PMap m \<Rightarrow>
          (if length m > 200 then Inl (Exc ValueError ''arguments contain too many values'')
           else bindR (canonical_items (Suc d) m) (\<lambda>m'. Inr (PMap m')))
      | PList vs \<Rightarrow>
          (if length vs > 200 then Inl (Exc ValueError ''arguments contain too many values'')
           else bindR (canonical_list (Suc d) vs) (\<lambda>ws. Inr (PList ws)))
      | PTuple vs \<Rightarrow>
          (if length vs > 200 then Inl (Exc ValueError ''arguments contain too many values'')
           else bindR (canonical_list (Suc d) vs) (\<lambda>ws. Inr (PList ws)))
      | _ \<Rightarrow> Inl (Exc ValueError ''arguments are not cacheable''))"
| "canonical_list d [] = Inr []"
| "canonical_list d (v # vs) =
     bindR (canonical_args d v) (\<lambda>w. bindR (canonical_list d vs) (\<lambda>ws. Inr (w # ws)))"
| "canonical_items d [] = Inr []"
| "canonical_items d ((k, v) # m) =
     (if unsafe_key k then Inl (Exc ValueError ''arguments contain a sensitive key'')
      else bindR (canonical_args d v) (\<lambda>w. bindR (canonical_items d m) (\<lambda>m'. Inr ((k, w) # m'))))"

declare canonical_args.simps [simp del]

text \<open>\<open>_safe_value\<close>: the bounded copy that is retained.\<close>

fun safe_value :: "nat \<Rightarrow> pyval \<Rightarrow> pyval"
  and safe_list :: "nat \<Rightarrow> pyval list \<Rightarrow> pyval list"
  and safe_items :: "nat \<Rightarrow> (pyval \<times> pyval) list \<Rightarrow> (pyval \<times> pyval) list" where
  "safe_value d v =
     (if d > 8 then OMITTED
      else case v of
        PNone \<Rightarrow> v | PBool _ \<Rightarrow> v | PInt _ \<Rightarrow> v
      | PFloat f \<Rightarrow> (if float_finite f then v else OMITTED)
      | PStr s \<Rightarrow> PStr (take 2048 s)
      | PMap m \<Rightarrow> (if length m > 200 then OMITTED else PMap (safe_items (Suc d) m))
      | PList vs \<Rightarrow> (if length vs > 200 then OMITTED else PList (safe_list (Suc d) vs))
      | PTuple vs \<Rightarrow> (if length vs > 200 then OMITTED else PList (safe_list (Suc d) vs))
      | _ \<Rightarrow> OMITTED)"
| "safe_list d [] = []"
| "safe_list d (v # vs) = safe_value d v # safe_list d vs"
| "safe_items d [] = []"
| "safe_items d ((k, v) # m) =
     (if unsafe_key k then safe_items d m else (k, safe_value d v) # safe_items d m)"

declare safe_value.simps [simp del]


section \<open>Cache keys\<close>

text \<open>
  The host supplies the digest (\<open>hashlib.sha256(..).hexdigest()\<close>) and the text of a float
  (\<open>repr\<close>), which the module only calls.
\<close>

record host =
  host_sha256 :: "string \<Rightarrow> string"
  host_float_repr :: "rat \<Rightarrow> string"

fun key_text :: "pyval \<Rightarrow> string" where
  "key_text (PStr s) = s"
| "key_text _ = []"

fun sort_keys :: "pyval \<Rightarrow> pyval" where
  "sort_keys (PMap m) = PMap (sort_key (\<lambda>(k, v). key_text k) (map (\<lambda>(k, v). (k, sort_keys v)) m))"
| "sort_keys (PList vs) = PList (map sort_keys vs)"
| "sort_keys (PTuple vs) = PTuple (map sort_keys vs)"
| "sort_keys v = v"

definition normalized_args_hash :: "host \<Rightarrow> pyval option \<Rightarrow> string option" where
  "normalized_args_hash h args =
     (case canonical_args 0 (case args of None \<Rightarrow> PMap [] | Some a \<Rightarrow> a) of
        Inl _ \<Rightarrow> None
      | Inr c \<Rightarrow> map_option (host_sha256 h) (json_dumps (host_float_repr h) (sort_keys c)))"

text \<open>The tuple (connection_id, tool_key, args_hash).\<close>

datatype ckey = CKey (key_connection: string) (key_tool: string) (key_args: string)

definition cache_key :: "host \<Rightarrow> pyval \<Rightarrow> pyval \<Rightarrow> pyval option \<Rightarrow> ckey option result" where
  "cache_key h connection_id tool_key args =
     (case normalized_args_hash h args of
        None \<Rightarrow> Inr None
      | Some args_hash \<Rightarrow>
          bindR (scope_identifier ''connection_id'' connection_id) (\<lambda>c.
          bindR (scope_identifier ''tool_key'' tool_key) (\<lambda>t. Inr (Some (CKey c t args_hash)))))"

section \<open>The store\<close>

text \<open>A shared future of \<open>_inflight\<close>: pending, or settled with an outcome, or cancelled.\<close>

datatype cfuture = CPending | CCached pyval | CBypass | CFailed | CCancelled

record conn_cache =
  entries :: "(ckey, pyval \<times> time) dict"
  inflight :: "(ckey, nat) dict"
  futures :: "nat \<Rightarrow> cfuture option"
  next_future :: nat

definition empty_cache :: conn_cache where
  "empty_cache = \<lparr>entries = [], inflight = [], futures = (\<lambda>_. None), next_future = 0\<rparr>"

text \<open>The locked body of \<open>get\<close>.\<close>

definition get_entry :: "time \<Rightarrow> conn_cache \<Rightarrow> ckey \<Rightarrow> pyval option \<times> conn_cache" where
  "get_entry now c key =
     (case map_of (entries c) key of
        None \<Rightarrow> (None, c)
      | Some (v, expires_at) \<Rightarrow>
          (if expires_at \<le> now then (None, c\<lparr>entries := AList.delete key (entries c)\<rparr>)
           else (Some v, c)))"

definition cache_get ::
  "host \<Rightarrow> time \<Rightarrow> conn_cache \<Rightarrow> pyval \<Rightarrow> pyval \<Rightarrow> pyval option
     \<Rightarrow> (pyval option \<times> conn_cache) result" where
  "cache_get h now c connection_id tool_key args =
     bindR (cache_key h connection_id tool_key args) (\<lambda>key.
       (case key of None \<Rightarrow> Inr (None, c) | Some k \<Rightarrow> Inr (get_entry now c k)))"

text \<open>
  \<open>ttl_seconds\<close> as a positive finite number, or the \<open>ValueError\<close> of \<open>put\<close>; \<open>math.isfinite\<close> of an integer
  beyond the largest double raises \<open>OverflowError\<close>.
\<close>

definition bad_ttl :: exc where
  "bad_ttl = Exc ValueError ''ttl_seconds must be a positive finite number''"

definition positive_ttl :: "pyval \<Rightarrow> rat result" where
  "positive_ttl ttl =
     (case ttl of
        PInt i \<Rightarrow> bindR (float_result (Fin (of_int i))) (\<lambda>_. if 0 < i then Inr (of_int i) else Inl bad_ttl)
      | PFloat (Fin q) \<Rightarrow> (if 0 < q then Inr q else Inl bad_ttl)
      | _ \<Rightarrow> Inl bad_ttl)"

fun unstructured :: "pyval \<Rightarrow> bool" where
  "unstructured PNone = True"
| "unstructured (PStr _) = True"
| "unstructured (PBytes _) = True"
| "unstructured _ = False"

definition put_entry :: "conn_cache \<Rightarrow> ckey \<Rightarrow> pyval \<Rightarrow> time \<Rightarrow> conn_cache" where
  "put_entry c key v expires_at =
     c\<lparr>entries := AList.update key (v, expires_at) (entries c)\<rparr>"

definition cache_put ::
  "host \<Rightarrow> time \<Rightarrow> conn_cache \<Rightarrow> pyval \<Rightarrow> pyval \<Rightarrow> pyval \<Rightarrow> pyval \<Rightarrow> pyval option
     \<Rightarrow> (bool \<times> conn_cache) result" where
  "cache_put h now c connection_id tool_key v ttl args =
     bindR (positive_ttl ttl) (\<lambda>seconds.
     bindR (cache_key h connection_id tool_key args) (\<lambda>key.
       (case key of
          None \<Rightarrow> Inr (False, c)
        | Some k \<Rightarrow>
            (if unstructured v then Inr (False, c)
             else if contains_sensitive 0 v then Inr (False, c)
             else Inr (True, put_entry c k (safe_value 0 v) (now + seconds))))))"

definition drop_connection :: "conn_cache \<Rightarrow> string \<Rightarrow> conn_cache" where
  "drop_connection c cid =
     c\<lparr>entries := foldl (\<lambda>es k. AList.delete k es) (entries c)
        (filter (\<lambda>k. key_connection k = cid) (map fst (entries c)))\<rparr>"

definition cache_invalidate :: "conn_cache \<Rightarrow> pyval \<Rightarrow> (nat \<times> conn_cache) result" where
  "cache_invalidate c connection_id =
     bindR (scope_identifier ''connection_id'' connection_id) (\<lambda>cid.
       Inr (length (filter (\<lambda>k. key_connection k = cid) (map fst (entries c))), drop_connection c cid))"

section \<open>get\_or\_load\<close>

text \<open>
  The event loop runs a coroutine without interruption between two suspensions.  No lock of the
  class is held across a suspension, so \<open>get_or_load\<close> has three segments: from the call to its
  first \<open>await\<close> on the loader or on the shared future; from the loader's outcome to the
  return (owner); and from the settled future to the return (waiter).
\<close>

record load_call =
  lc_connection :: pyval
  lc_tool :: pyval
  lc_args :: "pyval option"
  lc_callable :: bool
  lc_ttl :: pyval
  lc_mode :: string

text \<open>
  The arguments of a call once a callable second argument has become the loader of a call that names none
  (\<open>None\<close> stands for the default \<open>None\<close>, an object for what is callable); \<open>lc_callable\<close> is whether the
  loader is.
\<close>

definition callable :: "pyval option \<Rightarrow> bool" where
  "callable v \<longleftrightarrow> (case v of Some (PObj cls _) \<Rightarrow> cls = ''function'' | _ \<Rightarrow> False)"

definition load_call_of :: "pyval \<Rightarrow> pyval \<Rightarrow> pyval option \<Rightarrow> pyval option \<Rightarrow> pyval \<Rightarrow> string \<Rightarrow> load_call" where
  "load_call_of connection_id tool_key args loader ttl mode =
     (let (args', loader') = (if loader = None \<and> callable args then (None, args) else (args, loader)) in
      \<lparr>lc_connection = connection_id, lc_tool = tool_key, lc_args = args', lc_callable = callable loader',
       lc_ttl = ttl, lc_mode = mode\<rparr>)"

datatype first_step = Hit pyval | Uncached | Owns ckey nat | Waits ckey nat

definition load_begin ::
  "host \<Rightarrow> time \<Rightarrow> conn_cache \<Rightarrow> load_call \<Rightarrow> (first_step \<times> conn_cache) result" where
  "load_begin h now c call =
     (if \<not> lc_callable call then Inl (Exc TypeError ''loader must be callable'')
      else if lc_mode call = ''direct'' then Inr (Uncached, c)
      else if lc_mode call \<notin> {''stored'', ''hybrid''} then
        Inl (Exc ValueError ''invalid data_mode'')
      else bindR (cache_key h (lc_connection call) (lc_tool call) (lc_args call)) (\<lambda>key.
        (case key of
           None \<Rightarrow> Inr (Uncached, c)
         | Some k \<Rightarrow>
             (case get_entry now c k of
                (Some v, c1) \<Rightarrow> Inr (Hit v, c1)
              | (None, c1) \<Rightarrow>
                  (case map_of (inflight c1) k of
                     Some f \<Rightarrow> Inr (Waits k f, c1)
                   | None \<Rightarrow>
                       (let f = next_future c1 in
                        Inr (Owns k f,
                             c1\<lparr>inflight := AList.update k f (inflight c1),
                                futures := (futures c1)(f \<mapsto> CPending),
                                next_future := Suc f\<rparr>)))))))"

definition settle :: "conn_cache \<Rightarrow> nat \<Rightarrow> cfuture \<Rightarrow> conn_cache" where
  "settle c f out =
     (if futures c f = Some CPending then c\<lparr>futures := (futures c)(f \<mapsto> out)\<rparr> else c)"

text \<open>The \<open>finally\<close> clause: the slot is removed only if it still holds this future.\<close>

definition release_slot :: "conn_cache \<Rightarrow> ckey \<Rightarrow> nat \<Rightarrow> conn_cache" where
  "release_slot c k f =
     (if map_of (inflight c) k = Some f then c\<lparr>inflight := AList.delete k (inflight c)\<rparr> else c)"

text \<open>The loader's outcome reaches the owner: a value, an exception, or a cancellation.\<close>

definition load_finish ::
  "host \<Rightarrow> time \<Rightarrow> conn_cache \<Rightarrow> load_call \<Rightarrow> ckey \<Rightarrow> nat \<Rightarrow> pyval result
     \<Rightarrow> pyval result \<times> conn_cache" where
  "load_finish h now c call k f outcome =
     (case outcome of
        Inr v \<Rightarrow>
          (case cache_put h now c (lc_connection call) (lc_tool call) v (lc_ttl call) (lc_args call) of
             Inl e \<Rightarrow> (Inl e, release_slot (settle c f CFailed) k f)
           | Inr (True, c1) \<Rightarrow>
               (case cache_get h now c1 (lc_connection call) (lc_tool call) (lc_args call) of
                  Inl e \<Rightarrow> (Inl e, release_slot (settle c1 f CFailed) k f)
                | Inr (safe_result, c2) \<Rightarrow>
                    (Inr v, release_slot
                       (settle c2 f (CCached (case safe_result of None \<Rightarrow> PNone | Some w \<Rightarrow> w))) k f))
           | Inr (False, c1) \<Rightarrow> (Inr v, release_slot (settle c1 f CBypass) k f))
      | Inl e \<Rightarrow>
          (if is_exception e then (Inl e, release_slot (settle c f CFailed) k f)
           else (Inl e, release_slot (settle c f CCancelled) k f)))"

datatype wake = StillWaiting | Resumes "pyval result" | LoadsItself

definition load_wake :: "conn_cache \<Rightarrow> nat \<Rightarrow> wake" where
  "load_wake c f =
     (case futures c f of
        Some (CCached v) \<Rightarrow> Resumes (Inr v)
      | Some CBypass \<Rightarrow> LoadsItself
      | Some CFailed \<Rightarrow> Resumes (Inl (Exc CacheLoadError ''cache load failed''))
      | Some CCancelled \<Rightarrow> Resumes (Inl (Exc CancelledError []))
      | _ \<Rightarrow> StillWaiting)"


section \<open>What may be retained\<close>

text \<open>
  The specification of a retained value: bounded in depth, width and string length, without a
  sensitive key, a credential marker, binary data or a foreign object.
\<close>

fun retained_ok :: "nat \<Rightarrow> pyval \<Rightarrow> bool"
  and retained_list :: "nat \<Rightarrow> pyval list \<Rightarrow> bool"
  and retained_items :: "nat \<Rightarrow> (pyval \<times> pyval) list \<Rightarrow> bool" where
  "retained_ok d v =
     (d \<le> 8 \<and> (case v of
        PNone \<Rightarrow> True | PBool _ \<Rightarrow> True | PInt _ \<Rightarrow> True
      | PFloat f \<Rightarrow> float_finite f
      | PStr s \<Rightarrow> length s \<le> 2048 \<and>
          \<not> list_ex (\<lambda>m. contains m (normalized_key_name s)) SENSITIVE_VALUE_MARKERS
      | PList vs \<Rightarrow> length vs \<le> 200 \<and> retained_list (Suc d) vs
      | PMap m \<Rightarrow> length m \<le> 200 \<and> retained_items (Suc d) m
      | _ \<Rightarrow> False))"
| "retained_list d [] = True"
| "retained_list d (v # vs) = (retained_ok d v \<and> retained_list d vs)"
| "retained_items d [] = True"
| "retained_items d ((k, v) # m) = (\<not> unsafe_key k \<and> retained_ok d v \<and> retained_items d m)"

declare retained_ok.simps [simp del]

lemma contains_prefix: "contains m (take n s) \<Longrightarrow> contains m s"
  unfolding contains_iff sublist_def by (metis append.assoc append_take_drop_id)

lemma normalized_take:
  "\<exists>j. normalized_key_name (take n s) = take j (normalized_key_name s)"
proof -
  have "py_lower s = take n (py_lower s) @ drop n (py_lower s)" by simp
  then have "filter py_isalnum (py_lower s)
      = filter py_isalnum (take n (py_lower s)) @ filter py_isalnum (drop n (py_lower s))"
    by (metis filter_append)
  then show ?thesis
    by (intro exI [of _ "length (filter py_isalnum (take n (py_lower s)))"])
      (simp add: normalized_key_name_def py_lower_def take_map)
qed

lemma marker_take:
  assumes "\<not> list_ex (\<lambda>m. contains m (normalized_key_name s)) ms"
  shows "\<not> list_ex (\<lambda>m. contains m (normalized_key_name (take n s))) ms"
proof -
  obtain j where "normalized_key_name (take n s) = take j (normalized_key_name s)"
    using normalized_take by blast
  with assms show ?thesis unfolding list_ex_iff by (metis contains_prefix)
qed

lemma length_safe_list [simp]: "length (safe_list d vs) = length vs"
  by (induction vs) auto

lemma length_safe_items: "length (safe_items d m) \<le> length m"
  by (induction m) auto

lemma safe_value_retained:
  "\<not> contains_sensitive d v \<Longrightarrow> retained_ok d (safe_value d v)"
  "\<not> sensitive_list d vs \<Longrightarrow> retained_list d (safe_list d vs)"
  "\<not> sensitive_items d m \<Longrightarrow> retained_items d (safe_items d m)"
proof (induction d v and d vs and d m
    rule: contains_sensitive_sensitive_list_sensitive_items.induct)
  case (5 d s)
  then show ?case
    using marker_take [of s SENSITIVE_VALUE_MARKERS 2048]
    by (simp add: safe_value.simps retained_ok.simps sensitive_text_def)
next
  case (7 d m)
  then show ?case
    using length_safe_items [of "Suc d" m] by (auto simp: safe_value.simps retained_ok.simps)
qed (auto simp: safe_value.simps retained_ok.simps)

text \<open>A value with short strings and no tuple is retained as it is.\<close>

fun plain_value :: "pyval \<Rightarrow> bool" where
  "plain_value (PStr s) = (length s \<le> 2048)"
| "plain_value (PTuple _) = False"
| "plain_value (PList vs) = list_all plain_value vs"
| "plain_value (PMap m) = list_all (\<lambda>(k, v). plain_value v) m"
| "plain_value _ = True"

lemma safe_value_id:
  "\<not> contains_sensitive d v \<Longrightarrow> plain_value v \<Longrightarrow> safe_value d v = v"
  "\<not> sensitive_list d vs \<Longrightarrow> list_all plain_value vs \<Longrightarrow> safe_list d vs = vs"
  "\<not> sensitive_items d m \<Longrightarrow> list_all (\<lambda>(k, v). plain_value v) m \<Longrightarrow> safe_items d m = m"
  by (induction d v and d vs and d m
      rule: contains_sensitive_sensitive_list_sensitive_items.induct)
    (auto simp: safe_value.simps)

section \<open>Keys do not depend on the order of arguments\<close>

lemma canonical_items_ok_iff:
  "(\<exists>m'. canonical_items d m = Inr m') \<longleftrightarrow>
     (\<forall>(k, v)\<in>set m. \<not> unsafe_key k \<and> (\<exists>w. canonical_args d v = Inr w))"
  by (induction m) (auto split: if_splits)

definition canon_value :: "nat \<Rightarrow> pyval \<Rightarrow> pyval" where
  "canon_value d v = (case canonical_args d v of Inl _ \<Rightarrow> PNone | Inr w \<Rightarrow> w)"

lemma canonical_items_map:
  "canonical_items d m = Inr m' \<Longrightarrow> m' = map (\<lambda>(k, v). (k, canon_value d v)) m"
  by (induction m arbitrary: m') (auto simp: canon_value_def split: if_splits)

lemma unsafe_key_str: "\<not> unsafe_key k \<Longrightarrow> \<exists>s. k = PStr s"
  by (cases k) auto

lemma sort_key_mset_eq:
  assumes "mset xs = mset ys" and "inj_on f (set xs)"
  shows "sort_key f xs = sort_key f ys"
  by (rule sort_key_inj_key_eq) (use assms in auto)

lemma sort_keys_perm:
  assumes "mset m = mset m'" and "distinct (map fst m)" and "\<forall>k\<in>fst ` set m. \<exists>s. k = PStr s"
  shows "sort_keys (PMap m) = sort_keys (PMap m')"
proof -
  let ?g = "\<lambda>(k, v). (k, sort_keys v)" and ?f = "\<lambda>(k :: pyval, v :: pyval). key_text k"
  have "inj_on fst (set m)" using assms(2) by (simp add: distinct_map)
  moreover have "x = y" if "x \<in> fst ` set m" "y \<in> fst ` set m" "key_text x = key_text y" for x y
    using assms(3) that by (metis key_text.simps(1))
  ultimately have inj: "inj_on ?f (set (map ?g m))"
    by (fastforce simp: inj_on_def)
  have "mset (map ?g m) = mset (map ?g m')" using assms(1) by simp
  then have "sort_key ?f (map ?g m) = sort_key ?f (map ?g m')"
    using inj by (rule sort_key_mset_eq)
  then show ?thesis by (simp only: sort_keys.simps)
qed

lemma normalized_args_hash_perm:
  assumes perm: "mset m = mset m'" and dist: "distinct (map fst m)"
  shows "normalized_args_hash h (Some (PMap m)) = normalized_args_hash h (Some (PMap m'))"
proof (cases "length m > 200 \<or> (\<nexists>c. canonical_items 1 m = Inr c)")
  case True
  have set: "set m' = set m" and len: "length m' = length m"
    using perm by (metis set_mset_mset, metis size_mset)
  have "length m' > 200 \<or> (\<nexists>c. canonical_items 1 m' = Inr c)"
    using True by (simp only: len canonical_items_ok_iff set)
  with True show ?thesis
    by (cases "canonical_items 1 m"; cases "canonical_items 1 m'")
      (auto simp: normalized_args_hash_def canonical_args.simps)
next
  case False
  then obtain c where c: "canonical_items 1 m = Inr c" and small: "\<not> length m > 200" by auto
  have set: "set m' = set m" and len: "length m' = length m"
    using perm by (metis set_mset_mset, metis size_mset)
  have "\<exists>c'. canonical_items 1 m' = Inr c'"
    using c unfolding canonical_items_ok_iff set by (metis canonical_items_ok_iff)
  then obtain c' where c': "canonical_items 1 m' = Inr c'" by auto
  let ?g = "\<lambda>(k, v). (k, canon_value 1 v)"
  have eqs: "c = map ?g m" "c' = map ?g m'" using c c' canonical_items_map by auto
  have "\<forall>(k, v)\<in>set m. \<not> unsafe_key k"
    using c canonical_items_ok_iff [of 1 m] by fastforce
  then have keys: "\<forall>k\<in>fst ` set c. \<exists>s. k = PStr s"
    using unsafe_key_str by (force simp: eqs)
  have fst: "map fst c = map fst m" by (auto simp: eqs)
  have "mset c = mset c'" using perm by (simp add: eqs)
  then have "sort_keys (PMap c) = sort_keys (PMap c')"
    using sort_keys_perm keys dist fst by metis
  then show ?thesis
    using small len c c' by (simp add: normalized_args_hash_def canonical_args.simps)
qed

section \<open>The store keeps the contract\<close>

definition cache_inv :: "conn_cache \<Rightarrow> bool" where
  "cache_inv c \<longleftrightarrow> dict_ok (entries c) \<and> (\<forall>(k, v, e)\<in>set (entries c). retained_ok 0 v)"

lemma foldl_delete_view:
  "map_of (foldl (\<lambda>es k. AList.delete k es) es ks) = (\<lambda>k. if k \<in> set ks then None else map_of es k)"
  by (induction ks arbitrary: es) (auto simp: fun_eq_iff)

lemma foldl_delete_subset: "set (foldl (\<lambda>es k. AList.delete k es) es ks) \<subseteq> set es"
  by (induction ks arbitrary: es) (auto dest: set_mp [OF set_delete_subset])

lemma foldl_delete_ok: "dict_ok es \<Longrightarrow> dict_ok (foldl (\<lambda>es k. AList.delete k es) es ks)"
  by (induction ks arbitrary: es) auto

lemma drop_connection_view:
  "map_of (entries (drop_connection c cid)) =
     (\<lambda>k. if key_connection k = cid then None else map_of (entries c) k)"
  by (auto simp: drop_connection_def foldl_delete_view fun_eq_iff map_of_eq_None_iff)

lemma drop_connection_ok: "dict_ok (entries c) \<Longrightarrow> dict_ok (entries (drop_connection c cid))"
  by (simp add: drop_connection_def foldl_delete_ok)

lemma cache_inv_delete: "cache_inv c \<Longrightarrow> cache_inv (c\<lparr>entries := AList.delete k (entries c)\<rparr>)"
  by (auto simp: cache_inv_def dest: set_mp [OF set_delete_subset])

lemma cache_inv_drop: "cache_inv c \<Longrightarrow> cache_inv (drop_connection c cid)"
  by (auto simp: cache_inv_def drop_connection_def foldl_delete_ok
      dest: set_mp [OF foldl_delete_subset])

lemma cache_inv_put: "cache_inv c \<Longrightarrow> retained_ok 0 v \<Longrightarrow> cache_inv (put_entry c k v e)"
  by (auto simp: cache_inv_def put_entry_def dest!: set_mp [OF set_update_subset])

lemma get_entry_value: "fst (get_entry now c k) = live_at now (map_of (entries c) k)"
  by (auto simp: get_entry_def split: option.splits)

lemma get_entry_view:
  "map_of (entries (snd (get_entry now c k))) =
     (if live_at now (map_of (entries c) k) = None then (map_of (entries c))(k := None)
      else map_of (entries c))"
  by (auto simp: get_entry_def fun_upd_idem split: option.splits)

lemma get_entry_dict_ok: "dict_ok (entries c) \<Longrightarrow> dict_ok (entries (snd (get_entry now c k)))"
  by (auto simp: get_entry_def split: option.splits)

lemma cache_inv_get: "cache_inv c \<Longrightarrow> cache_inv (snd (get_entry now c k))"
  by (auto simp: get_entry_def cache_inv_delete split: option.splits)

interpretation cc: ttl_store "\<lambda>c. map_of (entries c)" get_entry put_entry drop_connection key_connection
    "\<lambda>c. dict_ok (entries c)"
  by unfold_locales
    (simp_all add: get_entry_value get_entry_view get_entry_dict_ok put_entry_def
      drop_connection_view drop_connection_ok)

text \<open>The two ways \<open>put\<close> returns, and the two ways \<open>get\<close> returns.\<close>

lemma cache_put_cases:
  assumes "cache_put h now c cid tool v ttl args = Inr (b, c')"
  obtains (skipped) "\<not> b" "c' = c"
  | (stored) k seconds where "b" "positive_ttl ttl = Inr seconds"
      "cache_key h cid tool args = Inr (Some k)" "\<not> unstructured v" "\<not> contains_sensitive 0 v"
      "c' = put_entry c k (safe_value 0 v) (now + seconds)"
proof -
  from assms obtain seconds where ttl: "positive_ttl ttl = Inr seconds"
    by (cases "positive_ttl ttl") (simp_all add: cache_put_def)
  with assms obtain key where key: "cache_key h cid tool args = Inr key"
    by (cases "cache_key h cid tool args") (simp_all add: cache_put_def)
  show thesis
  proof (cases key)
    case None
    with assms ttl key skipped show thesis by (simp add: cache_put_def)
  next
    case (Some k)
    with assms ttl key stored [of seconds k] skipped show thesis
      by (cases "unstructured v"; cases "contains_sensitive 0 v") (simp_all add: cache_put_def)
  qed
qed

lemma cache_get_cases:
  assumes "cache_get h now c cid tool args = Inr (r, c')"
  obtains (uncached) "cache_key h cid tool args = Inr None" "r = None" "c' = c"
  | (keyed) k where "cache_key h cid tool args = Inr (Some k)" "(r, c') = get_entry now c k"
proof -
  from assms obtain key where key: "cache_key h cid tool args = Inr key"
    by (cases "cache_key h cid tool args") (simp_all add: cache_get_def)
  show thesis
    using assms key uncached keyed by (cases key) (simp_all add: cache_get_def)
qed

lemma cache_put_inv:
  assumes "cache_inv c" and "cache_put h now c cid tool v ttl args = Inr (b, c')"
  shows "cache_inv c'"
  using assms(2) by (rule cache_put_cases)
    (simp_all add: assms(1) cache_inv_put safe_value_retained)

lemma cache_get_inv:
  assumes "cache_inv c" and "cache_get h now c cid tool args = Inr (r, c')"
  shows "cache_inv c'"
  using assms(2) by (rule cache_get_cases) (simp_all add: assms(1), metis assms(1) cache_inv_get snd_conv)


lemma cache_get_retained:
  assumes "cache_inv c" and "cache_get h now c cid tool args = Inr (Some v, c')"
  shows "retained_ok 0 v"
  using assms(2)
proof (cases rule: cache_get_cases)
  case (keyed k)
  then show ?thesis using assms(1)
    by (fastforce simp: get_entry_def cache_inv_def dest!: map_of_SomeD split: option.splits if_splits)
qed simp

section \<open>Properties of the store\<close>

text \<open>A successful \<open>put\<close> is read back until its time to live has passed and never after: at any
  later instant \<open>get\<close> returns the retained projection while \<open>later < now + ttl\<close>, and a miss from
  then on.  A value without tuples and over-long strings is returned exactly as it was put.\<close>

theorem cache_put_then_get:
  assumes "dict_ok (entries c)"
    and put: "cache_put h now c cid tool v ttl args = Inr (True, c')"
    and "now \<le> later"
  shows "\<exists>seconds c''. positive_ttl ttl = Inr seconds \<and>
           cache_get h later c' cid tool args =
             Inr (if later < now + seconds then Some (safe_value 0 v) else None, c'') \<and>
           (plain_value v \<longrightarrow> safe_value 0 v = v)"
  using put
proof (cases rule: cache_put_cases)
  case (stored k seconds)
  have "fst (get_entry later c' k) = (if now + seconds \<le> later then None else Some (safe_value 0 v))"
    using cc.read_after_store [OF assms(1)] stored by metis
  then show ?thesis
    using stored safe_value_id(1) [of 0 v]
    by (cases "get_entry later c' k") (auto simp: cache_get_def not_le)
qed simp

text \<open>A concrete host, call and value for the witnesses.\<close>

definition demo_host :: host where
  "demo_host = \<lparr>host_sha256 = (\<lambda>s. s), host_float_repr = (\<lambda>q. ''0.5'')\<rparr>"

definition demo_value :: pyval where
  "demo_value = PMap [(PStr ''n'', PInt 1)]"

lemma demo_put:
  "cache_put demo_host 0 empty_cache (PStr ''c1'') (PStr ''t1'') demo_value (PInt 60) None
     = Inr (True, put_entry empty_cache (CKey ''c1'' ''t1'' ''{}'') demo_value 60)"
proof -
  have "cache_key demo_host (PStr ''c1'') (PStr ''t1'') None = Inr (Some (CKey ''c1'' ''t1'' ''{}''))"
    by code_simp
  moreover have "\<not> contains_sensitive 0 demo_value" "safe_value 0 demo_value = demo_value"
    "\<not> unstructured demo_value" "positive_ttl (PInt 60) = Inr 60"
    by code_simp+
  ultimately show ?thesis by (simp add: cache_put_def)
qed

lemma empty_cache_ok: "dict_ok (entries empty_cache)"
  by (simp add: empty_cache_def)

theorem cache_put_then_get_witness:
  "\<exists>c'. cache_put demo_host 0 empty_cache (PStr ''c1'') (PStr ''t1'') demo_value (PInt 60) None
          = Inr (True, c') \<and>
     (\<exists>seconds c''. positive_ttl (PInt 60) = Inr seconds \<and>
        cache_get demo_host 59 c' (PStr ''c1'') (PStr ''t1'') None =
          Inr (if 59 < 0 + seconds then Some (safe_value 0 demo_value) else None, c''))"
  using cache_put_then_get [OF empty_cache_ok demo_put, of 59] demo_put by auto

text \<open>connections are isolated.  Whatever \<open>put\<close> or \<open>invalidate_connection\<close> does for one
  connection, \<open>get\<close> for another connection returns what it returned before.\<close>

theorem cache_connection_isolation:
  assumes ok: "dict_ok (entries c)" and other: "cid \<noteq> cid'"
    and op: "cache_put h now c (PStr cid) tool v ttl args = Inr (b, c')
             \<or> cache_invalidate c (PStr cid) = Inr (n, c')"
  shows "map_option fst (case cache_get h later c' (PStr cid') tool' args' of
             Inl _ \<Rightarrow> None | Inr r \<Rightarrow> Some r)
         = map_option fst (case cache_get h later c (PStr cid') tool' args' of
             Inl _ \<Rightarrow> None | Inr r \<Rightarrow> Some r)"
proof (cases "cache_key h (PStr cid') tool' args'")
  case (Inl e)
  then show ?thesis by (simp add: cache_get_def)
next
  case (Inr key)
  have conn: "key_connection k = i" if "cache_key h (PStr i) t a = Inr (Some k)" for i t a k
    using that by (auto simp: cache_key_def scope_identifier_def split: option.splits if_splits)
  have "fst (get_entry later c' k') = fst (get_entry later c k')" if "key_connection k' = cid'" for k'
    using op
  proof
    assume "cache_put h now c (PStr cid) tool v ttl args = Inr (b, c')"
    then show ?thesis
    proof (cases rule: cache_put_cases)
      case (stored k seconds)
      then have "k' \<noteq> k" using conn other that by blast
      then show ?thesis using stored(6) cc.read_store_other [OF ok] by simp
    qed simp
  next
    assume "cache_invalidate c (PStr cid) = Inr (n, c')"
    then have "c' = drop_connection c cid"
      by (auto simp: cache_invalidate_def scope_identifier_def split: if_splits)
    then show ?thesis using cc.read_drop_other [OF ok] other that by metis
  qed
  with Inr conn show ?thesis
    by (cases key) (auto simp: cache_get_def split: prod.splits)
qed

theorem cache_connection_isolation_witness:
  "map_option fst (case cache_get demo_host 1
       (put_entry empty_cache (CKey ''c1'' ''t1'' ''{}'') demo_value 60) (PStr ''c2'') (PStr ''t1'') None of
     Inl _ \<Rightarrow> None | Inr r \<Rightarrow> Some r) = Some None"
proof -
  have op: "cache_put demo_host 0 empty_cache (PStr ''c1'') (PStr ''t1'') demo_value (PInt 60) None
      = Inr (True, put_entry empty_cache (CKey ''c1'' ''t1'' ''{}'') demo_value 60)
      \<or> cache_invalidate empty_cache (PStr ''c1'') = Inr (0, put_entry empty_cache (CKey ''c1'' ''t1'' ''{}'') demo_value 60)"
    using demo_put by simp
  have "cache_key demo_host (PStr ''c2'') (PStr ''t1'') None = Inr (Some (CKey ''c2'' ''t1'' ''{}''))"
    by code_simp
  then show ?thesis
    using cache_connection_isolation [OF empty_cache_ok _ op, of "''c2''" 1 "PStr ''t1''" None]
    by (simp add: cache_get_def get_entry_def empty_cache_def)
qed

text \<open>The cache key depends on the arguments as a set of named values, not on the order in which
  the client wrote them, so reordered arguments share one entry.\<close>

theorem cache_key_argument_order:
  assumes "mset m = mset m'" and "distinct (map fst m)"
  shows "cache_key h cid tool (Some (PMap m)) = cache_key h cid tool (Some (PMap m'))"
  using normalized_args_hash_perm [OF assms] by (simp add: cache_key_def)

theorem cache_key_argument_order_witness:
  "cache_key demo_host (PStr ''c1'') (PStr ''t1'') (Some (PMap [(PStr ''a'', PInt 1), (PStr ''b'', PInt 2)]))
   = cache_key demo_host (PStr ''c1'') (PStr ''t1'') (Some (PMap [(PStr ''b'', PInt 2), (PStr ''a'', PInt 1)]))"
  by (rule cache_key_argument_order) (simp_all add: add_mset_commute)

end
