(* ===== verification/SingleFlight.thy ===== *)
theory SingleFlight
  imports Prelude
begin

text \<open>
  The protocol by which both caches collapse concurrent misses into one upstream call: a table
  of slots, each holding a shared future; tasks that load and own one slot; tasks that wait on a
  future.  The locale states what a step may do to the table: nothing, claim a free slot with a
  fresh pending future, or settle the owner's future and free its slot.  From that alone it
  follows that a key has at most one loader and that no waiter is stranded.
\<close>

text \<open>
  What one step does: some task \<open>t\<close> is the only one to change; it leaves the table alone (it may
  begin to wait on a claimed slot), claims a free slot, or settles the future it owns.
\<close>

definition flight_step ::
  "('s \<Rightarrow> 'k \<Rightarrow> nat option) \<Rightarrow> ('s \<Rightarrow> nat \<Rightarrow> 'o option) \<Rightarrow> ('s \<Rightarrow> nat) \<Rightarrow>
   ('s \<Rightarrow> nat \<Rightarrow> 'k \<Rightarrow> nat \<Rightarrow> bool) \<Rightarrow> ('s \<Rightarrow> nat \<Rightarrow> 'k \<Rightarrow> nat \<Rightarrow> bool) \<Rightarrow> 'o \<Rightarrow> 's \<Rightarrow> 's \<Rightarrow> bool" where
  "flight_step slot status fresh loads waits pending s s' \<longleftrightarrow> (\<exists>t.
      (\<forall>t'. t' \<noteq> t \<longrightarrow> loads s' t' = loads s t' \<and> waits s' t' = waits s t') \<and>
      ((slot s' = slot s \<and> status s' = status s \<and> fresh s' = fresh s \<and>
        loads s' t = loads s t \<and>
        (\<forall>k f. waits s' t k f \<longrightarrow> waits s t k f \<or> slot s k = Some f))
      \<or> (\<exists>k. slot s k = None \<and> slot s' = (slot s)(k \<mapsto> fresh s) \<and>
        status s' = (status s)(fresh s \<mapsto> pending) \<and> fresh s' = Suc (fresh s) \<and>
        (\<forall>k' f'. \<not> loads s t k' f') \<and>
        (\<forall>k' f'. loads s' t k' f' \<longleftrightarrow> k' = k \<and> f' = fresh s) \<and>
        (\<forall>k' f'. \<not> waits s' t k' f'))
      \<or> (\<exists>k f out. loads s t k f \<and>
        (slot s k = Some f \<longrightarrow> status s f = Some pending \<longrightarrow>
           slot s' = (slot s)(k := None) \<and> status s' = (status s)(f \<mapsto> out) \<and> out \<noteq> pending \<and>
           fresh s' = fresh s) \<and>
        (\<forall>k' f'. \<not> loads s' t k' f') \<and> (\<forall>k' f'. \<not> waits s' t k' f'))))"

lemma flight_quiet:
  assumes "\<And>t'. t' \<noteq> t \<Longrightarrow> loads s' t' = loads s t' \<and> waits s' t' = waits s t'"
    and "slot s' = slot s" "status s' = status s" "fresh s' = fresh s" "loads s' t = loads s t"
    and "\<And>k f. waits s' t k f \<Longrightarrow> waits s t k f \<or> slot s k = Some f"
  shows "flight_step slot status fresh loads waits pending s s'"
  unfolding flight_step_def using assms by blast

lemma flight_claim:
  assumes "\<And>t'. t' \<noteq> t \<Longrightarrow> loads s' t' = loads s t' \<and> waits s' t' = waits s t'"
    and "slot s k = None" "slot s' = (slot s)(k \<mapsto> fresh s)"
      "status s' = (status s)(fresh s \<mapsto> pending)" "fresh s' = Suc (fresh s)"
    and "\<And>k' f'. \<not> loads s t k' f'" "\<And>k' f'. loads s' t k' f' \<longleftrightarrow> k' = k \<and> f' = fresh s"
      "\<And>k' f'. \<not> waits s' t k' f'"
  shows "flight_step slot status fresh loads waits pending s s'"
  unfolding flight_step_def using assms by blast

lemma flight_settle:
  assumes "\<And>t'. t' \<noteq> t \<Longrightarrow> loads s' t' = loads s t' \<and> waits s' t' = waits s t'"
    and "loads s t k f"
    and "slot s k = Some f \<Longrightarrow> status s f = Some pending \<Longrightarrow>
           \<exists>out. out \<noteq> pending \<and> slot s' = (slot s)(k := None) \<and> status s' = (status s)(f \<mapsto> out) \<and>
             fresh s' = fresh s"
    and "\<And>k' f'. \<not> loads s' t k' f'" "\<And>k' f'. \<not> waits s' t k' f'"
  shows "flight_step slot status fresh loads waits pending s s'"
proof -
  obtain out where "slot s k = Some f \<longrightarrow> status s f = Some pending \<longrightarrow>
           slot s' = (slot s)(k := None) \<and> status s' = (status s)(f \<mapsto> out) \<and> out \<noteq> pending \<and>
           fresh s' = fresh s" using assms(3) by blast
  then show ?thesis unfolding flight_step_def using assms(1,2,4,5) by blast
qed

locale single_flight =
  fixes step :: "'s \<Rightarrow> 's \<Rightarrow> bool"
    and init :: 's
    and slot :: "'s \<Rightarrow> 'k \<Rightarrow> nat option"
    and status :: "'s \<Rightarrow> nat \<Rightarrow> 'o option"
    and fresh :: "'s \<Rightarrow> nat"
    and loads :: "'s \<Rightarrow> nat \<Rightarrow> 'k \<Rightarrow> nat \<Rightarrow> bool"
    and waits :: "'s \<Rightarrow> nat \<Rightarrow> 'k \<Rightarrow> nat \<Rightarrow> bool"
    and pending :: 'o
  assumes init_empty: "slot init k = None" "status init f = None"
      "\<not> loads init t k f" "\<not> waits init t k f"
    and loads_one: "loads s t k f \<Longrightarrow> loads s t k' f' \<Longrightarrow> k' = k \<and> f' = f"
    and step_cases: "step s s' \<Longrightarrow> flight_step slot status fresh loads waits pending s s'"
begin

definition table_ok :: "'s \<Rightarrow> bool" where
  "table_ok s \<longleftrightarrow>
     (\<forall>f \<ge> fresh s. status s f = None) \<and>
     (\<forall>k f. slot s k = Some f \<longrightarrow> status s f = Some pending) \<and>
     (\<forall>k f. slot s k = Some f \<longrightarrow> (\<exists>t. loads s t k f)) \<and>
     (\<forall>t k f. loads s t k f \<longrightarrow> slot s k = Some f) \<and>
     (\<forall>t t' k k' f. loads s t k f \<longrightarrow> loads s t' k' f \<longrightarrow> t = t' \<and> k = k') \<and>
     (\<forall>t k f. waits s t k f \<longrightarrow> status s f \<noteq> None) \<and>
     (\<forall>t k f. waits s t k f \<longrightarrow> status s f = Some pending \<longrightarrow> slot s k = Some f)"

lemma table_okD:
  assumes "table_ok s"
  shows "fresh s \<le> f \<Longrightarrow> status s f = None"
    and "slot s k = Some f \<Longrightarrow> status s f = Some pending"
    and "slot s k = Some f \<Longrightarrow> \<exists>t. loads s t k f"
    and "loads s t k f \<Longrightarrow> slot s k = Some f"
    and "loads s t k f \<Longrightarrow> loads s t' k' f \<Longrightarrow> t = t' \<and> k = k'"
    and "waits s t k f \<Longrightarrow> status s f \<noteq> None"
    and "waits s t k f \<Longrightarrow> status s f = Some pending \<Longrightarrow> slot s k = Some f"
  using assms unfolding table_ok_def by blast+

lemma table_okI:
  assumes "\<And>f. fresh s \<le> f \<Longrightarrow> status s f = None"
    and "\<And>k f. slot s k = Some f \<Longrightarrow> status s f = Some pending"
    and "\<And>k f. slot s k = Some f \<Longrightarrow> \<exists>t. loads s t k f"
    and "\<And>t k f. loads s t k f \<Longrightarrow> slot s k = Some f"
    and "\<And>t t' k k' f. loads s t k f \<Longrightarrow> loads s t' k' f \<Longrightarrow> t = t' \<and> k = k'"
    and "\<And>t k f. waits s t k f \<Longrightarrow> status s f \<noteq> None"
    and "\<And>t k f. waits s t k f \<Longrightarrow> status s f = Some pending \<Longrightarrow> slot s k = Some f"
  shows "table_ok s"
  using assms unfolding table_ok_def by blast

lemma table_ok_init: "table_ok init"
  by (rule table_okI) (simp_all add: init_empty)

lemma table_ok_quiet:
  assumes inv: "table_ok s"
    and other: "\<And>t'. t' \<noteq> t \<Longrightarrow> loads s' t' = loads s t' \<and> waits s' t' = waits s t'"
    and same: "slot s' = slot s" "status s' = status s" "fresh s' = fresh s" "loads s' t = loads s t"
    and wait: "\<And>k f. waits s' t k f \<Longrightarrow> waits s t k f \<or> slot s k = Some f"
  shows "table_ok s'"
proof -
  note D = table_okD [OF inv]
  have loads: "loads s' = loads s" using other same(4) by (intro ext) metis
  have w: "waits s t' k f \<or> slot s k = Some f" if "waits s' t' k f" for t' k f
    using that wait other by metis
  show ?thesis
  proof (rule table_okI, unfold loads same)
    show "status s f \<noteq> None" if "waits s' t' k f" for t' k f
      using w [OF that] D(2,6) by (metis option.distinct(1))
    show "slot s k = Some f" if "waits s' t' k f" "status s f = Some pending" for t' k f
      using w [OF that(1)] D(7) that(2) by blast
  qed (fact D)+
qed

lemma table_ok_claim:
  assumes inv: "table_ok s"
    and other: "\<And>t'. t' \<noteq> t \<Longrightarrow> loads s' t' = loads s t' \<and> waits s' t' = waits s t'"
    and free: "slot s k = None" and s': "slot s' = (slot s)(k \<mapsto> fresh s)"
      "status s' = (status s)(fresh s \<mapsto> pending)" "fresh s' = Suc (fresh s)"
    and idle: "\<And>k f. \<not> loads s t k f"
    and own: "\<And>k' f'. loads s' t k' f' \<longleftrightarrow> k' = k \<and> f' = fresh s"
    and nowait: "\<And>k f. \<not> waits s' t k f"
  shows "table_ok s'"
proof -
  note D = table_okD [OF inv]
  have new: "status s (fresh s) = None" using D(1) by simp
  have old: "f \<noteq> fresh s" if "slot s k' = Some f" for k' f using D(2) [OF that] new by auto
  have w: "waits s t' k' f" if "waits s' t' k' f" for t' k' f
    using that nowait other by metis
  have l: "loads s t' k' f \<and> t' \<noteq> t \<or> t' = t \<and> k' = k \<and> f = fresh s" if "loads s' t' k' f" for t' k' f
    using that own other by metis
  show ?thesis
  proof (rule table_okI)
    fix f assume "fresh s' \<le> f"
    then show "status s' f = None" using D(1) by (simp add: s')
  next
    fix k' f assume *: "slot s' k' = Some f"
    then show "status s' f = Some pending" using D(2) by (cases "k' = k") (auto simp: s')
    show "\<exists>t. loads s' t k' f"
    proof (cases "k' = k")
      case True then show ?thesis using * own by (auto simp: s')
    next
      case False
      then obtain t' where t': "loads s t' k' f" using * D(3) by (auto simp: s')
      then have "t' \<noteq> t" using idle by blast
      then show ?thesis using t' other by metis
    qed
  next
    fix t' k' f assume "loads s' t' k' f"
    then show "slot s' k' = Some f" using l D(4) free by (fastforce simp: s')
  next
    fix t1 t2 k1 k2 f assume "loads s' t1 k1 f" "loads s' t2 k2 f"
    then show "t1 = t2 \<and> k1 = k2" using l D(4,5) old by metis
  next
    fix t' k' f assume *: "waits s' t' k' f"
    show "status s' f \<noteq> None" using D(6) [OF w [OF *]] by (simp add: s')
    assume "status s' f = Some pending"
    moreover have "f \<noteq> fresh s" using D(6) [OF w [OF *]] new by auto
    ultimately have "slot s k' = Some f" using D(7) [OF w [OF *]] by (simp add: s')
    then show "slot s' k' = Some f" using free by (auto simp: s')
  qed
qed

lemma table_ok_settle:
  assumes inv: "table_ok s"
    and other: "\<And>t'. t' \<noteq> t \<Longrightarrow> loads s' t' = loads s t' \<and> waits s' t' = waits s t'"
    and own: "loads s t k f" and s': "slot s' = (slot s)(k := None)" "status s' = (status s)(f \<mapsto> out)"
      "fresh s' = fresh s" and out: "out \<noteq> pending"
    and gone: "\<And>k f. \<not> loads s' t k f" "\<And>k f. \<not> waits s' t k f"
  shows "table_ok s'"
proof -
  note D = table_okD [OF inv]
  note mine = D(4) [OF own]
  have pend: "status s f = Some pending" using D(2) [OF mine] .
  have own_key: "k' = k" if "slot s k' = Some f" for k'
    using D(3) [OF that] D(5) [OF own] by blast
  have w: "waits s t' k' f'" if "waits s' t' k' f'" for t' k' f'
    using that gone other by metis
  have l: "loads s t' k' f' \<and> t' \<noteq> t \<and> k' \<noteq> k" if "loads s' t' k' f'" for t' k' f'
  proof -
    from that have 1: "loads s t' k' f'" "t' \<noteq> t" using gone other by metis+
    then have "f' \<noteq> f" using D(5) [OF own] by blast
    then show ?thesis using D(4) [OF 1(1)] mine 1 by auto
  qed
  show ?thesis
  proof (rule table_okI)
    fix f' assume "fresh s' \<le> f'"
    then have "status s f' = None" using D(1) s'(3) by simp
    then show "status s' f' = None" using pend by (cases "f' = f") (simp_all add: s')
  next
    fix k' f' assume "slot s' k' = Some f'"
    then have *: "slot s k' = Some f'" "k' \<noteq> k" by (simp_all add: s' split: if_splits)
    then have "f' \<noteq> f" using own_key by blast
    then show "status s' f' = Some pending" using D(2) [OF *(1)] by (simp add: s')
    obtain t' where "loads s t' k' f'" using D(3) * by blast
    moreover from this have "t' \<noteq> t" using loads_one [OF own] \<open>f' \<noteq> f\<close> by blast
    ultimately show "\<exists>t. loads s' t k' f'" using other by metis
  next
    fix t' k' f' assume "loads s' t' k' f'"
    from l [OF this] show "slot s' k' = Some f'" using D(4) [of t' k' f'] by (simp add: s')
  next
    fix t1 t2 k1 k2 f' assume "loads s' t1 k1 f'" "loads s' t2 k2 f'"
    then show "t1 = t2 \<and> k1 = k2" using l D(5) by metis
  next
    fix t' k' f' assume *: "waits s' t' k' f'"
    show "status s' f' \<noteq> None" using D(6) [OF w [OF *]] by (simp add: s')
    assume "status s' f' = Some pending"
    then have "f' \<noteq> f" "status s f' = Some pending" using out by (cases "f' = f"; simp add: s')+
    then show "slot s' k' = Some f'" using D(7) [OF w [OF *]] mine by (cases "k' = k") (simp_all add: s')
  qed
qed

lemma step_table_ok:
  assumes "step s s'" and inv: "table_ok s"
  shows "table_ok s'"
proof -
  note D = table_okD [OF inv]
  obtain t where other: "\<And>t'. t' \<noteq> t \<Longrightarrow> loads s' t' = loads s t' \<and> waits s' t' = waits s t'"
    and cases: "(slot s' = slot s \<and> status s' = status s \<and> fresh s' = fresh s \<and>
        loads s' t = loads s t \<and>
        (\<forall>k f. waits s' t k f \<longrightarrow> waits s t k f \<or> slot s k = Some f))
      \<or> (\<exists>k. slot s k = None \<and> slot s' = (slot s)(k \<mapsto> fresh s) \<and>
        status s' = (status s)(fresh s \<mapsto> pending) \<and> fresh s' = Suc (fresh s) \<and>
        (\<forall>k' f'. \<not> loads s t k' f') \<and>
        (\<forall>k' f'. loads s' t k' f' \<longleftrightarrow> k' = k \<and> f' = fresh s) \<and>
        (\<forall>k' f'. \<not> waits s' t k' f'))
      \<or> (\<exists>k f out. loads s t k f \<and>
        (slot s k = Some f \<longrightarrow> status s f = Some pending \<longrightarrow>
           slot s' = (slot s)(k := None) \<and> status s' = (status s)(f \<mapsto> out) \<and> out \<noteq> pending \<and>
           fresh s' = fresh s) \<and>
        (\<forall>k' f'. \<not> loads s' t k' f') \<and> (\<forall>k' f'. \<not> waits s' t k' f'))"
    (is "?quiet \<or> ?claim \<or> ?settle")
    using step_cases [OF assms(1)] unfolding flight_step_def by blast
  from cases show ?thesis
  proof (elim disjE)
    assume ?quiet
    then show ?thesis using table_ok_quiet [OF inv other] by blast
  next
    assume ?claim
    then show ?thesis using table_ok_claim [OF inv other] by blast
  next
    assume ?settle
    then obtain k f out where own: "loads s t k f" and gone: "\<And>k' f'. \<not> loads s' t k' f'"
      "\<And>k' f'. \<not> waits s' t k' f'" and eff: "slot s k = Some f \<longrightarrow> status s f = Some pending \<longrightarrow>
           slot s' = (slot s)(k := None) \<and> status s' = (status s)(f \<mapsto> out) \<and> out \<noteq> pending \<and>
           fresh s' = fresh s" by blast
    have "slot s' = (slot s)(k := None)" "status s' = (status s)(f \<mapsto> out)" "fresh s' = fresh s"
      "out \<noteq> pending"
      using eff D(4) [OF own] D(2) [OF D(4) [OF own]] by simp_all
    then show ?thesis using table_ok_settle [OF inv other own] gone by blast
  qed
qed

lemma reachable_table_ok: "step\<^sup>*\<^sup>* init s \<Longrightarrow> table_ok s"
  by (induction rule: rtranclp_induct) (auto intro: table_ok_init step_table_ok)

lemma one_loader:
  assumes "step\<^sup>*\<^sup>* init s" and "loads s t k f" and "loads s t' k f'"
  shows "t = t' \<and> f = f'"
proof -
  note D = table_okD [OF reachable_table_ok [OF assms(1)]]
  have "f = f'" using D(4) [OF assms(2)] D(4) [OF assms(3)] by simp
  then show ?thesis using D(5) [OF assms(2)] assms(3) by blast
qed

lemma owner_pending:
  assumes "step\<^sup>*\<^sup>* init s" and "loads s t k f"
  shows "slot s k = Some f \<and> status s f = Some pending"
  using table_okD(2,4) [OF reachable_table_ok [OF assms(1)]] assms(2) by blast

lemma waiter_served:
  assumes "step\<^sup>*\<^sup>* init s" and "waits s t k f"
  shows "(\<exists>out. status s f = Some out \<and> out \<noteq> pending) \<or> (\<exists>t'. loads s t' k f)"
  using table_okD(3,6,7) [OF reachable_table_ok [OF assms(1)]] assms(2) by blast

end

end
