(* ===== verification/CacheRun.thy ===== *)
theory CacheRun
  imports ConnCache SingleFlight
begin

text \<open>
  Concurrent calls of \<open>ConnectionCache.get_or_load\<close>: a step relation whose steps are the
  uninterrupted segments of the calls, the outcomes of their loaders, the cancellation of a
  waiter, the other cache operations and the passing of time.  Any number of tasks, in any
  interleaving.
\<close>

datatype ctask =
    Loading load_call ckey nat
  | Waiting load_call ckey nat
  | Bypassing load_call
  | Finished "pyval result"

record cache_sys =
  cs_clock :: time
  cs_cache :: conn_cache
  cs_tasks :: "nat \<Rightarrow> ctask option"

definition init_sys :: cache_sys where
  "init_sys = \<lparr>cs_clock = 0, cs_cache = empty_cache, cs_tasks = (\<lambda>_. None)\<rparr>"

text \<open>The first segment of a call: it is answered, or it is now a loading, waiting or bypassing task.\<close>

definition begin_task :: "host \<Rightarrow> time \<Rightarrow> conn_cache \<Rightarrow> load_call \<Rightarrow> ctask \<times> conn_cache" where
  "begin_task h now c call =
     (case load_begin h now c call of
        Inl e \<Rightarrow> (Finished (Inl e), c)
      | Inr (Hit v, c') \<Rightarrow> (Finished (Inr v), c')
      | Inr (Uncached, c') \<Rightarrow> (Bypassing call, c')
      | Inr (Owns k f, c') \<Rightarrow> (Loading call k f, c')
      | Inr (Waits k f, c') \<Rightarrow> (Waiting call k f, c'))"

definition set_task :: "cache_sys \<Rightarrow> nat \<Rightarrow> ctask \<Rightarrow> conn_cache \<Rightarrow> cache_sys" where
  "set_task s t task c = s\<lparr>cs_cache := c, cs_tasks := (cs_tasks s)(t \<mapsto> task)\<rparr>"

inductive cache_step :: "host \<Rightarrow> cache_sys \<Rightarrow> cache_sys \<Rightarrow> bool" for h where
  tick: "cs_clock s \<le> later \<Longrightarrow> cache_step h s (s\<lparr>cs_clock := later\<rparr>)"
| call: "cs_tasks s t = None \<Longrightarrow> begin_task h (cs_clock s) (cs_cache s) call = (task, c) \<Longrightarrow>
     cache_step h s (set_task s t task c)"
| loaded: "cs_tasks s t = Some (Loading call k f) \<Longrightarrow>
     load_finish h (cs_clock s) (cs_cache s) call k f outcome = (r, c) \<Longrightarrow>
     cache_step h s (set_task s t (Finished r) c)"
| woken: "cs_tasks s t = Some (Waiting call k f) \<Longrightarrow> load_wake (cs_cache s) f = Resumes r \<Longrightarrow>
     cache_step h s (set_task s t (Finished r) (cs_cache s))"
| woken_bypass: "cs_tasks s t = Some (Waiting call k f) \<Longrightarrow>
     load_wake (cs_cache s) f = LoadsItself \<Longrightarrow>
     cache_step h s (set_task s t (Bypassing call) (cs_cache s))"
| waiter_cancelled: "cs_tasks s t = Some (Waiting call k f) \<Longrightarrow>
     cache_step h s (set_task s t (Finished (Inl (Exc CancelledError []))) (cs_cache s))"
| bypassed: "cs_tasks s t = Some (Bypassing call) \<Longrightarrow>
     cache_step h s (set_task s t (Finished outcome) (cs_cache s))"
| get: "cache_get h (cs_clock s) (cs_cache s) cid tool args = Inr (r, c) \<Longrightarrow>
     cache_step h s (s\<lparr>cs_cache := c\<rparr>)"
| put: "cache_put h (cs_clock s) (cs_cache s) cid tool v ttl args = Inr (b, c) \<Longrightarrow>
     cache_step h s (s\<lparr>cs_cache := c\<rparr>)"
| invalidate: "cache_invalidate (cs_cache s) cid = Inr (n, c) \<Longrightarrow>
     cache_step h s (s\<lparr>cs_cache := c\<rparr>)"

abbreviation cache_reachable :: "host \<Rightarrow> cache_sys \<Rightarrow> bool" where
  "cache_reachable h s \<equiv> (cache_step h)\<^sup>*\<^sup>* init_sys s"

section \<open>Tasks and the retained values\<close>

definition loading :: "cache_sys \<Rightarrow> nat \<Rightarrow> ckey \<Rightarrow> nat \<Rightarrow> bool" where
  "loading s t k f \<longleftrightarrow> (\<exists>call. cs_tasks s t = Some (Loading call k f))"

definition waiting :: "cache_sys \<Rightarrow> nat \<Rightarrow> ckey \<Rightarrow> nat \<Rightarrow> bool" where
  "waiting s t k f \<longleftrightarrow> (\<exists>call. cs_tasks s t = Some (Waiting call k f))"

definition retained_inv :: "cache_sys \<Rightarrow> bool" where
  "retained_inv s \<longleftrightarrow> cache_inv (cs_cache s) \<and>
     (\<forall>f v. futures (cs_cache s) f = Some (CCached v) \<longrightarrow> retained_ok 0 v)"


section \<open>What the operations do to the table\<close>

definition same_table :: "conn_cache \<Rightarrow> conn_cache \<Rightarrow> bool" where
  "same_table c c' \<longleftrightarrow> inflight c' = inflight c \<and> futures c' = futures c \<and>
     next_future c' = next_future c"

lemma same_table_refl [simp]: "same_table c c"
  by (simp add: same_table_def)

lemma get_entry_table: "get_entry now c k = (r, c') \<Longrightarrow> same_table c c'"
  by (auto simp: get_entry_def same_table_def split: option.splits if_splits)

lemma cache_get_table: "cache_get h now c cid tool args = Inr (r, c') \<Longrightarrow> same_table c c'"
  by (erule cache_get_cases) (simp, metis get_entry_table)

lemma cache_put_table: "cache_put h now c cid tool v ttl args = Inr (b, c') \<Longrightarrow> same_table c c'"
  by (erule cache_put_cases) (auto simp: same_table_def put_entry_def)

lemma cache_invalidate_table: "cache_invalidate c cid = Inr (n, c') \<Longrightarrow> same_table c c'"
  by (auto simp: cache_invalidate_def same_table_def drop_connection_def)

lemma cache_invalidate_inv: "cache_inv c \<Longrightarrow> cache_invalidate c cid = Inr (n, c') \<Longrightarrow> cache_inv c'"
  by (auto simp: cache_invalidate_def cache_inv_drop)

text \<open>The part of \<open>load_begin\<close> after the key has been computed.\<close>

definition begin_keyed :: "conn_cache \<Rightarrow> ckey \<Rightarrow> pyval option \<Rightarrow> first_step \<times> conn_cache" where
  "begin_keyed c k r =
     (case r of Some v \<Rightarrow> (Hit v, c)
      | None \<Rightarrow>
          (case map_of (inflight c) k of
             Some f \<Rightarrow> (Waits k f, c)
           | None \<Rightarrow>
               (let f = next_future c in
                (Owns k f, c\<lparr>inflight := AList.update k f (inflight c),
                             futures := (futures c)(f \<mapsto> CPending), next_future := Suc f\<rparr>))))"

lemma load_begin_keyed:
  assumes "load_begin h now c call = Inr (st, c')"
  obtains (uncached) "st = Uncached" "c' = c"
  | (keyed) k r c1 where "get_entry now c k = (r, c1)" "(st, c') = begin_keyed c1 k r"
      "lc_callable call" "lc_mode call \<noteq> ''direct''" "lc_mode call \<in> {''stored'', ''hybrid''}"
      "cache_key h (lc_connection call) (lc_tool call) (lc_args call) = Inr (Some k)"
proof -
  show thesis
  proof (cases "lc_callable call \<and> lc_mode call \<noteq> ''direct'' \<and> lc_mode call \<in> {''stored'', ''hybrid''}")
    case False
    with assms uncached show thesis by (auto simp: load_begin_def split: if_splits)
  next
    case True
    with assms obtain key where
      key: "cache_key h (lc_connection call) (lc_tool call) (lc_args call) = Inr key"
      by (cases "cache_key h (lc_connection call) (lc_tool call) (lc_args call)")
        (auto simp: load_begin_def)
    show thesis
    proof (cases key)
      case None
      with assms key True uncached show thesis by (auto simp: load_begin_def)
    next
      case (Some k)
      obtain r c1 where g: "get_entry now c k = (r, c1)" by (cases "get_entry now c k")
      have "(st, c') = begin_keyed c1 k r"
        using assms key True Some g
        by (auto simp: load_begin_def begin_keyed_def Let_def split: option.splits)
      with keyed [OF g] True Some key show thesis by blast
    qed
  qed
qed

lemma load_begin_effect:
  assumes "load_begin h now c call = Inr (st, c')"
  shows "case st of
      Owns k f \<Rightarrow> map_of (inflight c) k = None \<and> f = next_future c \<and>
        inflight c' = AList.update k f (inflight c) \<and>
        futures c' = (futures c)(f \<mapsto> CPending) \<and> next_future c' = Suc f
    | Waits k f \<Rightarrow> same_table c c' \<and> map_of (inflight c) k = Some f
    | _ \<Rightarrow> same_table c c'"
  using assms
proof (cases rule: load_begin_keyed)
  case (keyed k r c1)
  from get_entry_table [OF keyed(1)] keyed(2) show ?thesis
    by (auto simp: begin_keyed_def same_table_def Let_def split: option.splits)
qed simp

lemma load_begin_inv:
  assumes "load_begin h now c call = Inr (st, c')" and inv: "cache_inv c"
  shows "cache_inv c' \<and> (\<forall>v. st = Hit v \<longrightarrow> retained_ok 0 v)"
  using assms(1)
proof (cases rule: load_begin_keyed)
  case (keyed k r c1)
  have "cache_inv c1" using cache_inv_get [OF inv, of now k] keyed(1) by simp
  moreover have "retained_ok 0 v" if "r = Some v" for v
    using keyed(1) that inv
    by (auto simp: get_entry_def cache_inv_def dest!: map_of_SomeD split: option.splits if_splits)
  ultimately show ?thesis
    using keyed(2) by (auto simp: begin_keyed_def Let_def cache_inv_def split: option.splits)
qed (use inv in simp)

lemma settle_release:
  assumes "futures c f = Some CPending" and "map_of (inflight c) k = Some f"
  shows "release_slot (settle c f out) k f =
           c\<lparr>futures := (futures c)(f \<mapsto> out), inflight := AList.delete k (inflight c)\<rparr>"
  using assms by (simp add: settle_def release_slot_def)

text \<open>Whatever the loader's outcome, \<open>load_finish\<close> settles the future and frees the slot.\<close>

lemma load_finish_shape:
  assumes "load_finish h now c call k f outcome = (r, c')"
  obtains c1 out where "c' = release_slot (settle c1 f out) k f" "same_table c c1" "out \<noteq> CPending"
    "cache_inv c \<Longrightarrow> cache_inv c1" "\<And>v. cache_inv c \<Longrightarrow> out = CCached v \<Longrightarrow> retained_ok 0 v"
proof (cases outcome)
  case (Inl e)
  then show ?thesis
    using assms that [of c CFailed] that [of c CCancelled]
    by (auto simp: load_finish_def split: if_splits)
next
  case (Inr v)
  let ?put = "cache_put h now c (lc_connection call) (lc_tool call) v (lc_ttl call) (lc_args call)"
  show ?thesis
  proof (cases ?put)
    case (Inl e)
    then show ?thesis using assms Inr that [of c CFailed] by (simp add: load_finish_def)
  next
    case Inr1: (Inr p)
    obtain b c1 where p: "p = (b, c1)" by (cases p)
    note put = Inr1 [unfolded p]
    note t1 = cache_put_table [OF put] and i1 = cache_put_inv [OF _ put]
    show ?thesis
    proof (cases b)
      case False
      then show ?thesis using assms Inr put i1 that [OF _ t1, of CBypass]
        by (simp add: load_finish_def)
    next
      case True
      let ?get = "cache_get h now c1 (lc_connection call) (lc_tool call) (lc_args call)"
      show ?thesis
      proof (cases ?get)
        case (Inl e)
        then show ?thesis using assms Inr put True i1 that [OF _ t1, of CFailed]
          by (simp add: load_finish_def)
      next
        case Inr2: (Inr q)
        obtain w c2 where q: "q = (w, c2)" by (cases q)
        let ?out = "CCached (case w of None \<Rightarrow> PNone | Some w \<Rightarrow> w)"
        have c': "c' = release_slot (settle c2 f ?out) k f"
          using assms Inr put True Inr2 q by (simp add: load_finish_def)
        have t2: "same_table c c2"
          using t1 cache_get_table [OF Inr2 [unfolded q]] by (simp add: same_table_def)
        have i2: "cache_inv c \<Longrightarrow> cache_inv c2" using cache_get_inv [OF _ Inr2 [unfolded q]] i1 by blast
        have "cache_inv c \<Longrightarrow> retained_ok 0 (case w of None \<Rightarrow> PNone | Some w \<Rightarrow> w)"
          using cache_get_retained [OF i1] Inr2 q by (cases w) (simp_all add: retained_ok.simps)
        then show ?thesis using i2 by (intro that [OF c' t2]) auto
      qed
    qed
  qed
qed

lemma load_finish_effect:
  assumes fin: "load_finish h now c call k f outcome = (r, c')"
    and pend: "futures c f = Some CPending" and slot: "map_of (inflight c) k = Some f"
  obtains out where "out \<noteq> CPending" "map_of (inflight c') = (map_of (inflight c))(k := None)"
    "futures c' = (futures c)(f \<mapsto> out)" "next_future c' = next_future c"
    "cache_inv c \<Longrightarrow> cache_inv c'" "\<And>v. cache_inv c \<Longrightarrow> out = CCached v \<Longrightarrow> retained_ok 0 v"
  using fin
proof (cases rule: load_finish_shape)
  case (1 c1 out)
  then have c': "c' = c1\<lparr>futures := (futures c1)(f \<mapsto> out), inflight := AList.delete k (inflight c1)\<rparr>"
    using settle_release [of c1 f k out] pend slot by (simp add: same_table_def)
  show thesis
    by (rule that [of out]) (use c' 1 in \<open>simp_all add: same_table_def cache_inv_def\<close>)
qed

section \<open>The steps obey the single-flight protocol\<close>

lemma loading_set_task:
  "loading (set_task s t task c) t' = (if t' = t then (\<lambda>k f. \<exists>call. task = Loading call k f) else loading s t')"
  by (auto simp: loading_def set_task_def fun_eq_iff)

lemma waiting_set_task:
  "waiting (set_task s t task c) t' = (if t' = t then (\<lambda>k f. \<exists>call. task = Waiting call k f) else waiting s t')"
  by (auto simp: waiting_def set_task_def fun_eq_iff)

lemma cs_cache_set_task [simp]: "cs_cache (set_task s t task c) = c"
  by (simp add: set_task_def)

lemma same_table_eqs:
  "same_table c c' \<Longrightarrow> inflight c' = inflight c"
  "same_table c c' \<Longrightarrow> futures c' = futures c"
  "same_table c c' \<Longrightarrow> next_future c' = next_future c"
  by (simp_all add: same_table_def)

lemma begin_task_cases:
  assumes "begin_task h now c call = (task, c')"
  obtains (quiet) "same_table c c'" "\<And>call k f. task \<noteq> Loading call k f" "\<And>call k f. task \<noteq> Waiting call k f"
  | (wait) k f where "same_table c c'" "task = Waiting call k f" "map_of (inflight c) k = Some f"
  | (claim) k where "task = Loading call k (next_future c)" "map_of (inflight c) k = None"
      "map_of (inflight c') = (map_of (inflight c))(k \<mapsto> next_future c)"
      "futures c' = (futures c)(next_future c \<mapsto> CPending)" "next_future c' = Suc (next_future c)"
proof (cases "load_begin h now c call")
  case (Inl e)
  with assms quiet show thesis by (auto simp: begin_task_def)
next
  case (Inr p)
  obtain st c1 where p: "p = (st, c1)" by (cases p)
  note eff = load_begin_effect [OF Inr [unfolded p]]
  show thesis
    using assms Inr p eff quiet wait claim by (cases st) (auto simp: begin_task_def)
qed

abbreviation cache_flight :: "cache_sys \<Rightarrow> cache_sys \<Rightarrow> bool" where
  "cache_flight \<equiv> flight_step (\<lambda>s. map_of (inflight (cs_cache s))) (\<lambda>s. futures (cs_cache s))
     (\<lambda>s. next_future (cs_cache s)) loading waiting CPending"

lemma quiet_update:
  assumes "same_table (cs_cache s) c"
  shows "cache_flight s (s\<lparr>cs_cache := c\<rparr>)"
  by (rule flight_quiet [where t = 0]) (use same_table_eqs [OF assms] in \<open>simp_all add: loading_def waiting_def fun_eq_iff\<close>)

text \<open>A task that was not loading gives way to one that neither loads nor begins to wait.\<close>

lemma quiet_task:
  assumes "same_table (cs_cache s) c" and "\<And>k f. \<not> loading s t k f"
    and "\<And>call k f. task \<noteq> Loading call k f"
    and "\<And>call k f. task = Waiting call k f \<Longrightarrow> map_of (inflight (cs_cache s)) k = Some f"
  shows "cache_flight s (set_task s t task c)"
  by (rule flight_quiet [where t = t])
    (use same_table_eqs [OF assms(1)] assms(2-4) in
      \<open>auto simp: loading_set_task waiting_set_task fun_eq_iff\<close>)

lemma cache_step_protocol:
  assumes "cache_step h s s'"
  shows "cache_flight s s'"
  using assms
proof (induction rule: cache_step.induct)
  case (tick s later)
  show ?case by (rule flight_quiet [where t = 0]) (simp_all add: loading_def waiting_def fun_eq_iff)
next
  case (call s t call task c)
  have idle: "\<not> loading s t k f" for k f using call(1) by (simp add: loading_def)
  from call(2) show ?case
  proof (cases rule: begin_task_cases)
    case quiet
    then show ?thesis by (intro quiet_task) (use idle in auto)
  next
    case (wait k f)
    then show ?thesis by (intro quiet_task) (use idle in auto)
  next
    case (claim k)
    then show ?thesis
      by (intro flight_claim [where t = t and k = k])
        (use idle in \<open>auto simp: loading_set_task waiting_set_task\<close>)
  qed
next
  case (loaded s t call k f outcome r c)
  have "loading s t k f" using loaded(1) by (auto simp: loading_def)
  then show ?case
  proof (rule flight_settle [where t = t and k = k and f = f, rotated], goal_cases)
    case 1
    from load_finish_effect [OF loaded(2) 1(2,1)] show ?case by (metis cs_cache_set_task)
  qed (simp_all add: loading_set_task waiting_set_task)
next
  case (get s cid tool args r c)
  show ?case by (rule quiet_update [OF cache_get_table [OF get]])
next
  case (put s cid tool v ttl args b c)
  show ?case by (rule quiet_update [OF cache_put_table [OF put]])
next
  case (invalidate s cid n c)
  show ?case by (rule quiet_update [OF cache_invalidate_table [OF invalidate]])
qed (rule quiet_task; simp add: loading_def)+

interpretation cf: single_flight "cache_step h" init_sys "\<lambda>s. map_of (inflight (cs_cache s))"
    "\<lambda>s. futures (cs_cache s)" "\<lambda>s. next_future (cs_cache s)" loading waiting CPending
  for h
proof (unfold_locales, goal_cases)
  case (6 s s')
  then show ?case by (rule cache_step_protocol)
qed (auto simp: init_sys_def empty_cache_def loading_def waiting_def)

section \<open>What is retained along a run\<close>

lemma begin_task_retained:
  assumes "retained_inv s" and "begin_task h (cs_clock s) (cs_cache s) call = (task, c)"
  shows "retained_inv (set_task s t task c)"
proof (cases "load_begin h (cs_clock s) (cs_cache s) call")
  case (Inl e)
  then show ?thesis using assms by (auto simp: begin_task_def retained_inv_def)
next
  case (Inr p)
  obtain st c' where p: "p = (st, c')" by (cases p)
  note eff = load_begin_effect [OF Inr [unfolded p]]
  have "cache_inv c'" using load_begin_inv [OF Inr [unfolded p]] assms(1) by (simp add: retained_inv_def)
  then show ?thesis
    using assms Inr p eff
    by (cases st) (auto simp: begin_task_def retained_inv_def same_table_def)
qed

lemma retained_inv_cache:
  "retained_inv s \<Longrightarrow> same_table (cs_cache s) c \<Longrightarrow> cache_inv c \<Longrightarrow> retained_inv (s\<lparr>cs_cache := c\<rparr>)"
  using same_table_eqs(2) by (auto simp: retained_inv_def)

lemma retained_inv_finish:
  assumes reach: "cache_reachable h s" and inv: "retained_inv s"
    and own: "cs_tasks s t = Some (Loading call k f)"
    and fin: "load_finish h (cs_clock s) (cs_cache s) call k f outcome = (r, c)"
  shows "retained_inv (set_task s t (Finished r) c)"
proof -
  have "loading s t k f" using own by (auto simp: loading_def)
  then have "map_of (inflight (cs_cache s)) k = Some f" "futures (cs_cache s) f = Some CPending"
    using cf.owner_pending [OF reach] by blast+
  then obtain out where "futures c = (futures (cs_cache s))(f \<mapsto> out)"
    "cache_inv (cs_cache s) \<Longrightarrow> cache_inv c"
    "\<And>v. cache_inv (cs_cache s) \<Longrightarrow> out = CCached v \<Longrightarrow> retained_ok 0 v"
    using load_finish_effect [OF fin] by metis
  then show ?thesis using inv by (auto simp: retained_inv_def)
qed

lemma cache_step_retained:
  assumes "cache_step h s s'" and "cache_reachable h s" and "retained_inv s"
  shows "retained_inv s'"
  using assms
proof (induction rule: cache_step.induct)
  case (loaded s t call k f outcome r c)
  then show ?case by (blast intro: retained_inv_finish)
next
  case (get s cid tool args r c)
  have "cache_inv (cs_cache s)" using get.prems by (simp add: retained_inv_def)
  from retained_inv_cache [OF get.prems(2) cache_get_table [OF get.hyps] cache_get_inv [OF this get.hyps]]
  show ?case .
next
  case (put s cid tool v ttl args b c)
  have "cache_inv (cs_cache s)" using put.prems by (simp add: retained_inv_def)
  from retained_inv_cache [OF put.prems(2) cache_put_table [OF put.hyps] cache_put_inv [OF this put.hyps]]
  show ?case .
next
  case (invalidate s cid n c)
  have "cache_inv (cs_cache s)" using invalidate.prems by (simp add: retained_inv_def)
  from retained_inv_cache [OF invalidate.prems(2) cache_invalidate_table [OF invalidate.hyps] cache_invalidate_inv [OF this invalidate.hyps]]
  show ?case .
next
  case (call s t call task c)
  then show ?case by (blast intro: begin_task_retained)
qed (simp_all add: retained_inv_def)

lemma reachable_retained: "cache_reachable h s \<Longrightarrow> retained_inv s"
proof (induction rule: rtranclp_induct)
  case base
  show ?case by (simp add: retained_inv_def init_sys_def empty_cache_def cache_inv_def)
next
  case (step s s')
  then show ?case by (blast intro: cache_step_retained)
qed

section \<open>Properties of concurrent calls\<close>

text \<open>single flight.  In every reachable state of any number of interleaved calls, at most one
  task is running the loader of a given cache key.\<close>

theorem cache_single_flight:
  assumes "cache_reachable h s" and "loading s t k f" and "loading s t' k f'"
  shows "t = t' \<and> f = f'"
  using assms by (rule cf.one_loader)

text \<open>C5: no lost wake-up.  A waiting call is never stranded: either its future is settled, so it can
  resume now, or one task is still loading that very future, and whatever the outcome of its loader
  (a value, an exception, a cancellation) the future is settled and the slot freed by that step.\<close>

theorem cache_no_lost_wakeup:
  assumes "cache_reachable h s" and "waiting s t k f"
  shows "load_wake (cs_cache s) f \<noteq> StillWaiting \<or>
         (\<exists>t' call. cs_tasks s t' = Some (Loading call k f) \<and>
            (\<forall>outcome r c. load_finish h (cs_clock s) (cs_cache s) call k f outcome = (r, c) \<longrightarrow>
               load_wake c f \<noteq> StillWaiting \<and> map_of (inflight c) k = None))"
  using cf.waiter_served [OF assms]
proof
  assume "\<exists>out. futures (cs_cache s) f = Some out \<and> out \<noteq> CPending"
  then obtain out where "futures (cs_cache s) f = Some out" "out \<noteq> CPending" by blast
  then show ?thesis by (cases out) (simp_all add: load_wake_def)
next
  assume "\<exists>t'. loading s t' k f"
  then obtain t' call where own: "cs_tasks s t' = Some (Loading call k f)" by (auto simp: loading_def)
  then have "loading s t' k f" by (auto simp: loading_def)
  note now = cf.owner_pending [OF assms(1) this]
  have "load_wake c f \<noteq> StillWaiting \<and> map_of (inflight c) k = None"
    if "load_finish h (cs_clock s) (cs_cache s) call k f outcome = (r, c)" for outcome r c
    using that now [THEN conjunct2] now [THEN conjunct1]
  proof (cases rule: load_finish_effect)
    case (1 out)
    then show ?thesis by (cases out) (simp_all add: load_wake_def)
  qed
  with own show ?thesis by blast
qed

text \<open>C11: nothing sensitive or unbounded is ever retained.  In every reachable state each stored value
  and each value handed to waiting calls is within the retention bounds: depth at most 8, at most 200
  members, strings of at most 2048 characters, finite numbers, no binary data, no key that names a
  credential or raw body, and no credential marker in any string.\<close>

theorem cache_retains_only_safe:
  assumes "cache_reachable h s"
  shows "(\<forall>(k, v, e)\<in>set (entries (cs_cache s)). retained_ok 0 v) \<and>
         (\<forall>f v. futures (cs_cache s) f = Some (CCached v) \<longrightarrow> retained_ok 0 v)"
  using reachable_retained [OF assms] by (simp add: retained_inv_def cache_inv_def)

section \<open>A concrete run\<close>

definition demo_call :: load_call where
  "demo_call = \<lparr>lc_connection = PStr ''c1'', lc_tool = PStr ''t1'', lc_args = None,
     lc_callable = True, lc_ttl = PInt 60, lc_mode = ''hybrid''\<rparr>"

abbreviation demo_key :: ckey where
  "demo_key \<equiv> CKey ''c1'' ''t1'' ''{}''"

text \<open>Two calls of the same tool: the first loads, the second waits for it.\<close>

definition loading_cache :: conn_cache where
  "loading_cache = empty_cache\<lparr>inflight := [(demo_key, 0)], futures := [0 \<mapsto> CPending],
     next_future := 1\<rparr>"

definition loading_sys :: cache_sys where
  "loading_sys = set_task init_sys 0 (Loading demo_call demo_key 0) loading_cache"

definition waiting_sys :: cache_sys where
  "waiting_sys = set_task loading_sys 1 (Waiting demo_call demo_key 0) loading_cache"

lemma demo_key_ok: "cache_key demo_host (PStr ''c1'') (PStr ''t1'') None = Inr (Some demo_key)"
  by code_simp

lemma demo_begin:
  "begin_task demo_host 0 empty_cache demo_call = (Loading demo_call demo_key 0, loading_cache)"
  by (simp add: begin_task_def load_begin_def demo_call_def demo_key_ok get_entry_def empty_cache_def
      loading_cache_def Let_def)

lemma demo_begin_second:
  "begin_task demo_host 0 loading_cache demo_call = (Waiting demo_call demo_key 0, loading_cache)"
  by (simp add: begin_task_def load_begin_def demo_call_def demo_key_ok get_entry_def empty_cache_def
      loading_cache_def Let_def)

lemma loading_sys_reachable: "cache_reachable demo_host loading_sys"
proof -
  have "cache_step demo_host init_sys loading_sys"
    unfolding loading_sys_def
    by (rule cache_step.call [where call = demo_call]) (simp_all add: init_sys_def demo_begin)
  then show ?thesis by (rule r_into_rtranclp)
qed

lemma waiting_sys_reachable: "cache_reachable demo_host waiting_sys"
proof -
  have "cache_step demo_host loading_sys waiting_sys"
    unfolding waiting_sys_def
    by (rule cache_step.call [where call = demo_call])
      (simp_all add: loading_sys_def set_task_def init_sys_def demo_begin_second)
  then show ?thesis by (rule rtranclp.rtrancl_into_rtrancl [OF loading_sys_reachable])
qed

lemma demo_loading: "loading waiting_sys 0 demo_key 0"
  by (simp add: loading_def waiting_sys_def loading_sys_def set_task_def)

lemma demo_waiting: "waiting waiting_sys 1 demo_key 0"
  by (simp add: waiting_def waiting_sys_def set_task_def)

theorem cache_single_flight_witness:
  "{t. \<exists>f. loading waiting_sys t demo_key f} = {0}"
  using cache_single_flight [OF waiting_sys_reachable demo_loading] demo_loading by blast

theorem cache_no_lost_wakeup_witness:
  "\<exists>t' call. cs_tasks waiting_sys t' = Some (Loading call demo_key 0)"
proof -
  have "load_wake (cs_cache waiting_sys) 0 = StillWaiting"
    by (simp add: load_wake_def waiting_sys_def set_task_def loading_cache_def)
  then show ?thesis using cache_no_lost_wakeup [OF waiting_sys_reachable demo_waiting] by blast
qed

text \<open>The load ends: the value is stored and handed to the waiting calls.\<close>

definition stored_cache :: conn_cache where
  "stored_cache = release_slot (settle (put_entry loading_cache demo_key demo_value 60) 0
     (CCached demo_value)) demo_key 0"

lemma stored_cache_simps:
  "entries stored_cache = [(demo_key, demo_value, 60)]" "futures stored_cache 0 = Some (CCached demo_value)"
  by (simp_all add: stored_cache_def release_slot_def settle_def put_entry_def loading_cache_def
      empty_cache_def)

definition stored_sys :: cache_sys where
  "stored_sys = set_task loading_sys 0 (Finished (Inr demo_value)) stored_cache"

lemma loading_sys_simps:
  "cs_cache loading_sys = loading_cache" "cs_clock loading_sys = 0"
  "cs_tasks loading_sys 0 = Some (Loading demo_call demo_key 0)"
  by (simp_all add: loading_sys_def set_task_def init_sys_def)

lemma demo_call_put:
  "cache_put demo_host 0 loading_cache (PStr ''c1'') (PStr ''t1'') demo_value (PInt 60) None
     = Inr (True, put_entry loading_cache demo_key demo_value 60)"
proof -
  have "\<not> contains_sensitive 0 demo_value" "safe_value 0 demo_value = demo_value"
    "\<not> unstructured demo_value" "positive_ttl (PInt 60) = Inr 60" by code_simp+
  then show ?thesis by (simp add: cache_put_def demo_key_ok)
qed

lemma demo_finish:
  "load_finish demo_host 0 loading_cache demo_call demo_key 0 (Inr demo_value)
     = (Inr demo_value, stored_cache)"
  by (simp add: load_finish_def demo_call_def demo_call_put cache_get_def demo_key_ok get_entry_def
      put_entry_def stored_cache_def)

lemma stored_sys_reachable: "cache_reachable demo_host stored_sys"
proof -
  have "cache_step demo_host loading_sys stored_sys"
    unfolding stored_sys_def
    by (rule cache_step.loaded [where outcome = "Inr demo_value"], rule loading_sys_simps(3),
        simp only: loading_sys_simps, rule demo_finish)
  then show ?thesis by (rule rtranclp.rtrancl_into_rtrancl [OF loading_sys_reachable])
qed

theorem cache_retains_only_safe_witness:
  "entries (cs_cache stored_sys) = [(demo_key, demo_value, 60)] \<and> retained_ok 0 demo_value"
  using cache_retains_only_safe [OF stored_sys_reachable]
  by (simp add: stored_sys_def set_task_def stored_cache_simps)

section \<open>An invalidation does not retire a load in progress\<close>

text \<open>the response cache can serve a result older than the last invalidation.  A load that began
  before \<open>invalidate_connection\<close> and returns after it is stored all the same, and a later \<open>get\<close> of
  that connection returns the earlier result until the time to live has passed: unlike the OAuth token
  cache, the response cache keeps no generation, so a committed configuration change does not take
  effect at once for a read that was in flight.\<close>

theorem cache_stale_after_invalidate:
  "\<exists>s0 s1 s2. cache_reachable demo_host s0 \<and> loading s0 0 demo_key 0 \<and>
     (\<exists>n c. cache_invalidate (cs_cache s0) (PStr ''c1'') = Inr (n, c) \<and> s1 = s0\<lparr>cs_cache := c\<rparr>) \<and>
     (\<exists>c r. load_finish demo_host (cs_clock s1) (cs_cache s1) demo_call demo_key 0 (Inr demo_value)
              = (r, c) \<and> s2 = set_task s1 0 (Finished r) c) \<and>
     cache_reachable demo_host s2 \<and>
     map_option fst (case cache_get demo_host (cs_clock s2) (cs_cache s2) (PStr ''c1'') (PStr ''t1'') None
        of Inl _ \<Rightarrow> None | Inr r \<Rightarrow> Some r) = Some (Some demo_value)"
proof -
  have inv: "cache_invalidate loading_cache (PStr ''c1'') = Inr (0, loading_cache)"
  proof -
    have "scope_identifier ''connection_id'' (PStr ''c1'') = Inr ''c1''" by code_simp
    then show ?thesis
      by (simp add: cache_invalidate_def drop_connection_def loading_cache_def empty_cache_def)
  qed
  have same: "loading_sys\<lparr>cs_cache := loading_cache\<rparr> = loading_sys"
    by (simp add: loading_sys_def set_task_def)
  have got: "cache_get demo_host 0 stored_cache (PStr ''c1'') (PStr ''t1'') None = Inr (Some demo_value, stored_cache)"
    by (simp add: cache_get_def demo_key_ok get_entry_def stored_cache_simps)
  show ?thesis
    by (rule exI [of _ loading_sys], rule exI [of _ loading_sys], rule exI [of _ stored_sys])
      (use inv demo_finish loading_sys_simps same stored_sys_reachable got loading_sys_reachable in
        \<open>auto simp: loading_def set_task_def stored_sys_def\<close>)
qed

end
