(* ===== verification/TokenCache.thy ===== *)
theory TokenCache
  imports TtlStore SingleFlight
begin

text \<open>
  \<open>app/connectors/declarative/token_cache.py\<close>: OAuth client-credentials tokens, cached per
  connection under an opaque fingerprint.  The fingerprint feeds a keyed digest with
  length-prefixed parts; \<open>_cache_ttl\<close> and \<open>parse_lifetime_seconds\<close> turn an untrusted lifetime
  into a bounded one; a generation per connection lets an invalidation win over an exchange in
  progress; concurrent misses share one exchange.
\<close>

section \<open>Fingerprints and keys\<close>

text \<open>
  \<open>digest\<close> is BLAKE2b keyed with the process salt, as a function of the bytes it was fed.
\<close>

definition fingerprint_input :: "string list \<Rightarrow> nat list" where
  "fingerprint_input parts = concat (map (\<lambda>p. to_bytes 8 (utf8_len p) @ utf8 p) parts)"

definition fingerprint :: "(nat list \<Rightarrow> string) \<Rightarrow> string list \<Rightarrow> string" where
  "fingerprint digest parts = digest (fingerprint_input parts)"

datatype token_key = TokenKey (tk_connection: string) (tk_scheme: string) (tk_credential: string)

record token_request =
  tr_token_url :: string
  tr_client_id_key :: string
  tr_client_secret_key :: string
  tr_scopes :: "string list"
  tr_client_id :: string
  tr_client_secret :: string

definition token_cache_key ::
  "(nat list \<Rightarrow> string) \<Rightarrow> pyval \<Rightarrow> token_request \<Rightarrow> token_key result" where
  "token_cache_key digest connection_id r =
     (case connection_id of
        PStr cid \<Rightarrow>
          (if cid = [] then Inl (Exc ValueError ''connection_id is required'')
           else Inr (TokenKey cid
             (fingerprint digest
                (tr_token_url r # tr_client_id_key r # tr_client_secret_key r # tr_scopes r))
             (fingerprint digest [tr_client_id r, tr_client_secret r])))
      | _ \<Rightarrow> Inl (Exc ValueError ''connection_id is required''))"

section \<open>Lifetimes\<close>

definition EXPIRY_SAFETY_MARGIN_SECONDS :: rat where "EXPIRY_SAFETY_MARGIN_SECONDS = 60"
definition DEFAULT_LIFETIME_SECONDS :: rat where "DEFAULT_LIFETIME_SECONDS = 300"
definition MAX_LIFETIME_SECONDS :: rat where "MAX_LIFETIME_SECONDS = 86400"

text \<open>
  \<open>float(i)\<close> raises \<open>OverflowError\<close> from half a unit above the largest double on.  Below that the
  value is only used through \<open>min\<close> with a bound under \<open>2 ^ 53\<close>, where integers are exact.
\<close>

definition py_float_of_int :: "int \<Rightarrow> rat result" where
  "py_float_of_int i =
     (if i < 2 ^ 1024 - 2 ^ 970 then Inr (of_int i)
      else Inl (Exc (OtherError ''OverflowError'') ''int too large to convert to float''))"

text \<open>\<open>_cache_ttl\<close>: \<open>min\<close> with the positive infinity is the bound itself.\<close>

definition cache_ttl :: "pyval \<Rightarrow> rat result" where
  "cache_ttl lifetime =
     (case lifetime of
        PInt i \<Rightarrow>
          (if i \<le> 0 then Inr DEFAULT_LIFETIME_SECONDS
           else bindR (py_float_of_int i)
             (\<lambda>x. Inr (min (x - EXPIRY_SAFETY_MARGIN_SECONDS) MAX_LIFETIME_SECONDS)))
      | PFloat (Fin q) \<Rightarrow>
          (if q \<le> 0 then Inr DEFAULT_LIFETIME_SECONDS
           else Inr (min (q - EXPIRY_SAFETY_MARGIN_SECONDS) MAX_LIFETIME_SECONDS))
      | PFloat PosInf \<Rightarrow> Inr MAX_LIFETIME_SECONDS
      | _ \<Rightarrow> Inr DEFAULT_LIFETIME_SECONDS)"

definition parse_lifetime_seconds :: "pyval \<Rightarrow> rat result" where
  "parse_lifetime_seconds v =
     (case v of
        PInt i \<Rightarrow>
          (if i \<le> 0 then Inr 0
           else bindR (py_float_of_int i) (\<lambda>x. Inr (min x MAX_LIFETIME_SECONDS)))
      | PFloat (Fin q) \<Rightarrow> (if q \<le> 0 then Inr 0 else Inr (min q MAX_LIFETIME_SECONDS))
      | PFloat PosInf \<Rightarrow> Inr MAX_LIFETIME_SECONDS
      | _ \<Rightarrow> Inr 0)"

section \<open>The store\<close>

record token_entry =
  te_token :: string
  te_expires :: time
  te_generation :: nat

datatype tfuture = TPending | TOk string | TFailed | TCancelled

record token_cache =
  t_entries :: "(token_key, token_entry) dict"
  t_generations :: "string \<Rightarrow> nat"
  t_inflight :: "(token_key, nat) dict"
  t_futures :: "nat \<Rightarrow> tfuture option"
  t_next :: nat

definition empty_token_cache :: token_cache where
  "empty_token_cache = \<lparr>t_entries = [], t_generations = (\<lambda>_. 0), t_inflight = [],
     t_futures = (\<lambda>_. None), t_next = 0\<rparr>"

definition token_get :: "time \<Rightarrow> token_cache \<Rightarrow> token_key \<Rightarrow> string option \<times> token_cache" where
  "token_get now c key =
     (case map_of (t_entries c) key of
        None \<Rightarrow> (None, c)
      | Some e \<Rightarrow>
          (if te_expires e \<le> now then (None, c\<lparr>t_entries := AList.delete key (t_entries c)\<rparr>)
           else (Some (te_token e), c)))"

definition token_discard :: "token_cache \<Rightarrow> token_key \<Rightarrow> bool \<times> token_cache" where
  "token_discard c key =
     (map_of (t_entries c) key \<noteq> None, c\<lparr>t_entries := AList.delete key (t_entries c)\<rparr>)"

definition drop_tokens :: "token_cache \<Rightarrow> string \<Rightarrow> token_cache" where
  "drop_tokens c cid =
     c\<lparr>t_generations := (t_generations c)(cid := t_generations c cid + 1),
       t_entries := foldl (\<lambda>es k. AList.delete k es) (t_entries c)
          (filter (\<lambda>k. tk_connection k = cid) (map fst (t_entries c)))\<rparr>"

definition token_invalidate :: "token_cache \<Rightarrow> pyval \<Rightarrow> (nat \<times> token_cache) result" where
  "token_invalidate c connection_id =
     (case connection_id of
        PStr cid \<Rightarrow>
          (if cid = [] then Inl (Exc ValueError ''connection_id is required'')
           else Inr (length (filter (\<lambda>k. tk_connection k = cid) (map fst (t_entries c))),
                     drop_tokens c cid))
      | _ \<Rightarrow> Inl (Exc ValueError ''connection_id is required''))"

definition put_token :: "token_cache \<Rightarrow> token_key \<Rightarrow> string \<Rightarrow> time \<Rightarrow> token_cache" where
  "put_token c key token expires_at =
     c\<lparr>t_entries := AList.update key
        \<lparr>te_token = token, te_expires = expires_at,
         te_generation = t_generations c (tk_connection key)\<rparr> (t_entries c)\<rparr>"

text \<open>\<open>_store\<close>: the entry is written only in the generation in which its exchange began.\<close>

definition token_store ::
  "time \<Rightarrow> token_cache \<Rightarrow> token_key \<Rightarrow> string \<Rightarrow> pyval \<Rightarrow> nat \<Rightarrow> token_cache result" where
  "token_store now c key token lifetime generation =
     bindR (cache_ttl lifetime)
       (\<lambda>ttl.
          if ttl \<le> 0 then Inr c
          else if t_generations c (tk_connection key) \<noteq> generation then Inr c
          else Inr (put_token c key token (now + ttl)))"

section \<open>get\_or\_exchange\<close>

datatype ttask =
    Exchanging token_key nat nat
  | TWaiting token_key nat
  | TDone "string result"

definition exchange_begin :: "time \<Rightarrow> token_cache \<Rightarrow> token_key \<Rightarrow> ttask \<times> token_cache" where
  "exchange_begin now c key =
     (case token_get now c key of
        (Some token, c1) \<Rightarrow> (TDone (Inr token), c1)
      | (None, c1) \<Rightarrow>
          (case map_of (t_inflight c1) key of
             Some f \<Rightarrow> (TWaiting key f, c1)
           | None \<Rightarrow>
               (let f = t_next c1 in
                (Exchanging key f (t_generations c1 (tk_connection key)),
                 c1\<lparr>t_inflight := AList.update key f (t_inflight c1),
                    t_futures := (t_futures c1)(f \<mapsto> TPending), t_next := Suc f\<rparr>))))"

definition t_settle :: "token_cache \<Rightarrow> nat \<Rightarrow> tfuture \<Rightarrow> token_cache" where
  "t_settle c f out =
     (if t_futures c f = Some TPending then c\<lparr>t_futures := (t_futures c)(f \<mapsto> out)\<rparr> else c)"

definition t_release :: "token_cache \<Rightarrow> token_key \<Rightarrow> nat \<Rightarrow> token_cache" where
  "t_release c key f =
     (if map_of (t_inflight c) key = Some f
      then c\<lparr>t_inflight := AList.delete key (t_inflight c)\<rparr> else c)"

text \<open>The outcome of \<open>exchange()\<close>: a token with its lifetime, an error, or a cancellation.\<close>

definition exchange_finish ::
  "time \<Rightarrow> token_cache \<Rightarrow> token_key \<Rightarrow> nat \<Rightarrow> nat \<Rightarrow> (string \<times> pyval) result
     \<Rightarrow> string result \<times> token_cache" where
  "exchange_finish now c key f generation outcome =
     (case outcome of
        Inr (token, lifetime) \<Rightarrow>
          (case token_store now c key token lifetime generation of
             Inr c1 \<Rightarrow> (Inr token, t_release (t_settle c1 f (TOk token)) key f)
           | Inl e \<Rightarrow> (Inl e, t_release (t_settle c f TFailed) key f))
      | Inl e \<Rightarrow>
          (Inl e, t_release
             (t_settle c f (if exc_kind e = CancelledError then TCancelled else TFailed)) key f))"

text \<open>A waiter resumes with the shared outcome; \<open>None\<close> while the future is pending.\<close>

definition exchange_wake :: "token_cache \<Rightarrow> nat \<Rightarrow> string result option" where
  "exchange_wake c f =
     (case t_futures c f of
        Some (TOk token) \<Rightarrow> Some (Inr token)
      | Some TFailed \<Rightarrow> Some (Inl (Exc RuntimeError ''OAuth token request failed''))
      | Some TCancelled \<Rightarrow> Some (Inl (Exc CancelledError []))
      | _ \<Rightarrow> None)"

section \<open>Fingerprints are unambiguous\<close>

lemma fingerprint_input_Cons:
  "fingerprint_input (p # ps) = to_bytes 8 (utf8_len p) @ utf8 p @ fingerprint_input ps"
  by (simp add: fingerprint_input_def)

lemma fingerprint_input_inj:
  assumes "fingerprint_input ps = fingerprint_input qs"
    and "\<forall>p\<in>set ps. utf8_len p < 256 ^ 8" and "\<forall>q\<in>set qs. utf8_len q < 256 ^ 8"
  shows "ps = qs"
  using assms
proof (induction ps arbitrary: qs)
  case Nil
  then show ?case by (cases qs) (auto simp: fingerprint_input_Cons fingerprint_input_def
        dest: arg_cong [where f = length])
next
  case (Cons p ps)
  show ?case
  proof (cases qs)
    case Nil
    with Cons.prems(1) show ?thesis
      by (auto simp: fingerprint_input_Cons fingerprint_input_def dest: arg_cong [where f = length])
  next
    case (Cons q qs')
    have eq: "to_bytes 8 (utf8_len p) @ utf8 p @ fingerprint_input ps
        = to_bytes 8 (utf8_len q) @ utf8 q @ fingerprint_input qs'"
      using Cons.prems(1) by (simp only: Cons fingerprint_input_Cons)
    then have head: "to_bytes 8 (utf8_len p) = to_bytes 8 (utf8_len q) \<and>
        utf8 p @ fingerprint_input ps = utf8 q @ fingerprint_input qs'"
      by (subst (asm) append_eq_append_conv) (simp_all add: length_to_bytes)
    note rest = head [THEN conjunct2]
    from head have "utf8_len p = utf8_len q"
      using to_bytes_inj [of 8 "utf8_len p" "utf8_len q"] Cons.prems(2,3) Cons by simp
    then have "utf8 p = utf8 q" "fingerprint_input ps = fingerprint_input qs'"
      using rest by (simp_all add: append_eq_append_conv length_utf8)
    then show ?thesis using Cons.IH Cons.prems(2,3) Cons utf8_inj by simp
  qed
qed


text \<open>the token cache key separates what it must separate.  For any collision-free digest, two
  requests get the same key exactly when the connection, the token URL, both credential field names,
  the scope list and both credential values are the same: in particular rotating a client secret
  always changes the key, although the key holds no credential.\<close>

theorem token_key_separates:
  assumes "inj digest" and "token_cache_key digest (PStr c1) r1 = Inr k1"
    and "token_cache_key digest (PStr c2) r2 = Inr k2"
    and "\<And>r p. r \<in> {r1, r2} \<Longrightarrow>
       p \<in> {tr_token_url r, tr_client_id_key r, tr_client_secret_key r, tr_client_id r, tr_client_secret r}
         \<union> set (tr_scopes r) \<Longrightarrow> utf8_len p < 256 ^ 8"
  shows "k1 = k2 \<longleftrightarrow> c1 = c2 \<and> r1 = r2"
proof -
  have k: "k1 = TokenKey c1 (fingerprint digest (tr_token_url r1 # tr_client_id_key r1 # tr_client_secret_key r1 # tr_scopes r1))
      (fingerprint digest [tr_client_id r1, tr_client_secret r1])"
    "k2 = TokenKey c2 (fingerprint digest (tr_token_url r2 # tr_client_id_key r2 # tr_client_secret_key r2 # tr_scopes r2))
      (fingerprint digest [tr_client_id r2, tr_client_secret r2])"
    using assms(2,3) by (simp_all add: token_cache_key_def split: if_splits)
  have fp: "fingerprint digest ps = fingerprint digest qs \<longleftrightarrow> ps = qs"
    if "\<forall>p\<in>set ps. utf8_len p < 256 ^ 8" "\<forall>q\<in>set qs. utf8_len q < 256 ^ 8" for ps qs
    using that fingerprint_input_inj assms(1) by (auto simp: fingerprint_def inj_eq)
  have small: "\<forall>p\<in>set (tr_token_url r # tr_client_id_key r # tr_client_secret_key r # tr_scopes r). utf8_len p < 256 ^ 8"
    "\<forall>p\<in>set [tr_client_id r, tr_client_secret r]. utf8_len p < 256 ^ 8" if "r \<in> {r1, r2}" for r
    using assms(4) [OF that] by auto
  have "k1 = k2 \<longleftrightarrow> c1 = c2 \<and>
      tr_token_url r1 # tr_client_id_key r1 # tr_client_secret_key r1 # tr_scopes r1
        = tr_token_url r2 # tr_client_id_key r2 # tr_client_secret_key r2 # tr_scopes r2 \<and>
      [tr_client_id r1, tr_client_secret r1] = [tr_client_id r2, tr_client_secret r2]"
    unfolding k token_key.inject using fp [OF small(1) small(1), of r1 r2] fp [OF small(2) small(2), of r1 r2]
    by simp
  then show ?thesis by (cases r1; cases r2) auto
qed

section \<open>The store as an expiring store\<close>

definition token_view :: "token_cache \<Rightarrow> token_key \<Rightarrow> (string \<times> time) option" where
  "token_view c k = map_option (\<lambda>e. (te_token e, te_expires e)) (map_of (t_entries c) k)"

lemma map_of_delete_all:
  "map_of (foldl (\<lambda>es k. AList.delete k es) es ks) k = (if k \<in> set ks then None else map_of es k)"
  by (induction ks arbitrary: es) auto

lemma map_of_drop_tokens:
  "map_of (t_entries (drop_tokens c cid)) k =
     (if tk_connection k = cid then None else map_of (t_entries c) k)"
proof (cases "k \<in> fst ` set (t_entries c)")
  case False
  then show ?thesis by (simp add: drop_tokens_def map_of_delete_all map_of_eq_None_iff)
qed (auto simp: drop_tokens_def map_of_delete_all)

interpretation tc: ttl_store token_view token_get put_token drop_tokens tk_connection "\<lambda>_. True"
  by unfold_locales
    (auto simp: token_view_def token_get_def put_token_def map_of_drop_tokens live_at_def fun_eq_iff
      split: option.splits)

lemma token_get_view: "fst (token_get now c k) = live_at now (token_view c k)"
  by (rule tc.read_value) simp

text \<open>An invalidation removes every token of the connection and no other token: afterwards no read
  of a key of that connection returns a token at any time, and reads of other connections are unchanged.\<close>

theorem token_invalidate_exact:
  assumes "token_invalidate c (PStr cid) = Inr (n, c')"
  shows "fst (token_get now c' k) = (if tk_connection k = cid then None else fst (token_get now c k))"
proof -
  have c': "c' = drop_tokens c cid" using assms by (simp add: token_invalidate_def split: if_splits)
  show ?thesis unfolding c' using tc.read_after_drop tc.read_drop_other by auto
qed

section \<open>Lifetimes are bounded\<close>

lemma cache_ttl_bound: "cache_ttl v = Inr ttl \<Longrightarrow> ttl \<le> MAX_LIFETIME_SECONDS"
  by (auto simp: cache_ttl_def MAX_LIFETIME_SECONDS_def DEFAULT_LIFETIME_SECONDS_def
      split: pyval.splits pyfloat.splits if_splits)

lemma parse_lifetime_bound:
  "parse_lifetime_seconds v = Inr x \<Longrightarrow> 0 \<le> x \<and> x \<le> MAX_LIFETIME_SECONDS"
  by (auto simp: parse_lifetime_seconds_def py_float_of_int_def MAX_LIFETIME_SECONDS_def min_def
      split: pyval.splits pyfloat.splits if_splits)

lemma cache_ttl_parsed:
  "parse_lifetime_seconds v = Inr x \<Longrightarrow>
     cache_ttl (PFloat (Fin x)) = Inr (if x = 0 then DEFAULT_LIFETIME_SECONDS
        else x - EXPIRY_SAFETY_MARGIN_SECONDS)"
  using parse_lifetime_bound [of v x]
  by (auto simp: cache_ttl_def EXPIRY_SAFETY_MARGIN_SECONDS_def)


text \<open>C10: a token is retired before the upstream expiry.  When the token endpoint announced a lifetime of
  \<open>x > 0\<close> seconds at \<open>now\<close>, no later read returns the stored token from 60 seconds before
  \<open>now + x\<close> on; when it announced nothing usable, none returns it from 300 seconds after \<open>now\<close> on;
  and in every case none returns it from a day after \<open>now\<close> on.\<close>

theorem token_never_served_late:
  assumes "parse_lifetime_seconds announced = Inr x"
    and "token_store now c key token (PFloat (Fin x)) (t_generations c (tk_connection key)) = Inr c'"
    and "fst (token_get now c key) = None" and "now \<le> later"
    and "fst (token_get later c' key) = Some token'"
  shows "token' = token \<and> later < now + (if x = 0 then 300 else x - 60) \<and> later < now + 86400"
proof -
  note b = parse_lifetime_bound [OF assms(1), unfolded MAX_LIFETIME_SECONDS_def]
  have none: "fst (token_get later c key) = None"
    using tc.read_antimono [of now later c key] assms(3,4) by (cases "fst (token_get later c key)") auto
  define ttl where "ttl = (if x = 0 then DEFAULT_LIFETIME_SECONDS else x - EXPIRY_SAFETY_MARGIN_SECONDS)"
  have c': "c' = (if ttl \<le> 0 then c else put_token c key token (now + ttl))"
    using assms(2) unfolding token_store_def cache_ttl_parsed [OF assms(1)] bindR.simps ttl_def [symmetric]
    by (simp split: if_splits)
  with assms(5) none have "0 < ttl" by (cases "ttl \<le> 0") auto
  then have "token' = token \<and> later < now + ttl"
    using assms(5) c' tc.read_after_store [of later c key token "now + ttl"] by (auto split: if_splits)
  then show ?thesis
    using b by (auto simp: ttl_def DEFAULT_LIFETIME_SECONDS_def EXPIRY_SAFETY_MARGIN_SECONDS_def)
qed

definition demo_token_key :: token_key where
  "demo_token_key = TokenKey ''c1'' ''s'' ''k''"

theorem token_never_served_late_witness:
  "fst (token_get 3539 (put_token empty_token_cache demo_token_key ''t'' 3540) demo_token_key) = Some ''t'' \<and>
     (3539 :: rat) < 0 + (3600 - 60)"
proof -
  have p: "parse_lifetime_seconds (PInt 3600) = Inr 3600"
    by (simp add: parse_lifetime_seconds_def py_float_of_int_def MAX_LIFETIME_SECONDS_def)
  have s: "token_store 0 empty_token_cache demo_token_key ''t'' (PFloat (Fin 3600))
      (t_generations empty_token_cache (tk_connection demo_token_key))
      = Inr (put_token empty_token_cache demo_token_key ''t'' 3540)"
    by (simp add: token_store_def cache_ttl_def EXPIRY_SAFETY_MARGIN_SECONDS_def MAX_LIFETIME_SECONDS_def)
  have g: "fst (token_get 3539 (put_token empty_token_cache demo_token_key ''t'' 3540) demo_token_key) = Some ''t''"
    by (simp add: token_get_def put_token_def)
  have e: "fst (token_get 0 empty_token_cache demo_token_key) = None"
    by (simp add: token_get_def empty_token_cache_def)
  show ?thesis using token_never_served_late [OF p s e _ g] g by simp
qed

definition demo_request :: "string \<Rightarrow> token_request" where
  "demo_request secret = \<lparr>tr_token_url = ''u'', tr_client_id_key = ''i'', tr_client_secret_key = ''s'',
     tr_scopes = [], tr_client_id = ''x'', tr_client_secret = secret\<rparr>"

text \<open>A collision-free digest of byte strings: unary coding of each byte.\<close>

definition unary_digest :: "nat list \<Rightarrow> string" where
  "unary_digest bs = concat (map (\<lambda>b. replicate b CHR ''a'' @ ''b'') bs)"

lemma unary_step: "replicate m CHR ''a'' @ CHR ''b'' # xs = replicate n CHR ''a'' @ CHR ''b'' # ys \<Longrightarrow>
  m = n \<and> xs = ys"
proof (induction m arbitrary: n)
  case 0
  then show ?case by (cases n) simp_all
next
  case (Suc m)
  then show ?case by (cases n) simp_all
qed

lemma inj_unary_digest: "inj unary_digest"
proof (rule injI)
  fix xs ys show "unary_digest xs = unary_digest ys \<Longrightarrow> xs = ys"
  proof (induction xs arbitrary: ys)
    case Nil
    then show ?case by (cases ys) (simp_all add: unary_digest_def)
  next
    case (Cons x xs)
    then show ?case by (cases ys) (auto simp: unary_digest_def dest!: unary_step)
  qed
qed

theorem token_key_separates_witness:
  "token_cache_key unary_digest (PStr ''c1'') (demo_request ''old'')
     \<noteq> token_cache_key unary_digest (PStr ''c1'') (demo_request ''new'')"
proof -
  obtain k1 k2 where k: "token_cache_key unary_digest (PStr ''c1'') (demo_request ''old'') = Inr k1"
    "token_cache_key unary_digest (PStr ''c1'') (demo_request ''new'') = Inr k2"
    by (simp add: token_cache_key_def)
  have small: "utf8_len p < 256 ^ 8" if "p \<in> {''u'', ''i'', ''s'', ''x'', ''old'', ''new''}" for p
    using that by (auto simp: utf8_len_def)
  have "k1 = k2 \<longleftrightarrow> ''c1'' = ''c1'' \<and> demo_request ''old'' = demo_request ''new''"
    by (rule token_key_separates [OF inj_unary_digest k], rule small) (auto simp: demo_request_def)
  then show ?thesis using k by (auto simp: demo_request_def)
qed

theorem token_invalidate_exact_witness:
  "fst (token_get 0 (drop_tokens (put_token empty_token_cache demo_token_key ''t'' 9) ''c1'') demo_token_key) = None"
proof -
  have "token_invalidate (put_token empty_token_cache demo_token_key ''t'' 9) (PStr ''c1'')
      = Inr (1, drop_tokens (put_token empty_token_cache demo_token_key ''t'' 9) ''c1'')"
    by (simp add: token_invalidate_def put_token_def empty_token_cache_def demo_token_key_def)
  from token_invalidate_exact [OF this, of 0 demo_token_key] show ?thesis
    by (simp add: demo_token_key_def)
qed

end
