(* ===== verification/TokenRun.thy ===== *)
theory TokenRun
  imports TokenCache
begin

text \<open>
  Concurrent calls of \<open>OAuthTokenCache.get_or_exchange\<close>: a step relation over the uninterrupted
  segments of the calls, the outcomes of their exchanges, cancellation, the other operations of the
  cache and the passing of time.  It satisfies the single-flight protocol; along every run the
  generation of a connection only grows and every stored token belongs to the current one.
\<close>

record token_sys =
  ts_clock :: time
  ts_cache :: token_cache
  ts_tasks :: "nat \<Rightarrow> ttask option"

definition init_token_sys :: token_sys where
  "init_token_sys = \<lparr>ts_clock = 0, ts_cache = empty_token_cache, ts_tasks = (\<lambda>_. None)\<rparr>"

definition set_ttask :: "token_sys \<Rightarrow> nat \<Rightarrow> ttask \<Rightarrow> token_cache \<Rightarrow> token_sys" where
  "set_ttask s t task c = s\<lparr>ts_cache := c, ts_tasks := (ts_tasks s)(t \<mapsto> task)\<rparr>"

inductive token_step :: "token_sys \<Rightarrow> token_sys \<Rightarrow> bool" where
  tick: "ts_clock s \<le> later \<Longrightarrow> token_step s (s\<lparr>ts_clock := later\<rparr>)"
| call: "ts_tasks s t = None \<Longrightarrow> exchange_begin (ts_clock s) (ts_cache s) key = (task, c) \<Longrightarrow>
     token_step s (set_ttask s t task c)"
| exchanged: "ts_tasks s t = Some (Exchanging key f g) \<Longrightarrow>
     exchange_finish (ts_clock s) (ts_cache s) key f g outcome = (r, c) \<Longrightarrow>
     token_step s (set_ttask s t (TDone r) c)"
| woken: "ts_tasks s t = Some (TWaiting key f) \<Longrightarrow> exchange_wake (ts_cache s) f = Some r \<Longrightarrow>
     token_step s (set_ttask s t (TDone r) (ts_cache s))"
| waiter_cancelled: "ts_tasks s t = Some (TWaiting key f) \<Longrightarrow>
     token_step s (set_ttask s t (TDone (Inl (Exc CancelledError []))) (ts_cache s))"
| get: "token_get (ts_clock s) (ts_cache s) key = (r, c) \<Longrightarrow> token_step s (s\<lparr>ts_cache := c\<rparr>)"
| discard: "token_discard (ts_cache s) key = (b, c) \<Longrightarrow> token_step s (s\<lparr>ts_cache := c\<rparr>)"
| invalidate: "token_invalidate (ts_cache s) cid = Inr (n, c) \<Longrightarrow>
     token_step s (s\<lparr>ts_cache := c\<rparr>)"

abbreviation token_reachable :: "token_sys \<Rightarrow> bool" where
  "token_reachable s \<equiv> token_step\<^sup>*\<^sup>* init_token_sys s"

definition exchanging :: "token_sys \<Rightarrow> nat \<Rightarrow> token_key \<Rightarrow> nat \<Rightarrow> bool" where
  "exchanging s t k f \<longleftrightarrow> (\<exists>g. ts_tasks s t = Some (Exchanging k f g))"

definition token_waiting :: "token_sys \<Rightarrow> nat \<Rightarrow> token_key \<Rightarrow> nat \<Rightarrow> bool" where
  "token_waiting s t k f \<longleftrightarrow> ts_tasks s t = Some (TWaiting k f)"

section \<open>What the operations do to the table and to the generations\<close>

definition same_tokens_table :: "token_cache \<Rightarrow> token_cache \<Rightarrow> bool" where
  "same_tokens_table c c' \<longleftrightarrow> t_inflight c' = t_inflight c \<and> t_futures c' = t_futures c \<and>
     t_next c' = t_next c"

text \<open>Every stored token carries the generation that is current for its connection.\<close>

definition current_ok :: "token_cache \<Rightarrow> bool" where
  "current_ok c \<longleftrightarrow> (\<forall>k e. map_of (t_entries c) k = Some e \<longrightarrow>
     te_generation e = t_generations c (tk_connection k))"

definition grows :: "token_cache \<Rightarrow> token_cache \<Rightarrow> bool" where
  "grows c c' \<longleftrightarrow> (\<forall>cid. t_generations c cid \<le> t_generations c' cid)"

lemma grows_refl [simp]: "grows c c"
  by (simp add: grows_def)

lemma token_get_step:
  assumes "token_get now c k = (r, c')"
  shows "same_tokens_table c c'" "t_generations c' = t_generations c"
    "map_of (t_entries c') \<subseteq>\<^sub>m map_of (t_entries c)"
  using assms
  by (auto simp: token_get_def same_tokens_table_def map_le_def split: option.splits if_splits)

lemma token_discard_step:
  assumes "token_discard c k = (b, c')"
  shows "same_tokens_table c c'" "t_generations c' = t_generations c"
    "map_of (t_entries c') \<subseteq>\<^sub>m map_of (t_entries c)"
  using assms by (auto simp: token_discard_def same_tokens_table_def map_le_def split: if_splits)

lemma current_ok_sub:
  "current_ok c \<Longrightarrow> map_of (t_entries c') \<subseteq>\<^sub>m map_of (t_entries c) \<Longrightarrow>
     t_generations c' = t_generations c \<Longrightarrow> current_ok c'"
  unfolding current_ok_def map_le_def by (metis domI)

lemma token_invalidate_step:
  assumes "token_invalidate c cid = Inr (n, c')"
  obtains d where "cid = PStr d" "c' = drop_tokens c d"
  using assms by (auto simp: token_invalidate_def split: pyval.splits if_splits)

lemma drop_tokens_step:
  "same_tokens_table c (drop_tokens c d)" "grows c (drop_tokens c d)"
  "current_ok c \<Longrightarrow> current_ok (drop_tokens c d)"
  "t_generations (drop_tokens c d) d = Suc (t_generations c d)"
proof -
  show "current_ok c \<Longrightarrow> current_ok (drop_tokens c d)"
    unfolding current_ok_def map_of_drop_tokens by (auto simp: drop_tokens_def)
qed (auto simp: drop_tokens_def same_tokens_table_def grows_def)

lemma token_store_step:
  assumes "token_store now c k token lifetime g = Inr c'"
  shows "same_tokens_table c c'" "t_generations c' = t_generations c"
    "current_ok c \<Longrightarrow> current_ok c'"
    "g \<noteq> t_generations c (tk_connection k) \<Longrightarrow> t_entries c' = t_entries c"
  using assms
  by (auto simp: token_store_def put_token_def same_tokens_table_def current_ok_def split: if_splits)

lemma exchange_begin_cases:
  assumes "exchange_begin now c k = (task, c')"
  obtains (hit) token where "task = TDone (Inr token)" "token_get now c k = (Some token, c')"
  | (wait) f where "task = TWaiting k f" "token_get now c k = (None, c')"
      "map_of (t_inflight c) k = Some f"
  | (claim) c1 where "task = Exchanging k (t_next c) (t_generations c (tk_connection k))"
      "token_get now c k = (None, c1)" "map_of (t_inflight c) k = None"
      "c' = c1\<lparr>t_inflight := AList.update k (t_next c) (t_inflight c),
               t_futures := (t_futures c)(t_next c \<mapsto> TPending), t_next := Suc (t_next c)\<rparr>"
proof -
  obtain r c1 where g: "token_get now c k = (r, c1)" by (cases "token_get now c k")
  note t = token_get_step(1,2) [OF g]
  show thesis
  proof (cases r)
    case (Some token)
    then show thesis using assms g hit by (auto simp: exchange_begin_def)
  next
    case None
    show thesis
    proof (cases "map_of (t_inflight c) k")
      case None1: None
      show thesis
        by (rule claim [of c1]) (use assms g None None1 t in
          \<open>auto simp: exchange_begin_def Let_def same_tokens_table_def\<close>)
    next
      case (Some f)
      then show thesis using assms g None t wait [of f]
        by (auto simp: exchange_begin_def same_tokens_table_def)
    qed
  qed
qed

lemma exchange_finish_shape:
  assumes "exchange_finish now c k f g outcome = (r, c')"
  obtains c1 out where "c' = t_release (t_settle c1 f out) k f" "out \<noteq> TPending"
    "c1 = c \<or> (\<exists>token lifetime. token_store now c k token lifetime g = Inr c1)"
  using assms by (auto simp: exchange_finish_def split: sum.splits prod.splits)

lemma settle_release_tokens:
  "t_entries (t_release (t_settle c f out) k f) = t_entries c"
  "t_generations (t_release (t_settle c f out) k f) = t_generations c"
  by (simp_all add: t_release_def t_settle_def)

lemma exchange_finish_effect:
  assumes "exchange_finish now c k f g outcome = (r, c')"
  shows "t_generations c' = t_generations c" "current_ok c \<Longrightarrow> current_ok c'"
    "g \<noteq> t_generations c (tk_connection k) \<Longrightarrow> t_entries c' = t_entries c"
    "t_futures c f = Some TPending \<Longrightarrow> map_of (t_inflight c) k = Some f \<Longrightarrow>
       \<exists>out. out \<noteq> TPending \<and> map_of (t_inflight c') = (map_of (t_inflight c))(k := None) \<and>
         t_futures c' = (t_futures c)(f \<mapsto> out) \<and> t_next c' = t_next c"
proof -
  obtain c1 out where c': "c' = t_release (t_settle c1 f out) k f" and out: "out \<noteq> TPending"
    and c1: "c1 = c \<or> (\<exists>token lifetime. token_store now c k token lifetime g = Inr c1)"
    using assms by (rule exchange_finish_shape)
  have eff: "same_tokens_table c c1" "t_generations c1 = t_generations c"
    "current_ok c \<Longrightarrow> current_ok c1"
    "g \<noteq> t_generations c (tk_connection k) \<Longrightarrow> t_entries c1 = t_entries c"
    using c1 token_store_step by (auto simp: same_tokens_table_def)
  show "t_generations c' = t_generations c" using eff(2) by (simp add: c' settle_release_tokens)
  show "current_ok c'" if "current_ok c"
    using eff(3) [OF that] by (simp add: current_ok_def c' settle_release_tokens)
  show "t_entries c' = t_entries c" if "g \<noteq> t_generations c (tk_connection k)"
    using eff(4) [OF that] by (simp add: c' settle_release_tokens)
  show "\<exists>out. out \<noteq> TPending \<and> map_of (t_inflight c') = (map_of (t_inflight c))(k := None) \<and>
         t_futures c' = (t_futures c)(f \<mapsto> out) \<and> t_next c' = t_next c"
    if "t_futures c f = Some TPending" "map_of (t_inflight c) k = Some f"
    using that eff(1) out
    by (intro exI [of _ out]) (simp add: c' t_release_def t_settle_def same_tokens_table_def)
qed

section \<open>The steps obey the single-flight protocol\<close>

lemma exchanging_set_ttask:
  "exchanging (set_ttask s t task c) t' =
     (if t' = t then (\<lambda>k f. \<exists>g. task = Exchanging k f g) else exchanging s t')"
  by (auto simp: exchanging_def set_ttask_def fun_eq_iff)

lemma token_waiting_set_ttask:
  "token_waiting (set_ttask s t task c) t' =
     (if t' = t then (\<lambda>k f. task = TWaiting k f) else token_waiting s t')"
  by (auto simp: token_waiting_def set_ttask_def fun_eq_iff)

lemma ts_cache_set_ttask [simp]: "ts_cache (set_ttask s t task c) = c"
  by (simp add: set_ttask_def)

abbreviation token_flight :: "token_sys \<Rightarrow> token_sys \<Rightarrow> bool" where
  "token_flight \<equiv> flight_step (\<lambda>s. map_of (t_inflight (ts_cache s))) (\<lambda>s. t_futures (ts_cache s))
     (\<lambda>s. t_next (ts_cache s)) exchanging token_waiting TPending"

lemma token_quiet_update:
  assumes "same_tokens_table (ts_cache s) c"
  shows "token_flight s (s\<lparr>ts_cache := c\<rparr>)"
  by (rule flight_quiet [where t = 0])
    (use assms in \<open>simp_all add: same_tokens_table_def exchanging_def token_waiting_def fun_eq_iff\<close>)

lemma token_quiet_task:
  assumes "same_tokens_table (ts_cache s) c" and "\<And>k f. \<not> exchanging s t k f"
    and "\<And>k f g. task \<noteq> Exchanging k f g"
    and "\<And>k f. task = TWaiting k f \<Longrightarrow> map_of (t_inflight (ts_cache s)) k = Some f"
  shows "token_flight s (set_ttask s t task c)"
  by (rule flight_quiet [where t = t])
    (use assms in \<open>auto simp: same_tokens_table_def exchanging_set_ttask token_waiting_set_ttask fun_eq_iff\<close>)

lemma token_step_protocol:
  assumes "token_step s s'"
  shows "token_flight s s'"
  using assms
proof (induction rule: token_step.induct)
  case (tick s later)
  show ?case by (rule flight_quiet [where t = 0]) (simp_all add: exchanging_def token_waiting_def fun_eq_iff)
next
  case (call s t key task c)
  have idle: "\<not> exchanging s t k f" for k f using call(1) by (simp add: exchanging_def)
  from call(2) show ?case
  proof (cases rule: exchange_begin_cases)
    case (hit token)
    then show ?thesis by (intro token_quiet_task token_get_step(1)) (use idle in auto)
  next
    case (wait f)
    then show ?thesis by (intro token_quiet_task token_get_step(1)) (use idle in auto)
  next
    case (claim c1)
    then show ?thesis using token_get_step(1) [OF claim(2)]
      by (intro flight_claim [where t = t and k = key])
        (use idle in \<open>auto simp: exchanging_set_ttask token_waiting_set_ttask same_tokens_table_def\<close>)
  qed
next
  case (exchanged s t key f g outcome r c)
  have "exchanging s t key f" using exchanged(1) by (auto simp: exchanging_def)
  then show ?case
  proof (rule flight_settle [where t = t and k = key and f = f, rotated], goal_cases)
    case 1
    from exchange_finish_effect(4) [OF exchanged(2) 1(2,1)] show ?case by simp
  qed (simp_all add: exchanging_set_ttask token_waiting_set_ttask)
next
  case (get s key r c)
  show ?case by (rule token_quiet_update [OF token_get_step(1) [OF get]])
next
  case (discard s key b c)
  show ?case by (rule token_quiet_update [OF token_discard_step(1) [OF discard]])
next
  case (invalidate s cid n c)
  then show ?case by (metis token_invalidate_step drop_tokens_step(1) token_quiet_update)
qed (rule token_quiet_task; simp add: exchanging_def same_tokens_table_def)+

interpretation tf: single_flight token_step init_token_sys "\<lambda>s. map_of (t_inflight (ts_cache s))"
    "\<lambda>s. t_futures (ts_cache s)" "\<lambda>s. t_next (ts_cache s)" exchanging token_waiting TPending
proof (unfold_locales, goal_cases)
  case (6 s s')
  then show ?case by (rule token_step_protocol)
qed (auto simp: init_token_sys_def empty_token_cache_def exchanging_def token_waiting_def)

section \<open>Generations along a run\<close>

text \<open>An exchange in progress began in a generation no later than the current one.\<close>

definition gen_inv :: "token_sys \<Rightarrow> bool" where
  "gen_inv s \<longleftrightarrow> current_ok (ts_cache s) \<and>
     (\<forall>t k f g. ts_tasks s t = Some (Exchanging k f g) \<longrightarrow>
        g \<le> t_generations (ts_cache s) (tk_connection k))"

lemma current_ok_cong:
  "t_entries c' = t_entries c \<Longrightarrow> t_generations c' = t_generations c \<Longrightarrow> current_ok c' = current_ok c"
  by (simp add: current_ok_def)

lemma exchange_begin_effect:
  assumes "exchange_begin now c k = (task, c')"
  shows "t_generations c' = t_generations c" "current_ok c \<Longrightarrow> current_ok c'"
    "\<And>k' f g. task = Exchanging k' f g \<Longrightarrow> g = t_generations c (tk_connection k')"
proof -
  obtain r c1 where g: "token_get now c k = (r, c1)" by (cases "token_get now c k")
  note get = token_get_step [OF g]
  have c': "t_entries c' = t_entries c1" "t_generations c' = t_generations c1"
    using assms g by (auto elim!: exchange_begin_cases)
  show "t_generations c' = t_generations c" using c' get by simp
  show "current_ok c'" if "current_ok c"
    using current_ok_sub [OF that get(3,2)] current_ok_cong [OF c'] by simp
  show "\<And>k' f g. task = Exchanging k' f g \<Longrightarrow> g = t_generations c (tk_connection k')"
    using assms by (auto elim!: exchange_begin_cases)
qed

lemma gen_inv_task:
  assumes "gen_inv s" and "grows (ts_cache s) c" and "current_ok c"
    and "\<And>k f g. task = Exchanging k f g \<Longrightarrow> g \<le> t_generations c (tk_connection k)"
  shows "gen_inv (set_ttask s t task c)"
  using assms unfolding gen_inv_def grows_def set_ttask_def
  by (auto, meson order_trans)

lemma gen_inv_update:
  assumes "gen_inv s" and "grows (ts_cache s) c" and "current_ok c"
  shows "gen_inv (s\<lparr>ts_cache := c\<rparr>)"
  using assms unfolding gen_inv_def grows_def by (auto, meson order_trans)

lemma gen_inv_ok: "gen_inv s \<Longrightarrow> current_ok (ts_cache s)"
  by (simp add: gen_inv_def)

lemma token_step_inv:
  assumes "token_step s s'" and "gen_inv s"
  shows "gen_inv s' \<and> grows (ts_cache s) (ts_cache s')"
  using assms
proof (induction rule: token_step.induct)
  case (tick s later)
  then show ?case by (simp add: gen_inv_def)
next
  case (call s t key task c)
  note e = exchange_begin_effect [OF call(2)]
  have "grows (ts_cache s) c" using e(1) by (simp add: grows_def)
  moreover have "gen_inv (set_ttask s t task c)"
    by (rule gen_inv_task [OF call.prems]) (use e call.prems calculation gen_inv_ok in auto)
  ultimately show ?case by simp
next
  case (exchanged s t key f g outcome r c)
  note e = exchange_finish_effect(1,2) [OF exchanged(2)]
  have "grows (ts_cache s) c" using e(1) by (simp add: grows_def)
  moreover have "gen_inv (set_ttask s t (TDone r) c)"
    by (rule gen_inv_task [OF exchanged.prems]) (use e exchanged.prems calculation gen_inv_ok in auto)
  ultimately show ?case by simp
next
  case (get s key r c)
  note e = token_get_step [OF get.hyps]
  have "grows (ts_cache s) c" using e(2) by (simp add: grows_def)
  with gen_inv_update [OF get.prems this] current_ok_sub [OF gen_inv_ok [OF get.prems] e(3,2)]
  show ?case by simp
next
  case (discard s key b c)
  note e = token_discard_step [OF discard.hyps]
  have "grows (ts_cache s) c" using e(2) by (simp add: grows_def)
  with gen_inv_update [OF discard.prems this] current_ok_sub [OF gen_inv_ok [OF discard.prems] e(3,2)]
  show ?case by simp
next
  case (invalidate s cid n c)
  from invalidate.hyps obtain d where c: "c = drop_tokens (ts_cache s) d"
    by (rule token_invalidate_step)
  show ?case using gen_inv_update [OF invalidate.prems drop_tokens_step(2)]
      drop_tokens_step(2,3) gen_inv_ok [OF invalidate.prems] by (simp add: c)
qed (simp_all add: gen_inv_def set_ttask_def)

lemma reachable_gen_inv: "token_reachable s \<Longrightarrow> gen_inv s"
proof (induction rule: rtranclp_induct)
  case base
  show ?case by (simp add: gen_inv_def init_token_sys_def empty_token_cache_def current_ok_def)
qed (blast dest: token_step_inv)

lemma run_grows:
  assumes "token_step\<^sup>*\<^sup>* s s'" and "gen_inv s"
  shows "gen_inv s' \<and> grows (ts_cache s) (ts_cache s')"
  using assms(1)
proof (induction rule: rtranclp_induct)
  case base
  then show ?case using assms(2) by simp
next
  case (step s' s'')
  then show ?case using token_step_inv unfolding grows_def by (meson order_trans)
qed

section \<open>Properties of concurrent calls\<close>

text \<open>One exchange at a time.  In every reachable state of any number of interleaved calls, at most
  one task is exchanging credentials for a given token key.\<close>

theorem token_single_exchange:
  assumes "token_reachable s" and "exchanging s t k f" and "exchanging s t' k f'"
  shows "t = t' \<and> f = f'"
  using assms by (rule tf.one_loader)

text \<open>no waiter is stranded.  A call that joined another call's exchange can resume now, or one task
  still owns that exchange, and whatever its outcome (a token, an error or a cancellation) the waiter
  can resume after it and the slot is free.\<close>

theorem token_no_lost_wakeup:
  assumes "token_reachable s" and "token_waiting s t k f"
  shows "exchange_wake (ts_cache s) f \<noteq> None \<or>
         (\<exists>t' g. ts_tasks s t' = Some (Exchanging k f g) \<and>
            (\<forall>outcome r c. exchange_finish (ts_clock s) (ts_cache s) k f g outcome = (r, c) \<longrightarrow>
               exchange_wake c f \<noteq> None \<and> map_of (t_inflight c) k = None))"
  using tf.waiter_served [OF assms]
proof
  assume "\<exists>out. t_futures (ts_cache s) f = Some out \<and> out \<noteq> TPending"
  then obtain out where "t_futures (ts_cache s) f = Some out" "out \<noteq> TPending" by blast
  then show ?thesis by (cases out) (simp_all add: exchange_wake_def)
next
  assume "\<exists>t'. exchanging s t' k f"
  then obtain t' g where own: "ts_tasks s t' = Some (Exchanging k f g)" by (auto simp: exchanging_def)
  then have "exchanging s t' k f" by (auto simp: exchanging_def)
  note now = tf.owner_pending [OF assms(1) this]
  have "exchange_wake c f \<noteq> None \<and> map_of (t_inflight c) k = None"
    if fin: "exchange_finish (ts_clock s) (ts_cache s) k f g outcome = (r, c)" for outcome r c
  proof -
    obtain out where "out \<noteq> TPending" "map_of (t_inflight c) k = None" "t_futures c f = Some out"
      using exchange_finish_effect(4) [OF fin now [THEN conjunct2] now [THEN conjunct1]] by auto
    then show ?thesis by (cases out) (simp_all add: exchange_wake_def)
  qed
  with own show ?thesis by blast
qed

text \<open>C6: an invalidation wins over an exchange in progress.  When a connection is invalidated while a
  task is exchanging for one of its keys, then however the run goes on, the end of that exchange
  stores nothing.\<close>

theorem token_invalidation_wins:
  assumes "token_reachable s" and "ts_tasks s t = Some (Exchanging k f g)"
    and "token_invalidate (ts_cache s) (PStr (tk_connection k)) = Inr (n, c)"
    and "token_step\<^sup>*\<^sup>* (s\<lparr>ts_cache := c\<rparr>) s'"
    and "exchange_finish (ts_clock s') (ts_cache s') k f g outcome = (r, c')"
  shows "t_entries c' = t_entries (ts_cache s')"
proof -
  have inv: "gen_inv s" using reachable_gen_inv [OF assms(1)] .
  have c: "c = drop_tokens (ts_cache s) (tk_connection k)"
    using assms(3) by (auto elim: token_invalidate_step)
  have "gen_inv (s\<lparr>ts_cache := c\<rparr>)"
    using token_step_inv [OF token_step.invalidate [OF assms(3)] inv] by blast
  then have "t_generations c (tk_connection k) \<le> t_generations (ts_cache s') (tk_connection k)"
    using run_grows [OF assms(4)] by (simp add: grows_def)
  moreover have "g \<le> t_generations (ts_cache s) (tk_connection k)"
    using inv assms(2) by (simp add: gen_inv_def)
  ultimately have "g \<noteq> t_generations (ts_cache s') (tk_connection k)"
    using drop_tokens_step(4) by (simp add: c)
  then show ?thesis using exchange_finish_effect(3) [OF assms(5)] by blast
qed

section \<open>A concrete run\<close>

definition exchanging_cache :: token_cache where
  "exchanging_cache = empty_token_cache\<lparr>t_inflight := [(demo_token_key, 0)],
     t_futures := [0 \<mapsto> TPending], t_next := 1\<rparr>"

definition exchanging_sys :: token_sys where
  "exchanging_sys = set_ttask init_token_sys 0 (Exchanging demo_token_key 0 0) exchanging_cache"

definition joined_sys :: token_sys where
  "joined_sys = set_ttask exchanging_sys 1 (TWaiting demo_token_key 0) exchanging_cache"

lemma exchanging_sys_reachable: "token_reachable exchanging_sys"
proof -
  have "token_step init_token_sys exchanging_sys"
    unfolding exchanging_sys_def
    by (rule token_step.call [where key = demo_token_key])
      (simp_all add: init_token_sys_def exchange_begin_def token_get_def empty_token_cache_def
        exchanging_cache_def Let_def)
  then show ?thesis by (rule r_into_rtranclp)
qed

lemma join_begin:
  "exchange_begin now (exchanging_cache\<lparr>t_generations := gs\<rparr>) demo_token_key
     = (TWaiting demo_token_key 0, exchanging_cache\<lparr>t_generations := gs\<rparr>)"
  by (simp add: exchange_begin_def token_get_def empty_token_cache_def exchanging_cache_def Let_def)

lemma join_begin_same:
  "exchange_begin now exchanging_cache demo_token_key = (TWaiting demo_token_key 0, exchanging_cache)"
  by (simp add: exchange_begin_def token_get_def empty_token_cache_def exchanging_cache_def Let_def)

lemma exchanging_sys_simps:
  "ts_tasks exchanging_sys 0 = Some (Exchanging demo_token_key 0 0)"
  "ts_cache exchanging_sys = exchanging_cache" "ts_clock exchanging_sys = 0"
  "ts_tasks exchanging_sys 1 = None"
  by (simp_all add: exchanging_sys_def set_ttask_def init_token_sys_def)

lemma joined_sys_reachable: "token_reachable joined_sys"
proof -
  have "token_step exchanging_sys joined_sys"
    unfolding joined_sys_def
    by (rule token_step.call [where key = demo_token_key])
      (simp_all only: exchanging_sys_simps join_begin_same)
  then show ?thesis by (rule rtranclp.rtrancl_into_rtrancl [OF exchanging_sys_reachable])
qed

theorem token_single_exchange_witness:
  "{t. \<exists>f. exchanging joined_sys t demo_token_key f} = {0}"
proof -
  have "exchanging joined_sys 0 demo_token_key 0"
    by (simp add: exchanging_def joined_sys_def set_ttask_def exchanging_sys_simps)
  then show ?thesis using token_single_exchange [OF joined_sys_reachable] by blast
qed

theorem token_no_lost_wakeup_witness:
  "\<exists>t' g. ts_tasks joined_sys t' = Some (Exchanging demo_token_key 0 g)"
proof -
  have "token_waiting joined_sys 1 demo_token_key 0"
    by (simp add: token_waiting_def joined_sys_def set_ttask_def)
  moreover have "exchange_wake (ts_cache joined_sys) 0 = None"
    by (simp add: joined_sys_def set_ttask_def exchange_wake_def exchanging_cache_def)
  ultimately show ?thesis using token_no_lost_wakeup [OF joined_sys_reachable] by blast
qed

definition retired_cache :: token_cache where
  "retired_cache = exchanging_cache\<lparr>t_generations := (\<lambda>_. 0)(''c1'' := 1)\<rparr>"

lemma retire: "token_invalidate exchanging_cache (PStr ''c1'') = Inr (0, retired_cache)"
  by (simp add: token_invalidate_def drop_tokens_def retired_cache_def exchanging_cache_def
      empty_token_cache_def)

theorem token_invalidation_wins_witness:
  "t_entries (snd (exchange_finish 0 retired_cache demo_token_key 0 0 (Inr (''t'', PFloat (Fin 3600))))) = []"
proof -
  obtain r c' where fin: "exchange_finish 0 retired_cache demo_token_key 0 0
      (Inr (''t'', PFloat (Fin 3600))) = (r, c')"
    by (cases "exchange_finish 0 retired_cache demo_token_key 0 0 (Inr (''t'', PFloat (Fin 3600)))")
  let ?s = "exchanging_sys\<lparr>ts_cache := retired_cache\<rparr>"
  have "t_entries c' = t_entries (ts_cache ?s)"
    by (rule token_invalidation_wins [OF exchanging_sys_reachable exchanging_sys_simps(1), of 0 retired_cache ?s
          "Inr (''t'', PFloat (Fin 3600))" r])
      (use fin retire in \<open>simp_all add: exchanging_sys_simps demo_token_key_def\<close>)
  then show ?thesis
    unfolding fin by (simp add: retired_cache_def exchanging_cache_def empty_token_cache_def)
qed

section \<open>A call after the invalidation joins the retired exchange\<close>

text \<open>an invalidation does not retire the exchange in progress for new callers.  There is a reachable
  state in which a connection has been invalidated during an exchange, a call that begins only after
  that joins the exchange, and the call returns the token minted from the exchange that began before
  the invalidation.\<close>

theorem token_joined_after_invalidation:
  "\<exists>s s1 s2 c1. token_reachable s \<and> exchanging s 0 demo_token_key 0 \<and> ts_tasks s 1 = None \<and>
     token_invalidate (ts_cache s) (PStr ''c1'') = Inr (0, c1) \<and>
     exchange_begin (ts_clock s) c1 demo_token_key = (TWaiting demo_token_key 0, c1) \<and>
     s1 = set_ttask (s\<lparr>ts_cache := c1\<rparr>) 1 (TWaiting demo_token_key 0) c1 \<and> token_reachable s1 \<and>
     (\<exists>r c2. exchange_finish (ts_clock s1) (ts_cache s1) demo_token_key 0 0
        (Inr (''t'', PFloat (Fin 3600))) = (r, c2) \<and> s2 = set_ttask s1 0 (TDone r) c2) \<and>
     exchange_wake (ts_cache s2) 0 = Some (Inr ''t'')"
proof -
  let ?s = exchanging_sys and ?r = retired_cache
  let ?s1 = "set_ttask (?s\<lparr>ts_cache := ?r\<rparr>) 1 (TWaiting demo_token_key 0) ?r"
  have joins: "exchange_begin now ?r demo_token_key = (TWaiting demo_token_key 0, ?r)" for now
    unfolding retired_cache_def by (rule join_begin)
  have "token_step ?s (?s\<lparr>ts_cache := ?r\<rparr>)"
    by (rule token_step.invalidate) (use retire in \<open>simp add: exchanging_sys_simps\<close>)
  moreover have "token_step (?s\<lparr>ts_cache := ?r\<rparr>) ?s1"
    by (rule token_step.call [where key = demo_token_key])
      (use joins in \<open>simp_all add: exchanging_sys_def set_ttask_def init_token_sys_def\<close>)
  ultimately have reach: "token_reachable ?s1"
    by (meson exchanging_sys_reachable rtranclp.rtrancl_into_rtrancl)
  obtain r c2 where fin: "exchange_finish 0 ?r demo_token_key 0 0 (Inr (''t'', PFloat (Fin 3600))) = (r, c2)"
    by (cases "exchange_finish 0 ?r demo_token_key 0 0 (Inr (''t'', PFloat (Fin 3600)))")
  have woken: "exchange_wake c2 0 = Some (Inr ''t'')"
    using fin by (auto simp: exchange_finish_def token_store_def cache_ttl_def retired_cache_def
        exchanging_cache_def empty_token_cache_def demo_token_key_def exchange_wake_def t_release_def
        t_settle_def EXPIRY_SAFETY_MARGIN_SECONDS_def MAX_LIFETIME_SECONDS_def)
  show ?thesis
    by (rule exI [of _ ?s], rule exI [of _ ?s1], rule exI [of _ "set_ttask ?s1 0 (TDone r) c2"],
        rule exI [of _ ?r])
      (use fin woken joins reach retire exchanging_sys_reachable in
        \<open>simp add: exchanging_def exchanging_sys_simps set_ttask_def exchanging_sys_def init_token_sys_def\<close>)
qed

end
