(* ===== verification/JsonTree.thy ===== *)
theory JsonTree
  imports PyVal
begin

text \<open>
  \<open>_freeze_json_tree\<close> of \<open>app/connectors/registry.py\<close>: the detached, bounded, acyclic copy of a
  schema that a connector supplies.  The input is a graph of Python objects, seen through a
  function \<open>look\<close> that reads one object: a scalar, or a container with its identity and its
  members.  \<open>look_heap\<close> reads an object store, in which members may refer back to a container
  that holds them; \<open>look_tree\<close> reads a value that is already a tree, whose identities are the
  subtrees themselves (no tree contains itself).
\<close>

datatype ('i, 'n) shape =
    SNone
  | SBool bool
  | SInt int
  | SFloat pyfloat
  | SStr string
  | SMap 'i "(pyval \<times> 'n) list"
  | SSeq 'i "'n list"
  | SOther

section \<open>Bounds\<close>

definition MAX_JSON_DEPTH :: nat where "MAX_JSON_DEPTH = 24"
definition MAX_JSON_NODES :: nat where "MAX_JSON_NODES = 4096"
definition MAX_JSON_KEY_LENGTH :: nat where "MAX_JSON_KEY_LENGTH = 256"
definition MAX_JSON_STRING_LENGTH :: nat where "MAX_JSON_STRING_LENGTH = 16384"

text \<open>The double \<open>1e308\<close>, exactly.\<close>

definition MAX_JSON_FLOAT_MAGNITUDE :: rat where
  "MAX_JSON_FLOAT_MAGNITUDE = 156575653125701 * 2 ^ 976"

definition has_control_characters :: "string \<Rightarrow> bool" where
  "has_control_characters s \<longleftrightarrow> list_ex category_C s"

definition json_int_ok :: "int \<Rightarrow> bool" where
  "json_int_ok i \<longleftrightarrow> - (2 ^ 63) \<le> i \<and> i \<le> 2 ^ 63 - 1"

definition json_float_ok :: "pyfloat \<Rightarrow> bool" where
  "json_float_ok f \<longleftrightarrow> (case f of Fin q \<Rightarrow> \<bar>q\<bar> \<le> MAX_JSON_FLOAT_MAGNITUDE | _ \<Rightarrow> False)"

definition json_str_ok :: "string \<Rightarrow> bool" where
  "json_str_ok s \<longleftrightarrow> length s \<le> MAX_JSON_STRING_LENGTH \<and> \<not> has_control_characters s"

definition json_key_ok :: "pyval \<Rightarrow> bool" where
  "json_key_ok k \<longleftrightarrow> (case k of
       PStr s \<Rightarrow> s \<noteq> [] \<and> length s \<le> MAX_JSON_KEY_LENGTH \<and> \<not> has_control_characters s
     | _ \<Rightarrow> False)"

section \<open>Freezing\<close>

lemma foldR_cong [fundef_cong]:
  "xs = ys \<Longrightarrow> s = t \<Longrightarrow> (\<And>u x. x \<in> set ys \<Longrightarrow> f u x = g u x) \<Longrightarrow> foldR f s xs = foldR g t ys"
proof (induction ys arbitrary: xs s t)
  case Nil
  then show ?case by simp
next
  case (Cons y ys)
  then show ?case by (cases "g t y") simp_all
qed

text \<open>
  \<open>nodes\<close> is the shared counter, threaded through; \<open>active\<close> holds the containers being copied,
  the enclosing ones: each is removed again when its copy is complete, and an exception ends the
  whole copy.
\<close>

function freeze ::
  "('n \<Rightarrow> ('i, 'n) shape) \<Rightarrow> exc \<Rightarrow> 'i list \<Rightarrow> 'n \<Rightarrow> nat \<Rightarrow> nat \<Rightarrow> (pyval \<times> nat) result" where
  "freeze look bad active node depth nodes =
     (if MAX_JSON_NODES < Suc nodes \<or> MAX_JSON_DEPTH < depth then Inl bad
      else case look node of
        SNone \<Rightarrow> Inr (PNone, Suc nodes)
      | SBool b \<Rightarrow> Inr (PBool b, Suc nodes)
      | SInt i \<Rightarrow> (if json_int_ok i then Inr (PInt i, Suc nodes) else Inl bad)
      | SFloat f \<Rightarrow> (if json_float_ok f then Inr (PFloat f, Suc nodes) else Inl bad)
      | SStr s \<Rightarrow> (if json_str_ok s then Inr (PStr s, Suc nodes) else Inl bad)
      | SMap i members \<Rightarrow>
          (if i \<in> set active then Inl bad
           else bindR (foldR (\<lambda>acc m.
                  if json_key_ok (fst m)
                  then bindR (freeze look bad (i # active) (snd m) (Suc depth) (snd acc))
                         (\<lambda>r. Inr (AList.update (fst m) (fst r) (fst acc), snd r))
                  else Inl bad) ([], Suc nodes) members)
             (\<lambda>r. Inr (PMap (fst r), snd r)))
      | SSeq i items \<Rightarrow>
          (if i \<in> set active then Inl bad
           else bindR (foldR (\<lambda>acc item.
                  bindR (freeze look bad (i # active) item (Suc depth) (snd acc))
                    (\<lambda>r. Inr (fst acc @ [fst r], snd r))) ([], Suc nodes) items)
             (\<lambda>r. Inr (PTuple (fst r), snd r)))
      | SOther \<Rightarrow> Inl bad)"
  by pat_completeness auto
termination
  by (relation "measure (\<lambda>(look, bad, active, node, depth, nodes). Suc MAX_JSON_DEPTH - depth)")
    (auto simp: MAX_JSON_DEPTH_def)

declare freeze.simps [simp del]

definition bad_field :: "string \<Rightarrow> exc" where
  "bad_field field_name = Exc ValueError (''invalid connector '' @ field_name)"

definition freeze_json_tree :: "('n \<Rightarrow> ('i, 'n) shape) \<Rightarrow> string \<Rightarrow> 'n \<Rightarrow> pyval result" where
  "freeze_json_tree look field_name node =
     bindR (freeze look (bad_field field_name) [] node 0 0) (\<lambda>r. Inr (fst r))"

section \<open>Two ways to read an object\<close>

datatype href = HNone | HBool bool | HInt int | HFloat pyfloat | HStr string | HRef nat

datatype hobj = HMap "(pyval \<times> href) list" | HSeq "href list"

type_synonym heap = "nat \<Rightarrow> hobj option"

fun look_heap :: "heap \<Rightarrow> href \<Rightarrow> (nat, href) shape" where
  "look_heap h HNone = SNone"
| "look_heap h (HBool b) = SBool b"
| "look_heap h (HInt i) = SInt i"
| "look_heap h (HFloat f) = SFloat f"
| "look_heap h (HStr s) = SStr s"
| "look_heap h (HRef a) = (case h a of Some (HMap ms) \<Rightarrow> SMap a ms | Some (HSeq xs) \<Rightarrow> SSeq a xs
     | None \<Rightarrow> SOther)"

fun look_tree :: "pyval \<Rightarrow> (pyval, pyval) shape" where
  "look_tree PNone = SNone"
| "look_tree (PBool b) = SBool b"
| "look_tree (PInt i) = SInt i"
| "look_tree (PFloat f) = SFloat f"
| "look_tree (PStr s) = SStr s"
| "look_tree (PMap m) = SMap (PMap m) m"
| "look_tree (PList vs) = SSeq (PList vs) vs"
| "look_tree (PTuple vs) = SSeq (PTuple vs) vs"
| "look_tree (PBytes _) = SOther"
| "look_tree (PObj _ _) = SOther"

section \<open>What a frozen tree is\<close>

text \<open>The number of nodes of a tree, and the trees that obey every bound from a depth on.\<close>

fun tree_nodes :: "pyval \<Rightarrow> nat" where
  "tree_nodes (PMap m) = Suc (sum_list (map (\<lambda>(k, v). tree_nodes v) m))"
| "tree_nodes (PTuple vs) = Suc (sum_list (map tree_nodes vs))"
| "tree_nodes (PList vs) = Suc (sum_list (map tree_nodes vs))"
| "tree_nodes _ = 1"

fun frozen_ok :: "nat \<Rightarrow> pyval \<Rightarrow> bool" where
  "frozen_ok d (PMap m) \<longleftrightarrow> d \<le> MAX_JSON_DEPTH \<and> distinct (map fst m) \<and>
     (\<forall>(k, v)\<in>set m. json_key_ok k \<and> frozen_ok (Suc d) v)"
| "frozen_ok d (PTuple vs) \<longleftrightarrow> d \<le> MAX_JSON_DEPTH \<and> (\<forall>v\<in>set vs. frozen_ok (Suc d) v)"
| "frozen_ok d PNone \<longleftrightarrow> d \<le> MAX_JSON_DEPTH"
| "frozen_ok d (PBool _) \<longleftrightarrow> d \<le> MAX_JSON_DEPTH"
| "frozen_ok d (PInt i) \<longleftrightarrow> d \<le> MAX_JSON_DEPTH \<and> json_int_ok i"
| "frozen_ok d (PFloat f) \<longleftrightarrow> d \<le> MAX_JSON_DEPTH \<and> json_float_ok f"
| "frozen_ok d (PStr s) \<longleftrightarrow> d \<le> MAX_JSON_DEPTH \<and> json_str_ok s"
| "frozen_ok d _ \<longleftrightarrow> False"

section \<open>A frozen tree obeys the bounds\<close>

lemma sum_update_le:
  "sum_list (map (\<lambda>(k, v). f v) (AList.update k v m)) \<le> sum_list (map (\<lambda>(k, v). f v) m) + (f v :: nat)"
  by (induction m) auto

lemma update_new: "k \<notin> fst ` set m \<Longrightarrow> AList.update k v m = m @ [(k, v)]"
  by (induction m) auto

lemma tree_nodes_pos: "0 < tree_nodes t"
  by (cases t) auto

lemma freeze_bound: "freeze look bad active n d c = Inr r \<Longrightarrow> c < MAX_JSON_NODES \<and> d \<le> MAX_JSON_DEPTH"
  by (subst (asm) freeze.simps) (auto split: if_splits)

lemma freeze_sound:
  "freeze look bad active n d c = Inr r \<Longrightarrow>
     frozen_ok d (fst r) \<and> c + tree_nodes (fst r) \<le> snd r \<and> snd r \<le> MAX_JSON_NODES"
proof (induction look bad active n d c arbitrary: r rule: freeze.induct)
  case (1 look bad active n d c)
  note b = freeze_bound [OF "1.prems"]
  have guard: "\<not> (MAX_JSON_NODES < Suc c \<or> MAX_JSON_DEPTH < d)" using b by simp
  show ?case
  proof (cases "look n")
    case (SMap i ms)
    with "1.prems" guard obtain acc where i: "i \<notin> set active"
      and fold: "foldR (\<lambda>acc m. if json_key_ok (fst m)
                  then bindR (freeze look bad (i # active) (snd m) (Suc d) (snd acc))
                         (\<lambda>r. Inr (AList.update (fst m) (fst r) (fst acc), snd r))
                  else Inl bad) ([], Suc c) ms = Inr acc"
      and r: "r = (PMap (fst acc), snd acc)"
      by (subst (asm) freeze.simps) (auto split: if_splits)
    let ?P = "\<lambda>acc. distinct (map fst (fst acc)) \<and>
      (\<forall>(k, v)\<in>set (fst acc). json_key_ok k \<and> frozen_ok (Suc d) v) \<and>
      Suc c + sum_list (map (\<lambda>(k, v). tree_nodes v) (fst acc)) \<le> snd acc \<and> snd acc \<le> MAX_JSON_NODES"
    have "?P acc"
    proof (rule foldR_invariant [OF fold])
      show "?P ([], Suc c)" using b by simp
    next
      fix a m a'
      assume m: "m \<in> set ms" and P: "?P a"
        and step: "(if json_key_ok (fst m)
                  then bindR (freeze look bad (i # active) (snd m) (Suc d) (snd a))
                         (\<lambda>r. Inr (AList.update (fst m) (fst r) (fst a), snd r))
                  else Inl bad) = Inr a'"
      from step obtain q where key: "json_key_ok (fst m)"
        and q: "freeze look bad (i # active) (snd m) (Suc d) (snd a) = Inr q"
        and a': "a' = (AList.update (fst m) (fst q) (fst a), snd q)"
        by (auto split: if_splits)
      note ih = "1.IH"(1) [OF guard SMap i m key q]
      show "?P a'"
        using P ih key a' sum_update_le [of tree_nodes "fst m" "fst q" "fst a"]
          set_update_subset [of "fst m" "fst q" "fst a"]
        by auto
    qed
    then show ?thesis using r b by auto
  next
    case (SSeq i xs)
    with "1.prems" guard obtain acc where i: "i \<notin> set active"
      and fold: "foldR (\<lambda>acc item. bindR (freeze look bad (i # active) item (Suc d) (snd acc))
                    (\<lambda>r. Inr (fst acc @ [fst r], snd r))) ([], Suc c) xs = Inr acc"
      and r: "r = (PTuple (fst acc), snd acc)"
      by (subst (asm) freeze.simps) (auto split: if_splits)
    let ?P = "\<lambda>acc. (\<forall>v\<in>set (fst acc). frozen_ok (Suc d) v) \<and>
      Suc c + sum_list (map tree_nodes (fst acc)) \<le> snd acc \<and> snd acc \<le> MAX_JSON_NODES"
    have "?P acc"
    proof (rule foldR_invariant [OF fold])
      show "?P ([], Suc c)" using b by simp
    next
      fix a x a'
      assume x: "x \<in> set xs" and P: "?P a"
        and step: "bindR (freeze look bad (i # active) x (Suc d) (snd a))
                    (\<lambda>r. Inr (fst a @ [fst r], snd r)) = Inr a'"
      from step obtain q where q: "freeze look bad (i # active) x (Suc d) (snd a) = Inr q"
        and a': "a' = (fst a @ [fst q], snd q)" by auto
      note ih = "1.IH"(2) [OF guard SSeq i x q]
      show "?P a'" using P ih a' by auto
    qed
    then show ?thesis using r b by auto
  qed (use "1.prems" b in \<open>subst (asm) freeze.simps, auto split: if_splits\<close>)+
qed

section \<open>A frozen tree freezes to itself\<close>

lemma fold_members:
  assumes "\<forall>(k, v)\<in>set ms. json_key_ok k \<and>
      (\<forall>c. c + tree_nodes v \<le> MAX_JSON_NODES \<longrightarrow> fr v c = Inr (v, c + tree_nodes v))"
    and "distinct (map fst (acc @ ms))"
    and "c + sum_list (map (\<lambda>(k, v). tree_nodes v) ms) \<le> MAX_JSON_NODES"
  shows "foldR (\<lambda>acc m. if json_key_ok (fst m)
           then bindR (fr (snd m) (snd acc)) (\<lambda>r. Inr (AList.update (fst m) (fst r) (fst acc), snd r))
           else Inl bad) (acc, c) ms
       = Inr (acc @ ms, c + sum_list (map (\<lambda>(k, v). tree_nodes v) ms))"
  using assms
proof (induction ms arbitrary: acc c)
  case Nil
  then show ?case by simp
next
  case (Cons m ms)
  obtain k v where m: "m = (k, v)" by (cases m)
  have "k \<notin> fst ` set acc" using Cons.prems(2) m by auto
  then have "AList.update k v acc = acc @ [(k, v)]" by (rule update_new)
  moreover have "fr v c = Inr (v, c + tree_nodes v)" using Cons.prems(1,3) m by simp
  ultimately show ?case
    using Cons.IH [of "acc @ [(k, v)]" "c + tree_nodes v"] Cons.prems m by (simp add: add.assoc)
qed

lemma fold_items:
  assumes "\<forall>v\<in>set vs. \<forall>c. c + tree_nodes v \<le> MAX_JSON_NODES \<longrightarrow> fr v c = Inr (v, c + tree_nodes v)"
    and "c + sum_list (map tree_nodes vs) \<le> MAX_JSON_NODES"
  shows "foldR (\<lambda>acc x. bindR (fr x (snd acc)) (\<lambda>r. Inr (fst acc @ [fst r], snd r))) (acc, c) vs
       = Inr (acc @ vs, c + sum_list (map tree_nodes vs))"
  using assms by (induction vs arbitrary: acc c) (simp_all add: add.assoc)

lemma freeze_frozen:
  assumes "frozen_ok d t" and "c + tree_nodes t \<le> MAX_JSON_NODES" and "\<forall>a\<in>set active. size t < size a"
  shows "freeze look_tree bad active t d c = Inr (t, c + tree_nodes t)"
  using assms
proof (induction d t arbitrary: c active rule: frozen_ok.induct)
  case (1 d m)
  have sum: "Suc c + sum_list (map (\<lambda>(k, v). tree_nodes v) m) \<le> MAX_JSON_NODES" using "1.prems"(2) by simp
  have new: "PMap m \<notin> set active" using "1.prems"(3) by auto
  have "\<forall>(k, v)\<in>set m. json_key_ok k \<and> (\<forall>c. c + tree_nodes v \<le> MAX_JSON_NODES \<longrightarrow>
      freeze look_tree bad (PMap m # active) v (Suc d) c = Inr (v, c + tree_nodes v))"
  proof (rule ballI, clarify)
    fix k v assume kv: "(k, v) \<in> set m"
    then have ok: "json_key_ok k" "frozen_ok (Suc d) v" using "1.prems"(1) by auto
    have "\<forall>a\<in>set (PMap m # active). size v < size a"
      using size_member [OF kv] "1.prems"(3) by (auto intro: less_trans)
    then show "json_key_ok k \<and> (\<forall>c. c + tree_nodes v \<le> MAX_JSON_NODES \<longrightarrow>
      freeze look_tree bad (PMap m # active) v (Suc d) c = Inr (v, c + tree_nodes v))"
      using "1.IH" [OF kv refl ok(2)] ok by simp
  qed
  from fold_members [OF this, of "[]" "Suc c" bad] sum new "1.prems"(1)
  show ?case by (subst freeze.simps) simp
next
  case (2 d vs)
  have sum: "Suc c + sum_list (map tree_nodes vs) \<le> MAX_JSON_NODES" using "2.prems"(2) by simp
  have new: "PTuple vs \<notin> set active" using "2.prems"(3) by auto
  have "\<forall>v\<in>set vs. \<forall>c. c + tree_nodes v \<le> MAX_JSON_NODES \<longrightarrow>
      freeze look_tree bad (PTuple vs # active) v (Suc d) c = Inr (v, c + tree_nodes v)"
  proof
    fix v assume v: "v \<in> set vs"
    then have ok: "frozen_ok (Suc d) v" using "2.prems"(1) by auto
    have "\<forall>a\<in>set (PTuple vs # active). size v < size a"
      using size_item [OF v] "2.prems"(3) by (auto intro: less_trans)
    then show "\<forall>c. c + tree_nodes v \<le> MAX_JSON_NODES \<longrightarrow>
      freeze look_tree bad (PTuple vs # active) v (Suc d) c = Inr (v, c + tree_nodes v)"
      using "2.IH" [OF v ok] by simp
  qed
  from fold_items [OF this, of "Suc c" "[]"] sum new "2.prems"(1)
  show ?case by (subst freeze.simps) simp
qed (subst freeze.simps, simp)+

lemma freeze_json_tree_sound:
  "freeze_json_tree look f n = Inr t \<Longrightarrow> frozen_ok 0 t \<and> tree_nodes t \<le> MAX_JSON_NODES"
  unfolding freeze_json_tree_def using freeze_sound [of look "bad_field f" "[]" n 0 0] by fastforce

lemma freeze_json_tree_frozen:
  "frozen_ok 0 t \<Longrightarrow> tree_nodes t \<le> MAX_JSON_NODES \<Longrightarrow> freeze_json_tree look_tree f t = Inr t"
  unfolding freeze_json_tree_def using freeze_frozen [of 0 t 0 "[]"] by simp

text \<open>C12: the copy of a schema is bounded and stable.  Whatever object graph it is given, a copy that
  \<open>_freeze_json_tree\<close> returns is a tree of at most 4096 nodes and 24 levels, with distinct non-empty
  keys, 64-bit integers, bounded finite numbers and strings without control characters; and copying
  it again returns it unchanged.\<close>

theorem freeze_json_tree_bounded_stable:
  assumes "freeze_json_tree look field_name node = Inr t"
  shows "frozen_ok 0 t \<and> tree_nodes t \<le> 4096 \<and> freeze_json_tree look_tree field_name t = Inr t"
  using freeze_json_tree_sound [OF assms] freeze_json_tree_frozen [of t field_name]
  by (simp add: MAX_JSON_NODES_def)

definition demo_heap :: heap where
  "demo_heap = [0 \<mapsto> HMap [(PStr ''a'', HRef 1), (PStr ''b'', HRef 1)], 1 \<mapsto> HSeq [HInt 5],
     2 \<mapsto> HSeq [HRef 3], 3 \<mapsto> HSeq [HRef 2]]"

lemma demo_heap_freeze:
  "freeze_json_tree (look_heap demo_heap) ''schema'' (HRef 0) =
     Inr (PMap [(PStr ''a'', PTuple [PInt 5]), (PStr ''b'', PTuple [PInt 5])])"
  by code_simp

theorem freeze_json_tree_bounded_stable_witness:
  "freeze_json_tree look_tree ''schema'' (PMap [(PStr ''a'', PTuple [PInt 5]), (PStr ''b'', PTuple [PInt 5])])
     = Inr (PMap [(PStr ''a'', PTuple [PInt 5]), (PStr ''b'', PTuple [PInt 5])])"
  using freeze_json_tree_bounded_stable [OF demo_heap_freeze] by blast

section \<open>A cyclic graph is rejected\<close>

text \<open>\<open>m\<close> is a member of the container \<open>n\<close>.\<close>

inductive child :: "('n \<Rightarrow> ('i, 'n) shape) \<Rightarrow> 'n \<Rightarrow> 'n \<Rightarrow> bool" for look where
  member: "look n = SMap i ms \<Longrightarrow> (k, m) \<in> set ms \<Longrightarrow> child look n m"
| item: "look n = SSeq i xs \<Longrightarrow> m \<in> set xs \<Longrightarrow> child look n m"

definition freezes_at :: "('n \<Rightarrow> ('i, 'n) shape) \<Rightarrow> exc \<Rightarrow> 'n \<Rightarrow> nat \<Rightarrow> bool" where
  "freezes_at look bad n d \<longleftrightarrow> (\<exists>active c r. freeze look bad active n d c = Inr r)"

lemma freezes_child:
  assumes "freezes_at look bad n d" and "child look n m"
  shows "freezes_at look bad m (Suc d)"
proof -
  obtain active c r where f: "freeze look bad active n d c = Inr r"
    using assms(1) by (auto simp: freezes_at_def)
  note b = freeze_bound [OF f]
  from assms(2) show ?thesis
  proof cases
    case (member i ms k)
    with f b obtain acc where fold: "foldR (\<lambda>acc m. if json_key_ok (fst m)
                  then bindR (freeze look bad (i # active) (snd m) (Suc d) (snd acc))
                         (\<lambda>r. Inr (AList.update (fst m) (fst r) (fst acc), snd r))
                  else Inl bad) ([], Suc c) ms = Inr acc"
      by (subst (asm) freeze.simps) (auto split: if_splits)
    from foldR_each [OF fold member(2)] show ?thesis
      by (auto simp: freezes_at_def split: if_splits)
  next
    case (item i xs)
    with f b obtain acc where fold: "foldR (\<lambda>acc item. bindR (freeze look bad (i # active) item (Suc d) (snd acc))
                    (\<lambda>r. Inr (fst acc @ [fst r], snd r))) ([], Suc c) xs = Inr acc"
      by (subst (asm) freeze.simps) (auto split: if_splits)
    from foldR_each [OF fold item(2)] show ?thesis by (auto simp: freezes_at_def)
  qed
qed

lemma freezes_rtrancl:
  "(child look)\<^sup>*\<^sup>* n m \<Longrightarrow> freezes_at look bad n d \<Longrightarrow> \<exists>d' \<ge> d. freezes_at look bad m d'"
proof (induction rule: rtranclp_induct)
  case base
  then show ?case by blast
next
  case (step m p)
  then obtain d' where "d \<le> d'" "freezes_at look bad m d'" by blast
  then show ?case using freezes_child [OF _ step.hyps(2)] le_SucI by blast
qed

lemma freezes_trancl:
  assumes "(child look)\<^sup>+\<^sup>+ n m" and "freezes_at look bad n d"
  shows "\<exists>d' > d. freezes_at look bad m d'"
proof -
  obtain p where p: "child look n p" "(child look)\<^sup>*\<^sup>* p m" using tranclpD [OF assms(1)] by blast
  obtain d' where "Suc d \<le> d'" "freezes_at look bad m d'"
    using freezes_rtrancl [OF p(2) freezes_child [OF assms(2) p(1)]] by blast
  then show ?thesis by (intro exI [of _ d']) simp
qed

lemma no_freeze_cycle: "(child look)\<^sup>+\<^sup>+ n n \<Longrightarrow> \<not> freezes_at look bad n d"
proof (induction "Suc MAX_JSON_DEPTH - d" arbitrary: d rule: less_induct)
  case less
  show ?case
  proof
    assume f: "freezes_at look bad n d"
    then obtain d' where d': "d < d'" "freezes_at look bad n d'"
      using freezes_trancl [OF less.prems] by blast
    have "d \<le> MAX_JSON_DEPTH" using f by (auto simp: freezes_at_def dest: freeze_bound)
    then have "Suc MAX_JSON_DEPTH - d' < Suc MAX_JSON_DEPTH - d" using d'(1) by arith
    then show False using less.hyps d'(2) less.prems by blast
  qed
qed

text \<open>a schema that contains itself is rejected.  When some container that is reachable from the
  root contains itself, directly or through others, the copy raises \<open>ValueError\<close>.\<close>

theorem freeze_json_tree_rejects_cycles:
  assumes "(child look)\<^sup>*\<^sup>* node n" and "(child look)\<^sup>+\<^sup>+ n n"
  shows "\<exists>e. freeze_json_tree look field_name node = Inl e"
proof (cases "freeze_json_tree look field_name node")
  case (Inr t)
  then have "freezes_at look (bad_field field_name) node 0"
    unfolding freeze_json_tree_def freezes_at_def by auto
  then obtain d where "freezes_at look (bad_field field_name) n d"
    using freezes_rtrancl [OF assms(1)] by blast
  then show ?thesis using no_freeze_cycle [OF assms(2)] by blast
qed simp

theorem freeze_json_tree_rejects_cycles_witness:
  "\<exists>e. freeze_json_tree (look_heap demo_heap) ''schema'' (HRef 2) = Inl e"
proof -
  have "child (look_heap demo_heap) (HRef 2) (HRef 3)" "child (look_heap demo_heap) (HRef 3) (HRef 2)"
    by (auto intro!: child.item simp: demo_heap_def)
  then have "(child (look_heap demo_heap))\<^sup>+\<^sup>+ (HRef 2) (HRef 2)"
    by (rule tranclp.trancl_into_trancl [OF tranclp.r_into_trancl])
  then show ?thesis by (rule freeze_json_tree_rejects_cycles [OF rtranclp.rtrancl_refl])
qed

end
