(* ===== verification/Contracts.thy ===== *)
theory Contracts
  imports JsonTree
begin

text \<open>
  \<open>app/connectors/contracts.py\<close> and the manifest check of \<open>app/connectors/registry.py\<close>: the
  declarations of tools and connectors, the construction check of \<open>ConnectorSpec\<close>, the lookup of a
  tool, and \<open>validate_connector_manifest\<close>, which returns a detached copy.  A spec is generic in how
  its schemas are read: connector code supplies object graphs, the registry holds frozen trees.
\<close>

section \<open>Declarations\<close>

record 'n tool_spec =
  tool_key :: pyval
  mcp_name :: pyval
  tool_description :: pyval
  input_schema :: 'n
  output_schema :: 'n
  operation_kind :: pyval
  default_timeout_ms :: pyval
  cache_ttl_seconds :: pyval

text \<open>An element of \<open>tools\<close>: a \<open>ToolSpec\<close>, or another object with the two names.\<close>

datatype 'n tool_obj = IsTool "'n tool_spec" | NotTool pyval pyval

fun tool_names :: "'n tool_obj \<Rightarrow> pyval \<times> pyval" where
  "tool_names (IsTool t) = (tool_key t, mcp_name t)"
| "tool_names (NotTool k m) = (k, m)"

record 'n connector_spec =
  connector_key :: pyval
  spec_tools :: "'n tool_obj list"
  supports_sync :: pyval
  spec_version :: pyval
  config_schema :: 'n
  credential_schema :: 'n
  supports_data_modes :: pyval

text \<open>
  The set display \<open>{tool.tool_key, tool.mcp_name}\<close>, as its one or two elements: a value that
  cannot be hashed raises \<open>TypeError\<close>.
\<close>

definition unhashable_error :: exc where
  "unhashable_error = Exc TypeError ''unhashable type''"

definition name_set :: "pyval \<Rightarrow> pyval \<Rightarrow> pyval list result" where
  "name_set k m =
     (if hashable k \<and> hashable m then Inr (if py_eq k m then [k] else [k, m])
      else Inl unhashable_error)"

text \<open>One identifier after the other enters the set \<open>identifiers\<close> unless it is already there.\<close>

definition add_identifiers :: "exc \<Rightarrow> pyval list \<Rightarrow> pyval \<times> pyval \<Rightarrow> pyval list result" where
  "add_identifiers dup ids names =
     bindR (name_set (fst names) (snd names))
       (foldR (\<lambda>ids i. if py_in i ids then Inl dup else Inr (ids @ [i])) ids)"

definition duplicate_identifier :: exc where
  "duplicate_identifier = Exc ValueError ''duplicate tool identifier in ConnectorSpec''"

text \<open>\<open>ConnectorSpec(...)\<close> with its \<open>__post_init__\<close>.\<close>

definition make_connector_spec :: "'n connector_spec \<Rightarrow> 'n connector_spec result" where
  "make_connector_spec s =
     bindR (foldR (\<lambda>ids t. add_identifiers duplicate_identifier ids (tool_names t)) [] (spec_tools s))
       (\<lambda>_. Inr s)"

text \<open>\<open>ConnectorSpec.tool\<close>: the first tool whose key or MCP name it is.\<close>

definition find_tool :: "'n connector_spec \<Rightarrow> string \<Rightarrow> 'n tool_obj result" where
  "find_tool s key =
     (case find (\<lambda>t. py_eq (fst (tool_names t)) (PStr key) \<or> py_eq (snd (tool_names t)) (PStr key))
        (spec_tools s) of
        Some t \<Rightarrow> Inr t
      | None \<Rightarrow> Inl (Exc KeyError (''unknown tool_key: '' @ key)))"

section \<open>Patterns of the registry\<close>

definition key_rest :: "char \<Rightarrow> bool" where
  "key_rest c \<longleftrightarrow> ascii_lower c \<or> ascii_digit c \<or> c = CHR ''_'' \<or> c = CHR ''-''"

text \<open>\<open>^[a-z][a-z0-9_-]{0,63}$\<close>\<close>

definition connector_key_re :: "string \<Rightarrow> bool" where
  "connector_key_re = first_rest ascii_lower key_rest 63"

text \<open>
  \<open>^[0-9]+(?:\.[0-9]+){0,2}(?:[-+][A-Za-z0-9][A-Za-z0-9.-]*)?$\<close>: the numbers reach up to the first
  sign.
\<close>

definition version_suffix_re :: "string \<Rightarrow> bool" where
  "version_suffix_re s =
     (case s of [] \<Rightarrow> True
      | [_] \<Rightarrow> False
      | _ # c # cs \<Rightarrow> ascii_alnum c \<and> list_all (\<lambda>d. ascii_alnum d \<or> d = CHR ''.'' \<or> d = CHR ''-'') cs)"

definition manifest_version_re :: "string \<Rightarrow> bool" where
  "manifest_version_re s =
     (let sign = (\<lambda>c. c = CHR ''-'' \<or> c = CHR ''+'');
          numbers = split_on CHR ''.'' (takeWhile (\<lambda>c. \<not> sign c) s)
      in length numbers \<le> 3 \<and> list_all (\<lambda>n. n \<noteq> [] \<and> list_all ascii_digit n) numbers \<and>
         version_suffix_re (dropWhile (\<lambda>c. \<not> sign c) s))"

text \<open>\<open>re.Pattern.fullmatch\<close> of a value: not a string, and it raises \<open>TypeError\<close>.\<close>

definition fullmatch :: "(string \<Rightarrow> bool) \<Rightarrow> pyval \<Rightarrow> bool result" where
  "fullmatch re v =
     (case v of PStr s \<Rightarrow> Inr (re s)
      | _ \<Rightarrow> Inl (Exc TypeError ''expected string or bytes-like object''))"

section \<open>validate\_connector\_manifest\<close>

abbreviation value_error :: "string \<Rightarrow> exc" where
  "value_error m \<equiv> Exc ValueError m"

abbreviation bad_manifest :: exc where
  "bad_manifest \<equiv> value_error ''invalid connector manifest''"

definition is_map_node :: "('i, 'n) shape \<Rightarrow> bool" where
  "is_map_node x \<longleftrightarrow> (case x of SMap _ _ \<Rightarrow> True | _ \<Rightarrow> False)"

definition DATA_MODES :: "string list" where
  "DATA_MODES = [''direct'', ''stored'', ''hybrid'']"

text \<open>\<open>len(modes) != len(set(modes))\<close> and \<open>mode not in {...}\<close> on the elements of a tuple.\<close>

definition data_modes_ok :: "pyval \<Rightarrow> bool result" where
  "data_modes_ok v =
     (case v of
        PTuple [] \<Rightarrow> Inr False
      | PTuple modes \<Rightarrow>
          (if \<not> list_all hashable modes then Inl unhashable_error
           else Inr (distinct modes \<and> list_all (\<lambda>m. m \<in> PStr ` set DATA_MODES) modes))
      | _ \<Rightarrow> Inr False)"

definition check_tool :: "('n \<Rightarrow> ('i, 'n) shape) \<Rightarrow> 'n tool_spec \<Rightarrow> unit result" where
  "check_tool look t =
     (let ident = (\<lambda>v. case v of PStr s \<Rightarrow> ident_re s | _ \<Rightarrow> False) in
      bindR (require (ident (tool_key t)) (value_error ''invalid connector tool identifier'')) (\<lambda>_.
      bindR (require (ident (mcp_name t)) (value_error ''invalid connector tool identifier'')) (\<lambda>_.
      bindR (require (hashable (operation_kind t)) unhashable_error) (\<lambda>_.
      bindR (require (operation_kind t \<in> {PStr ''read'', PStr ''write''})
          (value_error ''invalid connector tool operation'')) (\<lambda>_.
      bindR (require (case tool_description t of
            PStr s \<Rightarrow> s \<noteq> [] \<and> length s \<le> 2048 \<and> \<not> has_control_characters s | _ \<Rightarrow> False)
          (value_error ''invalid connector tool description'')) (\<lambda>_.
      bindR (require (case default_timeout_ms t of PInt i \<Rightarrow> 0 < i | _ \<Rightarrow> False)
          (value_error ''invalid connector tool timeout'')) (\<lambda>_.
      bindR (require (case cache_ttl_seconds t of PNone \<Rightarrow> True | PInt i \<Rightarrow> 0 \<le> i | _ \<Rightarrow> False)
          (value_error ''invalid connector tool cache ttl'')) (\<lambda>_.
      require (is_map_node (look (input_schema t)) \<and>
          (look (output_schema t) = SNone \<or> is_map_node (look (output_schema t))))
        (value_error ''invalid connector tool schema'')))))))))"

definition freeze_tool :: "('n \<Rightarrow> ('i, 'n) shape) \<Rightarrow> 'n tool_spec \<Rightarrow> pyval tool_spec result" where
  "freeze_tool look t =
     bindR (freeze_json_tree look ''tool schema'' (input_schema t)) (\<lambda>inp.
     bindR (if look (output_schema t) = SNone then Inr PNone
            else freeze_json_tree look ''tool schema'' (output_schema t)) (\<lambda>out.
     Inr \<lparr>tool_key = tool_key t, mcp_name = mcp_name t, tool_description = tool_description t,
          input_schema = inp, output_schema = out, operation_kind = operation_kind t,
          default_timeout_ms = default_timeout_ms t, cache_ttl_seconds = cache_ttl_seconds t\<rparr>))"

text \<open>One round of the loop over \<open>spec.tools\<close>: the identifiers seen and the tools frozen so far.\<close>

definition validate_tool ::
  "('n \<Rightarrow> ('i, 'n) shape) \<Rightarrow> pyval list \<times> pyval tool_obj list \<Rightarrow> 'n tool_obj
     \<Rightarrow> (pyval list \<times> pyval tool_obj list) result" where
  "validate_tool look acc tool =
     (case tool of
        NotTool _ _ \<Rightarrow> Inl (value_error ''invalid connector tool'')
      | IsTool t \<Rightarrow>
          bindR (check_tool look t) (\<lambda>_.
          bindR (add_identifiers bad_manifest (fst acc) (tool_key t, mcp_name t)) (\<lambda>ids.
          bindR (freeze_tool look t) (\<lambda>t'. Inr (ids, snd acc @ [IsTool t'])))))"

text \<open>\<open>spec\<close> is \<open>None\<close> for an object that is no \<open>ConnectorSpec\<close>.\<close>

definition validate_connector_manifest ::
  "('n \<Rightarrow> ('i, 'n) shape) \<Rightarrow> string option \<Rightarrow> bool \<Rightarrow> 'n connector_spec option
     \<Rightarrow> pyval connector_spec result" where
  "validate_connector_manifest look expected require_version spec =
     (case spec of
        None \<Rightarrow> Inl bad_manifest
      | Some s \<Rightarrow>
          bindR (fullmatch connector_key_re (connector_key s)) (\<lambda>key_ok.
          bindR (require key_ok bad_manifest) (\<lambda>_.
          bindR (require (case expected of None \<Rightarrow> True | Some k \<Rightarrow> connector_key s = PStr k)
              (value_error ''connector entry-point identity mismatch'')) (\<lambda>_.
          bindR (require (case spec_version s of
                PStr v \<Rightarrow> require_version \<longrightarrow> v = py_strip v \<and> manifest_version_re v
              | _ \<Rightarrow> False) (value_error ''connector manifest version is invalid'')) (\<lambda>_.
          bindR (require (is_map_node (look (config_schema s)) \<and> is_map_node (look (credential_schema s)))
              bad_manifest) (\<lambda>_.
          bindR (require (is_bool (supports_sync s)) bad_manifest) (\<lambda>_.
          bindR (data_modes_ok (supports_data_modes s)) (\<lambda>modes_ok.
          bindR (require modes_ok bad_manifest) (\<lambda>_.
          bindR (foldR (validate_tool look) ([], []) (spec_tools s)) (\<lambda>acc.
          bindR (freeze_json_tree look ''config schema'' (config_schema s)) (\<lambda>config.
          bindR (freeze_json_tree look ''credential schema'' (credential_schema s)) (\<lambda>credential.
          make_connector_spec
            \<lparr>connector_key = connector_key s, spec_tools = snd acc, supports_sync = supports_sync s,
             spec_version = spec_version s, config_schema = config, credential_schema = credential,
             supports_data_modes = supports_data_modes s\<rparr>))))))))))))"

section \<open>A validated manifest validates to itself\<close>

lemma freeze_map_node:
  assumes "freeze_json_tree look f n = Inr t" and "is_map_node (look n)"
  shows "is_map_node (look_tree t)"
proof -
  obtain i ms where "look n = SMap i ms"
    using assms(2) by (auto simp: is_map_node_def split: shape.splits)
  then show ?thesis using assms(1) unfolding freeze_json_tree_def
    by (subst (asm) freeze.simps) (auto simp: is_map_node_def split: if_splits)
qed

lemma freeze_again: "freeze_json_tree look f n = Inr t \<Longrightarrow> freeze_json_tree look_tree f t = Inr t"
  by (drule freeze_json_tree_sound) (simp add: freeze_json_tree_frozen)

lemma is_map_not_none: "is_map_node x \<Longrightarrow> x \<noteq> SNone"
  by (auto simp: is_map_node_def)

lemma check_tool_schemas:
  assumes "check_tool look t = Inr ()"
  shows "is_map_node (look (input_schema t))"
    "look (output_schema t) = SNone \<or> is_map_node (look (output_schema t))"
  using assms by (simp_all add: check_tool_def Let_def split: if_splits)

lemma check_tool_cong:
  assumes "check_tool look t = Inr ()"
    and "tool_key t' = tool_key t" "mcp_name t' = mcp_name t" "operation_kind t' = operation_kind t"
      "tool_description t' = tool_description t" "default_timeout_ms t' = default_timeout_ms t"
      "cache_ttl_seconds t' = cache_ttl_seconds t"
    and "is_map_node (look' (input_schema t'))"
      "look' (output_schema t') = SNone \<or> is_map_node (look' (output_schema t'))"
  shows "check_tool look' t' = Inr ()"
  using assms(1) unfolding check_tool_def Let_def assms(2-7) using assms(8,9)
  by (simp split: if_splits)

lemma freeze_tool_again:
  assumes "check_tool look t = Inr ()" and "freeze_tool look t = Inr t'"
  shows "check_tool look_tree t' = Inr ()" "freeze_tool look_tree t' = Inr t'"
    "tool_key t' = tool_key t" "mcp_name t' = mcp_name t"
proof -
  from assms(2) obtain inp out where
    inp: "freeze_json_tree look ''tool schema'' (input_schema t) = Inr inp"
    and out: "(if look (output_schema t) = SNone then Inr PNone
            else freeze_json_tree look ''tool schema'' (output_schema t)) = Inr out"
    and t': "t' = \<lparr>tool_key = tool_key t, mcp_name = mcp_name t, tool_description = tool_description t,
          input_schema = inp, output_schema = out, operation_kind = operation_kind t,
          default_timeout_ms = default_timeout_ms t, cache_ttl_seconds = cache_ttl_seconds t\<rparr>"
    by (auto simp: freeze_tool_def)
  note schemas = check_tool_schemas [OF assms(1)]
  have inp_map: "is_map_node (look_tree inp)" by (rule freeze_map_node [OF inp schemas(1)])
  have out_cases: "out = PNone \<or> is_map_node (look_tree out) \<and>
      freeze_json_tree look_tree ''tool schema'' out = Inr out"
    using out schemas(2) freeze_map_node freeze_again by (cases "look (output_schema t) = SNone") auto
  show "check_tool look_tree t' = Inr ()"
    by (rule check_tool_cong [OF assms(1)]) (use inp_map out_cases in \<open>auto simp: t'\<close>)
  show "freeze_tool look_tree t' = Inr t'"
    using freeze_again [OF inp] out_cases is_map_not_none by (auto simp: freeze_tool_def t')
  show "tool_key t' = tool_key t" "mcp_name t' = mcp_name t" by (simp_all add: t')
qed

lemma validate_tool_again:
  assumes "validate_tool look (ids, ts) tool = Inr (ids', ts')"
  shows "\<exists>t'. ts' = ts @ [IsTool t'] \<and>
     (\<forall>ts0. validate_tool look_tree (ids, ts0) (IsTool t') = Inr (ids', ts0 @ [IsTool t']))"
proof -
  from assms obtain t t' where "tool = IsTool t" and c: "check_tool look t = Inr ()"
    and ids: "add_identifiers bad_manifest ids (tool_key t, mcp_name t) = Inr ids'"
    and f: "freeze_tool look t = Inr t'" and ts': "ts' = ts @ [IsTool t']"
    by (auto simp: validate_tool_def split: tool_obj.splits)
  show ?thesis using freeze_tool_again [OF c f] ids ts'
    by (intro exI [of _ t']) (simp add: validate_tool_def)
qed

lemma validate_tools_again:
  assumes "foldR (validate_tool look) (ids, ts) tools = Inr (ids', ts')"
  shows "\<exists>new. ts' = ts @ new \<and>
     (\<forall>ts0. foldR (validate_tool look_tree) (ids, ts0) new = Inr (ids', ts0 @ new))"
  using assms
proof (induction tools arbitrary: ids ts)
  case Nil
  then show ?case by simp
next
  case (Cons tool tools)
  from Cons.prems obtain ids1 ts1 where
    one: "validate_tool look (ids, ts) tool = Inr (ids1, ts1)"
    and rest: "foldR (validate_tool look) (ids1, ts1) tools = Inr (ids', ts')"
    by auto
  from validate_tool_again [OF one] obtain t' where t': "ts1 = ts @ [IsTool t']"
    "\<forall>ts0. validate_tool look_tree (ids, ts0) (IsTool t') = Inr (ids1, ts0 @ [IsTool t'])" by blast
  from Cons.IH [OF rest] obtain new where new: "ts' = ts1 @ new"
    "\<forall>ts0. foldR (validate_tool look_tree) (ids1, ts0) new = Inr (ids', ts0 @ new)" by blast
  show ?case by (intro exI [of _ "IsTool t' # new"]) (simp add: t' new)
qed

text \<open>What a successful validation has established.\<close>

lemma validate_manifest_Inr:
  assumes "validate_connector_manifest look e rv spec = Inr s'"
  obtains s ids tools where "spec = Some s"
    "fullmatch connector_key_re (connector_key s) = Inr True"
    "case e of None \<Rightarrow> True | Some k \<Rightarrow> connector_key s = PStr k"
    "case spec_version s of PStr v \<Rightarrow> rv \<longrightarrow> v = py_strip v \<and> manifest_version_re v | _ \<Rightarrow> False"
    "is_map_node (look (config_schema s))" "is_map_node (look (credential_schema s))"
    "is_bool (supports_sync s)" "data_modes_ok (supports_data_modes s) = Inr True"
    "foldR (validate_tool look) ([], []) (spec_tools s) = Inr (ids, tools)"
    "freeze_json_tree look ''config schema'' (config_schema s) = Inr (config_schema s')"
    "freeze_json_tree look ''credential schema'' (credential_schema s) = Inr (credential_schema s')"
    "make_connector_spec s' = Inr s'"
    "connector_key s' = connector_key s" "spec_tools s' = tools" "supports_sync s' = supports_sync s"
    "spec_version s' = spec_version s" "supports_data_modes s' = supports_data_modes s"
proof (cases spec)
  case None
  with assms show thesis by (simp add: validate_connector_manifest_def)
next
  case (Some s)
  from assms Some obtain ids tools config credential where
    pre: "fullmatch connector_key_re (connector_key s) = Inr True"
      "case e of None \<Rightarrow> True | Some k \<Rightarrow> connector_key s = PStr k"
      "case spec_version s of PStr v \<Rightarrow> rv \<longrightarrow> v = py_strip v \<and> manifest_version_re v | _ \<Rightarrow> False"
      "is_map_node (look (config_schema s))" "is_map_node (look (credential_schema s))"
      "is_bool (supports_sync s)" "data_modes_ok (supports_data_modes s) = Inr True"
    and fold: "foldR (validate_tool look) ([], []) (spec_tools s) = Inr (ids, tools)"
    and config: "freeze_json_tree look ''config schema'' (config_schema s) = Inr config"
    and credential: "freeze_json_tree look ''credential schema'' (credential_schema s) = Inr credential"
    and made: "make_connector_spec \<lparr>connector_key = connector_key s, spec_tools = tools,
       supports_sync = supports_sync s, spec_version = spec_version s, config_schema = config,
       credential_schema = credential, supports_data_modes = supports_data_modes s\<rparr> = Inr s'"
    unfolding validate_connector_manifest_def by (auto split: if_splits)
  have s': "s' = \<lparr>connector_key = connector_key s, spec_tools = tools,
       supports_sync = supports_sync s, spec_version = spec_version s, config_schema = config,
       credential_schema = credential, supports_data_modes = supports_data_modes s\<rparr>"
    using made by (simp add: make_connector_spec_def)
  show thesis
    by (rule that [OF Some pre fold]) (use config credential made s' in simp_all)
qed

lemma validate_manifest_again:
  assumes "validate_connector_manifest look e rv spec = Inr s'"
  shows "validate_connector_manifest look_tree e rv (Some s') = Inr s'"
  using assms
proof (cases rule: validate_manifest_Inr)
  case (1 s ids tools)
  have "foldR (validate_tool look_tree) ([], []) tools = Inr (ids, tools)"
    using validate_tools_again [OF 1(9)] by auto
  moreover have "is_map_node (look_tree (config_schema s'))" "is_map_node (look_tree (credential_schema s'))"
    using freeze_map_node [OF 1(10)] freeze_map_node [OF 1(11)] 1(5,6) by simp_all
  moreover have pre: "fullmatch connector_key_re (connector_key s') = Inr True"
    "case e of None \<Rightarrow> True | Some k \<Rightarrow> connector_key s' = PStr k"
    "case spec_version s' of PStr v \<Rightarrow> rv \<longrightarrow> v = py_strip v \<and> manifest_version_re v | _ \<Rightarrow> False"
    "is_bool (supports_sync s')" "data_modes_ok (supports_data_modes s') = Inr True"
    using 1(2,3,4,7,8) by (simp_all only: 1(13,15-17))
  moreover have "\<lparr>connector_key = connector_key s', spec_tools = tools, supports_sync = supports_sync s',
      spec_version = spec_version s', config_schema = config_schema s',
      credential_schema = credential_schema s', supports_data_modes = supports_data_modes s'\<rparr> = s'"
    by (simp add: 1(14) [symmetric])
  ultimately show ?thesis
    using freeze_again [OF 1(10)] freeze_again [OF 1(11)] 1(12)
    unfolding validate_connector_manifest_def option.case 1(14)
    by (simp only: bindR.simps bindR_require simp_thms if_True snd_conv)
qed

text \<open>A manifest that passes with an expected key passes without one.\<close>

lemma validate_without_expected:
  assumes "validate_connector_manifest look e rv spec = Inr s"
  shows "validate_connector_manifest look None rv spec = Inr s"
proof (cases e)
  case (Some k)
  with assms show ?thesis
    by (cases spec) (auto simp: validate_connector_manifest_def split: if_splits)
qed (use assms in simp)

section \<open>The identifiers of a validated manifest\<close>

fun str_of :: "pyval \<Rightarrow> string" where
  "str_of (PStr s) = s"
| "str_of _ = []"

definition tool_idents :: "'n tool_obj \<Rightarrow> string list" where
  "tool_idents t = [str_of (fst (tool_names t)), str_of (snd (tool_names t))]"

text \<open>A tool whose two names are proper identifiers.\<close>

definition named_tool :: "'n tool_obj \<Rightarrow> bool" where
  "named_tool tool \<longleftrightarrow> (\<exists>t k m. tool = IsTool t \<and> tool_key t = PStr k \<and> mcp_name t = PStr m \<and>
     ident_re k \<and> ident_re m)"

definition disjoint_idents :: "'n tool_obj list \<Rightarrow> bool" where
  "disjoint_idents = sorted_wrt (\<lambda>t u. set (tool_idents t) \<inter> set (tool_idents u) = {})"

lemma py_eq_str [simp]: "py_eq (PStr s) (PStr t) = (s = t)"
  by (simp add: py_eq.simps)

lemma py_in_strs: "py_in (PStr s) (map PStr ss) = (s \<in> set ss)"
  by (auto simp: py_in_def list_ex_iff)

lemma add_identifiers_strs:
  assumes "add_identifiers dup (map PStr ss) (PStr k, PStr m) = Inr ids"
  obtains ss' where "ids = map PStr ss'" "set ss' = set ss \<union> {k, m}" "k \<notin> set ss" "m \<notin> set ss"
proof (cases "k = m")
  case True
  then show thesis
    using assms that [of "ss @ [k]"] by (simp add: add_identifiers_def name_set_def py_in_strs split: if_splits)
next
  case False
  have "map PStr ss @ [PStr k] = map PStr (ss @ [k])" by simp
  then have "py_in (PStr m) (map PStr ss @ [PStr k]) = (m \<in> set ss \<or> m = k)"
    by (simp only: py_in_strs) auto
  with False assms that [of "ss @ [k, m]"] show thesis
    by (simp add: add_identifiers_def name_set_def py_in_strs split: if_splits)
qed

lemma check_tool_idents:
  assumes "check_tool look t = Inr ()"
  obtains k m where "tool_key t = PStr k" "mcp_name t = PStr m" "ident_re k" "ident_re m"
  using assms by (auto simp: check_tool_def Let_def split: if_splits pyval.splits)

definition tools_inv :: "pyval list \<times> pyval tool_obj list \<Rightarrow> bool" where
  "tools_inv acc \<longleftrightarrow> list_all named_tool (snd acc) \<and> disjoint_idents (snd acc) \<and>
     (\<exists>ss. fst acc = map PStr ss \<and> set ss = \<Union> (set ` tool_idents ` set (snd acc)))"

lemma validate_tool_inv:
  assumes "validate_tool look acc tool = Inr acc'" and "tools_inv acc"
  shows "tools_inv acc'"
proof -
  from assms(2) obtain ss where ss: "fst acc = map PStr ss"
    "set ss = \<Union> (set ` tool_idents ` set (snd acc))" by (auto simp: tools_inv_def)
  from assms(1) obtain t t' ids where c: "check_tool look t = Inr ()"
    and ids: "add_identifiers bad_manifest (fst acc) (tool_key t, mcp_name t) = Inr ids"
    and f: "freeze_tool look t = Inr t'" and acc': "acc' = (ids, snd acc @ [IsTool t'])"
    by (auto simp: validate_tool_def split: tool_obj.splits)
  obtain k m where km: "tool_key t = PStr k" "mcp_name t = PStr m" "ident_re k" "ident_re m"
    using c by (rule check_tool_idents)
  note names = freeze_tool_again(3,4) [OF c f, unfolded km]
  obtain ss' where ss': "ids = map PStr ss'" "set ss' = set ss \<union> {k, m}" "k \<notin> set ss" "m \<notin> set ss"
    using ids unfolding ss(1) km by (rule add_identifiers_strs)
  have idents: "tool_idents (IsTool t') = [k, m]" by (simp add: tool_idents_def names)
  have "disjoint_idents (snd acc @ [IsTool t'])"
    using assms(2) ss(2) ss'(3,4) by (fastforce simp: tools_inv_def disjoint_idents_def sorted_wrt_append idents)
  moreover have "named_tool (IsTool t')" using names km by (simp add: named_tool_def)
  ultimately show ?thesis
    using assms(2) ss(2) ss' by (auto simp: tools_inv_def acc' idents intro!: exI [of _ ss'])
qed

lemma validate_tools_inv:
  assumes "foldR (validate_tool look) ([], []) tools = Inr acc"
  shows "tools_inv acc"
proof (rule foldR_invariant [OF assms])
  show "tools_inv ([], [])" by (simp add: tools_inv_def disjoint_idents_def)
qed (blast intro: validate_tool_inv)

lemma validated_tools:
  assumes "validate_connector_manifest look e rv spec = Inr s"
  shows "list_all named_tool (spec_tools s)" "disjoint_idents (spec_tools s)"
proof -
  obtain ids tools where "foldR (validate_tool look) ([], []) (spec_tools (the spec)) = Inr (ids, tools)"
    "spec_tools s = tools" using assms by (cases rule: validate_manifest_Inr) auto
  then have "tools_inv (ids, spec_tools s)" using validate_tools_inv by simp
  then show "list_all named_tool (spec_tools s)" "disjoint_idents (spec_tools s)"
    by (simp_all add: tools_inv_def)
qed

lemma validated_key:
  assumes "validate_connector_manifest look e rv spec = Inr s"
  obtains k where "connector_key s = PStr k" "connector_key_re k" "e = None \<or> e = Some k"
proof -
  have "fullmatch connector_key_re (connector_key s) = Inr True \<and>
      (case e of None \<Rightarrow> True | Some k \<Rightarrow> connector_key s = PStr k)"
    using assms
  proof (cases rule: validate_manifest_Inr)
    case (1 s0 ids tools)
    then show ?thesis by (simp only: 1(13))
  qed
  then show thesis by (cases "connector_key s") (auto simp: fullmatch_def intro: that split: option.splits)
qed

lemma find_disjoint:
  assumes "disjoint_idents ts" and "t \<in> set ts" and "n \<in> set (tool_idents t)"
  shows "find (\<lambda>t. n \<in> set (tool_idents t)) ts = Some t"
  using assms by (induction ts) (auto simp: disjoint_idents_def)

lemma find_tool_named:
  assumes "list_all named_tool (spec_tools s)"
  shows "find_tool s key =
     (case find (\<lambda>t. key \<in> set (tool_idents t)) (spec_tools s) of
        Some t \<Rightarrow> Inr t | None \<Rightarrow> Inl (Exc KeyError (''unknown tool_key: '' @ key)))"
proof -
  have "find (\<lambda>t. py_eq (fst (tool_names t)) (PStr key) \<or> py_eq (snd (tool_names t)) (PStr key)) ts
      = find (\<lambda>t. key \<in> set (tool_idents t)) ts" if "list_all named_tool ts" for ts :: "'a tool_obj list"
    using that by (induction ts) (auto simp: named_tool_def tool_idents_def)
  with assms show ?thesis by (simp add: find_tool_def)
qed

text \<open>a validated manifest is sound and final.  When \<open>validate_connector_manifest\<close> returns, the
  connector key matches its pattern and the expected key; every tool has two well-formed identifiers
  that no other tool of the manifest shares, so each of them resolves to exactly that tool; and
  validating the returned manifest again returns it unchanged.\<close>

theorem validated_manifest_final:
  assumes "validate_connector_manifest look expected require_version spec = Inr s"
  shows "(\<exists>k. connector_key s = PStr k \<and> connector_key_re k \<and> (expected = None \<or> expected = Some k)) \<and>
     (\<forall>t\<in>set (spec_tools s). named_tool t \<and> (\<forall>n\<in>set (tool_idents t). find_tool s n = Inr t)) \<and>
     validate_connector_manifest look_tree expected require_version (Some s) = Inr s"
proof -
  note tools = validated_tools [OF assms]
  have "named_tool t \<and> (\<forall>n\<in>set (tool_idents t). find_tool s n = Inr t)" if "t \<in> set (spec_tools s)" for t
    using that tools find_disjoint [OF tools(2) that] find_tool_named [OF tools(1)]
    by (simp add: list_all_iff)
  moreover have "\<exists>k. connector_key s = PStr k \<and> connector_key_re k \<and> (expected = None \<or> expected = Some k)"
    using assms by (metis validated_key)
  ultimately show ?thesis using validate_manifest_again [OF assms] by blast
qed

definition demo_tool :: "string \<Rightarrow> string \<Rightarrow> 'n \<Rightarrow> 'n \<Rightarrow> 'n tool_spec" where
  "demo_tool k m inp out = \<lparr>tool_key = PStr k, mcp_name = PStr m, tool_description = PStr ''d'',
     input_schema = inp, output_schema = out, operation_kind = PStr ''read'',
     default_timeout_ms = PInt 1000, cache_ttl_seconds = PNone\<rparr>"

definition demo_spec :: "string \<Rightarrow> 'n tool_obj list \<Rightarrow> 'n \<Rightarrow> 'n connector_spec" where
  "demo_spec k tools sch = \<lparr>connector_key = PStr k, spec_tools = tools, supports_sync = PBool False,
     spec_version = PStr ''1.0'', config_schema = sch, credential_schema = sch,
     supports_data_modes = PTuple [PStr ''direct'']\<rparr>"

definition demo_spec_heap :: "href connector_spec" where
  "demo_spec_heap = demo_spec ''crm'' [IsTool (demo_tool ''find'' ''crm_find'' (HRef 0) HNone)] (HRef 0)"

lemma demo_spec_heap_valid:
  "validate_connector_manifest (look_heap demo_heap) (Some ''crm'') True (Some demo_spec_heap) =
     Inr (demo_spec ''crm'' [IsTool (demo_tool ''find'' ''crm_find''
         (PMap [(PStr ''a'', PTuple [PInt 5]), (PStr ''b'', PTuple [PInt 5])]) PNone)]
         (PMap [(PStr ''a'', PTuple [PInt 5]), (PStr ''b'', PTuple [PInt 5])]))"
  by code_simp

theorem validated_manifest_final_witness:
  "\<exists>s. validate_connector_manifest (look_heap demo_heap) (Some ''crm'') True (Some demo_spec_heap) = Inr s \<and>
     validate_connector_manifest look_tree (Some ''crm'') True (Some s) = Inr s"
  using validated_manifest_final [OF demo_spec_heap_valid] demo_spec_heap_valid by blast

end
