(* ===== verification/Registry.thy ===== *)
theory Registry
  imports Contracts
begin

text \<open>
  \<open>ConnectorRegistry\<close> of \<open>app/connectors/registry.py\<close>: the connectors the application supplied, their
  frozen manifests, the owner of every tool identifier, and which connectors came from package
  discovery.  A connector object is opaque (\<open>'c\<close>); \<open>connector.spec()\<close> is the parameter \<open>spec_of\<close>,
  which may raise.
\<close>

record 'c registry =
  reg_connectors :: "(string, 'c) dict"
  reg_specs :: "(string, pyval connector_spec) dict"
  reg_identities :: "(string, string) dict"
  reg_discovered :: "string list"

definition empty_registry :: "'c registry" where
  "empty_registry = \<lparr>reg_connectors = [], reg_specs = [], reg_identities = [], reg_discovered = []\<rparr>"

definition RESERVED_CONNECTOR_KEYS :: "string list" where
  "RESERVED_CONNECTOR_KEYS = [''http_declarative'']"

abbreviation spec_key :: "'n connector_spec \<Rightarrow> string" where
  "spec_key s \<equiv> str_of (connector_key s)"

definition candidate_identities :: "'n connector_spec \<Rightarrow> string list" where
  "candidate_identities s = remdups (concat (map tool_idents (spec_tools s)))"

section \<open>Registration\<close>

definition validate_against ::
  "pyval connector_spec \<Rightarrow> string list \<Rightarrow> (string, string) dict \<Rightarrow> string list result" where
  "validate_against s connectors identities =
     (let key = spec_key s; cand = candidate_identities s in
      if key \<in> set RESERVED_CONNECTOR_KEYS
      then Inl (value_error (''reserved connector_key: '' @ key))
      else if key \<in> set connectors
      then Inl (value_error (''duplicate connector_key: '' @ key))
      else if key \<in> set cand \<or> map_of identities key \<noteq> None \<or> list_ex (\<lambda>i. i \<in> set connectors) cand
      then Inl (value_error ''cross-namespace connector identity collision'')
      else if list_ex (\<lambda>i. map_of identities i \<noteq> None) cand
      then Inl (value_error ''duplicate tool identifier across connectors'')
      else Inr cand)"

definition own_identities :: "string \<Rightarrow> string list \<Rightarrow> (string, string) dict \<Rightarrow> (string, string) dict" where
  "own_identities key cand ids = foldl (\<lambda>d i. AList.update i key d) ids cand"

definition registration_of :: "'c registry \<Rightarrow> pyval connector_spec \<Rightarrow> string list result" where
  "registration_of r s = validate_against s (map fst (reg_connectors r)) (reg_identities r)"

text \<open>\<open>_register\<close>\<close>

definition register_spec :: "'c registry \<Rightarrow> 'c \<Rightarrow> pyval connector_spec \<Rightarrow> 'c registry result" where
  "register_spec r c s =
     bindR (registration_of r s) (\<lambda>cand.
       Inr (r\<lparr>reg_connectors := AList.update (spec_key s) c (reg_connectors r),
              reg_specs := AList.update (spec_key s) s (reg_specs r),
              reg_identities := own_identities (spec_key s) cand (reg_identities r)\<rparr>))"

definition register ::
  "('n \<Rightarrow> ('i, 'n) shape) \<Rightarrow> ('c \<Rightarrow> 'n connector_spec option result) \<Rightarrow> 'c registry \<Rightarrow> 'c
     \<Rightarrow> 'c registry result" where
  "register look spec_of r c =
     bindR (spec_of c) (\<lambda>spec.
     bindR (validate_connector_manifest look None False spec) (\<lambda>s. register_spec r c s))"

definition new_registry ::
  "('n \<Rightarrow> ('i, 'n) shape) \<Rightarrow> ('c \<Rightarrow> 'n connector_spec option result) \<Rightarrow> 'c list \<Rightarrow> 'c registry result" where
  "new_registry look spec_of cs = foldR (register look spec_of) empty_registry cs"

definition register_validated ::
  "('n \<Rightarrow> ('i, 'n) shape) \<Rightarrow> 'c registry \<Rightarrow> 'c \<Rightarrow> 'n connector_spec option \<Rightarrow> bool \<Rightarrow> 'c registry result" where
  "register_validated look r c spec discovered =
     bindR (validate_connector_manifest look None True spec) (\<lambda>s.
     bindR (register_spec r c s) (\<lambda>r'.
     Inr (if discovered then r'\<lparr>reg_discovered := List.insert (spec_key s) (reg_discovered r')\<rparr> else r')))"

definition validate_registration ::
  "('n \<Rightarrow> ('i, 'n) shape) \<Rightarrow> 'c registry \<Rightarrow> 'n connector_spec option \<Rightarrow> unit result" where
  "validate_registration look r spec =
     bindR (validate_connector_manifest look None True spec) (\<lambda>s.
     bindR (registration_of r s) (\<lambda>_. Inr ()))"

section \<open>Discovered batches\<close>

definition clear_discovered_connectors :: "'c registry \<Rightarrow> 'c registry" where
  "clear_discovered_connectors r =
     (if reg_discovered r = [] then r
      else let stale = reg_discovered r in
        r\<lparr>reg_connectors := foldl (\<lambda>d k. AList.delete k d) (reg_connectors r) stale,
          reg_specs := foldl (\<lambda>d k. AList.delete k d) (reg_specs r) stale,
          reg_identities := filter (\<lambda>(i, owner). owner \<notin> set stale) (reg_identities r),
          reg_discovered := []\<rparr>)"

text \<open>\<open>_base_without_discovered\<close>, its three tables as a registry without discoveries.\<close>

definition base_without_discovered :: "'c registry \<Rightarrow> 'c registry" where
  "base_without_discovered r =
     (let stale = reg_discovered r in
      \<lparr>reg_connectors = filter (\<lambda>(k, c). k \<notin> set stale) (reg_connectors r),
       reg_specs = filter (\<lambda>(k, s). k \<notin> set stale) (reg_specs r),
       reg_identities = filter (\<lambda>(i, owner). owner \<notin> set stale) (reg_identities r),
       reg_discovered = []\<rparr>)"

text \<open>
  One spec of a batch against the keys and identities reserved so far: the snapshot, and what is
  reserved after it.
\<close>

definition reserve ::
  "('n \<Rightarrow> ('i, 'n) shape) \<Rightarrow> string list \<Rightarrow> (string, string) dict \<Rightarrow> 'n connector_spec option
     \<Rightarrow> (string list \<times> (string, string) dict \<times> pyval connector_spec) result" where
  "reserve look keys ids spec =
     bindR (validate_connector_manifest look None True spec) (\<lambda>s.
     bindR (validate_against s keys ids) (\<lambda>cand.
     Inr (keys @ [spec_key s], own_identities (spec_key s) cand ids, s)))"

fun validate_batch ::
  "('n \<Rightarrow> ('i, 'n) shape) \<Rightarrow> string list \<Rightarrow> (string, string) dict \<Rightarrow> 'n connector_spec option list
     \<Rightarrow> pyval connector_spec list result" where
  "validate_batch look keys ids [] = Inr []"
| "validate_batch look keys ids (spec # specs) =
     bindR (reserve look keys ids spec) (\<lambda>(keys', ids', s).
     bindR (validate_batch look keys' ids' specs) (\<lambda>ss. Inr (s # ss)))"

definition validate_discovered_batch ::
  "('n \<Rightarrow> ('i, 'n) shape) \<Rightarrow> 'c registry \<Rightarrow> 'n connector_spec option list
     \<Rightarrow> pyval connector_spec list result" where
  "validate_discovered_batch look r specs =
     (let base = base_without_discovered r in
      validate_batch look (map fst (reg_connectors base)) (reg_identities base) specs)"

text \<open>Only \<open>ValueError\<close> rejects a spec; any other exception leaves the function.\<close>

fun partition_from ::
  "('n \<Rightarrow> ('i, 'n) shape) \<Rightarrow> string list \<Rightarrow> (string, string) dict \<Rightarrow> nat \<Rightarrow> 'n connector_spec option list
     \<Rightarrow> ((nat \<times> pyval connector_spec) list \<times> nat list) result" where
  "partition_from look keys ids index [] = Inr ([], [])"
| "partition_from look keys ids index (spec # specs) =
     (case reserve look keys ids spec of
        Inl e \<Rightarrow>
          (if is_value_error e
           then bindR (partition_from look keys ids (Suc index) specs) (\<lambda>p. Inr (fst p, index # snd p))
           else Inl e)
      | Inr (keys', ids', s) \<Rightarrow>
          bindR (partition_from look keys' ids' (Suc index) specs) (\<lambda>p. Inr ((index, s) # fst p, snd p)))"

definition partition_discovered_batch ::
  "('n \<Rightarrow> ('i, 'n) shape) \<Rightarrow> 'c registry \<Rightarrow> 'n connector_spec option list
     \<Rightarrow> ((nat \<times> pyval connector_spec) list \<times> nat list) result" where
  "partition_discovered_batch look r specs =
     (let base = base_without_discovered r in
      partition_from look (map fst (reg_connectors base)) (reg_identities base) 0 specs)"

text \<open>One round of the loop that builds the next tables; nothing is checked any more.\<close>

definition install :: "'c registry \<Rightarrow> 'c \<times> pyval connector_spec \<Rightarrow> 'c registry" where
  "install r item =
     (let c = fst item; s = snd item in
      r\<lparr>reg_connectors := AList.update (spec_key s) c (reg_connectors r),
        reg_specs := AList.update (spec_key s) s (reg_specs r),
        reg_identities := own_identities (spec_key s) (candidate_identities s) (reg_identities r),
        reg_discovered := List.insert (spec_key s) (reg_discovered r)\<rparr>)"

definition replace_discovered_connectors ::
  "('n \<Rightarrow> ('i, 'n) shape) \<Rightarrow> 'c registry \<Rightarrow> ('c \<times> 'n connector_spec option) list \<Rightarrow> 'c registry result" where
  "replace_discovered_connectors look r items =
     bindR (validate_discovered_batch look r (map snd items)) (\<lambda>snapshots.
     Inr (foldl install (base_without_discovered r) (zip (map fst items) snapshots)))"

section \<open>Lookups\<close>

definition get_connector :: "'c registry \<Rightarrow> string \<Rightarrow> 'c result" where
  "get_connector r key =
     (case map_of (reg_connectors r) key of
        Some c \<Rightarrow> Inr c | None \<Rightarrow> Inl (Exc KeyError (''unknown connector_key: '' @ key)))"

definition all_connectors :: "'c registry \<Rightarrow> 'c list" where
  "all_connectors r = map snd (reg_connectors r)"

definition validated_spec :: "'c registry \<Rightarrow> string \<Rightarrow> pyval connector_spec option" where
  "validated_spec r key = map_of (reg_specs r) key"

section \<open>Reachable registries\<close>

text \<open>
  Any sequence of operations, each with the object store of its moment; the package operations also
  take manifests that are frozen already, as discovery hands them over.  An operation that raises
  leaves the registry as it was.
\<close>

inductive registry_step :: "'c registry \<Rightarrow> 'c registry \<Rightarrow> bool" where
  registered: "register (look_heap h) spec_of r c = Inr r' \<Longrightarrow> registry_step r r'"
| package: "register_validated (look_heap h) r c spec d = Inr r' \<Longrightarrow> registry_step r r'"
| package_frozen: "register_validated look_tree r c spec d = Inr r' \<Longrightarrow> registry_step r r'"
| cleared: "registry_step r (clear_discovered_connectors r)"
| replaced: "replace_discovered_connectors (look_heap h) r items = Inr r' \<Longrightarrow> registry_step r r'"
| replaced_frozen: "replace_discovered_connectors look_tree r items = Inr r' \<Longrightarrow> registry_step r r'"

abbreviation registry_reachable :: "'c registry \<Rightarrow> bool" where
  "registry_reachable r \<equiv> registry_step\<^sup>*\<^sup>* empty_registry r"

section \<open>The invariant\<close>

text \<open>A spec that the registry may hold under the key \<open>k\<close>.\<close>

definition spec_ok :: "string \<Rightarrow> pyval connector_spec \<Rightarrow> bool" where
  "spec_ok k s \<longleftrightarrow> connector_key s = PStr k \<and> k \<notin> set RESERVED_CONNECTOR_KEYS \<and>
     (\<exists>rv. validate_connector_manifest look_tree None rv (Some s) = Inr s)"

definition reg_inv :: "'c registry \<Rightarrow> bool" where
  "reg_inv r \<longleftrightarrow>
     dict_ok (reg_connectors r) \<and> map fst (reg_specs r) = map fst (reg_connectors r) \<and>
     (\<forall>k s. map_of (reg_specs r) k = Some s \<longrightarrow> spec_ok k s) \<and>
     dict_ok (reg_identities r) \<and>
     (\<forall>i k. map_of (reg_identities r) i = Some k \<longleftrightarrow>
        (\<exists>s. map_of (reg_specs r) k = Some s \<and> i \<in> set (candidate_identities s))) \<and>
     (\<forall>k\<in>set (map fst (reg_connectors r)). map_of (reg_identities r) k = None) \<and>
     set (reg_discovered r) \<subseteq> set (map fst (reg_connectors r))"

lemma reg_invI:
  assumes "dict_ok (reg_connectors r)" "map fst (reg_specs r) = map fst (reg_connectors r)"
    and "\<And>k s. map_of (reg_specs r) k = Some s \<Longrightarrow> spec_ok k s"
    and "dict_ok (reg_identities r)"
    and "\<And>i k. map_of (reg_identities r) i = Some k \<longleftrightarrow>
        (\<exists>s. map_of (reg_specs r) k = Some s \<and> i \<in> set (candidate_identities s))"
    and "\<And>k. k \<in> set (map fst (reg_connectors r)) \<Longrightarrow> map_of (reg_identities r) k = None"
    and "set (reg_discovered r) \<subseteq> set (map fst (reg_connectors r))"
  shows "reg_inv r"
  using assms unfolding reg_inv_def by blast

lemma reg_invD:
  assumes "reg_inv r"
  shows "dict_ok (reg_connectors r)" "map fst (reg_specs r) = map fst (reg_connectors r)"
    and "map_of (reg_specs r) k = Some s \<Longrightarrow> spec_ok k s"
    and "dict_ok (reg_identities r)"
    and "map_of (reg_identities r) i = Some k \<longleftrightarrow>
        (\<exists>s. map_of (reg_specs r) k = Some s \<and> i \<in> set (candidate_identities s))"
    and "k \<in> set (map fst (reg_connectors r)) \<Longrightarrow> map_of (reg_identities r) k = None"
    and "set (reg_discovered r) \<subseteq> set (map fst (reg_connectors r))"
  using assms unfolding reg_inv_def by blast+

lemma map_of_own: "map_of (own_identities key cand ids) i = (if i \<in> set cand then Some key else map_of ids i)"
  unfolding own_identities_def by (induction cand arbitrary: ids) auto

lemma dict_ok_own: "dict_ok ids \<Longrightarrow> dict_ok (own_identities key cand ids)"
  unfolding own_identities_def by (induction cand arbitrary: ids) simp_all

lemma keys_update_new: "k \<notin> set (map fst d) \<Longrightarrow> map fst (AList.update k v d) = map fst d @ [k]"
  by (simp add: update_new)

lemma validate_against_Inr:
  assumes "validate_against s keys ids = Inr cand"
  shows "cand = candidate_identities s" "spec_key s \<notin> set RESERVED_CONNECTOR_KEYS"
    "spec_key s \<notin> set keys" "spec_key s \<notin> set cand" "map_of ids (spec_key s) = None"
    "\<And>i. i \<in> set cand \<Longrightarrow> i \<notin> set keys \<and> map_of ids i = None"
  using assms by (auto simp: validate_against_def Let_def list_ex_iff split: if_splits)

text \<open>Adding a checked spec under its key keeps the invariant.\<close>

lemma install_inv:
  assumes inv: "reg_inv r" and ok: "spec_ok (spec_key s) s"
    and va: "validate_against s (map fst (reg_connectors r)) (reg_identities r) = Inr cand"
    and d: "set ds \<subseteq> insert (spec_key s) (set (map fst (reg_connectors r)))"
  shows "reg_inv (r\<lparr>reg_connectors := AList.update (spec_key s) c (reg_connectors r),
       reg_specs := AList.update (spec_key s) s (reg_specs r),
       reg_identities := own_identities (spec_key s) cand (reg_identities r), reg_discovered := ds\<rparr>)"
    (is "reg_inv ?r")
proof -
  note D = reg_invD [OF inv] and V = validate_against_Inr [OF va]
  let ?k = "spec_key s"
  have spec_new: "?k \<notin> set (map fst (reg_specs r))" using D(2) V(3) by simp
  then have none: "map_of (reg_specs r) ?k = None" by (simp add: map_of_eq_None_iff)
  show ?thesis
  proof (rule reg_invI)
    show "map fst (reg_specs ?r) = map fst (reg_connectors ?r)"
      using keys_update_new [OF spec_new] keys_update_new [OF V(3)] D(2) by simp
    show "spec_ok k s'" if "map_of (reg_specs ?r) k = Some s'" for k s'
      using that D(3) ok by (auto split: if_splits)
    show "map_of (reg_identities ?r) i = Some k \<longleftrightarrow>
        (\<exists>s'. map_of (reg_specs ?r) k = Some s' \<and> i \<in> set (candidate_identities s'))" for i k
    proof (cases "i \<in> set cand")
      case True
      have "map_of (reg_identities r) i = None" using V(6) [OF True] by blast
      then have "\<not> (\<exists>s'. map_of (reg_specs r) k = Some s' \<and> i \<in> set (candidate_identities s'))"
        using D(5) [of i k] by simp
      then show ?thesis using True V(1) by (auto simp: map_of_own)
    next
      case False
      have "map_of (reg_identities r) i \<noteq> Some ?k" using D(5) [of i ?k] none by simp
      then show ?thesis using False V(1) D(5) [of i k] by (auto simp: map_of_own)
    qed
    show "map_of (reg_identities ?r) k = None" if "k \<in> set (map fst (reg_connectors ?r))" for k
      using that V(4,5,6) D(6) [of k] by (auto simp: map_of_own)
  qed (use D V d in \<open>auto simp: dict_ok_own\<close>)
qed

lemma validated_spec_ok:
  assumes "validate_connector_manifest look None rv spec = Inr s"
    and "validate_against s keys ids = Inr cand"
  shows "spec_ok (spec_key s) s"
proof -
  obtain k where "connector_key s = PStr k" using validated_key [OF assms(1)] .
  then show ?thesis
    using validate_against_Inr(2) [OF assms(2)] validate_manifest_again [OF assms(1)]
    by (auto simp: spec_ok_def)
qed

lemma register_inv:
  assumes "register look spec_of r c = Inr r'" and "reg_inv r"
  shows "reg_inv r'"
proof -
  from assms(1) obtain spec s cand where v: "validate_connector_manifest look None False spec = Inr s"
    and va: "validate_against s (map fst (reg_connectors r)) (reg_identities r) = Inr cand"
    and r': "r' = r\<lparr>reg_connectors := AList.update (spec_key s) c (reg_connectors r),
              reg_specs := AList.update (spec_key s) s (reg_specs r),
              reg_identities := own_identities (spec_key s) cand (reg_identities r)\<rparr>"
    by (auto simp: register_def register_spec_def registration_of_def)
  from install_inv [OF assms(2) validated_spec_ok [OF v va] va, of "reg_discovered r" c]
  show ?thesis using reg_invD(7) [OF assms(2)] by (auto simp: r')
qed

lemma register_validated_inv:
  assumes "register_validated look r c spec d = Inr r'" and "reg_inv r"
  shows "reg_inv r'"
proof -
  from assms(1) obtain s cand where v: "validate_connector_manifest look None True spec = Inr s"
    and va: "validate_against s (map fst (reg_connectors r)) (reg_identities r) = Inr cand"
    and r': "r' = r\<lparr>reg_connectors := AList.update (spec_key s) c (reg_connectors r),
              reg_specs := AList.update (spec_key s) s (reg_specs r),
              reg_identities := own_identities (spec_key s) cand (reg_identities r),
              reg_discovered := (if d then List.insert (spec_key s) (reg_discovered r) else reg_discovered r)\<rparr>"
    by (auto simp: register_validated_def register_spec_def registration_of_def split: if_splits)
  show ?thesis unfolding r'
    by (rule install_inv [OF assms(2) validated_spec_ok [OF v va] va])
      (use reg_invD(7) [OF assms(2)] in \<open>auto split: if_splits\<close>)
qed

lemma map_of_filter_value:
  "dict_ok d \<Longrightarrow> map_of (filter (\<lambda>(k, v). P v) d) k =
     (case map_of d k of None \<Rightarrow> None | Some v \<Rightarrow> if P v then Some v else None)"
  by (induction d) (auto simp: map_of_eq_None_iff split: option.splits)

lemma keys_filter: "map fst (filter (\<lambda>(k, v). P k) d) = filter P (map fst d)"
  by (induction d) auto

lemma delete_all_filter:
  "foldl (\<lambda>d k. AList.delete k d) d ks = filter (\<lambda>(k, v). k \<notin> set ks) d"
proof (induction ks arbitrary: d)
  case Nil
  then show ?case by (simp add: case_prod_beta)
next
  case (Cons k ks)
  have "filter (\<lambda>(k', v). k' \<notin> set ks) (AList.delete k d) = filter (\<lambda>(k', v). k' \<notin> set (k # ks)) d"
    by (induction d) auto
  then show ?case using Cons by simp
qed

lemma clear_is_base: "clear_discovered_connectors r = base_without_discovered r"
  by (cases r) (simp add: clear_discovered_connectors_def base_without_discovered_def Let_def
      delete_all_filter case_prod_beta)

lemma base_inv:
  assumes "reg_inv r"
  shows "reg_inv (base_without_discovered r)" (is "reg_inv ?b")
proof -
  note D = reg_invD [OF assms]
  let ?S = "set (reg_discovered r)"
  have specs: "map_of (reg_specs ?b) k = (if k \<in> ?S then None else map_of (reg_specs r) k)" for k
    by (simp add: base_without_discovered_def Let_def map_of_filter_key [where P = "\<lambda>k. k \<notin> ?S"])
  have ids: "map_of (reg_identities ?b) i = (case map_of (reg_identities r) i of None \<Rightarrow> None
      | Some k \<Rightarrow> if k \<notin> ?S then Some k else None)" for i
    by (simp add: base_without_discovered_def Let_def map_of_filter_value [OF D(4), where P = "\<lambda>k. k \<notin> ?S"])
  have keys: "map fst (reg_connectors ?b) = filter (\<lambda>k. k \<notin> ?S) (map fst (reg_connectors r))"
    "map fst (reg_specs ?b) = filter (\<lambda>k. k \<notin> ?S) (map fst (reg_specs r))"
    by (simp_all add: base_without_discovered_def Let_def keys_filter [where P = "\<lambda>k. k \<notin> ?S"])
  show ?thesis
  proof (rule reg_invI)
    show "map_of (reg_identities ?b) i = Some k \<longleftrightarrow>
        (\<exists>s. map_of (reg_specs ?b) k = Some s \<and> i \<in> set (candidate_identities s))" for i k
      using D(5) [of i k] by (auto simp: ids specs split: option.splits)
    show "map_of (reg_identities ?b) k = None" if "k \<in> set (map fst (reg_connectors ?b))" for k
      using that D(6) [of k] unfolding keys by (auto simp: ids split: option.splits)
    show "spec_ok k s" if "map_of (reg_specs ?b) k = Some s" for k s
      using that D(3) by (simp add: specs split: if_splits)
    show "map fst (reg_specs ?b) = map fst (reg_connectors ?b)" using D(2) by (simp only: keys)
  qed (use D in \<open>simp_all add: base_without_discovered_def Let_def\<close>)
qed

section \<open>Installing a checked batch\<close>

lemma reserve_Inr:
  assumes "reserve look keys ids spec = Inr (keys', ids', s)"
  obtains cand where "validate_connector_manifest look None True spec = Inr s"
    "validate_against s keys ids = Inr cand" "keys' = keys @ [spec_key s]"
    "ids' = own_identities (spec_key s) cand ids"
  using assms by (auto simp: reserve_def)

lemma install_tables:
  assumes "spec_key s \<notin> set (map fst (reg_connectors r))"
  shows "map fst (reg_connectors (install r (c, s))) = map fst (reg_connectors r) @ [spec_key s]"
    "reg_identities (install r (c, s)) = own_identities (spec_key s) (candidate_identities s) (reg_identities r)"
    "map_of (reg_connectors (install r (c, s))) = (map_of (reg_connectors r))(spec_key s \<mapsto> c)"
    "map_of (reg_specs (install r (c, s))) = (map_of (reg_specs r))(spec_key s \<mapsto> s)"
    "set (reg_discovered (install r (c, s))) = insert (spec_key s) (set (reg_discovered r))"
  using keys_update_new [OF assms] by (simp_all add: install_def Let_def)

text \<open>
  After the loop: the invariant holds, every new connector is found under its key with its
  snapshot, the earlier ones are unchanged, and the new keys are the discovered ones.
\<close>

lemma batch_installed:
  assumes "reg_inv r"
    and "validate_batch look (map fst (reg_connectors r)) (reg_identities r) specs = Inr ss"
    and "length cs = length specs"
  shows "reg_inv (foldl install r (zip cs ss)) \<and> length ss = length specs \<and>
     set (reg_discovered (foldl install r (zip cs ss))) = set (reg_discovered r) \<union> spec_key ` set ss \<and>
     (\<forall>(c, s)\<in>set (zip cs ss). spec_key s \<notin> set (map fst (reg_connectors r)) \<and>
        map_of (reg_connectors (foldl install r (zip cs ss))) (spec_key s) = Some c \<and>
        map_of (reg_specs (foldl install r (zip cs ss))) (spec_key s) = Some s) \<and>
     (\<forall>k. k \<in> set (map fst (reg_connectors r)) \<or> k \<notin> spec_key ` set ss \<longrightarrow>
        map_of (reg_connectors (foldl install r (zip cs ss))) k = map_of (reg_connectors r) k \<and>
        map_of (reg_specs (foldl install r (zip cs ss))) k = map_of (reg_specs r) k)"
  using assms
proof (induction specs arbitrary: r ss cs)
  case Nil
  then show ?case by simp
next
  case (Cons spec specs)
  from Cons.prems(2) obtain keys' ids' s ss' where
    res: "reserve look (map fst (reg_connectors r)) (reg_identities r) spec = Inr (keys', ids', s)"
    and rest: "validate_batch look keys' ids' specs = Inr ss'" and ss: "ss = s # ss'"
    by auto
  from Cons.prems(3) obtain c cs' where cs: "cs = c # cs'" "length cs' = length specs"
    by (cases cs) auto
  obtain cand where v: "validate_connector_manifest look None True spec = Inr s"
    and va: "validate_against s (map fst (reg_connectors r)) (reg_identities r) = Inr cand"
    and keys': "keys' = map fst (reg_connectors r) @ [spec_key s]"
    and ids': "ids' = own_identities (spec_key s) cand (reg_identities r)"
    using res by (rule reserve_Inr)
  note V = validate_against_Inr [OF va]
  let ?r = "install r (c, s)"
  note T = install_tables [OF V(3), of c]
  have inv: "reg_inv ?r"
    unfolding install_def Let_def fst_conv snd_conv V(1) [symmetric]
    by (rule install_inv [OF Cons.prems(1) validated_spec_ok [OF v va] va])
      (use reg_invD(7) [OF Cons.prems(1)] in auto)
  have "validate_batch look (map fst (reg_connectors ?r)) (reg_identities ?r) specs = Inr ss'"
    using rest by (simp only: T keys' ids' V(1))
  note IH = Cons.IH [OF inv this cs(2)]
  let ?f = "foldl install ?r (zip cs' ss')"
  have f: "foldl install r (zip cs ss) = ?f" by (simp add: cs ss)
  have mine: "spec_key s \<in> set (map fst (reg_connectors ?r)) \<or> spec_key s \<notin> spec_key ` set ss'"
    by (simp add: T(1))
  have first: "map_of (reg_connectors ?f) (spec_key s) = Some c \<and> map_of (reg_specs ?f) (spec_key s) = Some s"
    using IH [THEN conjunct2, THEN conjunct2, THEN conjunct2, THEN conjunct2, rule_format, OF mine] T(3,4)
    by simp
  have old: "map_of (reg_connectors ?f) k = map_of (reg_connectors r) k \<and>
      map_of (reg_specs ?f) k = map_of (reg_specs r) k"
    if "k \<in> set (map fst (reg_connectors r)) \<or> k \<notin> spec_key ` set ss" for k
  proof -
    have "k \<noteq> spec_key s" using that V(3) ss by auto
    moreover have mem: "k \<in> set (map fst (reg_connectors ?r)) \<or> k \<notin> spec_key ` set ss'"
      using that ss T(1) by auto
    ultimately show ?thesis
      using IH [THEN conjunct2, THEN conjunct2, THEN conjunct2, THEN conjunct2, rule_format, OF mem] T(3,4)
      by simp
  qed
  have new: "\<forall>(c, s)\<in>set (zip cs ss). spec_key s \<notin> set (map fst (reg_connectors r)) \<and>
        map_of (reg_connectors ?f) (spec_key s) = Some c \<and> map_of (reg_specs ?f) (spec_key s) = Some s"
    using IH [THEN conjunct2, THEN conjunct2, THEN conjunct2, THEN conjunct1] first V(3)
    unfolding T(1) cs ss by auto
  have disc: "set (reg_discovered ?f) = set (reg_discovered r) \<union> spec_key ` set ss"
    using IH [THEN conjunct2, THEN conjunct2, THEN conjunct1] by (simp add: T(5) ss)
  show ?case unfolding f
    using IH [THEN conjunct1] IH [THEN conjunct2, THEN conjunct1] disc new old ss by simp
qed

lemma replace_inv:
  assumes "replace_discovered_connectors look r items = Inr r'" and "reg_inv r"
  shows "reg_inv r'"
proof -
  from assms(1) obtain ss where
    "validate_batch look (map fst (reg_connectors (base_without_discovered r)))
       (reg_identities (base_without_discovered r)) (map snd items) = Inr ss"
    "r' = foldl install (base_without_discovered r) (zip (map fst items) ss)"
    by (auto simp: replace_discovered_connectors_def validate_discovered_batch_def Let_def)
  then show ?thesis using batch_installed [OF base_inv [OF assms(2)], of look "map snd items" ss "map fst items"]
    by simp
qed

lemma registry_step_inv: "registry_step r r' \<Longrightarrow> reg_inv r \<Longrightarrow> reg_inv r'"
  by (induction rule: registry_step.induct)
    (auto intro: register_inv register_validated_inv replace_inv base_inv simp: clear_is_base)

lemma reachable_reg_inv: "registry_reachable r \<Longrightarrow> reg_inv r"
proof (induction rule: rtranclp_induct)
  case base
  show ?case by (simp add: reg_inv_def empty_registry_def)
qed (rule registry_step_inv)

section \<open>Properties\<close>

text \<open>C2: the registry never holds an ambiguous name.  After any sequence of registrations, discoveries,
  clearings and replacements, each tool identifier belongs to exactly one connector, no connector
  key is also a tool identifier, and every connector is stored under the key of its own validated
  manifest, which is not a reserved key.\<close>

theorem registry_unambiguous:
  assumes "registry_reachable r"
  shows "(\<forall>k s. validated_spec r k = Some s \<longrightarrow>
            connector_key s = PStr k \<and> k \<notin> set RESERVED_CONNECTOR_KEYS \<and> (\<exists>c. get_connector r k = Inr c) \<and>
            (\<forall>i\<in>set (candidate_identities s). validated_spec r i = None)) \<and>
     (\<forall>k s k' s' i. validated_spec r k = Some s \<longrightarrow> validated_spec r k' = Some s' \<longrightarrow>
        i \<in> set (candidate_identities s) \<longrightarrow> i \<in> set (candidate_identities s') \<longrightarrow> k = k')"
proof -
  note D = reg_invD [OF reachable_reg_inv [OF assms]]
  have own: "map_of (reg_identities r) i = Some k" if "map_of (reg_specs r) k = Some s"
    "i \<in> set (candidate_identities s)" for i k s using D(5) that by blast
  have known: "k \<in> set (map fst (reg_connectors r)) \<longleftrightarrow> map_of (reg_specs r) k \<noteq> None" for k
    using D(2) by (metis map_of_eq_None_iff set_map)
  have "\<exists>c. get_connector r k = Inr c" if "map_of (reg_specs r) k = Some s" for k s
  proof -
    have "map_of (reg_connectors r) k \<noteq> None"
      using known [of k] that by (simp add: map_of_eq_None_iff)
    then show ?thesis by (auto simp: get_connector_def)
  qed
  moreover have "validated_spec r i = None" if "map_of (reg_specs r) k = Some s"
    "i \<in> set (candidate_identities s)" for i k s
    using own [OF that] D(6) [of i] known [of i] by (auto simp: validated_spec_def)
  moreover have "k = k'" if "map_of (reg_specs r) k = Some s" "map_of (reg_specs r) k' = Some s'"
    "i \<in> set (candidate_identities s)" "i \<in> set (candidate_identities s')" for k s k' s' i
    using own [OF that(1,3)] own [OF that(2,4)] by simp
  ultimately show ?thesis using D(3) by (fastforce simp: validated_spec_def spec_ok_def)
qed

text \<open>replacing the discovered connectors is all or nothing, and touches nothing else.  When the
  replacement succeeds, each new connector is found under its own key with its snapshot, a key that
  was discovered before and is not in the batch is gone, a connector that was registered otherwise is
  still the same, and exactly the batch counts as discovered.\<close>

theorem replace_discovered_exact:
  assumes "registry_reachable r" and "replace_discovered_connectors look r items = Inr r'"
  shows "\<exists>ss. validate_discovered_batch look r (map snd items) = Inr ss \<and> length ss = length items \<and>
     set (reg_discovered r') = spec_key ` set ss \<and>
     (\<forall>(c, s)\<in>set (zip (map fst items) ss).
        get_connector r' (spec_key s) = Inr c \<and> validated_spec r' (spec_key s) = Some s) \<and>
     (\<forall>k. k \<notin> spec_key ` set ss \<longrightarrow> k \<in> set (reg_discovered r) \<longrightarrow> validated_spec r' k = None) \<and>
     (\<forall>k. k \<notin> set (reg_discovered r) \<longrightarrow> validated_spec r k \<noteq> None \<longrightarrow>
        get_connector r' k = get_connector r k \<and> validated_spec r' k = validated_spec r k)"
proof -
  let ?b = "base_without_discovered r"
  note inv = reachable_reg_inv [OF assms(1)] and D = reg_invD [OF reachable_reg_inv [OF assms(1)]]
  from assms(2) obtain ss where
    ss: "validate_discovered_batch look r (map snd items) = Inr ss"
    and r': "r' = foldl install ?b (zip (map fst items) ss)"
    by (auto simp: replace_discovered_connectors_def)
  have batch: "validate_batch look (map fst (reg_connectors ?b)) (reg_identities ?b) (map snd items) = Inr ss"
    using ss by (simp add: validate_discovered_batch_def Let_def)
  have len: "length (map fst items) = length (map snd items)" by simp
  note B = batch_installed [OF base_inv [OF inv] batch len, folded r']
  have base: "map_of (reg_specs ?b) k = (if k \<in> set (reg_discovered r) then None else map_of (reg_specs r) k)"
    "map_of (reg_connectors ?b) k = (if k \<in> set (reg_discovered r) then None else map_of (reg_connectors r) k)"
    for k
    by (simp_all add: base_without_discovered_def Let_def map_of_filter_key [where P = "\<lambda>k. k \<notin> set (reg_discovered r)"])
  have old: "map_of (reg_connectors r') k = map_of (reg_connectors ?b) k \<and>
      map_of (reg_specs r') k = map_of (reg_specs ?b) k"
    if "k \<in> set (map fst (reg_connectors ?b)) \<or> k \<notin> spec_key ` set ss" for k
    using B [THEN conjunct2, THEN conjunct2, THEN conjunct2, THEN conjunct2, rule_format, OF that] .
  have kept: "k \<in> set (map fst (reg_connectors ?b))"
    if "k \<notin> set (reg_discovered r)" "validated_spec r k \<noteq> None" for k
  proof -
    have "map_of (reg_specs ?b) k \<noteq> None" using that by (simp add: base validated_spec_def)
    then show ?thesis using reg_invD(2) [OF base_inv [OF inv]] by (metis map_of_eq_None_iff set_map)
  qed
  have "set (reg_discovered ?b) = {}" by (simp add: base_without_discovered_def Let_def)
  then show ?thesis
    using ss B old kept by (intro exI [of _ ss]) (auto simp: get_connector_def validated_spec_def base)
qed

section \<open>The selected subset of a batch\<close>

definition picked :: "nat \<Rightarrow> 'a list \<Rightarrow> (nat \<times> 's) list \<Rightarrow> 'a list" where
  "picked n xs acc = map (\<lambda>(i, s). xs ! (i - n)) acc"

lemma nth_shift: "Suc n \<le> i \<Longrightarrow> (x # xs) ! (i - n) = xs ! (i - Suc n)"
  by (auto simp: nth_Cons' Suc_le_eq)

lemma picked_Cons:
  "\<forall>(i, s)\<in>set acc. Suc n \<le> i \<Longrightarrow> picked n (x # xs) acc = picked (Suc n) xs acc"
  unfolding picked_def by (rule map_cong [OF refl]) (auto simp: nth_Cons' Suc_le_eq)

definition index_split :: "nat \<Rightarrow> nat \<Rightarrow> nat list \<Rightarrow> nat list \<Rightarrow> bool" where
  "index_split n m A B \<longleftrightarrow> set A \<union> set B = {n..<n + m} \<and> set A \<inter> set B = {} \<and>
     sorted_wrt (<) A \<and> sorted_wrt (<) B"

lemma index_split_swap: "index_split n m A B = index_split n m B A"
  by (auto simp: index_split_def)

lemma index_split_low: "index_split n m A B \<Longrightarrow> i \<in> set A \<union> set B \<Longrightarrow> n \<le> i"
  by (simp only: index_split_def) auto

lemma index_split_Cons:
  assumes "index_split (Suc n) m A B"
  shows "index_split n (Suc m) (n # A) B"
proof -
  have low: "\<forall>i\<in>set A \<union> set B. n < i" using index_split_low [OF assms] by (simp add: Suc_le_eq)
  have "{n..<n + Suc m} = insert n {Suc n..<Suc n + m}" by auto
  then show ?thesis using assms low unfolding index_split_def list.set sorted_wrt.simps by blast
qed

lemma partition_from_split:
  assumes "partition_from look keys ids n specs = Inr (acc, rej)"
  shows "index_split n (length specs) (map fst acc) rej"
  using assms
proof (induction look keys ids n specs arbitrary: acc rej rule: partition_from.induct)
  case (1 look keys ids n)
  then show ?case by (simp add: index_split_def)
next
  case (2 look keys ids n spec specs)
  show ?case
  proof (cases "reserve look keys ids spec")
    case (Inl e)
    with 2(3) obtain rej' where p: "partition_from look keys ids (Suc n) specs = Inr (acc, rej')"
      "is_value_error e" "rej = n # rej'" by (auto split: if_splits)
    from index_split_Cons [OF "2.IH"(1) [OF Inl p(2,1), THEN index_split_swap [THEN iffD1]]]
    show ?thesis unfolding p(3) using index_split_swap by simp
  next
    case (Inr t)
    obtain keys' ids' s where t: "t = (keys', ids', s)" by (cases t)
    with Inr 2(3) obtain acc' where p: "partition_from look keys' ids' (Suc n) specs = Inr (acc', rej)"
      "acc = (n, s) # acc'" by auto
    from index_split_Cons [OF "2.IH"(2) [OF Inr t [symmetric] refl p(1)]] show ?thesis unfolding p(2) by simp
  qed
qed

text \<open>The accepted specs validate as one batch, and each rejected one fails after those before it.\<close>

lemma partition_from_batch:
  assumes "partition_from look keys ids n specs = Inr (acc, rej)"
  shows "validate_batch look keys ids (picked n specs acc) = Inr (map snd acc) \<and>
     (\<forall>i\<in>set rej. \<exists>e. validate_batch look keys ids
        (picked n specs (filter (\<lambda>(j, s). j < i) acc) @ [specs ! (i - n)]) = Inl e \<and> is_value_error e)"
  using assms
proof (induction look keys ids n specs arbitrary: acc rej rule: partition_from.induct)
  case (1 look keys ids n)
  then show ?case by (simp add: picked_def)
next
  case (2 look keys ids n spec specs)
  show ?case
  proof (cases "reserve look keys ids spec")
    case (Inl e)
    with 2(3) obtain rej' where p: "partition_from look keys ids (Suc n) specs = Inr (acc, rej')"
      "is_value_error e" "rej = n # rej'" by (auto split: if_splits)
    note IH = "2.IH"(1) [OF Inl p(2,1)]
    have low: "\<forall>i\<in>set (map fst acc) \<union> set rej'. Suc n \<le> i"
      using index_split_low [OF partition_from_split [OF p(1)]] by blast
    then have acc: "\<forall>(i, s)\<in>set acc. Suc n \<le> i" by force
    have none: "filter (\<lambda>(j, s). j < n) acc = []" using acc by (auto simp: filter_empty_conv)
    have fil: "picked n (spec # specs) (filter (\<lambda>(j, s). j < i) acc) = picked (Suc n) specs (filter (\<lambda>(j, s). j < i) acc)" for i
      by (rule picked_Cons) (use acc in auto)
    have nth: "(spec # specs) ! (i - n) = specs ! (i - Suc n)" if "i \<in> set rej'" for i
      by (rule nth_shift) (use low that in blast)
    have batch: "validate_batch look keys ids (picked n (spec # specs) acc) = Inr (map snd acc)"
      using IH by (simp only: picked_Cons [OF acc])
    have here: "validate_batch look keys ids
        (picked n (spec # specs) (filter (\<lambda>(j, s). j < n) acc) @ [(spec # specs) ! (n - n)]) = Inl e"
      unfolding none using Inl by (simp add: picked_def)
    have later: "\<exists>e. validate_batch look keys ids
        (picked n (spec # specs) (filter (\<lambda>(j, s). j < i) acc) @ [(spec # specs) ! (i - n)]) = Inl e \<and> is_value_error e"
      if "i \<in> set rej'" for i
      using IH that by (simp only: fil nth)
    show ?thesis using batch here later p(2) unfolding p(3) by (metis set_ConsD)
  next
    case (Inr t)
    obtain keys' ids' s where t: "t = (keys', ids', s)" by (cases t)
    with Inr 2(3) obtain acc' where p: "partition_from look keys' ids' (Suc n) specs = Inr (acc', rej)"
      "acc = (n, s) # acc'" by auto
    note IH = "2.IH"(2) [OF Inr t [symmetric] refl p(1)]
    have low: "\<forall>i\<in>set (map fst acc') \<union> set rej. Suc n \<le> i"
      using index_split_low [OF partition_from_split [OF p(1)]] by blast
    then have acc: "\<forall>(i, s)\<in>set acc'. Suc n \<le> i" by force
    have cons: "picked n (spec # specs) ((n, s) # a) = spec # picked n (spec # specs) a" for a :: "(nat \<times> pyval connector_spec) list"
      by (simp add: picked_def)
    have fil: "picked n (spec # specs) (filter (\<lambda>(j, s). j < i) acc) = spec # picked (Suc n) specs (filter (\<lambda>(j, s). j < i) acc')"
      if "i \<in> set rej" for i
    proof -
      have "filter (\<lambda>(j, s). j < i) acc = (n, s) # filter (\<lambda>(j, s). j < i) acc'"
        using low that by (auto simp: p(2) Suc_le_eq)
      then show ?thesis unfolding cons
        by (simp only: cons) (intro arg_cong2 [where f = Cons] refl picked_Cons, use acc in auto)
    qed
    have nth: "(spec # specs) ! (i - n) = specs ! (i - Suc n)" if "i \<in> set rej" for i
      by (rule nth_shift) (use low that in blast)
    have "validate_batch look keys ids (picked n (spec # specs) acc) = Inr (map snd acc)"
      using IH Inr t by (simp add: p(2) cons picked_Cons [OF acc])
    moreover have "\<exists>e. validate_batch look keys ids
        (picked n (spec # specs) (filter (\<lambda>(j, s). j < i) acc) @ [(spec # specs) ! (i - n)]) = Inl e \<and> is_value_error e"
      if "i \<in> set rej" for i
      using IH that Inr t unfolding fil [OF that] nth [OF that] by auto
    ultimately show ?thesis by blast
  qed
qed

text \<open>C9: the selected subset of a discovered batch can always be installed, and is maximal.
  \<open>partition_discovered_batch\<close> splits the positions of the batch in order; the accepted manifests
  validate together as a replacement batch with the same snapshots; and every rejected manifest would
  raise \<open>ValueError\<close> after the accepted ones that come before it.\<close>

theorem partition_batch_installable:
  assumes "partition_discovered_batch look r specs = Inr (acc, rej)"
  shows "index_split 0 (length specs) (map fst acc) rej \<and>
     validate_discovered_batch look r (map (\<lambda>(i, s). specs ! i) acc) = Inr (map snd acc) \<and>
     (\<forall>i\<in>set rej. \<exists>e. validate_discovered_batch look r
        (map (\<lambda>(j, s). specs ! j) (filter (\<lambda>(j, s). j < i) acc) @ [specs ! i]) = Inl e \<and> is_value_error e)"
proof -
  have "partition_from look (map fst (reg_connectors (base_without_discovered r)))
      (reg_identities (base_without_discovered r)) 0 specs = Inr (acc, rej)"
    using assms by (simp add: partition_discovered_batch_def Let_def)
  from partition_from_split [OF this] partition_from_batch [OF this] show ?thesis
    by (simp add: picked_def validate_discovered_batch_def Let_def)
qed

section \<open>A concrete registry\<close>

definition demo_frozen :: "string \<Rightarrow> string \<Rightarrow> string \<Rightarrow> pyval connector_spec" where
  "demo_frozen k a b = demo_spec k [IsTool (demo_tool a b (PMap []) PNone)] (PMap [])"

text \<open>Three manifests of which the second takes a name of the first.\<close>

definition demo_batch :: "pyval connector_spec option list" where
  "demo_batch = [Some (demo_frozen ''crm'' ''find'' ''crm_find''),
     Some (demo_frozen ''erp'' ''find'' ''erp_find''), Some (demo_frozen ''hr'' ''list'' ''hr_list'')]"

lemma demo_partition:
  "partition_discovered_batch look_tree (empty_registry :: nat registry) demo_batch =
     Inr ([(0, demo_frozen ''crm'' ''find'' ''crm_find''), (2, demo_frozen ''hr'' ''list'' ''hr_list'')], [1])"
  by code_simp

theorem partition_batch_installable_witness:
  "\<exists>e. validate_discovered_batch look_tree (empty_registry :: nat registry)
     [demo_batch ! 0, demo_batch ! 1] = Inl e \<and> is_value_error e"
  using partition_batch_installable [OF demo_partition] by simp

definition demo_registry :: "nat registry" where
  "demo_registry = install empty_registry (7, demo_frozen ''crm'' ''find'' ''crm_find'')"

lemma demo_replace:
  "replace_discovered_connectors look_tree (empty_registry :: nat registry)
     [(7, Some (demo_frozen ''crm'' ''find'' ''crm_find''))] = Inr demo_registry"
  by code_simp

lemma demo_registry_reachable: "registry_reachable demo_registry"
  by (rule r_into_rtranclp, rule registry_step.replaced_frozen [OF demo_replace])

theorem registry_unambiguous_witness:
  "validated_spec demo_registry ''crm'' = Some (demo_frozen ''crm'' ''find'' ''crm_find'') \<and>
     validated_spec demo_registry ''crm_find'' = None"
proof -
  have s: "validated_spec demo_registry ''crm'' = Some (demo_frozen ''crm'' ''find'' ''crm_find'')"
    by code_simp
  have "''crm_find'' \<in> set (candidate_identities (demo_frozen ''crm'' ''find'' ''crm_find''))" by code_simp
  then show ?thesis using registry_unambiguous [OF demo_registry_reachable] s by blast
qed

lemma demo_replace_again:
  "replace_discovered_connectors look_tree demo_registry [] = Inr empty_registry"
  by code_simp

theorem replace_discovered_exact_witness:
  "validated_spec (empty_registry :: nat registry) ''crm'' = None \<and> ''crm'' \<in> set (reg_discovered demo_registry)"
proof -
  have "''crm'' \<in> set (reg_discovered demo_registry)" by code_simp
  then show ?thesis
    using replace_discovered_exact [OF demo_registry_reachable demo_replace_again] by auto
qed

end
