(* ===== verification/Discovery.thy ===== *)
theory Discovery
  imports Registry
begin

text \<open>
  \<open>app/connectors/discovery.py\<close>: the allowlist, the discovery of installed connector packages and the
  check that active connections have theirs.  An entry point is its name and what loading it and
  calling its factory gives; \<open>is_connector\<close> is the run-time protocol test and \<open>spec_of\<close> is
  \<open>connector.spec()\<close>.
\<close>

section \<open>Names and the allowlist\<close>

text \<open>\<open>re.sub("[-_.]+", "-", s)\<close>\<close>

definition name_sep :: "char \<Rightarrow> bool" where
  "name_sep c \<longleftrightarrow> c = CHR ''-'' \<or> c = CHR ''_'' \<or> c = CHR ''.''"

fun collapse_separators :: "string \<Rightarrow> string" where
  "collapse_separators [] = []"
| "collapse_separators [c] = (if name_sep c then ''-'' else [c])"
| "collapse_separators (c # d # s) =
     (if name_sep c
      then (if name_sep d then collapse_separators (d # s) else CHR ''-'' # collapse_separators (d # s))
      else c # collapse_separators (d # s))"

text \<open>\<open>^[a-z0-9](?:[a-z0-9-]*[a-z0-9])?$\<close>\<close>

definition lower_alnum :: "char \<Rightarrow> bool" where
  "lower_alnum c \<longleftrightarrow> ascii_lower c \<or> ascii_digit c"

definition normalized_name_re :: "string \<Rightarrow> bool" where
  "normalized_name_re s \<longleftrightarrow> s \<noteq> [] \<and> lower_alnum (hd s) \<and> lower_alnum (last s) \<and>
     list_all (\<lambda>c. lower_alnum c \<or> c = CHR ''-'') s"

definition normalize_connector_name :: "pyval \<Rightarrow> string" where
  "normalize_connector_name v =
     (case v of
        PStr s \<Rightarrow>
          (let n = py_lower (collapse_separators (py_strip s)) in
           if normalized_name_re n then n else [])
      | _ \<Rightarrow> [])"

definition parse_connector_allowlist :: "pyval \<Rightarrow> string list" where
  "parse_connector_allowlist v =
     (case v of
        PStr s \<Rightarrow> remdups (filter (\<lambda>n. n \<noteq> [])
                   (map (\<lambda>item. normalize_connector_name (PStr item)) (split_on CHR '','' s)))
      | _ \<Rightarrow> [])"

definition manifest_key_for :: "string \<Rightarrow> string" where
  "manifest_key_for name = py_replace ''-'' ''_'' (normalize_connector_name (PStr name))"

section \<open>discover\_connector\_packages\<close>

record 'c entry_point =
  ep_name :: string
  ep_instance :: "'c result"

record 'c discovery =
  d_connectors :: "('c \<times> pyval connector_spec) list"
  d_failures :: "(string \<times> string) list"

record 'c scan =
  sc_keys :: "string list"
  sc_idents :: "string list"
  sc_found :: "('c \<times> pyval connector_spec) list"
  sc_failures :: "(string \<times> string) list"

definition scan_fail :: "'c scan \<Rightarrow> string \<Rightarrow> string \<Rightarrow> 'c scan" where
  "scan_fail sc key reason = sc\<lparr>sc_failures := sc_failures sc @ [(key, reason)]\<rparr>"

definition manifest_reason :: "exc \<Rightarrow> string" where
  "manifest_reason e =
     (if exc_msg e = ''connector manifest version is invalid'' then ''version''
      else if exc_msg e = ''connector entry-point identity mismatch'' then ''identity''
      else ''manifest'')"

text \<open>\<open>except Exception\<close>: the failure is recorded, a cancellation leaves the function.\<close>

definition caught :: "exc \<Rightarrow> 'a \<Rightarrow> 'a result" where
  "caught e x = (if is_exception e then Inr x else Inl e)"

definition identity_collision :: "'c scan \<Rightarrow> pyval connector_spec \<Rightarrow> bool" where
  "identity_collision sc s \<longleftrightarrow>
     (let key = spec_key s; ids = candidate_identities s in
      key \<in> set (sc_keys sc) \<or> key \<in> set (sc_idents sc) \<or> key \<in> set ids \<or>
      list_ex (\<lambda>i. i \<in> set (sc_idents sc)) ids \<or> list_ex (\<lambda>i. i \<in> set (sc_keys sc)) ids)"

definition scan_found :: "'c scan \<Rightarrow> string \<Rightarrow> 'c \<Rightarrow> pyval connector_spec \<Rightarrow> 'c scan" where
  "scan_found sc expected c s =
     (let sc' = (if identity_collision sc s then scan_fail sc expected ''duplicate'' else sc) in
      sc'\<lparr>sc_keys := List.insert (spec_key s) (sc_keys sc),
          sc_idents := List.union (candidate_identities s) (sc_idents sc),
          sc_found := sc_found sc @ [(c, s)]\<rparr>)"

definition scan_entry ::
  "('n \<Rightarrow> ('i, 'n) shape) \<Rightarrow> ('c \<Rightarrow> bool) \<Rightarrow> ('c \<Rightarrow> 'n connector_spec option result)
     \<Rightarrow> 'c scan \<Rightarrow> 'c entry_point \<Rightarrow> 'c scan result" where
  "scan_entry look is_connector spec_of sc ep =
     (let expected = manifest_key_for (ep_name ep) in
      case ep_instance ep of
        Inl e \<Rightarrow> caught e (scan_fail sc expected ''load'')
      | Inr c \<Rightarrow>
          (if \<not> is_connector c then Inr (scan_fail sc expected ''contract'')
           else case spec_of c of
             Inl e \<Rightarrow> caught e (scan_fail sc expected ''manifest'')
           | Inr manifest \<Rightarrow>
               (case validate_connector_manifest look (Some expected) True manifest of
                  Inl e \<Rightarrow> caught e (scan_fail sc expected (manifest_reason e))
                | Inr s \<Rightarrow> Inr (scan_found sc expected c s))))"

definition candidates :: "string list \<Rightarrow> 'c entry_point list \<Rightarrow> 'c entry_point list" where
  "candidates allowed eps =
     sort_key (\<lambda>ep. normalize_connector_name (PStr (ep_name ep)))
       (filter (\<lambda>ep. normalize_connector_name (PStr (ep_name ep)) \<in> set allowed) eps)"

definition empty_scan :: "'c scan" where
  "empty_scan = \<lparr>sc_keys = [], sc_idents = [], sc_found = [], sc_failures = []\<rparr>"

definition discover_connector_packages ::
  "('n \<Rightarrow> ('i, 'n) shape) \<Rightarrow> ('c \<Rightarrow> bool) \<Rightarrow> ('c \<Rightarrow> 'n connector_spec option result)
     \<Rightarrow> pyval \<Rightarrow> 'c entry_point list \<Rightarrow> 'c discovery result" where
  "discover_connector_packages look is_connector spec_of allowlist eps =
     (let cands = candidates (parse_connector_allowlist allowlist) eps in
      if \<not> distinct (map (\<lambda>ep. normalize_connector_name (PStr (ep_name ep))) cands)
      then Inr \<lparr>d_connectors = [], d_failures = [([], ''duplicate'')]\<rparr>
      else bindR (foldR (scan_entry look is_connector spec_of) empty_scan cands)
        (\<lambda>sc. Inr \<lparr>d_connectors = sc_found sc, d_failures = sc_failures sc\<rparr>))"

definition strict_failure_message :: "string \<times> string \<Rightarrow> string" where
  "strict_failure_message f =
     (let key = fst f; reason = snd f; quoted = ''trusted connector '' @ [CHR 0x27] @ key @ [CHR 0x27] in
      if reason = ''version'' then quoted @ '' manifest version is invalid''
      else if reason = ''identity'' then quoted @ '' entry-point identity is invalid''
      else if reason = ''contract'' then quoted @ '' contract is incompatible''
      else if reason = ''duplicate'' then ''duplicate trusted connector identity''
      else if reason = ''load'' then quoted @ '' could not be loaded''
      else quoted @ '' manifest is invalid'')"

definition discover_trusted_connectors :: "'c discovery \<Rightarrow> 'c list result" where
  "discover_trusted_connectors d =
     (case d_failures d of
        f # _ \<Rightarrow> Inl (Exc ConnectorDiscoveryError (strict_failure_message f))
      | [] \<Rightarrow> Inr (map fst (d_connectors d)))"

section \<open>validate\_active\_connector\_dependencies\<close>

text \<open>A connection is its connector key and its status; \<open>available\<close> lists what was discovered.\<close>

definition required_names :: "string list \<Rightarrow> (pyval \<times> pyval) list \<Rightarrow> string list" where
  "required_names allowed connections =
     remdups (filter (\<lambda>n. n \<in> set allowed)
       (map (\<lambda>(key, status). normalize_connector_name key)
         (filter (\<lambda>(key, status). py_eq status (PStr ''active'')) connections)))"

datatype 'c available = Discovered "'c discovery" | Instances "'c list"

definition available_names ::
  "('c \<Rightarrow> 'n connector_spec option result) \<Rightarrow> 'c available \<Rightarrow> string list result" where
  "available_names spec_of a =
     (case a of
        Discovered d \<Rightarrow> Inr (map (\<lambda>(c, s). normalize_connector_name (connector_key s)) (d_connectors d))
      | Instances cs \<Rightarrow>
          (case mapR (\<lambda>c. bindR (spec_of c)
                (\<lambda>s. case s of Some s \<Rightarrow> Inr (normalize_connector_name (connector_key s))
                     | None \<Rightarrow> Inl (Exc AttributeError ''connector_key''))) cs of
             Inr names \<Rightarrow> Inr names
           | Inl e \<Rightarrow>
               (if is_exception e then Inl (Exc ConnectorDiscoveryError
                  ''active connection requires unavailable trusted connector'') else Inl e)))"

definition validate_active_connector_dependencies ::
  "('c \<Rightarrow> 'n connector_spec option result) \<Rightarrow> pyval \<Rightarrow> (pyval \<times> pyval) list \<Rightarrow> 'c available
     \<Rightarrow> unit result" where
  "validate_active_connector_dependencies spec_of allowlist connections available =
     (let required = required_names (parse_connector_allowlist allowlist) connections in
      if required = [] then Inr ()
      else bindR (available_names spec_of available) (\<lambda>names.
        forR (\<lambda>n. require (n \<in> set names) (Exc ConnectorDiscoveryError
            (''active connection requires unavailable connector '' @ [CHR 0x27] @ n @ [CHR 0x27])))
          (sort required)))"

definition register_discovered_connectors ::
  "'c registry \<Rightarrow> 'c discovery \<Rightarrow> 'c registry result" where
  "register_discovered_connectors r d =
     replace_discovered_connectors look_tree r (map (\<lambda>(c, s). (c, Some s)) (d_connectors d))"

section \<open>What a scan has established\<close>

definition origin_ok ::
  "('n \<Rightarrow> ('i, 'n) shape) \<Rightarrow> ('c \<Rightarrow> bool) \<Rightarrow> ('c \<Rightarrow> 'n connector_spec option result)
     \<Rightarrow> 'c entry_point list \<Rightarrow> 'c \<times> pyval connector_spec \<Rightarrow> bool" where
  "origin_ok look is_connector spec_of eps item \<longleftrightarrow>
     (\<exists>ep\<in>set eps. ep_instance ep = Inr (fst item) \<and> is_connector (fst item) \<and>
        spec_key (snd item) = manifest_key_for (ep_name ep) \<and>
        (\<exists>m. spec_of (fst item) = Inr m \<and>
           validate_connector_manifest look (Some (manifest_key_for (ep_name ep))) True m = Inr (snd item)))"

lemma scan_entry_found:
  assumes "scan_entry look is_connector spec_of sc ep = Inr sc'"
  shows "sc_found sc' = sc_found sc \<and> length (sc_failures sc) < length (sc_failures sc') \<or>
    (\<exists>c s m. ep_instance ep = Inr c \<and> is_connector c \<and> spec_of c = Inr m \<and>
       validate_connector_manifest look (Some (manifest_key_for (ep_name ep))) True m = Inr s \<and>
       sc' = scan_found sc (manifest_key_for (ep_name ep)) c s)"
  using assms unfolding scan_entry_def Let_def
  by (auto simp: caught_def scan_fail_def split: sum.splits if_splits)

lemma sc_found_scan_found: "sc_found (scan_found sc key c s) = sc_found sc @ [(c, s)]"
  by (simp add: scan_found_def Let_def scan_fail_def)

lemma scan_origin:
  assumes "foldR (scan_entry look is_connector spec_of) empty_scan eps = Inr sc"
  shows "list_all (origin_ok look is_connector spec_of eps) (sc_found sc)"
proof (rule foldR_invariant [OF assms])
  show "list_all (origin_ok look is_connector spec_of eps) (sc_found empty_scan)"
    by (simp add: empty_scan_def)
next
  fix sc ep sc'
  assume ep: "ep \<in> set eps" and inv: "list_all (origin_ok look is_connector spec_of eps) (sc_found sc)"
    and step: "scan_entry look is_connector spec_of sc ep = Inr sc'"
  from scan_entry_found [OF step] show "list_all (origin_ok look is_connector spec_of eps) (sc_found sc')"
  proof (elim disjE exE conjE)
    fix c s m
    assume c: "ep_instance ep = Inr c" "is_connector c" "spec_of c = Inr m"
      "validate_connector_manifest look (Some (manifest_key_for (ep_name ep))) True m = Inr s"
      and sc': "sc' = scan_found sc (manifest_key_for (ep_name ep)) c s"
    obtain k where "connector_key s = PStr k" "k = manifest_key_for (ep_name ep)"
      using validated_key [OF c(4)] by auto
    then have "origin_ok look is_connector spec_of eps (c, s)"
      using c ep by (auto simp: origin_ok_def)
    then show ?thesis using inv by (simp add: sc' sc_found_scan_found)
  qed (use inv in simp)
qed

text \<open>C13: only allowlisted packages are discovered, each under its own name.  Every discovered connector
  comes from an installed entry point whose normalised name is on the allowlist, is an instance of the
  connector protocol, and its frozen manifest is the validation of the one it supplied and carries
  exactly the key that the entry-point name prescribes.\<close>

theorem discovered_are_allowlisted:
  assumes "discover_connector_packages look is_connector spec_of allowlist eps = Inr d"
    and "(c, s) \<in> set (d_connectors d)"
  shows "\<exists>ep\<in>set eps. \<exists>m. normalize_connector_name (PStr (ep_name ep)) \<in> set (parse_connector_allowlist allowlist) \<and>
     ep_instance ep = Inr c \<and> is_connector c \<and> connector_key s = PStr (manifest_key_for (ep_name ep)) \<and>
     spec_of c = Inr m \<and>
     validate_connector_manifest look (Some (manifest_key_for (ep_name ep))) True m = Inr s"
proof -
  let ?cands = "candidates (parse_connector_allowlist allowlist) eps"
  obtain sc where fold: "foldR (scan_entry look is_connector spec_of) empty_scan ?cands = Inr sc"
    and d: "d_connectors d = sc_found sc"
    using assms by (auto simp: discover_connector_packages_def Let_def split: if_splits)
  have "origin_ok look is_connector spec_of ?cands (c, s)"
    using scan_origin [OF fold] assms(2) d by (simp add: list_all_iff)
  then obtain ep m where ep: "ep \<in> set ?cands" "ep_instance ep = Inr c" "is_connector c"
    "spec_of c = Inr m"
    "validate_connector_manifest look (Some (manifest_key_for (ep_name ep))) True m = Inr s"
    by (auto simp: origin_ok_def)
  obtain k where "connector_key s = PStr k" "k = manifest_key_for (ep_name ep)"
    using validated_key [OF ep(5)] by auto
  with ep show ?thesis by (auto simp: candidates_def)
qed

section \<open>A clean discovery registers\<close>

definition reserve_all :: "(string, string) dict \<Rightarrow> pyval connector_spec list \<Rightarrow> (string, string) dict" where
  "reserve_all ids ss = foldl (\<lambda>ids s. own_identities (spec_key s) (candidate_identities s) ids) ids ss"

lemma map_of_reserve_all:
  "map_of (reserve_all ids ss) i = None \<longleftrightarrow>
     map_of ids i = None \<and> (\<forall>s\<in>set ss. i \<notin> set (candidate_identities s))"
  unfolding reserve_all_def by (induction ss arbitrary: ids) (auto simp: map_of_own)

lemma validate_batch_snoc:
  assumes "validate_batch look keys ids specs = Inr ss"
    and "reserve look (keys @ map spec_key ss) (reserve_all ids ss) spec = Inr (keys', ids', s)"
  shows "validate_batch look keys ids (specs @ [spec]) = Inr (ss @ [s])"
  using assms
proof (induction specs arbitrary: keys ids ss)
  case Nil
  then show ?case by (simp add: reserve_all_def)
next
  case (Cons x specs)
  from Cons.prems(1) obtain k1 i1 s1 ss1 where one: "reserve look keys ids x = Inr (k1, i1, s1)"
    and rest: "validate_batch look k1 i1 specs = Inr ss1" and ss: "ss = s1 # ss1" by auto
  from one obtain cand where "validate_against s1 keys ids = Inr cand" "k1 = keys @ [spec_key s1]"
    "i1 = own_identities (spec_key s1) cand ids" by (rule reserve_Inr)
  then have k1: "k1 = keys @ [spec_key s1]" "i1 = own_identities (spec_key s1) (candidate_identities s1) ids"
    using validate_against_Inr(1) by metis+
  have "reserve look (k1 @ map spec_key ss1) (reserve_all i1 ss1) spec = Inr (keys', ids', s)"
    using Cons.prems(2) by (simp add: ss k1 reserve_all_def)
  from Cons.IH [OF rest this] show ?case by (simp add: one ss)
qed

definition clean_inv :: "'c scan \<Rightarrow> bool" where
  "clean_inv sc \<longleftrightarrow> sc_failures sc = [] \<longrightarrow>
     (let ss = map snd (sc_found sc) in
      set (sc_keys sc) = spec_key ` set ss \<and>
      set (sc_idents sc) = \<Union> (set ` candidate_identities ` set ss) \<and>
      (set RESERVED_CONNECTOR_KEYS \<inter> spec_key ` set ss = {} \<longrightarrow>
        validate_batch look_tree [] [] (map Some ss) = Inr ss))"

lemma clean_found:
  assumes inv: "clean_inv sc" and v: "validate_connector_manifest look e True m = Inr s"
  shows "clean_inv (scan_found sc key c s)"
proof (cases "identity_collision sc s \<or> sc_failures sc \<noteq> []")
  case True
  then show ?thesis by (auto simp: clean_inv_def scan_found_def scan_fail_def Let_def)
next
  case False
  let ?ss = "map snd (sc_found sc)"
  have I: "set (sc_keys sc) = spec_key ` set ?ss"
    "set (sc_idents sc) = \<Union> (set ` candidate_identities ` set ?ss)"
    "set RESERVED_CONNECTOR_KEYS \<inter> spec_key ` set ?ss = {} \<Longrightarrow>
      validate_batch look_tree [] [] (map Some ?ss) = Inr ?ss"
    using inv False by (auto simp: clean_inv_def Let_def)
  have free: "spec_key s \<notin> set (sc_keys sc)" "spec_key s \<notin> set (sc_idents sc)"
    "spec_key s \<notin> set (candidate_identities s)"
    "\<forall>i\<in>set (candidate_identities s). i \<notin> set (sc_idents sc) \<and> i \<notin> set (sc_keys sc)"
    using False by (auto simp: identity_collision_def Let_def list_ex_iff)
  have again: "validate_connector_manifest look_tree None True (Some s) = Inr s"
    using validate_manifest_again [OF v] by (rule validate_without_expected)
  have batch: "validate_batch look_tree [] [] (map Some ?ss @ [Some s]) = Inr (?ss @ [s])"
    if res: "set RESERVED_CONNECTOR_KEYS \<inter> insert (spec_key s) (spec_key ` set ?ss) = {}"
  proof -
    have "validate_against s (map spec_key ?ss) (reserve_all [] ?ss) = Inr (candidate_identities s)"
    proof -
      have keys: "set (map spec_key ?ss) = set (sc_keys sc)" using I(1) by (simp add: image_image)
      have none: "map_of (reserve_all [] ?ss) i = None \<longleftrightarrow> i \<notin> set (sc_idents sc)" for i
        using I(2) by (simp add: map_of_reserve_all)
      show ?thesis using free res by (auto simp: validate_against_def Let_def list_ex_iff keys none simp del: set_map map_map)
    qed
    then have "reserve look_tree ([] @ map spec_key ?ss) (reserve_all [] ?ss) (Some s) =
        Inr (map spec_key ?ss @ [spec_key s],
             own_identities (spec_key s) (candidate_identities s) (reserve_all [] ?ss), s)"
      by (simp add: reserve_def again)
    then show ?thesis using validate_batch_snoc I(3) res by blast
  qed
  show ?thesis
    using False I(1,2) batch by (auto simp: clean_inv_def scan_found_def Let_def)
qed

lemma scan_clean:
  assumes "foldR (scan_entry look is_connector spec_of) empty_scan eps = Inr sc"
  shows "clean_inv sc"
proof (rule foldR_invariant [OF assms])
  show "clean_inv empty_scan" by (simp add: clean_inv_def empty_scan_def)
next
  fix sc ep sc' assume inv: "clean_inv sc"
    and step: "scan_entry look is_connector spec_of sc ep = Inr sc'"
  from scan_entry_found [OF step] show "clean_inv sc'"
  proof (elim disjE exE conjE)
    assume "length (sc_failures sc) < length (sc_failures sc')"
    then show ?thesis by (cases "sc_failures sc'") (simp_all add: clean_inv_def)
  next
    fix c s m
    assume "validate_connector_manifest look (Some (manifest_key_for (ep_name ep))) True m = Inr s"
      and "sc' = scan_found sc (manifest_key_for (ep_name ep)) c s"
    then show ?thesis using clean_found [OF inv] by simp
  qed
qed

text \<open>a clean discovery always registers.  When \<open>discover_trusted_connectors\<close> accepts a discovery
  and no package is named like the reserved connector, its manifests install into a registry that holds
  no other connectors, and all of them are found there.\<close>

theorem clean_discovery_registers:
  assumes "discover_connector_packages look is_connector spec_of allowlist eps = Inr d"
    and "discover_trusted_connectors d = Inr cs"
    and "set RESERVED_CONNECTOR_KEYS \<inter> spec_key ` set (map snd (d_connectors d)) = {}"
  shows "\<exists>r. register_discovered_connectors empty_registry d = Inr r \<and>
     map fst (d_connectors d) = cs \<and>
     (\<forall>(c, s)\<in>set (d_connectors d). get_connector r (spec_key s) = Inr c \<and>
        validated_spec r (spec_key s) = Some s)"
proof -
  let ?found = "d_connectors d"
  have clean: "d_failures d = []" and cs: "map fst ?found = cs"
    using assms(2) by (auto simp: discover_trusted_connectors_def split: list.splits)
  obtain sc where fold: "foldR (scan_entry look is_connector spec_of) empty_scan
      (candidates (parse_connector_allowlist allowlist) eps) = Inr sc"
    and d: "d_connectors d = sc_found sc" "d_failures d = sc_failures sc"
    using assms(1) clean by (auto simp: discover_connector_packages_def Let_def split: if_splits)
  have batch: "validate_batch look_tree [] [] (map Some (map snd ?found)) = Inr (map snd ?found)"
    using scan_clean [OF fold] clean assms(3) by (simp add: clean_inv_def Let_def d)
  have base: "base_without_discovered (empty_registry :: 'a registry) = empty_registry"
    by (simp add: base_without_discovered_def empty_registry_def)
  have items: "map snd (map (\<lambda>(c, s). (c, Some s)) ?found) = map Some (map snd ?found)"
    "map fst (map (\<lambda>(c, s). (c, Some s)) ?found) = map fst ?found" by (simp_all add: case_prod_beta)
  have tables: "map fst (reg_connectors (empty_registry :: 'a registry)) = []"
    "reg_identities (empty_registry :: 'a registry) = []" by (simp_all add: empty_registry_def)
  let ?r = "foldl install (empty_registry :: 'a registry) (zip (map fst ?found) (map snd ?found))"
  have reg: "register_discovered_connectors empty_registry d = Inr ?r"
    unfolding register_discovered_connectors_def replace_discovered_connectors_def
      validate_discovered_batch_def Let_def base items tables batch bindR.simps ..
  have inv: "reg_inv (empty_registry :: 'a registry)" by (simp add: reg_inv_def empty_registry_def)
  have batch': "validate_batch look_tree (map fst (reg_connectors (empty_registry :: 'a registry)))
      (reg_identities (empty_registry :: 'a registry)) (map Some (map snd ?found)) = Inr (map snd ?found)"
    using batch by (simp only: tables)
  note B = batch_installed [OF inv batch', of "map fst ?found"]
  have "\<forall>(c, s)\<in>set ?found. get_connector ?r (spec_key s) = Inr c \<and> validated_spec ?r (spec_key s) = Some s"
    using B by (auto simp: zip_map_fst_snd get_connector_def validated_spec_def)
  with reg cs show ?thesis by blast
qed

text \<open>the dependency check is exact.  Against a discovery, it raises exactly when some active
  connection names an allowlisted connector that the discovery does not hold; connections that are not
  active, and connectors that are not allowlisted, never make it fail.\<close>

theorem active_dependencies_exact:
  "validate_active_connector_dependencies spec_of allowlist connections (Discovered d) = Inr () \<longleftrightarrow>
     (\<forall>(key, status)\<in>set connections. py_eq status (PStr ''active'') \<longrightarrow>
        normalize_connector_name key \<in> set (parse_connector_allowlist allowlist) \<longrightarrow>
        (\<exists>(c, s)\<in>set (d_connectors d). normalize_connector_name (connector_key s) = normalize_connector_name key))"
  unfolding validate_active_connector_dependencies_def Let_def available_names_def required_names_def
  by (auto simp: filter_empty_conv) force+

section \<open>A concrete discovery\<close>

definition demo_eps :: "nat entry_point list" where
  "demo_eps = [\<lparr>ep_name = ''My.CRM'', ep_instance = Inr 7\<rparr>, \<lparr>ep_name = ''other'', ep_instance = Inr 8\<rparr>]"

definition demo_spec_of :: "nat \<Rightarrow> pyval connector_spec option result" where
  "demo_spec_of c = Inr (Some (demo_frozen ''my_crm'' ''find'' ''crm_find''))"

definition demo_discovery :: "nat discovery" where
  "demo_discovery = \<lparr>d_connectors = [(7, demo_frozen ''my_crm'' ''find'' ''crm_find'')], d_failures = []\<rparr>"

lemma demo_discover:
  "discover_connector_packages look_tree (\<lambda>_. True) demo_spec_of (PStr ''my-crm, x'') demo_eps = Inr demo_discovery"
  by code_simp

theorem discovered_are_allowlisted_witness:
  "\<exists>ep\<in>set demo_eps. normalize_connector_name (PStr (ep_name ep)) \<in> set (parse_connector_allowlist (PStr ''my-crm, x''))"
proof -
  have "(7, demo_frozen ''my_crm'' ''find'' ''crm_find'') \<in> set (d_connectors demo_discovery)"
    by (simp add: demo_discovery_def)
  from discovered_are_allowlisted [OF demo_discover this] show ?thesis by blast
qed

theorem clean_discovery_registers_witness:
  "\<exists>r. register_discovered_connectors empty_registry demo_discovery = Inr r \<and>
     get_connector r ''my_crm'' = Inr 7"
proof -
  have "discover_trusted_connectors demo_discovery = Inr [7]"
    by (simp add: discover_trusted_connectors_def demo_discovery_def)
  moreover have k: "connector_key (demo_frozen ''my_crm'' ''find'' ''crm_find'') = PStr ''my_crm''"
    by (simp add: demo_frozen_def demo_spec_def)
  then have "set RESERVED_CONNECTOR_KEYS \<inter> spec_key ` set (map snd (d_connectors demo_discovery)) = {}"
    by (simp add: demo_discovery_def RESERVED_CONNECTOR_KEYS_def)
  ultimately show ?thesis
    using clean_discovery_registers [OF demo_discover] k by (auto simp: demo_discovery_def)
qed

theorem active_dependencies_exact_witness:
  "validate_active_connector_dependencies demo_spec_of (PStr ''my-crm, x'')
     [(PStr ''my_crm'', PStr ''active''), (PStr ''x'', PStr ''disabled'')] (Discovered demo_discovery) = Inr () \<and>
   validate_active_connector_dependencies demo_spec_of (PStr ''my-crm, x'')
     [(PStr ''my_crm'', PStr ''active''), (PStr ''x'', PStr ''active'')] (Discovered demo_discovery) \<noteq> Inr ()"
  unfolding active_dependencies_exact by code_simp

end
