(* ===== verification/Policy.thy ===== *)
theory Policy
  imports Contracts TtlStore
begin

text \<open>
  The policy half of \<open>app/connectors/runtime.py\<close> and \<open>app/connections/models.py\<close>: connections and tool
  policies, the guard that turns stored policy JSON into an execution policy, the normalisation of
  timeouts and rate limits, and the sliding-window limiter.
\<close>

section \<open>Connections and policies\<close>

record connection =
  cn_id :: string
  cn_tenant :: string
  cn_connector :: string
  cn_display_name :: string
  cn_status :: string
  cn_data_mode :: string
  cn_public_config :: pyval
  cn_config_version :: int
  cn_alias :: pyval

definition validate_connection_alias :: "pyval \<Rightarrow> string result" where
  "validate_connection_alias v =
     (case v of PStr s \<Rightarrow> (if length s > 64 \<or> \<not> ident_re s
          then Inl (value_error ''invalid connection_alias'') else Inr s)
      | _ \<Rightarrow> Inl (value_error ''invalid connection_alias''))"

text \<open>\<open>ConnectionRecord(...)\<close> with its \<open>__post_init__\<close>.\<close>

definition make_connection :: "connection \<Rightarrow> connection result" where
  "make_connection c =
     (if truthy (cn_alias c) then bindR (validate_connection_alias (cn_alias c)) (\<lambda>_. Inr c) else Inr c)"

record tool_policy =
  pl_connection :: string
  pl_tool :: pyval
  pl_enabled :: pyval
  pl_policy :: pyval

record rate_limit =
  rl_limit :: int
  rl_window :: pyfloat

record resolved_policy =
  rp_enabled :: bool
  rp_allow_write :: bool
  rp_timeout_ms :: int
  rp_rate_limit :: "rate_limit option"

definition MAX_TIMEOUT_MS :: int where "MAX_TIMEOUT_MS = 300000"

section \<open>Copies of tools\<close>

fun thaw_json :: "pyval \<Rightarrow> pyval" where
  "thaw_json (PMap m) = PMap (map (\<lambda>(k, v). (k, thaw_json v)) m)"
| "thaw_json (PTuple vs) = PList (map thaw_json vs)"
| "thaw_json v = v"

definition public_tool_copy :: "pyval tool_spec \<Rightarrow> pyval tool_spec" where
  "public_tool_copy t =
     t\<lparr>input_schema := thaw_json (input_schema t),
       output_schema := (if output_schema t = PNone then PNone else thaw_json (output_schema t))\<rparr>"

section \<open>Policy values\<close>

definition optional_policy_bool :: "(pyval \<times> pyval) list \<Rightarrow> string \<Rightarrow> bool option result" where
  "optional_policy_bool values key =
     (case mget values key of
        None \<Rightarrow> Inr None
      | Some (PBool b) \<Rightarrow> Inr (Some b)
      | Some _ \<Rightarrow> Inl (Exc InvalidToolPolicyError ''invalid boolean policy control''))"

definition normalize_timeout_ms :: "pyval \<Rightarrow> pyval \<Rightarrow> int" where
  "normalize_timeout_ms value declared =
     (let fallback = (case declared of PInt d \<Rightarrow> if 0 < d then d else MAX_TIMEOUT_MS | _ \<Rightarrow> MAX_TIMEOUT_MS);
          timeout = (case value of PInt i \<Rightarrow> i | _ \<Rightarrow> fallback)
      in min (if timeout \<le> 0 then fallback else timeout) MAX_TIMEOUT_MS)"

definition scaled :: "rat \<Rightarrow> pyfloat \<Rightarrow> pyfloat" where
  "scaled r f = (case f of Fin q \<Rightarrow> Fin (q / r) | _ \<Rightarrow> f)"

text \<open>\<open>f <= 0\<close> is false for a NaN.\<close>

definition not_positive :: "pyfloat \<Rightarrow> bool" where
  "not_positive f = (case f of Fin q \<Rightarrow> q \<le> 0 | NegInf \<Rightarrow> True | _ \<Rightarrow> False)"

definition invalid_rate_limit :: exc where
  "invalid_rate_limit = Exc InvalidToolPolicyError ''invalid rate limit configuration''"

text \<open>The nested form: its limit, and its window in seconds, if need be from milliseconds.\<close>

definition nested_limit :: "(pyval \<times> pyval) list \<Rightarrow> (pyval \<times> pyval) result" where
  "nested_limit raw =
     (let limit = mget_or raw ''limit'' (mget_none raw ''max_calls'');
          window = mget_none raw ''window_seconds'' in
      if window = PNone then
        (case num_of (mget_none raw ''window_ms'') of
           None \<Rightarrow> Inr (limit, PNone)
         | Some ms \<Rightarrow> bindR (float_result (scaled 1000 ms)) (\<lambda>w. Inr (limit, PFloat w)))
      else Inr (limit, window))"

definition normalize_rate_limit :: "(pyval \<times> pyval) list \<Rightarrow> rate_limit option result" where
  "normalize_rate_limit values =
     (let nested = has_key values ''rate_limit'';
          per_minute = has_key values ''rate_limit_per_minute'' in
      if \<not> nested \<and> \<not> per_minute then Inr None
      else
        bindR (case mget_none values ''rate_limit'' of
                 PMap raw \<Rightarrow> nested_limit raw
               | _ \<Rightarrow> (if \<not> nested then Inr (mget_none values ''rate_limit_per_minute'', PInt 60)
                       else Inl invalid_rate_limit))
          (\<lambda>(limit, window).
             case limit of
               PInt l \<Rightarrow>
                 (if l \<le> 0 \<or> is_bool window then Inl invalid_rate_limit
                  else case num_of window of
                    None \<Rightarrow> Inl invalid_rate_limit
                  | Some w \<Rightarrow>
                      (if not_positive w then Inl invalid_rate_limit
                       else bindR (float_result w) (\<lambda>w'. Inr (Some \<lparr>rl_limit = l, rl_window = w'\<rparr>))))
             | _ \<Rightarrow> Inl invalid_rate_limit))"

section \<open>PolicyGuard\<close>

definition resolve_policy :: "pyval tool_spec \<Rightarrow> tool_policy option \<Rightarrow> resolved_policy result" where
  "resolve_policy tool policy =
     bindR (case policy of
              None \<Rightarrow> Inr (True, [])
            | Some p \<Rightarrow>
                (case pl_policy p of
                   PMap values \<Rightarrow> Inr (pl_enabled p = PBool True, values)
                 | _ \<Rightarrow> Inl (Exc InvalidToolPolicyError ''policy must be a mapping'')))
       (\<lambda>(enabled, values).
       bindR (optional_policy_bool values ''allow_write'') (\<lambda>allow_write.
       bindR (optional_policy_bool values ''read_only'') (\<lambda>read_only.
       bindR (optional_policy_bool values ''readonly'') (\<lambda>readonly.
       bindR (normalize_rate_limit values) (\<lambda>rate.
       Inr \<lparr>rp_enabled = enabled,
            rp_allow_write = (allow_write = Some True \<and> read_only \<noteq> Some True \<and> readonly \<noteq> Some True),
            rp_timeout_ms = normalize_timeout_ms (mget_none values ''timeout_ms'') (default_timeout_ms tool),
            rp_rate_limit = rate\<rparr>)))))"

definition assert_allowed :: "pyval tool_spec \<Rightarrow> tool_policy option \<Rightarrow> resolved_policy result" where
  "assert_allowed tool policy =
     bindR (resolve_policy tool policy) (\<lambda>r.
       if \<not> rp_enabled r then Inl (Exc ToolDisabledError ''tool is disabled for this connection'')
       else if py_eq (operation_kind tool) (PStr ''write'') \<and> \<not> rp_allow_write r
       then Inl (Exc WritePolicyError ''write tools require explicit connection policy'')
       else Inr r)"

section \<open>SlidingWindowRateLimiter\<close>

datatype rate_key = RateKey (rk_connection: string) (rk_tool: pyval)

type_synonym limiter = "(rate_key, time list) dict"

text \<open>\<open>bucket[0] <= cutoff\<close> with \<open>cutoff = now - window\<close>: never for an infinite or NaN window.\<close>

definition expired :: "time \<Rightarrow> pyfloat \<Rightarrow> time \<Rightarrow> bool" where
  "expired now window t = (case window of Fin w \<Rightarrow> t \<le> now - w | NegInf \<Rightarrow> True | _ \<Rightarrow> False)"

definition bucket_of :: "limiter \<Rightarrow> rate_key \<Rightarrow> time list" where
  "bucket_of l k = (case map_of l k of None \<Rightarrow> [] | Some b \<Rightarrow> b)"

definition limiter_allow :: "time \<Rightarrow> limiter \<Rightarrow> rate_key \<Rightarrow> rate_limit \<Rightarrow> bool \<times> limiter" where
  "limiter_allow now l key r =
     (let bucket = dropWhile (expired now (rl_window r)) (bucket_of l key) in
      if int (length bucket) \<ge> rl_limit r then (False, AList.update key bucket l)
      else (True, AList.update key (bucket @ [now]) l))"

section \<open>The guard\<close>

lemma mget_bool_iff: "optional_policy_bool values key = Inr (Some b) \<longleftrightarrow> mget values key = Some (PBool b)"
  by (auto simp: optional_policy_bool_def split: option.splits pyval.splits)

text \<open>Timeouts are always positive and bounded.  Whatever the stored policy says, the resolved timeout
  lies between 1 ms and five minutes; a positive integer of the policy is honoured up to that cap, and
  anything else falls back to the declared default of the tool.\<close>

theorem timeout_bounded:
  "0 < normalize_timeout_ms v d \<and> normalize_timeout_ms v d \<le> 300000 \<and>
     normalize_timeout_ms v d =
       min (if \<exists>i>0. v = PInt i then (case v of PInt i \<Rightarrow> i | _ \<Rightarrow> 0)
            else if \<exists>i>0. d = PInt i then (case d of PInt i \<Rightarrow> i | _ \<Rightarrow> 0) else 300000) 300000"
  by (cases v; cases d) (auto simp: normalize_timeout_ms_def MAX_TIMEOUT_MS_def Let_def)

lemma assert_allowed_Inr:
  assumes "assert_allowed tool policy = Inr r"
  shows "rp_enabled r" "py_eq (operation_kind tool) (PStr ''write'') \<Longrightarrow> rp_allow_write r"
    "resolve_policy tool policy = Inr r"
  using assms by (auto simp: assert_allowed_def split: if_splits)

lemma resolve_write:
  assumes "resolve_policy tool policy = Inr r" and "rp_allow_write r"
  shows "\<exists>p values. policy = Some p \<and> pl_policy p = PMap values \<and>
     mget values ''allow_write'' = Some (PBool True) \<and> mget values ''read_only'' \<noteq> Some (PBool True) \<and>
     mget values ''readonly'' \<noteq> Some (PBool True)"
proof (cases policy)
  case None
  then show ?thesis using assms by (auto simp: resolve_policy_def optional_policy_bool_def)
next
  case (Some p)
  from assms(1) obtain vs aw ro rd where v: "pl_policy p = PMap vs"
    and aw: "optional_policy_bool vs ''allow_write'' = Inr aw"
    and ro: "optional_policy_bool vs ''read_only'' = Inr ro"
    and rd: "optional_policy_bool vs ''readonly'' = Inr rd"
    and r: "rp_allow_write r = (aw = Some True \<and> ro \<noteq> Some True \<and> rd \<noteq> Some True)"
    by (auto simp: resolve_policy_def Some split: pyval.splits)
  show ?thesis
    using Some v aw ro rd r assms(2) mget_bool_iff [of vs "''allow_write''" True]
    by (auto simp: optional_policy_bool_def)
qed

lemma resolve_enabled:
  assumes "resolve_policy tool policy = Inr r" and "rp_enabled r"
  shows "case policy of None \<Rightarrow> True | Some p \<Rightarrow> pl_enabled p = PBool True"
  using assms by (cases policy) (auto simp: resolve_policy_def split: pyval.splits)

text \<open>C3: a write needs an explicit, unambiguous allowance.  When the guard lets a write tool pass, a
  policy is stored whose \<open>enabled\<close> is \<open>True\<close>, whose \<open>allow_write\<close> is \<open>True\<close>, and in which neither
  spelling of the read-only flag is set; a missing policy never allows a write.\<close>

theorem write_needs_explicit_policy:
  assumes "operation_kind tool = PStr ''write''" and "assert_allowed tool policy = Inr r"
  shows "\<exists>p values. policy = Some p \<and> pl_enabled p = PBool True \<and> pl_policy p = PMap values \<and>
     mget values ''allow_write'' = Some (PBool True) \<and> mget values ''read_only'' \<noteq> Some (PBool True) \<and>
     mget values ''readonly'' \<noteq> Some (PBool True)"
proof -
  note A = assert_allowed_Inr [OF assms(2)]
  have "rp_allow_write r" using A(2) assms(1) by simp
  then show ?thesis using resolve_write [OF A(3)] resolve_enabled [OF A(3,1)] by auto
qed

definition demo_write_tool :: "pyval tool_spec" where
  "demo_write_tool = (demo_tool ''set'' ''crm_set'' (PMap []) PNone)\<lparr>operation_kind := PStr ''write''\<rparr>"

definition demo_write_policy :: tool_policy where
  "demo_write_policy = \<lparr>pl_connection = ''c1'', pl_tool = PStr ''set'', pl_enabled = PBool True,
     pl_policy = PMap [(PStr ''allow_write'', PBool True)]\<rparr>"

theorem write_needs_explicit_policy_witness:
  "\<exists>r. assert_allowed demo_write_tool (Some demo_write_policy) = Inr r \<and>
     (\<exists>values. pl_policy demo_write_policy = PMap values \<and> mget values ''allow_write'' = Some (PBool True))"
proof -
  have "assert_allowed demo_write_tool (Some demo_write_policy) =
      Inr \<lparr>rp_enabled = True, rp_allow_write = True, rp_timeout_ms = 1000, rp_rate_limit = None\<rparr>"
    by code_simp
  moreover have "operation_kind demo_write_tool = PStr ''write''" by (simp add: demo_write_tool_def)
  ultimately show ?thesis using write_needs_explicit_policy [of demo_write_tool "Some demo_write_policy"] by auto
qed

section \<open>The limiter\<close>

text \<open>A sequence of calls on one limiter, and the times at which calls on one key were granted.\<close>

type_synonym limiter_call = "time \<times> rate_key \<times> rate_limit"

fun granted :: "rate_key \<Rightarrow> limiter \<Rightarrow> limiter_call list \<Rightarrow> time list" where
  "granted k l [] = []"
| "granted k l ((now, key, r) # calls) =
     (let (ok, l') = limiter_allow now l key r in
      (if ok \<and> key = k then [now] else []) @ granted k l' calls)"

text \<open>The calls come in the order of the clock, and the key always has the same positive limit.\<close>

fun calls_ok :: "rate_key \<Rightarrow> int \<Rightarrow> rat \<Rightarrow> time \<Rightarrow> limiter_call list \<Rightarrow> bool" where
  "calls_ok k n w prev [] = True"
| "calls_ok k n w prev ((now, key, r) # calls) =
     (prev \<le> now \<and> (key = k \<longrightarrow> r = \<lparr>rl_limit = n, rl_window = Fin w\<rparr>) \<and> calls_ok k n w now calls)"

definition window_count :: "rat \<Rightarrow> time \<Rightarrow> time list \<Rightarrow> nat" where
  "window_count w t gs = length (filter (\<lambda>g. t - w < g \<and> g \<le> t) gs)"

text \<open>The bucket holds the grants of the current window: those after some cutoff not in the future.\<close>

definition bucket_inv :: "rate_key \<Rightarrow> int \<Rightarrow> rat \<Rightarrow> time \<Rightarrow> time list \<Rightarrow> limiter \<Rightarrow> bool" where
  "bucket_inv k n w prev gs l \<longleftrightarrow>
     sorted gs \<and> (\<forall>g\<in>set gs. g \<le> prev) \<and>
     (\<exists>c \<le> prev - w. bucket_of l k = filter (\<lambda>g. c < g) gs) \<and>
     (\<forall>t. int (window_count w t gs) \<le> n)"

lemma dropWhile_sorted:
  "sorted gs \<Longrightarrow> c \<le> d \<Longrightarrow> dropWhile (\<lambda>g. g \<le> d) (filter (\<lambda>g. c < g) gs) = filter (\<lambda>g. d < g) (gs :: time list)"
proof (induction gs)
  case Nil
  then show ?case by simp
next
  case (Cons g gs)
  show ?case
  proof (cases "g \<le> d")
    case True
    with Cons show ?thesis by auto
  next
    case False
    have "filter (\<lambda>g. c < g) gs = gs" "filter (\<lambda>g. d < g) gs = gs"
      using Cons.prems False by (auto simp: filter_id_conv)
    with False Cons.prems show ?thesis by auto
  qed
qed

lemma bucket_inv_mono: "bucket_inv k n w prev gs l \<Longrightarrow> prev \<le> now \<Longrightarrow> bucket_inv k n w now gs l"
  unfolding bucket_inv_def by (smt (verit, best) diff_right_mono order_trans)

lemma bucket_of_update: "bucket_of (AList.update key b l) k = (if k = key then b else bucket_of l k)"
  by (simp add: bucket_of_def)

lemma filter_le: "(\<And>x. x \<in> set xs \<Longrightarrow> P x \<Longrightarrow> Q x) \<Longrightarrow> length (filter P xs) \<le> length (filter Q xs)"
  by (induction xs) auto

lemma window_count_snoc:
  assumes "sorted gs" and "\<forall>g\<in>set gs. g \<le> now" and "int (length (filter (\<lambda>g. now - w < g) gs)) < n"
    and "\<forall>t. int (window_count w t gs) \<le> n"
  shows "int (window_count w t (gs @ [now])) \<le> n"
proof (cases "t < now")
  case True
  then show ?thesis using assms(4) by (simp add: window_count_def)
next
  case False
  have "length (filter (\<lambda>g. t - w < g \<and> g \<le> t) gs) \<le> length (filter (\<lambda>g. now - w < g) gs)"
    by (rule filter_le) (use False in auto)
  then show ?thesis using assms(3) by (simp add: window_count_def)
qed

lemma limiter_allow_bucket:
  assumes "bucket_inv k n w now gs l" and "limiter_allow now l k \<lparr>rl_limit = n, rl_window = Fin w\<rparr> = (ok, l')"
  shows "ok = (int (length (filter (\<lambda>g. now - w < g) gs)) < n)"
    "bucket_of l' k = filter (\<lambda>g. now - w < g) gs @ (if ok then [now] else [])"
proof -
  obtain c where c: "c \<le> now - w" "bucket_of l k = filter (\<lambda>g. c < g) gs" and "sorted gs"
    using assms(1) by (auto simp: bucket_inv_def)
  then have "dropWhile (expired now (Fin w)) (bucket_of l k) = filter (\<lambda>g. now - w < g) gs"
    using dropWhile_sorted [of gs c "now - w"] by (simp add: expired_def [abs_def])
  then show "ok = (int (length (filter (\<lambda>g. now - w < g) gs)) < n)"
    "bucket_of l' k = filter (\<lambda>g. now - w < g) gs @ (if ok then [now] else [])"
    using assms(2) by (auto simp: limiter_allow_def Let_def bucket_of_update split: if_splits)
qed

lemma limiter_allow_inv:
  assumes inv: "bucket_inv k n w now gs l" and w: "0 < w"
    and step: "limiter_allow now l key r = (ok, l')"
    and r: "key = k \<longrightarrow> r = \<lparr>rl_limit = n, rl_window = Fin w\<rparr>"
  shows "bucket_inv k n w now (gs @ (if ok \<and> key = k then [now] else [])) l'"
proof (cases "key = k")
  case False
  have "bucket_of l' k = bucket_of l k"
    using step False by (auto simp: limiter_allow_def Let_def bucket_of_update split: if_splits)
  then show ?thesis using inv False by (simp add: bucket_inv_def)
next
  case True
  have step': "limiter_allow now l k \<lparr>rl_limit = n, rl_window = Fin w\<rparr> = (ok, l')"
    using step r True by simp
  note B = limiter_allow_bucket [OF inv step']
  have inv': "sorted gs" "\<forall>g\<in>set gs. g \<le> now" "\<forall>t. int (window_count w t gs) \<le> n"
    using inv by (auto simp: bucket_inv_def)
  show ?thesis
  proof (cases ok)
    case False
    then show ?thesis using B(2) inv' by (auto simp: bucket_inv_def True)
  next
    case ok: True
    have "int (window_count w t (gs @ [now])) \<le> n" for t
      by (rule window_count_snoc [OF inv'(1,2) _ inv'(3)]) (use B(1) ok in simp)
    moreover have "filter (\<lambda>g. now - w < g) (gs @ [now]) = filter (\<lambda>g. now - w < g) gs @ [now]"
      using w by simp
    ultimately show ?thesis
      using B(2) inv' ok w by (auto simp: bucket_inv_def True sorted_append intro!: exI [of _ "now - w"])
  qed
qed

lemma granted_window:
  assumes "bucket_inv k n w prev gs l" and "0 < w" and "calls_ok k n w prev calls"
  shows "int (window_count w t (gs @ granted k l calls)) \<le> n"
  using assms
proof (induction calls arbitrary: prev gs l)
  case Nil
  then show ?case by (simp add: bucket_inv_def)
next
  case (Cons call calls)
  obtain now key r where call: "call = (now, key, r)" by (cases call)
  obtain ok l' where step: "limiter_allow now l key r = (ok, l')" by (cases "limiter_allow now l key r")
  have "prev \<le> now" "key = k \<longrightarrow> r = \<lparr>rl_limit = n, rl_window = Fin w\<rparr>" "calls_ok k n w now calls"
    using Cons.prems(3) by (auto simp: call)
  note inv = limiter_allow_inv [OF bucket_inv_mono [OF Cons.prems(1) this(1)] Cons.prems(2) step this(2)]
  from Cons.IH [OF inv Cons.prems(2) \<open>calls_ok k n w now calls\<close>] show ?case
    by (simp add: call step)
qed

text \<open>C4: the limiter keeps its promise in every window.  For any sequence of calls in clock order, on any
  keys, a key whose calls all carry the limit \<open>n\<close> and the window \<open>w\<close> is granted at most \<open>n\<close> calls in any
  half-open interval of length \<open>w\<close>, wherever it begins, whatever happens on the other keys.\<close>

theorem limiter_window_bound:
  assumes "0 < w" and "0 \<le> n" and "calls_ok k n w start calls"
  shows "int (window_count w t (granted k [] calls)) \<le> n"
proof -
  have "bucket_inv k n w start [] []"
    using assms(1,2) by (auto simp: bucket_inv_def bucket_of_def window_count_def)
  from granted_window [OF this assms(1,3)] show ?thesis by simp
qed

definition demo_calls :: "limiter_call list" where
  "demo_calls = map (\<lambda>t. (t, RateKey ''c1'' (PStr ''t''), \<lparr>rl_limit = 2, rl_window = Fin 10\<rparr>)) [0, 1, 2, 10, 11]"

theorem limiter_window_bound_witness:
  "granted (RateKey ''c1'' (PStr ''t'')) [] demo_calls = [0, 1, 10, 11] \<and>
     int (window_count 10 10 (granted (RateKey ''c1'' (PStr ''t'')) [] demo_calls)) \<le> 2"
proof -
  have "granted (RateKey ''c1'' (PStr ''t'')) [] demo_calls = [0, 1, 10, 11]" by code_simp
  moreover have "calls_ok (RateKey ''c1'' (PStr ''t'')) 2 10 0 demo_calls" by (simp add: demo_calls_def)
  ultimately show ?thesis
    using limiter_window_bound [of 10 2 "RateKey ''c1'' (PStr ''t'')" 0 demo_calls 10] by simp
qed

text \<open>a rate limit that passes the checks need not be a bounded window.  A policy whose \<open>window_ms\<close>
  is the boolean \<open>True\<close> is accepted as a window of one millisecond, although a boolean
  \<open>window_seconds\<close> is refused; a NaN window is accepted, and then a grant never expires, so that the
  tool stays blocked once its limit is used up.\<close>

theorem rate_limit_accepts_unusable:
  "normalize_rate_limit [(PStr ''rate_limit'', PMap [(PStr ''limit'', PInt 3), (PStr ''window_ms'', PBool True)])]
       = Inr (Some \<lparr>rl_limit = 3, rl_window = Fin (1 / 1000)\<rparr>) \<and>
     normalize_rate_limit [(PStr ''rate_limit'', PMap [(PStr ''limit'', PInt 1), (PStr ''window_seconds'', PFloat NaN)])]
       = Inr (Some \<lparr>rl_limit = 1, rl_window = NaN\<rparr>) \<and>
     (\<forall>now later. fst (limiter_allow later (snd (limiter_allow now [] k \<lparr>rl_limit = 1, rl_window = NaN\<rparr>)) k
        \<lparr>rl_limit = 1, rl_window = NaN\<rparr>) = False)"
proof (intro conjI allI)
  show "normalize_rate_limit [(PStr ''rate_limit'', PMap [(PStr ''limit'', PInt 3), (PStr ''window_ms'', PBool True)])]
       = Inr (Some \<lparr>rl_limit = 3, rl_window = Fin (1 / 1000)\<rparr>)"
    by (simp add: normalize_rate_limit_def nested_limit_def mget_none_def mget_or_def has_key_def
        float_result_def scaled_def not_positive_def DOUBLE_OVERFLOW_def)
  show "normalize_rate_limit [(PStr ''rate_limit'', PMap [(PStr ''limit'', PInt 1), (PStr ''window_seconds'', PFloat NaN)])]
       = Inr (Some \<lparr>rl_limit = 1, rl_window = NaN\<rparr>)"
    by (simp add: normalize_rate_limit_def nested_limit_def mget_none_def mget_or_def has_key_def
        float_result_def not_positive_def)
qed (simp add: limiter_allow_def bucket_of_def expired_def)

end
