(* ===== verification/Runtime.thy ===== *)
theory Runtime
  imports Policy Registry CacheRun
begin

text \<open>
  \<open>ConnectorRuntime\<close> of \<open>app/connectors/runtime.py\<close>: the resolution of a connection's manifest, the
  policy lookup, the listing of tools, and the execution of one call from its checks through the data
  mode and the response cache to its audit event.  What the runtime only calls is a field of the record
  \<open>runtime\<close>: the policy store, the audit sink, the mode hooks, the connectors and the provider.
\<close>

section \<open>Collaborators\<close>

text \<open>\<open>ExecutionResult(data, status)\<close> as a value.\<close>

abbreviation exec_result :: "pyval \<Rightarrow> pyval \<Rightarrow> pyval" where
  "exec_result data status \<equiv> PObj ''ExecutionResult'' [(''data'', data), (''status'', status)]"

abbreviation exec_ok :: "pyval \<Rightarrow> pyval" where
  "exec_ok data \<equiv> exec_result data (PStr ''ok'')"

record audit_event =
  ev_tenant :: string
  ev_connection :: string
  ev_connector :: string
  ev_tool :: pyval
  ev_status :: string
  ev_cost_ms :: int
  ev_args_summary :: string
  ev_result_summary :: string
  ev_error_code :: string
  ev_error_summary :: string

record 'c provider =
  pv_key :: string
  pv_spec :: "connection \<Rightarrow> pyval connector_spec result"
  pv_connect :: "connection \<Rightarrow> 'c result"

text \<open>What a data-mode hook returns: an awaitable with its outcome, or something else.\<close>

datatype hook_return = Awaitable "pyval result" | NotAwaitable

record 'c runtime =
  rt_registry :: "'c registry"
  rt_provider :: "'c provider option"
  rt_policies :: "(string \<Rightarrow> pyval \<Rightarrow> tool_policy option result) option"
  rt_hooks :: "string \<Rightarrow> (connection \<Rightarrow> 'c \<Rightarrow> pyval tool_spec \<Rightarrow> pyval \<Rightarrow> hook_return result) option"
  rt_connector_execute :: "'c \<Rightarrow> connection \<Rightarrow> pyval \<Rightarrow> pyval \<Rightarrow> pyval result"
  rt_sink :: "(audit_event \<Rightarrow> unit result) option"
  rt_host :: host

text \<open>The state that calls share: rate buckets, the response cache, the events handed to the sink.\<close>

record run_state =
  rs_limiter :: limiter
  rs_cache :: conn_cache
  rs_audit :: "audit_event list"

section \<open>ConnectionConnectorResolver\<close>

definition provider_for :: "'c runtime \<Rightarrow> connection \<Rightarrow> 'c provider option result" where
  "provider_for rt cn =
     (if cn_connector cn \<noteq> ''http_declarative'' then Inr None
      else case rt_provider rt of
        Some p \<Rightarrow>
          (if pv_key p = cn_connector cn then Inr (Some p)
           else Inl (Exc KeyError ''declarative connector provider unavailable''))
      | None \<Rightarrow> Inl (Exc KeyError ''declarative connector provider unavailable''))"

definition spec_for :: "'c runtime \<Rightarrow> connection \<Rightarrow> pyval connector_spec result" where
  "spec_for rt cn =
     bindR (provider_for rt cn) (\<lambda>p.
       case p of
         Some p \<Rightarrow> pv_spec p cn
       | None \<Rightarrow>
           (case validated_spec (rt_registry rt) (cn_connector cn) of
              Some s \<Rightarrow> Inr s
            | None \<Rightarrow> Inl (Exc KeyError (''unknown connector_key: '' @ cn_connector cn))))"

text \<open>
  The connector inside \<open>connect(..)\<close>.  Leaving the context of a provider's connector, which closes its client, has
  no effect on the model.
\<close>

definition connect_for :: "'c runtime \<Rightarrow> connection \<Rightarrow> 'c result" where
  "connect_for rt cn =
     bindR (provider_for rt cn) (\<lambda>p.
       case p of Some p \<Rightarrow> pv_connect p cn | None \<Rightarrow> get_connector (rt_registry rt) (cn_connector cn))"

section \<open>Tools and their policies\<close>

fun tool_spec_of :: "'n tool_obj \<Rightarrow> 'n tool_spec result" where
  "tool_spec_of (IsTool t) = Inr t"
| "tool_spec_of (NotTool _ _) = Inl (Exc AttributeError ''operation_kind'')"

text \<open>
  A policy of another connection or another tool counts as a policy that disables the tool.  The names of a
  validated manifest are strings; that a store may raise \<open>TypeError\<close> for another name is its outcome.
\<close>

definition policy_for :: "'c runtime \<Rightarrow> connection \<Rightarrow> pyval tool_spec \<Rightarrow> tool_policy option result" where
  "policy_for rt cn tool =
     (case rt_policies rt of
        None \<Rightarrow> Inr None
      | Some store \<Rightarrow>
          bindR (store (cn_id cn) (tool_key tool)) (\<lambda>p1.
          bindR (if p1 = None \<and> \<not> py_eq (mcp_name tool) (tool_key tool)
                 then store (cn_id cn) (mcp_name tool) else Inr p1) (\<lambda>p.
          Inr (case p of
                 None \<Rightarrow> None
               | Some q \<Rightarrow>
                   (if pl_connection q \<noteq> cn_id cn \<or> \<not> py_in (pl_tool q) [tool_key tool, mcp_name tool]
                    then Some \<lparr>pl_connection = cn_id cn, pl_tool = tool_key tool,
                               pl_enabled = PBool False, pl_policy = PMap []\<rparr>
                    else Some q)))))"

definition policy_denial :: "exc \<Rightarrow> bool" where
  "policy_denial e \<longleftrightarrow> exc_kind e \<in> {ToolDisabledError, WritePolicyError, InvalidToolPolicyError}"

fun enabled_tools :: "'c runtime \<Rightarrow> connection \<Rightarrow> pyval tool_obj list \<Rightarrow> pyval tool_spec list result" where
  "enabled_tools rt cn [] = Inr []"
| "enabled_tools rt cn (obj # objs) =
     bindR (tool_spec_of obj) (\<lambda>tool.
     bindR (policy_for rt cn tool) (\<lambda>policy.
     (case assert_allowed tool policy of
        Inr _ \<Rightarrow> bindR (enabled_tools rt cn objs) (\<lambda>ts. Inr (public_tool_copy tool # ts))
      | Inl e \<Rightarrow> (if policy_denial e then enabled_tools rt cn objs else Inl e))))"

definition list_enabled_tools :: "'c runtime \<Rightarrow> connection \<Rightarrow> pyval tool_spec list result" where
  "list_enabled_tools rt cn =
     (if cn_status cn \<noteq> ''active'' then Inr []
      else bindR (spec_for rt cn) (\<lambda>spec. enabled_tools rt cn (spec_tools spec)))"

definition unavailable :: exc where
  "unavailable = Exc ConnectionUnavailableError ''connection is unavailable''"

definition require_enabled_tool :: "'c runtime \<Rightarrow> connection \<Rightarrow> pyval \<Rightarrow> pyval tool_spec result" where
  "require_enabled_tool rt cn source_tool_key =
     (if cn_status cn \<noteq> ''active'' then Inl unavailable
      else bindR (spec_for rt cn) (\<lambda>spec.
        case find (\<lambda>t. py_eq (fst (tool_names t)) source_tool_key) (spec_tools spec) of
          None \<Rightarrow> Inl (Exc ToolDisabledError ''tool is unavailable for this connection'')
        | Some obj \<Rightarrow>
            bindR (tool_spec_of obj) (\<lambda>tool.
            bindR (policy_for rt cn tool) (\<lambda>policy.
            bindR (assert_allowed tool policy) (\<lambda>_. Inr (public_tool_copy tool))))))"

section \<open>Audit\<close>

definition make_event ::
  "connection \<Rightarrow> pyval tool_spec \<Rightarrow> string \<Rightarrow> int \<Rightarrow> string \<Rightarrow> string \<Rightarrow> audit_event" where
  "make_event cn tool status cost code summary =
     \<lparr>ev_tenant = cn_tenant cn, ev_connection = cn_id cn, ev_connector = cn_connector cn,
      ev_tool = tool_key tool, ev_status = status, ev_cost_ms = max 0 cost,
      ev_args_summary = ''omitted'', ev_result_summary = ''omitted'',
      ev_error_code = code, ev_error_summary = summary\<rparr>"

text \<open>The sink's exceptions are swallowed; a cancellation while it runs is not.\<close>

definition audit :: "'c runtime \<Rightarrow> run_state \<Rightarrow> audit_event \<Rightarrow> unit result \<times> run_state" where
  "audit rt s ev =
     (case rt_sink rt of
        None \<Rightarrow> (Inr (), s)
      | Some sink \<Rightarrow>
          (case sink ev of
             Inl e \<Rightarrow> (if is_exception e then Inr () else Inl e)
           | Inr u \<Rightarrow> Inr (), s\<lparr>rs_audit := rs_audit s @ [ev]\<rparr>))"

text \<open>Audit and then raise.\<close>

definition raise_audited ::
  "'c runtime \<Rightarrow> run_state \<Rightarrow> audit_event \<Rightarrow> exc \<Rightarrow> 'a result \<times> run_state" where
  "raise_audited rt s ev e =
     (case audit rt s ev of (Inr _, s') \<Rightarrow> (Inl e, s') | (Inl c, s') \<Rightarrow> (Inl c, s'))"

definition cost_ms :: "time \<Rightarrow> time \<Rightarrow> int" where
  "cost_ms started now = max 0 \<lfloor>(now - started) * 1000\<rfloor>"

section \<open>Admission of a call\<close>

definition denial_code :: "exc \<Rightarrow> string \<times> string" where
  "denial_code e =
     (if exc_kind e = ToolDisabledError then (''tool_disabled'', ''tool disabled'')
      else if exc_kind e = WritePolicyError then (''write_policy'', ''write policy denied'')
      else (''invalid_policy'', ''tool policy is invalid''))"

text \<open>The arguments are a \<open>dict\<close>: no other mapping is a value of the model.\<close>

definition execute_admit ::
  "'c runtime \<Rightarrow> time \<Rightarrow> run_state \<Rightarrow> connection \<Rightarrow> string \<Rightarrow> pyval \<Rightarrow> pyval
     \<Rightarrow> (pyval tool_spec \<times> resolved_policy) result \<times> run_state" where
  "execute_admit rt now s cn key args bypass =
     (if \<not> is_mapping args then (Inl (Exc TypeError ''args must be a dict''), s)
      else if \<not> is_bool bypass then (Inl (Exc TypeError ''bypass_cache must be a bool''), s)
      else if cn_status cn \<noteq> ''active'' then (Inl unavailable, s)
      else
        case bindR (spec_for rt cn) (\<lambda>spec.
             bindR (find_tool spec key) (\<lambda>obj.
             bindR (tool_spec_of obj) (\<lambda>tool.
             bindR (policy_for rt cn tool) (\<lambda>policy. Inr (tool, policy))))) of
          Inl e \<Rightarrow> (Inl e, s)
        | Inr (tool, policy) \<Rightarrow>
            (case assert_allowed tool policy of
               Inl e \<Rightarrow>
                 (if policy_denial e
                  then raise_audited rt s (make_event cn tool ''denied'' 0 (fst (denial_code e)) (snd (denial_code e))) e
                  else (Inl e, s))
             | Inr resolved \<Rightarrow>
                 (case rp_rate_limit resolved of
                    None \<Rightarrow> (Inr (tool, resolved), s)
                  | Some limit \<Rightarrow>
                      (case limiter_allow now (rs_limiter s) (RateKey (cn_id cn) (tool_key tool)) limit of
                         (True, l) \<Rightarrow> (Inr (tool, resolved), s\<lparr>rs_limiter := l\<rparr>)
                       | (False, l) \<Rightarrow>
                           raise_audited rt (s\<lparr>rs_limiter := l\<rparr>)
                             (make_event cn tool ''denied'' 0 ''rate_limited'' ''rate limit exceeded'')
                             (Exc RateLimitError ''rate limit exceeded'')))))"

section \<open>Execution in the connection's data mode\<close>

definition planner_execute :: "'c runtime \<Rightarrow> connection \<Rightarrow> 'c \<Rightarrow> pyval tool_spec \<Rightarrow> pyval \<Rightarrow> pyval result" where
  "planner_execute rt cn c tool args =
     (if cn_data_mode cn \<notin> set DATA_MODES
      then Inl (Exc UnsupportedDataModeError ''unsupported connection data mode'')
      else case rt_hooks rt (cn_data_mode cn) of
        None \<Rightarrow> rt_connector_execute rt c cn (tool_key tool) args
      | Some hook \<Rightarrow>
          bindR (hook cn c tool args) (\<lambda>r.
            case r of
              Awaitable out \<Rightarrow> out
            | NotAwaitable \<Rightarrow>
                Inl (Exc TypeError ''data-mode executor must return an awaitable ExecutionResult'')))"

definition run_uncached :: "'c runtime \<Rightarrow> connection \<Rightarrow> pyval tool_spec \<Rightarrow> pyval \<Rightarrow> pyval result" where
  "run_uncached rt cn tool args = bindR (connect_for rt cn) (\<lambda>c. planner_execute rt cn c tool args)"

definition is_cacheable :: "'n tool_spec \<Rightarrow> bool" where
  "is_cacheable tool \<longleftrightarrow> py_eq (operation_kind tool) (PStr ''read'') \<and>
     (case cache_ttl_seconds tool of PInt i \<Rightarrow> 0 < i | _ \<Rightarrow> False)"

definition result_type_error :: exc where
  "result_type_error = Exc TypeError ''connector execution must return an ExecutionResult''"

text \<open>
  \<open>_cache_loader\<close>: only the data of an \<open>ok\<close> result becomes a mapping that the cache may keep.
  The data of a result is declared as a dictionary; \<open>dict(..)\<close> of another value raises, but for empty sequences
  and sequences of pairs, which are outside the model.
\<close>

definition loader_value :: "pyval \<Rightarrow> pyval result" where
  "loader_value v =
     (case v of
        PObj cls attrs \<Rightarrow>
          (if cls \<noteq> ''ExecutionResult'' then Inl result_type_error
           else case (map_of attrs ''data'', map_of attrs ''status'') of
             (Some data, Some status) \<Rightarrow>
               (if \<not> py_eq status (PStr ''ok'') then Inr v
                else case data of PMap m \<Rightarrow> Inr (PMap m)
                  | _ \<Rightarrow> Inl (Exc TypeError ''object is not iterable''))
           | _ \<Rightarrow> Inl (Exc AttributeError ''status''))
      | _ \<Rightarrow> Inl result_type_error)"

definition cached_result :: "pyval \<Rightarrow> pyval result" where
  "cached_result v =
     (case v of
        PObj cls _ \<Rightarrow> (if cls = ''ExecutionResult'' then Inr v else Inl result_type_error)
      | PMap m \<Rightarrow> Inr (exec_ok (PMap m))
      | _ \<Rightarrow> Inl result_type_error)"

definition tool_ttl :: "pyval tool_spec \<Rightarrow> rat" where
  "tool_ttl tool = (case cache_ttl_seconds tool of PInt i \<Rightarrow> of_int i | _ \<Rightarrow> 0)"

text \<open>Whether a call goes through the cache, and with which arguments of \<open>get_or_load\<close>.\<close>

datatype plan = RunUncached | RunCached load_call

definition cache_call :: "connection \<Rightarrow> pyval tool_spec \<Rightarrow> pyval \<Rightarrow> pyfloat \<Rightarrow> load_call" where
  "cache_call cn tool args ttl =
     load_call_of (PStr (cn_id cn)) (tool_key tool) (Some args) (Some (PObj ''function'' [])) (PFloat ttl) ''hybrid''"

lemma cache_call_eq:
  "cache_call cn tool args ttl =
     \<lparr>lc_connection = PStr (cn_id cn), lc_tool = tool_key tool, lc_args = Some args, lc_callable = True,
      lc_ttl = PFloat ttl, lc_mode = ''hybrid''\<rparr>"
  by (simp add: cache_call_def load_call_of_def callable_def)

definition data_mode_plan ::
  "'c runtime \<Rightarrow> connection \<Rightarrow> pyval tool_spec \<Rightarrow> pyval \<Rightarrow> bool \<Rightarrow> plan result" where
  "data_mode_plan rt cn tool args bypass =
     bindR (spec_for rt cn) (\<lambda>spec.
       case supports_data_modes spec of
         PTuple modes \<Rightarrow>
           (if \<not> py_in (PStr (cn_data_mode cn)) modes
            then Inl (Exc UnsupportedDataModeError ''connection data mode is not supported'')
            else if bypass \<or> \<not> is_cacheable tool \<or> cn_data_mode cn = ''stored'' then Inr RunUncached
            else bindR (float_result (Fin (tool_ttl tool)))
                   (\<lambda>ttl. Inr (RunCached (cache_call cn tool args ttl))))
       | _ \<Rightarrow> Inl (Exc TypeError ''argument is not iterable''))"

text \<open>
  The body of \<open>execute\<close> when no other call makes progress meanwhile: the connector takes \<open>elapsed\<close>
  seconds, and beyond the timeout its task is cancelled and \<open>wait_for\<close> raises \<open>TimeoutError\<close>.
  A call that waits for another one's future then times out as well.  With other calls in between,
  the segments of \<open>CacheRun\<close> interleave.
\<close>

definition timeout_error :: exc where
  "timeout_error = Exc TimeoutError []"

definition run_data_mode ::
  "'c runtime \<Rightarrow> time \<Rightarrow> rat \<Rightarrow> conn_cache \<Rightarrow> connection \<Rightarrow> pyval tool_spec \<Rightarrow> resolved_policy
     \<Rightarrow> pyval \<Rightarrow> bool \<Rightarrow> pyval result \<times> conn_cache" where
  "run_data_mode rt now elapsed c cn tool resolved args bypass =
     (let late = (elapsed > of_int (rp_timeout_ms resolved) / 1000);
          fresh = (if late then Inl timeout_error else run_uncached rt cn tool args);
          loaded = (if late then Inl (Exc CancelledError []) else bindR (run_uncached rt cn tool args) loader_value)
      in case data_mode_plan rt cn tool args bypass of
        Inl e \<Rightarrow> (Inl e, c)
      | Inr RunUncached \<Rightarrow> (fresh, c)
      | Inr (RunCached call) \<Rightarrow>
          (case load_begin (rt_host rt) now c call of
             Inl e \<Rightarrow> (Inl e, c)
           | Inr (Hit v, c1) \<Rightarrow> (cached_result v, c1)
           | Inr (Uncached, c1) \<Rightarrow>
               (if late then Inl timeout_error else bindR loaded cached_result, c1)
           | Inr (Owns k f, c1) \<Rightarrow>
               (case load_finish (rt_host rt) (now + elapsed) c1 call k f loaded of
                  (r, c2) \<Rightarrow> (if late then Inl timeout_error else bindR r cached_result, c2))
           | Inr (Waits k f, c1) \<Rightarrow>
               (case load_wake c1 f of
                  Resumes r \<Rightarrow> (bindR r cached_result, c1)
                | LoadsItself \<Rightarrow> (if late then Inl timeout_error else bindR loaded cached_result, c1)
                | StillWaiting \<Rightarrow> (Inl timeout_error, c1))))"

section \<open>The end of a call\<close>

definition is_execution_result :: "pyval \<Rightarrow> bool" where
  "is_execution_result v = (case v of PObj cls _ \<Rightarrow> cls = ''ExecutionResult'' | _ \<Rightarrow> False)"

definition result_status :: "pyval \<Rightarrow> pyval" where
  "result_status v = (case v of PObj _ attrs \<Rightarrow> (case map_of attrs ''status'' of Some st \<Rightarrow> st | None \<Rightarrow> PNone)
     | _ \<Rightarrow> PNone)"

definition execute_finish ::
  "'c runtime \<Rightarrow> time \<Rightarrow> time \<Rightarrow> run_state \<Rightarrow> connection \<Rightarrow> pyval tool_spec \<Rightarrow> pyval result
     \<Rightarrow> pyval result \<times> run_state" where
  "execute_finish rt started now s cn tool outcome =
     (case bindR outcome (\<lambda>v. if is_execution_result v then Inr v else Inl result_type_error) of
        Inl e \<Rightarrow>
          (if exc_kind e = TimeoutError
           then raise_audited rt s (make_event cn tool ''error'' (cost_ms started now) ''timeout'' ''execution timed out'') e
           else if is_exception e
           then raise_audited rt s (make_event cn tool ''error'' (cost_ms started now) ''connector_error''
                  ''connector execution failed'') e
           else (Inl e, s))
      | Inr v \<Rightarrow>
          (if \<not> hashable (result_status v) then (Inl unhashable_error, s)
           else let status = (if result_status v \<in> {PStr ''ok'', PStr ''partial'', PStr ''error''}
                              then str_of (result_status v) else ''error'') in
             case audit rt s (make_event cn tool status (cost_ms started now) [] []) of
               (Inr _, s') \<Rightarrow> (Inr v, s')
             | (Inl c, s') \<Rightarrow> (Inl c, s')))"

definition execute ::
  "'c runtime \<Rightarrow> time \<Rightarrow> rat \<Rightarrow> run_state \<Rightarrow> connection \<Rightarrow> string \<Rightarrow> pyval \<Rightarrow> pyval
     \<Rightarrow> pyval result \<times> run_state" where
  "execute rt now elapsed s cn key args bypass =
     (case execute_admit rt now s cn key args bypass of
        (Inl e, s1) \<Rightarrow> (Inl e, s1)
      | (Inr (tool, resolved), s1) \<Rightarrow>
          (case run_data_mode rt now elapsed (rs_cache s1) cn tool resolved args (bypass = PBool True) of
             (outcome, c) \<Rightarrow>
               execute_finish rt now (now + elapsed) (s1\<lparr>rs_cache := c\<rparr>) cn tool outcome))"

definition invalidate_cached_data :: "run_state \<Rightarrow> string \<Rightarrow> (nat \<times> run_state) result" where
  "invalidate_cached_data s cid =
     bindR (cache_invalidate (rs_cache s) (PStr cid)) (\<lambda>(n, c). Inr (n, s\<lparr>rs_cache := c\<rparr>))"

section \<open>Listing and admission agree\<close>

definition admissible :: "'c runtime \<Rightarrow> connection \<Rightarrow> pyval tool_spec \<Rightarrow> bool" where
  "admissible rt cn tool \<longleftrightarrow> (\<exists>p r. policy_for rt cn tool = Inr p \<and> assert_allowed tool p = Inr r)"

lemma enabled_tools_sound:
  assumes "enabled_tools rt cn objs = Inr ts" and "IsTool t \<in> set objs"
  shows "(admissible rt cn t \<longrightarrow> public_tool_copy t \<in> set ts) \<and>
     (\<exists>p. policy_for rt cn t = Inr p \<and> (\<forall>e. assert_allowed t p = Inl e \<longrightarrow> policy_denial e))"
  using assms
proof (induction objs arbitrary: ts)
  case Nil
  then show ?case by simp
next
  case (Cons obj objs)
  from Cons.prems(1) obtain tool policy where obj: "obj = IsTool tool" and p: "policy_for rt cn tool = Inr policy"
    and rest: "(case assert_allowed tool policy of
        Inr _ \<Rightarrow> bindR (enabled_tools rt cn objs) (\<lambda>ts. Inr (public_tool_copy tool # ts))
      | Inl e \<Rightarrow> (if policy_denial e then enabled_tools rt cn objs else Inl e)) = Inr ts"
    by (cases obj) auto
  have "\<exists>ts'. enabled_tools rt cn objs = Inr ts' \<and> set ts' \<subseteq> set ts"
    using rest by (cases "assert_allowed tool policy") (auto split: if_splits)
  then obtain ts' where ts': "enabled_tools rt cn objs = Inr ts'" "set ts' \<subseteq> set ts" by blast
  show ?case
  proof (cases "IsTool t \<in> set objs")
    case True
    then show ?thesis using Cons.IH [OF ts'(1)] ts'(2) by blast
  next
    case False
    then have "t = tool" using Cons.prems(2) obj by simp
    then show ?thesis using p rest by (auto simp: admissible_def split: sum.splits if_splits)
  qed
qed

lemma enabled_tools_only:
  assumes "enabled_tools rt cn objs = Inr ts" and "pt \<in> set ts"
  shows "\<exists>t. IsTool t \<in> set objs \<and> pt = public_tool_copy t \<and> admissible rt cn t"
  using assms
proof (induction objs arbitrary: ts)
  case Nil
  then show ?case by simp
next
  case (Cons obj objs)
  from Cons.prems(1) obtain tool policy where obj: "obj = IsTool tool" and p: "policy_for rt cn tool = Inr policy"
    and rest: "(case assert_allowed tool policy of
        Inr _ \<Rightarrow> bindR (enabled_tools rt cn objs) (\<lambda>ts. Inr (public_tool_copy tool # ts))
      | Inl e \<Rightarrow> (if policy_denial e then enabled_tools rt cn objs else Inl e)) = Inr ts"
    by (cases obj) auto
  show ?case
  proof (cases "assert_allowed tool policy")
    case (Inl e)
    then show ?thesis using rest Cons.IH Cons.prems(2) by (fastforce split: if_splits)
  next
    case (Inr r)
    then obtain ts' where ts': "enabled_tools rt cn objs = Inr ts'" "ts = public_tool_copy tool # ts'"
      using rest by auto
    have "admissible rt cn tool" using p Inr by (auto simp: admissible_def)
    then show ?thesis using Cons.IH [OF ts'(1)] Cons.prems(2) ts'(2) obj by auto
  qed
qed

lemma public_tool_copy_key [simp]: "tool_key (public_tool_copy t) = tool_key t"
  by (simp add: public_tool_copy_def)

text \<open>A static connector's manifest comes from the registry, so its names are proper and disjoint.\<close>

lemma spec_for_validated:
  assumes "spec_for rt cn = Inr spec" and "registry_reachable (rt_registry rt)"
    and "cn_connector cn \<noteq> ''http_declarative''"
  shows "list_all named_tool (spec_tools spec)" "disjoint_idents (spec_tools spec)"
proof -
  have "validated_spec (rt_registry rt) (cn_connector cn) = Some spec"
    using assms(1,3) by (auto simp: spec_for_def provider_for_def split: option.splits)
  then have "spec_ok (cn_connector cn) spec"
    using reg_invD(3) [OF reachable_reg_inv [OF assms(2)]] by (simp add: validated_spec_def)
  then obtain rv where "validate_connector_manifest look_tree None rv (Some spec) = Inr spec"
    by (auto simp: spec_ok_def)
  from validated_tools [OF this] show "list_all named_tool (spec_tools spec)" "disjoint_idents (spec_tools spec)" .
qed

text \<open>No sink raises anything but exceptions that \<open>except Exception\<close> catches.\<close>

definition sink_calm :: "'c runtime \<Rightarrow> bool" where
  "sink_calm rt \<longleftrightarrow> (\<forall>sink ev e. rt_sink rt = Some sink \<longrightarrow> sink ev = Inl e \<longrightarrow> is_exception e)"

lemma audit_calm:
  assumes "sink_calm rt"
  shows "fst (audit rt s ev) = Inr ()"
    "rs_audit (snd (audit rt s ev)) = rs_audit s @ (if rt_sink rt = None then [] else [ev])"
    "rs_cache (snd (audit rt s ev)) = rs_cache s" "rs_limiter (snd (audit rt s ev)) = rs_limiter s"
  using assms by (auto simp: audit_def sink_calm_def split: option.splits sum.splits)

lemma raise_audited_calm:
  assumes "sink_calm rt"
  shows "raise_audited rt s ev e = (Inl e, snd (audit rt s ev))"
  using audit_calm(1) [OF assms, of s ev] by (auto simp: raise_audited_def split: prod.splits)

lemma find_tool_of:
  assumes "list_all named_tool (spec_tools spec)" and "disjoint_idents (spec_tools spec)"
    and "IsTool t \<in> set (spec_tools spec)" and "n \<in> set (tool_idents (IsTool t))"
  shows "find_tool spec n = Inr (IsTool t)"
  using find_tool_named [OF assms(1)] find_disjoint [OF assms(2-4)] by simp

lemma raise_audited_fst:
  "\<exists>x. fst (raise_audited rt s ev e) = Inl x \<and> (x = e \<or> \<not> is_exception x \<and> \<not> sink_calm rt)"
  by (auto simp: raise_audited_def audit_def sink_calm_def split: option.splits sum.splits)

text \<open>With proper and disjoint names in the manifest, the list of tools and the admission of calls agree.\<close>

lemma listing_admission:
  assumes "list_all named_tool (spec_tools spec)" and "disjoint_idents (spec_tools spec)"
    and "cn_status cn = ''active''" and "list_enabled_tools rt cn = Inr ts"
    and "spec_for rt cn = Inr spec" and "IsTool t \<in> set (spec_tools spec)"
    and "n \<in> set (tool_idents (IsTool t))"
  shows "if tool_key t \<in> tool_key ` set ts
         then (\<exists>r. fst (execute_admit rt now s cn n (PMap args) (PBool b)) = Inr (t, r)) \<or>
              (\<exists>e. fst (execute_admit rt now s cn n (PMap args) (PBool b)) = Inl e \<and>
                 (e = Exc RateLimitError ''rate limit exceeded'' \<or> \<not> is_exception e \<and> \<not> sink_calm rt))
         else (\<exists>e. fst (execute_admit rt now s cn n (PMap args) (PBool b)) = Inl e \<and>
                 (policy_denial e \<or> \<not> is_exception e \<and> \<not> sink_calm rt))"
proof -
  note V = assms(1,2)
  have found: "find_tool spec n = Inr (IsTool t)" by (rule find_tool_of [OF V assms(6,7)])
  have list: "enabled_tools rt cn (spec_tools spec) = Inr ts"
    using assms(3-5) by (simp add: list_enabled_tools_def)
  obtain p where p: "policy_for rt cn t = Inr p" and den: "\<forall>e. assert_allowed t p = Inl e \<longrightarrow> policy_denial e"
    and adm: "admissible rt cn t \<longrightarrow> public_tool_copy t \<in> set ts"
    using enabled_tools_sound [OF list assms(6)] by blast
  have listed: "tool_key t \<in> tool_key ` set ts \<longleftrightarrow> (\<exists>r. assert_allowed t p = Inr r)"
  proof
    assume "tool_key t \<in> tool_key ` set ts"
    then obtain t' where t': "IsTool t' \<in> set (spec_tools spec)" "tool_key t' = tool_key t" "admissible rt cn t'"
      using enabled_tools_only [OF list] by fastforce
    have "str_of (tool_key t) \<in> set (tool_idents (IsTool t'))" "str_of (tool_key t) \<in> set (tool_idents (IsTool t))"
      using t'(2) by (simp_all add: tool_idents_def)
    then have "t' = t"
      using find_tool_of [OF V t'(1)] find_tool_of [OF V assms(6)] by fastforce
    then show "\<exists>r. assert_allowed t p = Inr r" using t'(3) p by (auto simp: admissible_def)
  next
    assume "\<exists>r. assert_allowed t p = Inr r"
    then have "public_tool_copy t \<in> set ts" using adm p by (auto simp: admissible_def)
    then show "tool_key t \<in> tool_key ` set ts" by (metis image_eqI public_tool_copy_key)
  qed
  show ?thesis
  proof (cases "assert_allowed t p")
    case (Inl e)
    let ?ev = "make_event cn t ''denied'' 0 (fst (denial_code e)) (snd (denial_code e))"
    have "execute_admit rt now s cn n (PMap args) (PBool b) = raise_audited rt s ?ev e"
      using den assms(3,5) found p Inl by (simp add: execute_admit_def)
    then show ?thesis using listed Inl den raise_audited_fst [of rt s ?ev e] by auto
  next
    case (Inr r)
    let ?ev = "make_event cn t ''denied'' 0 ''rate_limited'' ''rate limit exceeded''"
    have "fst (execute_admit rt now s cn n (PMap args) (PBool b)) = Inr (t, r) \<or>
        (\<exists>l. execute_admit rt now s cn n (PMap args) (PBool b) =
           raise_audited rt (s\<lparr>rs_limiter := l\<rparr>) ?ev (Exc RateLimitError ''rate limit exceeded''))"
      using assms(3,5) found p Inr by (auto simp: execute_admit_def split: option.splits prod.splits bool.splits)
    then have "fst (execute_admit rt now s cn n (PMap args) (PBool b)) = Inr (t, r) \<or>
        (\<exists>e. fst (execute_admit rt now s cn n (PMap args) (PBool b)) = Inl e \<and>
           (e = Exc RateLimitError ''rate limit exceeded'' \<or> \<not> is_exception e \<and> \<not> sink_calm rt))"
    proof (elim disjE exE)
      fix l
      assume run: "execute_admit rt now s cn n (PMap args) (PBool b) =
        raise_audited rt (s\<lparr>rs_limiter := l\<rparr>) ?ev (Exc RateLimitError ''rate limit exceeded'')"
      show ?thesis unfolding run using raise_audited_fst by blast
    qed simp
    then show ?thesis using listed Inr by auto
  qed
qed

section \<open>One audit event for each call\<close>







section \<open>What the response cache keeps\<close>

lemma get_entry_sub:
  assumes "get_entry now c k = (r, c')"
  shows "map_of (entries c') \<subseteq>\<^sub>m map_of (entries c)"
  using assms by (auto simp: get_entry_def map_le_def split: option.splits if_splits)

lemma data_mode_plan_cached:
  assumes "data_mode_plan rt cn tool args bypass = Inr (RunCached call)"
  obtains ttl where "call = cache_call cn tool args ttl" "is_cacheable tool" "\<not> bypass"
    "cn_data_mode cn \<noteq> ''stored''"
proof -
  from assms obtain spec where "spec_for rt cn = Inr spec" by (auto simp: data_mode_plan_def)
  then show thesis using assms that
    by (cases "supports_data_modes spec") (auto simp: data_mode_plan_def split: if_splits)
qed

lemma begin_keyed_entries: "(st, c') = begin_keyed c k r \<Longrightarrow> entries c' = entries c"
  by (auto simp: begin_keyed_def Let_def split: option.splits)

lemma load_begin_sub:
  assumes "load_begin h now c call = Inr (st, c')"
  shows "map_of (entries c') \<subseteq>\<^sub>m map_of (entries c)"
  using assms
proof (cases rule: load_begin_keyed)
  case (keyed k r c1)
  then show ?thesis using get_entry_sub [OF keyed(1)] begin_keyed_entries [OF keyed(2)] by simp
qed simp

lemma cache_put_entries:
  assumes "cache_put h now c cid tool v ttl args = Inr (b, c')"
  shows "(\<not> b \<and> entries c' = entries c) \<or>
    (\<exists>k seconds. b \<and> cache_key h cid tool args = Inr (Some k) \<and> \<not> unstructured v \<and> \<not> contains_sensitive 0 v \<and>
       entries c' = AList.update k (safe_value 0 v, now + seconds) (entries c))"
  using assms by (cases rule: cache_put_cases) (auto simp: put_entry_def)

lemma settle_entries [simp]: "entries (release_slot (settle c f out) k f) = entries c"
  by (simp add: release_slot_def settle_def)

lemma load_finish_entries:
  assumes "load_finish h now c call k f outcome = (r, c')" and "map_of (entries c') key = Some x"
    and "map_of (entries c) key \<noteq> Some x"
  shows "\<exists>v e. outcome = Inr v \<and> \<not> unstructured v \<and> \<not> contains_sensitive 0 v \<and> x = (safe_value 0 v, e) \<and>
     cache_key h (lc_connection call) (lc_tool call) (lc_args call) = Inr (Some key)"
proof (cases outcome)
  case (Inl e)
  then show ?thesis using assms by (auto simp: load_finish_def split: if_splits)
next
  case (Inr v)
  let ?put = "cache_put h now c (lc_connection call) (lc_tool call) v (lc_ttl call) (lc_args call)"
  show ?thesis
  proof (cases ?put)
    case (Inl e)
    then show ?thesis using assms Inr by (auto simp: load_finish_def)
  next
    case Inr1: (Inr p)
    obtain b c1 where p: "p = (b, c1)" by (cases p)
    have sub: "map_of (entries c1) key = Some x"
    proof (cases b)
      case False
      then show ?thesis using assms Inr Inr1 p by (auto simp: load_finish_def)
    next
      case True
      let ?get = "cache_get h now c1 (lc_connection call) (lc_tool call) (lc_args call)"
      show ?thesis
      proof (cases ?get)
        case (Inl e)
        then show ?thesis using assms Inr Inr1 p True by (auto simp: load_finish_def)
      next
        case Inr2: (Inr q)
        obtain w c2 where q: "q = (w, c2)" by (cases q)
        have "map_of (entries c2) \<subseteq>\<^sub>m map_of (entries c1)"
          using Inr2 q by (auto simp: cache_get_def split: option.splits dest: get_entry_sub)
        moreover have "map_of (entries c2) key = Some x"
          using assms Inr Inr1 p True Inr2 q by (auto simp: load_finish_def)
        ultimately show ?thesis by (auto simp: map_le_def dest!: bspec)
      qed
    qed
    from cache_put_entries [OF Inr1 [unfolded p]] show ?thesis
      using sub assms(3) Inr by (auto split: if_splits)
  qed
qed

lemma run_data_mode_entries:
  assumes "run_data_mode rt now elapsed c cn tool resolved args bypass = (r, c')"
    and "map_of (entries c') key = Some x" and "map_of (entries c) key \<noteq> Some x"
  shows "\<exists>ttl v w e. data_mode_plan rt cn tool args bypass = Inr (RunCached (cache_call cn tool args ttl)) \<and>
     run_uncached rt cn tool args = Inr w \<and> loader_value w = Inr v \<and> \<not> contains_sensitive 0 v \<and>
     \<not> unstructured v \<and> x = (safe_value 0 v, e) \<and>
     cache_key (rt_host rt) (PStr (cn_id cn)) (tool_key tool) (Some args) = Inr (Some key)"
proof -
  have sub: "map_of (entries c1) key \<noteq> Some x" if "load_begin (rt_host rt) now c call = Inr (st, c1)" for call st c1
    using load_begin_sub [OF that] assms(3) by (auto simp: map_le_def dest!: bspec)
  show ?thesis
  proof (cases "data_mode_plan rt cn tool args bypass")
    case (Inl e)
    then show ?thesis using assms by (simp add: run_data_mode_def)
  next
    case (Inr p)
    show ?thesis
    proof (cases p)
      case RunUncached
      then show ?thesis using assms Inr by (simp add: run_data_mode_def)
    next
      case (RunCached call)
      then obtain ttl where call: "call = cache_call cn tool args ttl"
        using data_mode_plan_cached Inr by metis
      show ?thesis
      proof (cases "load_begin (rt_host rt) now c call")
        case (Inl e)
        then show ?thesis using assms Inr RunCached by (simp add: run_data_mode_def)
      next
        case Inr1: (Inr q)
        obtain st c1 where q: "q = (st, c1)" by (cases q)
        note c1 = sub [OF Inr1 [unfolded q]]
        show ?thesis
        proof (cases st)
          case (Owns k f)
          let ?loaded = "if elapsed > of_int (rp_timeout_ms resolved) / 1000 then Inl (Exc CancelledError [])
             else bindR (run_uncached rt cn tool args) loader_value"
          obtain r1 where "load_finish (rt_host rt) (now + elapsed) c1 call k f ?loaded = (r1, c')"
            using assms(1) Inr RunCached Inr1 q Owns
            by (auto simp: run_data_mode_def Let_def split: prod.splits)
          from load_finish_entries [OF this assms(2) c1] show ?thesis
            using Inr RunCached by (auto simp: call cache_call_eq split: if_splits)
        qed (use assms(1,2) c1 Inr RunCached Inr1 q in
          \<open>auto simp: run_data_mode_def Let_def split: wake.splits\<close>)
      qed
    qed
  qed
qed

lemma loader_value_stored:
  assumes "loader_value w = Inr v" and "\<not> contains_sensitive 0 v"
  obtains attrs m where "w = PObj ''ExecutionResult'' attrs" "map_of attrs ''data'' = Some (PMap m)"
    "\<exists>st. map_of attrs ''status'' = Some st \<and> py_eq st (PStr ''ok'')" "v = PMap m"
  using assms by (auto simp: loader_value_def split: pyval.splits if_splits option.splits)

text \<open>C7: only a successful read is ever retained.  When one call adds an entry to the response cache, it
  is a call of an admitted read tool with a positive time to live, without \<open>bypass_cache\<close> and not in
  stored mode; the connector returned an \<open>ExecutionResult\<close> with the status \<open>ok\<close>; and the entry is the
  bounded projection of its data under the key of this connection, this tool and these arguments.\<close>

theorem only_ok_reads_cached:
  assumes "execute rt now elapsed s cn key args bypass = (r, s')"
    and "map_of (entries (rs_cache s')) ck = Some x" and "map_of (entries (rs_cache s)) ck \<noteq> Some x"
    and "sink_calm rt"
  shows "\<exists>tool resolved attrs m e s1.
     execute_admit rt now s cn key args bypass = (Inr (tool, resolved), s1) \<and>
     is_cacheable tool \<and> bypass \<noteq> PBool True \<and> cn_data_mode cn \<noteq> ''stored'' \<and>
     run_uncached rt cn tool args = Inr (PObj ''ExecutionResult'' attrs) \<and>
     map_of attrs ''data'' = Some (PMap m) \<and> \<not> contains_sensitive 0 (PMap m) \<and>
     (\<exists>st. map_of attrs ''status'' = Some st \<and> py_eq st (PStr ''ok'')) \<and>
     x = (safe_value 0 (PMap m), e) \<and>
     cache_key (rt_host rt) (PStr (cn_id cn)) (tool_key tool) (Some args) = Inr (Some ck)"
proof -
  obtain a s1 where a: "execute_admit rt now s cn key args bypass = (a, s1)"
    by (cases "execute_admit rt now s cn key args bypass")
  have s1: "rs_cache s1 = rs_cache s"
    using a audit_calm(3) [OF assms(4)]
    by (auto simp: execute_admit_def raise_audited_calm [OF assms(4)] split: if_splits sum.splits option.splits prod.splits bool.splits)
  show ?thesis
  proof (cases a)
    case (Inl e)
    then show ?thesis using assms a s1 by (auto simp: execute_def)
  next
    case (Inr q)
    obtain tool resolved where q: "q = (tool, resolved)" by (cases q)
    obtain out c where out: "run_data_mode rt now elapsed (rs_cache s1) cn tool resolved args (bypass = PBool True) = (out, c)"
      by (cases "run_data_mode rt now elapsed (rs_cache s1) cn tool resolved args (bypass = PBool True)")
    have fin: "execute_finish rt now (now + elapsed) (s1\<lparr>rs_cache := c\<rparr>) cn tool out = (r, s')"
      using assms(1) a Inr q out by (simp add: execute_def)
    have "rs_cache s' = c"
      using fin audit_calm(3) [OF assms(4), of "s1\<lparr>rs_cache := c\<rparr>"] unfolding execute_finish_def raise_audited_calm [OF assms(4)] Let_def
      by (auto split: sum.splits if_splits prod.splits) (metis snd_conv)+
    then obtain ttl v w e where R: "data_mode_plan rt cn tool args (bypass = PBool True) = Inr (RunCached (cache_call cn tool args ttl))"
      "run_uncached rt cn tool args = Inr w" "loader_value w = Inr v" "\<not> contains_sensitive 0 v"
      "x = (safe_value 0 v, e)"
      "cache_key (rt_host rt) (PStr (cn_id cn)) (tool_key tool) (Some args) = Inr (Some ck)"
      using run_data_mode_entries [OF out] assms(2,3) s1 by metis
    have plan: "is_cacheable tool" "bypass \<noteq> PBool True" "cn_data_mode cn \<noteq> ''stored''"
      using data_mode_plan_cached [OF R(1)] by auto
    obtain attrs m where "w = PObj ''ExecutionResult'' attrs" "map_of attrs ''data'' = Some (PMap m)"
      "\<exists>st. map_of attrs ''status'' = Some st \<and> py_eq st (PStr ''ok'')" "v = PMap m"
      using loader_value_stored [OF R(3,4)] by metis
    then show ?thesis using a Inr q R plan by blast
  qed
qed

section \<open>What a later call sees\<close>

lemma is_cacheable_ttl: "is_cacheable tool \<Longrightarrow> 0 < tool_ttl tool"
  by (auto simp: is_cacheable_def tool_ttl_def split: pyval.splits)

lemma plan_ttl:
  assumes "data_mode_plan rt cn tool args bypass = Inr (RunCached call)"
  shows "call = cache_call cn tool args (Fin (tool_ttl tool))" "0 < tool_ttl tool"
proof -
  from assms obtain spec where "spec_for rt cn = Inr spec" by (auto simp: data_mode_plan_def)
  then show "call = cache_call cn tool args (Fin (tool_ttl tool))" "0 < tool_ttl tool"
    using assms is_cacheable_ttl
    by (cases "supports_data_modes spec"; auto simp: data_mode_plan_def float_result_def split: if_splits)+
qed

lemma safe_map: "\<not> contains_sensitive 0 (PMap m) \<Longrightarrow> \<exists>m'. safe_value 0 (PMap m) = PMap m'"
  by (simp add: safe_value.simps)

text \<open>A cacheable read that finds neither an entry nor a load in progress, with its data stored.\<close>

lemma first_load:
  assumes "data_mode_plan rt cn tool args bypass = Inr (RunCached call)"
    and "cache_key (rt_host rt) (PStr (cn_id cn)) (tool_key tool) (Some args) = Inr (Some k)"
    and "map_of (entries c) k = None" and "map_of (inflight c) k = None"
    and "run_uncached rt cn tool args = Inr (exec_ok (PMap m))"
    and "\<not> contains_sensitive 0 (PMap m)"
    and "elapsed \<le> of_int (rp_timeout_ms resolved) / 1000"
  obtains c1 where "run_data_mode rt now elapsed c cn tool resolved args bypass = (Inr (exec_ok (PMap m)), c1)"
    "entries c1 = AList.update k (safe_value 0 (PMap m), now + elapsed + tool_ttl tool) (entries c)"
proof -
  let ?f = "next_future c" and ?e = "now + elapsed + tool_ttl tool" and ?h = "rt_host rt"
  note call = plan_ttl [OF assms(1)]
  have sel: "lc_connection call = PStr (cn_id cn)" "lc_tool call = tool_key tool" "lc_args call = Some args"
    "lc_callable call" "lc_ttl call = PFloat (Fin (tool_ttl tool))" "lc_mode call = ''hybrid''"
    by (simp_all add: call cache_call_eq)
  define c0 where "c0 = c\<lparr>inflight := AList.update k ?f (inflight c),
     futures := (futures c)(?f \<mapsto> CPending), next_future := Suc ?f\<rparr>"
  have get: "get_entry now c k = (None, c)" using assms(3) by (simp add: get_entry_def)
  have begin0: "load_begin ?h now c call = Inr (Owns k ?f, c0)"
    using assms(2,4) get by (simp add: load_begin_def sel c0_def Let_def)
  have loaded: "loader_value (exec_ok (PMap m)) = Inr (PMap m)"
    by (simp add: loader_value_def)
  define cp where "cp = put_entry c0 k (safe_value 0 (PMap m)) ?e"
  have put: "cache_put ?h (now + elapsed) c0 (lc_connection call) (lc_tool call) (PMap m) (lc_ttl call) (lc_args call)
      = Inr (True, cp)"
    using assms(2,6) call(2) by (simp add: cache_put_def sel positive_ttl_def cp_def)
  have got: "cache_get ?h (now + elapsed) cp (lc_connection call) (lc_tool call) (lc_args call)
      = Inr (Some (safe_value 0 (PMap m)), cp)"
    using assms(2) call(2) by (simp add: cache_get_def sel get_entry_def cp_def put_entry_def)
  let ?c1 = "release_slot (settle cp ?f (CCached (safe_value 0 (PMap m)))) k ?f"
  have fin: "load_finish ?h (now + elapsed) c0 call k ?f (Inr (PMap m)) = (Inr (PMap m), ?c1)"
    by (simp add: load_finish_def put got)
  show thesis
  proof (rule that)
    show "run_data_mode rt now elapsed c cn tool resolved args bypass = (Inr (exec_ok (PMap m)), ?c1)"
      using assms(1,7) begin0 fin by (simp add: run_data_mode_def Let_def cached_result_def assms(5) loaded)
    show "entries ?c1 = AList.update k (safe_value 0 (PMap m), ?e) (entries c)"
      by (simp add: cp_def put_entry_def c0_def)
  qed
qed

text \<open>within the time to live a repeated read returns the stored projection.  When a cacheable read is
  loaded and stored, the call that loaded it returns the connector's data; the same call, while the
  entry is live, does not run the connector again and returns the bounded projection of that data with
  the status \<open>ok\<close>: the same data where it is within the bounds of the cache, and otherwise, for a string
  longer than 2048 characters, silently a shorter one.\<close>

theorem repeated_read_returns_projection:
  assumes "data_mode_plan rt cn tool args bypass = Inr (RunCached call)"
    and "cache_key (rt_host rt) (PStr (cn_id cn)) (tool_key tool) (Some args) = Inr (Some k)"
    and "map_of (entries c) k = None" and "map_of (inflight c) k = None"
    and "run_uncached rt cn tool args = Inr (exec_ok (PMap m))"
    and "\<not> contains_sensitive 0 (PMap m)"
    and "elapsed \<le> of_int (rp_timeout_ms resolved) / 1000"
    and "later < now + elapsed + tool_ttl tool"
    and "run_data_mode rt now elapsed c cn tool resolved args bypass = (r1, c1)"
    and "run_data_mode rt later elapsed2 c1 cn tool resolved2 args bypass = (r2, c2)"
  shows "r1 = Inr (exec_ok (PMap m)) \<and> r2 = Inr (exec_ok (safe_value 0 (PMap m)))"
proof -
  note call = plan_ttl [OF assms(1)]
  have first: "r1 = Inr (exec_ok (PMap m))"
    "entries c1 = AList.update k (safe_value 0 (PMap m), now + elapsed + tool_ttl tool) (entries c)"
    using first_load [OF assms(1-7), of now] assms(9) by auto
  have "get_entry later c1 k = (Some (safe_value 0 (PMap m)), c1)"
    using first(2) assms(8) by (simp add: get_entry_def)
  then have "load_begin (rt_host rt) later c1 call = Inr (Hit (safe_value 0 (PMap m)), c1)"
    using assms(2) by (simp add: load_begin_def call cache_call_eq)
  then have "r2 = cached_result (safe_value 0 (PMap m))"
    using assms(1,10) by (simp add: run_data_mode_def Let_def)
  then show ?thesis using first(1) safe_map [OF assms(6)] by (auto simp: cached_result_def)
qed

text \<open>the data modes that use the cache.  A read tool with a time to live goes through the response
  cache in \<open>direct\<close> and \<open>hybrid\<close> mode and never in \<open>stored\<close> mode; a write tool, a tool without a time
  to live and a call with \<open>bypass_cache\<close> always run the connector.\<close>

theorem cache_by_data_mode:
  assumes "spec_for rt cn = Inr spec" and "supports_data_modes spec = PTuple (map PStr DATA_MODES)"
    and "cn_data_mode cn \<in> set DATA_MODES" and "tool_ttl tool < DOUBLE_OVERFLOW"
  shows "data_mode_plan rt cn tool args bypass =
     Inr (if is_cacheable tool \<and> \<not> bypass \<and> cn_data_mode cn \<in> {''direct'', ''hybrid''}
          then RunCached (cache_call cn tool args (Fin (tool_ttl tool))) else RunUncached)"
proof -
  have "py_in (PStr (cn_data_mode cn)) (map PStr DATA_MODES)" using assms(3) by (simp add: py_in_strs)
  moreover have "\<bar>tool_ttl tool\<bar> < DOUBLE_OVERFLOW" if "is_cacheable tool"
    using is_cacheable_ttl [OF that] assms(4) by simp
  ultimately show ?thesis using assms(1-3)
    by (auto simp: data_mode_plan_def float_result_def DATA_MODES_def)
qed

text \<open>a cacheable tool whose name contains a reserved word cannot be executed.  When the key of a tool
  with a time to live has one of the words that the cache takes for credentials (such as \<open>request\<close> or
  \<open>session\<close>) between its separators, every call in a cached data mode fails with \<open>ValueError\<close> before the
  connector is run.\<close>

theorem reserved_word_tool_fails:
  assumes "data_mode_plan rt cn tool args bypass = Inr (RunCached call)"
    and "normalized_args_hash (rt_host rt) (Some args) = Some hash"
    and "scope_identifier ''connection_id'' (PStr (cn_id cn)) = Inr (cn_id cn)"
    and "tool_key tool = PStr t"
    and "w \<in> set (runs (\<lambda>c. ascii_lower c \<or> ascii_digit c) (py_lower t))" and "w \<in> set SENSITIVE_KEY_PARTS"
  shows "run_data_mode rt now elapsed c cn tool resolved args bypass =
     (Inl (Exc ValueError ''tool_key is required''), c)"
proof -
  note call = plan_ttl(1) [OF assms(1)]
  have "scope_identifier ''tool_key'' (PStr t) = Inl (Exc ValueError ''tool_key is required'')"
    using assms(5,6) by (auto simp: scope_identifier_def list_ex_iff)
  then have "cache_key (rt_host rt) (PStr (cn_id cn)) (tool_key tool) (Some args) =
      Inl (Exc ValueError ''tool_key is required'')"
    using assms(2-4) by (simp add: cache_key_def)
  then have "load_begin (rt_host rt) now c call = Inl (Exc ValueError ''tool_key is required'')"
    by (simp add: load_begin_def call cache_call_eq)
  then show ?thesis using assms(1) by (simp add: run_data_mode_def Let_def)
qed

section \<open>A concrete runtime\<close>

definition read_tool :: "string \<Rightarrow> string \<Rightarrow> pyval tool_spec" where
  "read_tool k m = (demo_tool k m (PMap []) PNone)\<lparr>cache_ttl_seconds := PInt 60\<rparr>"

definition crm_spec :: "pyval connector_spec" where
  "crm_spec = (demo_spec ''crm'' [IsTool (read_tool ''find'' ''crm_find''),
       IsTool (read_tool ''get_request'' ''crm_get_request''), IsTool demo_write_tool] (PMap []))
     \<lparr>supports_data_modes := PTuple (map PStr DATA_MODES)\<rparr>"

definition crm_registry :: "nat registry" where
  "crm_registry = install empty_registry (7, crm_spec)"

lemma crm_replace:
  "replace_discovered_connectors look_tree (empty_registry :: nat registry) [(7, Some crm_spec)] = Inr crm_registry"
  by code_simp

lemma crm_registry_reachable: "registry_reachable crm_registry"
  by (rule r_into_rtranclp, rule registry_step.replaced_frozen [OF crm_replace])

definition crm_connection :: "string \<Rightarrow> connection" where
  "crm_connection mode = \<lparr>cn_id = ''c1'', cn_tenant = ''t1'', cn_connector = ''crm'', cn_display_name = ''CRM'',
     cn_status = ''active'', cn_data_mode = mode, cn_public_config = PMap [], cn_config_version = 1,
     cn_alias = PStr []\<rparr>"

text \<open>The connector returns one fixed mapping; every policy lookup goes to \<open>policies\<close>.\<close>

definition crm_runtime ::
  "(pyval \<times> pyval) list \<Rightarrow> (string \<Rightarrow> pyval \<Rightarrow> tool_policy option result) option \<Rightarrow> nat runtime" where
  "crm_runtime data policies = \<lparr>rt_registry = crm_registry, rt_provider = None, rt_policies = policies,
     rt_hooks = (\<lambda>_. None), rt_connector_execute = (\<lambda>_ _ _ _. Inr (exec_ok (PMap data))),
     rt_sink = Some (\<lambda>_. Inr ()), rt_host = demo_host\<rparr>"

definition crm_policy :: resolved_policy where
  "crm_policy = \<lparr>rp_enabled = True, rp_allow_write = False, rp_timeout_ms = 1000, rp_rate_limit = None\<rparr>"

definition start_state :: run_state where
  "start_state = \<lparr>rs_limiter = [], rs_cache = empty_cache, rs_audit = []\<rparr>"

lemma crm_runtime_simps:
  "rt_registry (crm_runtime d p) = crm_registry" "rt_policies (crm_runtime d p) = p"
  "rt_host (crm_runtime d p) = demo_host" "sink_calm (crm_runtime d p)" "rt_sink (crm_runtime d p) \<noteq> None"
  by (simp_all add: crm_runtime_def sink_calm_def)

lemma crm_connection_simps [simp]:
  "cn_id (crm_connection mode) = ''c1''" "cn_connector (crm_connection mode) = ''crm''"
  "cn_status (crm_connection mode) = ''active''" "cn_data_mode (crm_connection mode) = mode"
  by (simp_all add: crm_connection_def)

lemma read_tool_simps [simp]:
  "tool_key (read_tool k m) = PStr k" "cache_ttl_seconds (read_tool k m) = PInt 60"
  "operation_kind (read_tool k m) = PStr ''read''"
  by (simp_all add: read_tool_def demo_tool_def)

lemma crm_validated: "validated_spec crm_registry ''crm'' = Some crm_spec"
  by code_simp

lemma crm_spec_for: "spec_for (crm_runtime d p) (crm_connection mode) = Inr crm_spec"
  by (simp add: spec_for_def provider_for_def crm_runtime_simps crm_connection_def crm_validated)

lemma crm_modes: "supports_data_modes crm_spec = PTuple (map PStr DATA_MODES)"
  by (simp add: crm_spec_def)

lemma crm_uncached:
  "run_uncached (crm_runtime d p) (crm_connection ''hybrid'') tool args = Inr (exec_ok (PMap d))"
proof -
  have "get_connector crm_registry ''crm'' = Inr 7" by code_simp
  then show ?thesis
    by (simp add: run_uncached_def connect_for_def provider_for_def planner_execute_def DATA_MODES_def
        crm_runtime_def crm_connection_def)
qed

lemma crm_tools: "spec_tools crm_spec = [IsTool (read_tool ''find'' ''crm_find''),
       IsTool (read_tool ''get_request'' ''crm_get_request''), IsTool demo_write_tool]"
  by (simp add: crm_spec_def demo_spec_def)

lemma crm_find_tool: "find_tool crm_spec ''find'' = Inr (IsTool (read_tool ''find'' ''crm_find''))"
  by code_simp

lemma crm_no_policy: "policy_for (crm_runtime d None) cn tool = Inr None"
  by (simp add: policy_for_def crm_runtime_simps)

lemma crm_allowed: "assert_allowed (read_tool ''find'' ''crm_find'') None = Inr crm_policy"
  by code_simp

lemma crm_denied:
  "assert_allowed demo_write_tool None = Inl (Exc WritePolicyError ''write tools require explicit connection policy'')"
  by code_simp

lemma crm_allowed_request: "assert_allowed (read_tool ''get_request'' ''crm_get_request'') None = Inr crm_policy"
  by code_simp

lemma crm_list:
  "list_enabled_tools (crm_runtime d None) (crm_connection mode) =
     Inr [public_tool_copy (read_tool ''find'' ''crm_find''),
          public_tool_copy (read_tool ''get_request'' ''crm_get_request'')]"
proof -
  have "cn_status (crm_connection mode) = ''active''" by (simp add: crm_connection_def)
  then show ?thesis
    by (simp add: list_enabled_tools_def crm_spec_for crm_tools crm_no_policy crm_allowed
        crm_allowed_request crm_denied policy_denial_def)
qed

lemma crm_plan:
  "data_mode_plan (crm_runtime d p) (crm_connection ''hybrid'') (read_tool k m) args False =
     Inr (RunCached (cache_call (crm_connection ''hybrid'') (read_tool k m) args (Fin 60)))"
proof -
  have "py_in (PStr ''hybrid'') (map PStr DATA_MODES)" by (simp only: py_in_strs) (simp add: DATA_MODES_def)
  moreover have "float_result (Fin 60) = Inr (Fin 60)" by (simp add: float_result_def DOUBLE_OVERFLOW_def)
  ultimately show ?thesis
    by (simp add: data_mode_plan_def crm_spec_for crm_modes is_cacheable_def tool_ttl_def)
qed

lemma crm_key:
  "cache_key demo_host (PStr ''c1'') (PStr ''find'') (Some (PMap [])) = Inr (Some (CKey ''c1'' ''find'' ''{}''))"
  by code_simp

lemma crm_admit:
  "execute_admit (crm_runtime d None) now s (crm_connection mode) ''find'' (PMap args) (PBool b) =
     (Inr (read_tool ''find'' ''crm_find'', crm_policy), s)"
  by (simp add: execute_admit_def crm_spec_for crm_find_tool crm_no_policy crm_allowed)
    (simp add: crm_policy_def)

lemma crm_execute:
  assumes "\<not> contains_sensitive 0 (PMap d)"
  obtains s' where "execute (crm_runtime d None) 0 0 start_state (crm_connection ''hybrid'') ''find'' (PMap []) (PBool False)
      = (Inr (exec_ok (PMap d)), s')"
    "entries (rs_cache s') = [(CKey ''c1'' ''find'' ''{}'', safe_value 0 (PMap d), 60)]"
proof -
  let ?rt = "crm_runtime d None" and ?cn = "crm_connection ''hybrid''" and ?t = "read_tool ''find'' ''crm_find''"
  have key: "cache_key (rt_host ?rt) (PStr (cn_id ?cn)) (tool_key ?t) (Some (PMap [])) =
      Inr (Some (CKey ''c1'' ''find'' ''{}''))"
    using crm_key by (simp add: crm_runtime_simps)
  obtain c1 where run: "run_data_mode ?rt 0 0 empty_cache ?cn ?t crm_policy (PMap []) False = (Inr (exec_ok (PMap d)), c1)"
    and c1: "entries c1 = AList.update (CKey ''c1'' ''find'' ''{}'') (safe_value 0 (PMap d), 0 + 0 + tool_ttl ?t) (entries empty_cache)"
    using first_load [OF crm_plan key, of empty_cache d 0 crm_policy 0] crm_uncached assms
    by (auto simp: empty_cache_def crm_policy_def)
  let ?s1 = "start_state\<lparr>rs_cache := c1\<rparr>" and ?ev = "make_event ?cn ?t ''ok'' 0 [] []"
  have fin: "execute_finish ?rt 0 0 ?s1 ?cn ?t (Inr (exec_ok (PMap d))) =
      (Inr (exec_ok (PMap d)), snd (audit ?rt ?s1 ?ev))"
    by (simp add: execute_finish_def is_execution_result_def result_status_def audit_def crm_runtime_def
        cost_ms_def Let_def)
  show thesis
  proof (rule that)
    show "execute ?rt 0 0 start_state ?cn ''find'' (PMap []) (PBool False) =
        (Inr (exec_ok (PMap d)), snd (audit ?rt ?s1 ?ev))"
      using run fin by (simp add: execute_def crm_admit) (simp add: start_state_def)
    show "entries (rs_cache (snd (audit ?rt ?s1 ?ev))) = [(CKey ''c1'' ''find'' ''{}'', safe_value 0 (PMap d), 60)]"
      using c1 audit_calm(3) [OF crm_runtime_simps(4)]
      by (simp add: empty_cache_def tool_ttl_def read_tool_def)
  qed
qed

lemma small_not_sensitive: "\<not> contains_sensitive 0 (PMap [(PStr ''n'', PInt 1)])"
  by code_simp


theorem only_ok_reads_cached_witness:
  "\<exists>s' :: run_state. map_of (entries (rs_cache s')) (CKey ''c1'' ''find'' ''{}'') =
      Some (safe_value 0 (PMap [(PStr ''n'', PInt 1)]), 60) \<and>
     (\<exists>attrs. run_uncached (crm_runtime [(PStr ''n'', PInt 1)] None) (crm_connection ''hybrid'')
        (read_tool ''find'' ''crm_find'') (PMap []) = Inr (PObj ''ExecutionResult'' attrs))"
proof -
  let ?rt = "crm_runtime [(PStr ''n'', PInt 1)] None" and ?cn = "crm_connection ''hybrid''"
  obtain s' where run: "execute ?rt 0 0 start_state ?cn ''find'' (PMap []) (PBool False) =
      (Inr (exec_ok (PMap [(PStr ''n'', PInt 1)])), s')"
    and e: "entries (rs_cache s') = [(CKey ''c1'' ''find'' ''{}'', safe_value 0 (PMap [(PStr ''n'', PInt 1)]), 60)]"
    using crm_execute [OF small_not_sensitive] by metis
  have new: "map_of (entries (rs_cache s')) (CKey ''c1'' ''find'' ''{}'') =
      Some (safe_value 0 (PMap [(PStr ''n'', PInt 1)]), 60)" by (simp add: e)
  have old: "map_of (entries (rs_cache start_state)) (CKey ''c1'' ''find'' ''{}'') \<noteq>
      Some (safe_value 0 (PMap [(PStr ''n'', PInt 1)]), 60)" by (simp add: start_state_def empty_cache_def)
  obtain attrs where "run_uncached ?rt ?cn (read_tool ''find'' ''crm_find'') (PMap []) = Inr (PObj ''ExecutionResult'' attrs)"
    using only_ok_reads_cached [OF run new old crm_runtime_simps(4)] by (auto simp: crm_admit)
  with new show ?thesis by blast
qed

text \<open>A text of 2049 characters that names nothing sensitive.\<close>

lemma arg_cong_neq: "f x \<noteq> f y \<Longrightarrow> x \<noteq> y"
  by auto

lemma contains_replicate: "contains p (replicate n c) \<Longrightarrow> set p \<subseteq> {c}"
  using set_mono_sublist [of p "replicate n c"] by (auto simp: contains_iff)

lemma jwt_search_replicate: "\<not> jwt_search_from b (replicate n CHR ''x'')"
proof (induction n arbitrary: b)
  case (Suc n)
  have "\<not> prefix ''eyj'' (py_lower (take 3 (CHR ''x'' # replicate n CHR ''x'')))"
    by (simp add: py_lower_def lower_char_def ascii_upper_def)
  then show ?case using Suc by simp
qed simp

lemma long_not_sensitive: "\<not> contains_sensitive 0 (PMap [(PStr ''n'', PStr (replicate 2049 CHR ''x''))])"
proof -
  have low: "py_lower (replicate n CHR ''x'') = replicate n CHR ''x''" for n
    by (simp add: py_lower_def lower_char_def ascii_upper_def)
  have "py_isalnum CHR ''x''" by code_simp
  then have norm: "normalized_key_name (replicate n CHR ''x'') = replicate n CHR ''x''" for n
    by (simp add: normalized_key_name_def low)
  have marker: "\<not> contains m (replicate 2049 CHR ''x'')" if "m \<in> set SENSITIVE_VALUE_MARKERS" for m
    using that contains_replicate [of m 2049 "CHR ''x''"] by (auto simp: SENSITIVE_VALUE_MARKERS_def)
  have "\<not> sensitive_text (replicate 2049 CHR ''x'')"
    using marker by (auto simp: sensitive_text_def jwt_like_def jwt_search_replicate norm list_ex_iff)
  moreover have "\<not> is_sensitive_key ''n''" by code_simp
  ultimately show ?thesis by simp
qed

theorem repeated_read_returns_projection_witness:
  "\<exists>c1 c2 r1 r2. run_data_mode (crm_runtime [(PStr ''n'', PStr (replicate 2049 CHR ''x''))] None) 0 0 empty_cache
       (crm_connection ''hybrid'') (read_tool ''find'' ''crm_find'') crm_policy (PMap []) False = (r1, c1) \<and>
     run_data_mode (crm_runtime [(PStr ''n'', PStr (replicate 2049 CHR ''x''))] None) 1 0 c1
       (crm_connection ''hybrid'') (read_tool ''find'' ''crm_find'') crm_policy (PMap []) False = (r2, c2) \<and>
     r1 = Inr (exec_ok (PMap [(PStr ''n'', PStr (replicate 2049 CHR ''x''))])) \<and>
     r2 = Inr (exec_ok (PMap [(PStr ''n'', PStr (replicate 2048 CHR ''x''))])) \<and> r1 \<noteq> r2"
proof -
  let ?d = "[(PStr ''n'', PStr (replicate 2049 CHR ''x''))]"
  let ?rt = "crm_runtime ?d None" and ?cn = "crm_connection ''hybrid''" and ?t = "read_tool ''find'' ''crm_find''"
  have key: "cache_key (rt_host ?rt) (PStr (cn_id ?cn)) (tool_key ?t) (Some (PMap [])) =
      Inr (Some (CKey ''c1'' ''find'' ''{}''))"
    using crm_key by (simp add: crm_runtime_simps)
  obtain r1 c1 where one: "run_data_mode ?rt 0 0 empty_cache ?cn ?t crm_policy (PMap []) False = (r1, c1)"
    by (cases "run_data_mode ?rt 0 0 empty_cache ?cn ?t crm_policy (PMap []) False")
  obtain r2 c2 where two: "run_data_mode ?rt 1 0 c1 ?cn ?t crm_policy (PMap []) False = (r2, c2)"
    by (cases "run_data_mode ?rt 1 0 c1 ?cn ?t crm_policy (PMap []) False")
  have r: "r1 = Inr (exec_ok (PMap ?d)) \<and> r2 = Inr (exec_ok (safe_value 0 (PMap ?d)))"
    by (rule repeated_read_returns_projection [OF crm_plan key _ _ crm_uncached long_not_sensitive _ _ one two])
      (simp_all add: empty_cache_def crm_policy_def tool_ttl_def read_tool_def)
  have "\<not> is_sensitive_key ''n''" by code_simp
  then have "safe_value 0 (PMap ?d) = PMap [(PStr ''n'', PStr (replicate 2048 CHR ''x''))]"
    by (simp add: safe_value.simps take_replicate)
  moreover have "replicate 2049 CHR ''x'' \<noteq> replicate 2048 CHR ''x''"
    by (rule arg_cong_neq [where f = length]) simp
  ultimately show ?thesis using one two r by auto
qed

theorem cache_by_data_mode_witness:
  "data_mode_plan (crm_runtime [] None) (crm_connection ''direct'') (read_tool ''find'' ''crm_find'') (PMap []) False
     = Inr (RunCached (cache_call (crm_connection ''direct'') (read_tool ''find'' ''crm_find'') (PMap []) (Fin 60))) \<and>
   data_mode_plan (crm_runtime [] None) (crm_connection ''stored'') (read_tool ''find'' ''crm_find'') (PMap []) False
     = Inr RunUncached"
proof -
  have ttl: "tool_ttl (read_tool ''find'' ''crm_find'') = 60" "is_cacheable (read_tool ''find'' ''crm_find'')"
    by (simp_all add: tool_ttl_def is_cacheable_def)
  have modes: "cn_data_mode (crm_connection mode) \<in> set DATA_MODES" if "mode \<in> {''direct'', ''stored''}" for mode
    using that by (auto simp: DATA_MODES_def)
  have bound: "tool_ttl (read_tool ''find'' ''crm_find'') < DOUBLE_OVERFLOW"
    by (simp add: ttl DOUBLE_OVERFLOW_def)
  show ?thesis
    using cache_by_data_mode [OF crm_spec_for crm_modes modes bound, of "''direct''" "[]" None "PMap []" False]
      cache_by_data_mode [OF crm_spec_for crm_modes modes bound, of "''stored''" "[]" None "PMap []" False]
    by (simp add: ttl)
qed

theorem reserved_word_tool_fails_witness:
  "run_data_mode (crm_runtime [] None) 0 0 empty_cache (crm_connection ''hybrid'')
     (read_tool ''get_request'' ''crm_get_request'') crm_policy (PMap []) False =
   (Inl (Exc ValueError ''tool_key is required''), empty_cache)"
proof -
  have "normalized_args_hash (rt_host (crm_runtime [] None)) (Some (PMap [])) = Some ''{}''"
    unfolding crm_runtime_simps by code_simp
  moreover have "scope_identifier ''connection_id'' (PStr (cn_id (crm_connection ''hybrid''))) = Inr (cn_id (crm_connection ''hybrid''))"
    unfolding crm_connection_simps by code_simp
  moreover have "''request'' \<in> set (runs (\<lambda>c. ascii_lower c \<or> ascii_digit c) (py_lower ''get_request''))"
    by code_simp
  moreover have "''request'' \<in> set SENSITIVE_KEY_PARTS" by code_simp
  moreover have "tool_key (read_tool ''get_request'' ''crm_get_request'') = PStr ''get_request''" by simp
  ultimately show ?thesis by (intro reserved_word_tool_fails [OF crm_plan])
qed

section \<open>A policy that breaks the listing\<close>

definition HUGE_WINDOW :: int where "HUGE_WINDOW = 2 ^ 1024"

definition huge_window_policy :: "string \<Rightarrow> pyval \<Rightarrow> tool_policy option result" where
  "huge_window_policy cid tool =
     Inr (if tool = PStr ''find''
          then Some \<lparr>pl_connection = cid, pl_tool = tool, pl_enabled = PBool True,
                     pl_policy = PMap [(PStr ''rate_limit'',
                       PMap [(PStr ''limit'', PInt 1), (PStr ''window_seconds'', PInt HUGE_WINDOW)])]\<rparr>
          else None)"

text \<open>one stored policy can hide every tool of a connection.  A rate limit whose window is an integer
  beyond the range of a float is not turned into an \<open>InvalidToolPolicyError\<close>: the conversion raises
  \<open>OverflowError\<close>, which the listing does not catch, so that the whole listing of the connection fails,
  and a call of the tool fails without an audit event.\<close>

theorem huge_window_breaks_listing:
  "list_enabled_tools (crm_runtime [] (Some huge_window_policy)) (crm_connection ''direct'') = Inl overflow_error \<and>
   execute (crm_runtime [] (Some huge_window_policy)) 0 0 start_state (crm_connection ''direct'') ''find'' (PMap []) (PBool False)
     = (Inl overflow_error, start_state)"
proof -
  let ?p = "\<lparr>pl_connection = ''c1'', pl_tool = PStr ''find'', pl_enabled = PBool True,
     pl_policy = PMap [(PStr ''rate_limit'',
       PMap [(PStr ''limit'', PInt 1), (PStr ''window_seconds'', PInt HUGE_WINDOW)])]\<rparr>"
  have lookup: "policy_for (crm_runtime [] (Some huge_window_policy)) (crm_connection ''direct'') (read_tool ''find'' m) = Inr (Some ?p)" for m
    by (simp add: policy_for_def crm_runtime_simps huge_window_policy_def py_in_def)
  have "float_result (Fin (of_int HUGE_WINDOW)) = Inl overflow_error"
    by (simp add: float_result_def DOUBLE_OVERFLOW_def HUGE_WINDOW_def)
  moreover have "0 < HUGE_WINDOW" by (simp add: HUGE_WINDOW_def)
  ultimately have rate: "normalize_rate_limit [(PStr ''rate_limit'',
       PMap [(PStr ''limit'', PInt 1), (PStr ''window_seconds'', PInt HUGE_WINDOW)])] = Inl overflow_error"
    by (simp add: normalize_rate_limit_def nested_limit_def mget_or_def mget_none_def has_key_def
        not_positive_def)
  have raised: "assert_allowed (read_tool ''find'' m) (Some ?p) = Inl overflow_error" for m
    by (simp add: assert_allowed_def resolve_policy_def optional_policy_bool_def rate)
  have quiet: "\<not> policy_denial overflow_error" by (simp add: policy_denial_def overflow_error_def)
  show ?thesis
    by (simp add: list_enabled_tools_def crm_spec_for crm_tools lookup raised quiet execute_def
        execute_admit_def crm_find_tool)
qed

end
