(* ===== verification/PyNet.thy ===== *)
theory PyNet
  imports PyVal "HOL-Library.Word"
begin

text \<open>
  The part of Python's standard library (3.11) that turns text into network addresses and URLs:
  \<open>ipaddress.ip_address\<close> with \<open>str\<close> and the classification properties, \<open>urllib.parse.urlsplit\<close> with
  the attributes of its result, \<open>quote\<close> and \<open>urlencode\<close>, and the ASCII path of the \<open>idna\<close> codec.
  A name with other characters goes through \<open>idna\<close>, a parameter (\<open>None\<close> where it raises).
\<close>

section \<open>Splitting and stripping\<close>

text \<open>\<open>s.partition(c)\<close> as the part before, whether \<open>c\<close> occurs, and the part after.\<close>

definition partition_at :: "char \<Rightarrow> string \<Rightarrow> string \<times> bool \<times> string" where
  "partition_at c s = (takeWhile (\<lambda>d. d \<noteq> c) s, c \<in> set s, drop 1 (dropWhile (\<lambda>d. d \<noteq> c) s))"

text \<open>\<open>s.rpartition(c)\<close>: without \<open>c\<close> everything is the last part.\<close>

definition rpartition_at :: "char \<Rightarrow> string \<Rightarrow> string \<times> bool \<times> string" where
  "rpartition_at c s =
     (rev (drop 1 (dropWhile (\<lambda>d. d \<noteq> c) (rev s))), c \<in> set s, rev (takeWhile (\<lambda>d. d \<noteq> c) (rev s)))"

definition is_ascii :: "string \<Rightarrow> bool" where
  "is_ascii s \<longleftrightarrow> list_all (\<lambda>c. cp c < 128) s"

definition hex_char :: "char \<Rightarrow> bool" where
  "hex_char c \<longleftrightarrow> ascii_digit c \<or> (65 \<le> cp c \<and> cp c \<le> 70) \<or> (97 \<le> cp c \<and> cp c \<le> 102)"

definition hex_val :: "char \<Rightarrow> int" where
  "hex_val c = int (if ascii_digit c then cp c - 48 else if cp c \<le> 70 then cp c - 55 else cp c - 87)"

text \<open>\<open>'%x' % n\<close> of a number below 65536.\<close>

definition hex_str :: "int \<Rightarrow> string" where
  "hex_str n =
     (case dropWhile (\<lambda>d. d = 0) [n div 4096 mod 16, n div 256 mod 16, n div 16 mod 16, n mod 16] of
        [] \<Rightarrow> ''0''
      | ds \<Rightarrow> map (\<lambda>d. hex_digit (nat d)) ds)"

section \<open>IPv4\<close>

definition parse_octet :: "string \<Rightarrow> nat option" where
  "parse_octet s =
     (if s \<noteq> [] \<and> list_all ascii_digit s \<and> length s \<le> 3 \<and> (s = ''0'' \<or> hd s \<noteq> CHR ''0'')
         \<and> digits_val s \<le> 255
      then Some (digits_val s) else None)"

definition parse_v4 :: "string \<Rightarrow> 32 word option" where
  "parse_v4 s =
     (case map parse_octet (split_on CHR ''.'' s) of
        [Some a, Some b, Some c, Some d] \<Rightarrow>
          Some (of_int (((int a * 256 + int b) * 256 + int c) * 256 + int d))
      | _ \<Rightarrow> None)"

definition v4_str :: "32 word \<Rightarrow> string" where
  "v4_str w =
     (let n = uint w in
      join_with ''.'' [int_str (n div 16777216), int_str (n div 65536 mod 256),
        int_str (n div 256 mod 256), int_str (n mod 256)])"

section \<open>IPv6\<close>

definition parse_hextet :: "string \<Rightarrow> int option" where
  "parse_hextet s =
     (if s \<noteq> [] \<and> list_all hex_char s \<and> length s \<le> 4
      then Some (foldl (\<lambda>n c. n * 16 + hex_val c) 0 s) else None)"

text \<open>The parts of the text; a dotted tail is rewritten as two hextets.\<close>

definition v6_parts :: "string \<Rightarrow> string list option" where
  "v6_parts s =
     (let parts = split_on CHR '':'' s in
      if s = [] \<or> length parts < 3 then None
      else if CHR ''.'' \<in> set (last parts)
      then (case parse_v4 (last parts) of
              None \<Rightarrow> None
            | Some w \<Rightarrow> Some (butlast parts @ [hex_str (uint w div 65536), hex_str (uint w mod 65536)]))
      else Some parts)"

text \<open>
  The position of the one empty inner part (\<open>::\<close>), if any; more than one is an error.
\<close>

definition skip_positions :: "string list \<Rightarrow> nat list" where
  "skip_positions parts = filter (\<lambda>i. parts ! i = []) [1..<length parts - 1]"

text \<open>\<open>skip_layout\<close> is \<open>(parts_hi, parts_lo, parts_skipped)\<close>.\<close>

definition skip_layout :: "string list \<Rightarrow> (nat \<times> nat \<times> nat) option" where
  "skip_layout parts =
     (case skip_positions parts of
        [] \<Rightarrow>
          (if length parts = 8 \<and> hd parts \<noteq> [] \<and> last parts \<noteq> [] then Some (8, 0, 0) else None)
      | [i] \<Rightarrow>
          (let hi = (if hd parts = [] then i - 1 else i);
               lo = (if last parts = [] then length parts - i - 2 else length parts - i - 1) in
           if hd parts = [] \<and> hi \<noteq> 0 then None
           else if last parts = [] \<and> lo \<noteq> 0 then None
           else if hi + lo > 7 then None
           else Some (hi, lo, 8 - (hi + lo)))
      | _ \<Rightarrow> None)"

definition parse_v6_int :: "string \<Rightarrow> 128 word option" where
  "parse_v6_int s =
     (case v6_parts s of
        None \<Rightarrow> None
      | Some parts \<Rightarrow>
          (if length parts > 9 then None
           else case skip_layout parts of
             None \<Rightarrow> None
           | Some (hi, lo, skipped) \<Rightarrow>
               (let hs = map parse_hextet (take hi parts) @ replicate skipped (Some 0)
                         @ map parse_hextet (drop (length parts - lo) parts) in
                if list_all (\<lambda>h. h \<noteq> None) hs
                then Some (of_int (foldl (\<lambda>n h. n * 65536 + the h) 0 hs)) else None)))"

text \<open>The longest run of zero hextets, the first of equal length: its start and its length.\<close>

fun zero_run :: "nat \<Rightarrow> nat \<Rightarrow> nat \<times> nat \<Rightarrow> int list \<Rightarrow> nat \<times> nat" where
  "zero_run index len best [] = best"
| "zero_run index len best (h # hs) =
     (if h = 0
      then zero_run (Suc index) (Suc len)
             (if Suc len > snd best then (Suc index - Suc len, Suc len) else best) hs
      else zero_run (Suc index) 0 best hs)"

definition hextets :: "128 word \<Rightarrow> int list" where
  "hextets w = map (\<lambda>i. uint w div 65536 ^ (7 - i) mod 65536) [0..<8]"

definition compress_hextets :: "int list \<Rightarrow> string list" where
  "compress_hextets hs =
     (case zero_run 0 0 (0, 0) hs of
        (start, len) \<Rightarrow>
          (if len > 1
           then (if start = 0 then [[]] else []) @ map hex_str (take start hs) @ [[]]
                @ map hex_str (drop (start + len) hs) @ (if start + len = length hs then [[]] else [])
           else map hex_str hs))"

section \<open>Addresses\<close>

datatype ipaddr = V4 "32 word" | V6 "128 word" "string option"

definition parse_v6 :: "string \<Rightarrow> ipaddr option" where
  "parse_v6 s =
     (if CHR ''/'' \<in> set s then None
      else case partition_at CHR ''%'' s of
        (address, sep, scope) \<Rightarrow>
          (if sep \<and> (scope = [] \<or> CHR ''%'' \<in> set scope) then None
           else map_option (\<lambda>w. V6 w (if sep then Some scope else None)) (parse_v6_int address)))"

text \<open>\<open>ipaddress.ip_address(s)\<close>, \<open>None\<close> where it raises \<open>ValueError\<close>.\<close>

definition ip_address :: "string \<Rightarrow> ipaddr option" where
  "ip_address s = (case parse_v4 s of Some w \<Rightarrow> Some (V4 w) | None \<Rightarrow> parse_v6 s)"

definition ip_str :: "ipaddr \<Rightarrow> string" where
  "ip_str a =
     (case a of
        V4 w \<Rightarrow> v4_str w
      | V6 w scope \<Rightarrow>
          join_with '':'' (compress_hextets (hextets w)) @ (case scope of None \<Rightarrow> [] | Some z \<Rightarrow> ''%'' @ z))"

section \<open>Classification\<close>

text \<open>\<open>a in network\<close> for the network whose first \<open>bits\<close> bits are those of \<open>base\<close>.\<close>

definition in_net :: "nat \<Rightarrow> int \<Rightarrow> nat \<Rightarrow> int \<Rightarrow> bool" where
  "in_net width base bits a \<longleftrightarrow> a div 2 ^ (width - bits) = base div 2 ^ (width - bits)"

definition v4_net :: "int list \<Rightarrow> nat \<Rightarrow> 32 word \<Rightarrow> bool" where
  "v4_net octets bits w \<longleftrightarrow> in_net 32 (foldl (\<lambda>n d. n * 256 + d) 0 octets) bits (uint w)"

text \<open>The base of an IPv6 network is given by its leading hextets.\<close>

definition v6_base :: "int list \<Rightarrow> int" where
  "v6_base hs = foldl (\<lambda>n h. n * 65536 + h) 0 (hs @ replicate (8 - length hs) 0)"

definition v6_net :: "int list \<Rightarrow> nat \<Rightarrow> 128 word \<Rightarrow> bool" where
  "v6_net hs bits w \<longleftrightarrow> in_net 128 (v6_base hs) bits (uint w)"

definition V4_PRIVATE :: "(int list \<times> nat) list" where
  "V4_PRIVATE = [([0, 0, 0, 0], 8), ([10, 0, 0, 0], 8), ([127, 0, 0, 0], 8), ([169, 254, 0, 0], 16),
     ([172, 16, 0, 0], 12), ([192, 0, 0, 0], 24), ([192, 0, 0, 170], 31), ([192, 0, 2, 0], 24),
     ([192, 168, 0, 0], 16), ([198, 18, 0, 0], 15), ([198, 51, 100, 0], 24), ([203, 0, 113, 0], 24),
     ([240, 0, 0, 0], 4), ([255, 255, 255, 255], 32)]"

definition V4_PRIVATE_EXCEPTIONS :: "(int list \<times> nat) list" where
  "V4_PRIVATE_EXCEPTIONS = [([192, 0, 0, 9], 32), ([192, 0, 0, 10], 32)]"

definition V6_PRIVATE :: "(int list \<times> nat) list" where
  "V6_PRIVATE = [([0, 0, 0, 0, 0, 0, 0, 1], 128), ([0], 128), ([0, 0, 0, 0, 0, 0xffff], 96),
     ([0x64, 0xff9b, 1], 48), ([0x100], 64), ([0x2001], 23), ([0x2001, 0xdb8], 32), ([0x2002], 16),
     ([0xfc00], 7), ([0xfe80], 10)]"

definition V6_PRIVATE_EXCEPTIONS :: "(int list \<times> nat) list" where
  "V6_PRIVATE_EXCEPTIONS = [([0x2001, 1, 0, 0, 0, 0, 0, 1], 128), ([0x2001, 1, 0, 0, 0, 0, 0, 2], 128),
     ([0x2001, 3], 32), ([0x2001, 4, 0x112], 48), ([0x2001, 0x20], 28), ([0x2001, 0x30], 28)]"

definition V6_RESERVED :: "(int list \<times> nat) list" where
  "V6_RESERVED = [([0], 8), ([0x100], 8), ([0x200], 7), ([0x400], 6), ([0x800], 5), ([0x1000], 4),
     ([0x4000], 3), ([0x6000], 3), ([0x8000], 3), ([0xa000], 3), ([0xc000], 3), ([0xe000], 4),
     ([0xf000], 5), ([0xf800], 6), ([0xfe00], 9)]"

definition in_v4_nets :: "(int list \<times> nat) list \<Rightarrow> 32 word \<Rightarrow> bool" where
  "in_v4_nets nets w \<longleftrightarrow> list_ex (\<lambda>(base, bits). v4_net base bits w) nets"

definition in_v6_nets :: "(int list \<times> nat) list \<Rightarrow> 128 word \<Rightarrow> bool" where
  "in_v6_nets nets w \<longleftrightarrow> list_ex (\<lambda>(base, bits). v6_net base bits w) nets"

definition v4_is_private :: "32 word \<Rightarrow> bool" where
  "v4_is_private w \<longleftrightarrow> in_v4_nets V4_PRIVATE w \<and> \<not> in_v4_nets V4_PRIVATE_EXCEPTIONS w"

definition ipv4_mapped :: "128 word \<Rightarrow> 32 word option" where
  "ipv4_mapped w = (if uint w div 4294967296 = 65535 then Some (of_int (uint w mod 4294967296)) else None)"

definition v6_is_private :: "128 word \<Rightarrow> bool" where
  "v6_is_private w \<longleftrightarrow>
     (case ipv4_mapped w of
        Some m \<Rightarrow> v4_is_private m
      | None \<Rightarrow> in_v6_nets V6_PRIVATE w \<and> \<not> in_v6_nets V6_PRIVATE_EXCEPTIONS w)"

fun is_private :: "ipaddr \<Rightarrow> bool" where
  "is_private (V4 w) = v4_is_private w"
| "is_private (V6 w _) = v6_is_private w"

fun is_global :: "ipaddr \<Rightarrow> bool" where
  "is_global (V4 w) = (\<not> v4_net [100, 64, 0, 0] 10 w \<and> \<not> v4_is_private w)"
| "is_global (V6 w _) = (\<not> v6_is_private w)"

fun is_loopback :: "ipaddr \<Rightarrow> bool" where
  "is_loopback (V4 w) = v4_net [127, 0, 0, 0] 8 w"
| "is_loopback (V6 w _) = (uint w = 1)"

fun is_link_local :: "ipaddr \<Rightarrow> bool" where
  "is_link_local (V4 w) = v4_net [169, 254, 0, 0] 16 w"
| "is_link_local (V6 w _) = v6_net [0xfe80] 10 w"

fun is_multicast :: "ipaddr \<Rightarrow> bool" where
  "is_multicast (V4 w) = v4_net [224, 0, 0, 0] 4 w"
| "is_multicast (V6 w _) = v6_net [0xff00] 8 w"

fun is_reserved :: "ipaddr \<Rightarrow> bool" where
  "is_reserved (V4 w) = v4_net [240, 0, 0, 0] 4 w"
| "is_reserved (V6 w _) = in_v6_nets V6_RESERVED w"

fun is_unspecified :: "ipaddr \<Rightarrow> bool" where
  "is_unspecified (V4 w) = (uint w = 0)"
| "is_unspecified (V6 w _) = (uint w = 0)"

section \<open>URLs\<close>

record url_parts =
  u_scheme :: string
  u_netloc :: string
  u_path :: string
  u_query :: string
  u_fragment :: string

definition scheme_char :: "char \<Rightarrow> bool" where
  "scheme_char c \<longleftrightarrow> ascii_alnum c \<or> c \<in> {CHR ''+'', CHR ''-'', CHR ''.''}"

text \<open>Leading C0 controls and spaces are dropped, tabs and line breaks are removed everywhere.\<close>

definition clean_url :: "string \<Rightarrow> string" where
  "clean_url s = filter (\<lambda>c. cp c \<notin> {9, 10, 13}) (dropWhile (\<lambda>c. cp c \<le> 32) s)"

definition split_scheme :: "string \<Rightarrow> string \<times> string" where
  "split_scheme s =
     (case partition_at CHR '':'' s of
        (pre, found, post) \<Rightarrow>
          (if found \<and> pre \<noteq> [] \<and> ascii_alpha (hd pre) \<and> list_all scheme_char pre
           then (py_lower pre, post) else ([], s)))"

definition netloc_char :: "char \<Rightarrow> bool" where
  "netloc_char c \<longleftrightarrow> c \<notin> {CHR ''/'', CHR ''?'', CHR ''#''}"

text \<open>\<open>_check_bracketed_host\<close>; \<open>.+\<close> does not match a line break, which the cleaned URL has none of.\<close>

definition bracketed_host_ok :: "string \<Rightarrow> bool" where
  "bracketed_host_ok host =
     (case host of
        c # rest \<Rightarrow>
          (if c = CHR ''v''
           then (case partition_at CHR ''.'' rest of
                   (digits, dot, tail) \<Rightarrow> dot \<and> digits \<noteq> [] \<and> list_all hex_char digits \<and> tail \<noteq> [])
           else (case ip_address host of Some (V6 _ _) \<Rightarrow> True | _ \<Rightarrow> False))
      | [] \<Rightarrow> False)"

definition netloc_ok :: "string \<Rightarrow> bool" where
  "netloc_ok netloc \<longleftrightarrow>
     (CHR ''['' \<in> set netloc \<longleftrightarrow> CHR '']'' \<in> set netloc) \<and>
     (CHR ''['' \<in> set netloc \<longrightarrow>
        bracketed_host_ok (fst (partition_at CHR '']'' (snd (snd (partition_at CHR ''['' netloc))))))"

text \<open>\<open>urlsplit(s)\<close>, \<open>None\<close> where it raises \<open>ValueError\<close>.\<close>

definition urlsplit :: "string \<Rightarrow> url_parts option" where
  "urlsplit s =
     (case split_scheme (clean_url s) of
        (scheme, rest) \<Rightarrow>
          (let (netloc, rest1) =
             (if prefix ''//'' rest
              then (takeWhile netloc_char (drop 2 rest), dropWhile netloc_char (drop 2 rest))
              else ([], rest)) in
           if \<not> netloc_ok netloc then None
           else case partition_at CHR ''#'' rest1 of
             (rest2, _, fragment) \<Rightarrow>
               (case partition_at CHR ''?'' rest2 of
                  (path, _, query) \<Rightarrow>
                    Some \<lparr>u_scheme = scheme, u_netloc = netloc, u_path = path,
                          u_query = query, u_fragment = fragment\<rparr>)))"

text \<open>The attributes \<open>username\<close> and \<open>password\<close> (\<open>None\<close> or a string).\<close>

definition url_userinfo :: "url_parts \<Rightarrow> string option \<times> string option" where
  "url_userinfo u =
     (case rpartition_at CHR ''@'' (u_netloc u) of
        (userinfo, have, _) \<Rightarrow>
          (if \<not> have then (None, None)
           else case partition_at CHR '':'' userinfo of
             (user, have_password, password) \<Rightarrow>
               (Some user, if have_password then Some password else None)))"

text \<open>The host text and the port text.\<close>

definition url_hostinfo :: "url_parts \<Rightarrow> string \<times> string" where
  "url_hostinfo u =
     (case rpartition_at CHR ''@'' (u_netloc u) of
        (_, _, hostinfo) \<Rightarrow>
          (case partition_at CHR ''['' hostinfo of
             (_, True, bracketed) \<Rightarrow>
               (case partition_at CHR '']'' bracketed of
                  (host, _, rest) \<Rightarrow> (host, snd (snd (partition_at CHR '':'' rest))))
           | (_, False, _) \<Rightarrow>
               (case partition_at CHR '':'' hostinfo of (host, _, port) \<Rightarrow> (host, port))))"

text \<open>\<open>hostname\<close>: lower case but for an IPv6 zone; \<open>None\<close> when empty.\<close>

definition url_hostname :: "url_parts \<Rightarrow> string option" where
  "url_hostname u =
     (case fst (url_hostinfo u) of
        [] \<Rightarrow> None
      | host \<Rightarrow>
          (case partition_at CHR ''%'' host of
             (name, percent, zone) \<Rightarrow> Some (py_lower name @ (if percent then ''%'' @ zone else []))))"

text \<open>\<open>port\<close>: \<open>Inl\<close> where reading it raises \<open>ValueError\<close>.\<close>

definition url_port :: "url_parts \<Rightarrow> nat option result" where
  "url_port u =
     (case snd (url_hostinfo u) of
        [] \<Rightarrow> Inr None
      | port \<Rightarrow>
          (if \<not> list_all ascii_digit port
           then Inl (Exc ValueError ''Port could not be cast to integer value'')
           else if digits_val port > 65535 then Inl (Exc ValueError ''Port out of range 0-65535'')
           else Inr (Some (digits_val port))))"

section \<open>Quoting\<close>

definition always_safe :: "char \<Rightarrow> bool" where
  "always_safe c \<longleftrightarrow> ascii_alnum c \<or> c \<in> {CHR ''_'', CHR ''.'', CHR ''-'', CHR ''~''}"

definition upper_hex :: "nat \<Rightarrow> char" where
  "upper_hex d = char_of (if d < 10 then 48 + d else 55 + d)"

definition quote_byte :: "nat \<Rightarrow> string" where
  "quote_byte b =
     (if b < 128 \<and> always_safe (char_of b) then [char_of b]
      else [CHR ''%'', upper_hex (b div 16), upper_hex (b mod 16)])"

text \<open>\<open>quote(s, safe="")\<close> and \<open>quote_plus(s, safe="")\<close>.\<close>

definition quote :: "string \<Rightarrow> string" where
  "quote s = concat (map quote_byte (utf8 s))"

definition quote_plus :: "string \<Rightarrow> string" where
  "quote_plus s = concat (map (\<lambda>b. if b = 32 then ''+'' else quote_byte b) (utf8 s))"

definition urlencode :: "(string \<times> string) list \<Rightarrow> string" where
  "urlencode kvs = join_with ''&'' (map (\<lambda>(k, v). quote_plus k @ ''='' @ quote_plus v) kvs)"

section \<open>The idna codec\<close>

text \<open>\<open>s.encode("idna").decode("ascii")\<close>: both steps raise \<open>UnicodeError\<close>.\<close>

definition idna_encode :: "(string \<Rightarrow> string option) \<Rightarrow> string \<Rightarrow> string option" where
  "idna_encode idna s =
     (if \<not> is_ascii s
      then (case idna s of Some t \<Rightarrow> (if is_ascii t then Some t else None) | None \<Rightarrow> None)
      else let labels = split_on CHR ''.'' s in
        if s \<noteq> [] \<and> (list_ex (\<lambda>l. l = [] \<or> length l \<ge> 64) (butlast labels) \<or> length (last labels) \<ge> 64)
        then None else Some s)"

lemma idna_encode_ascii: "idna_encode idna s = Some t \<Longrightarrow> is_ascii t"
  by (auto simp: idna_encode_def Let_def split: if_splits option.splits)

end
