(* ===== verification/EvalRules.thy ===== *)
theory EvalRules
  imports PyVal
begin

text \<open>
  Code equations that let the kernel evaluate the model on concrete documents: comparisons with numerals
  in binary, character tests on the bits of a character, a sequence that evaluates its first part first,
  and the size of a JSON text without building the text.  They only change how terms are evaluated.
\<close>

section \<open>Numerals and characters\<close>

lemma pos_nat: "Int.Pos k = int (nat_of_num k)"
  by (simp add: nat_of_num_numeral)

lemma nat_bound_code [code_unfold]:
  "(nat_of_num k < n) = (Int.Pos k < int n)" "(nat_of_num k \<le> n) = (Int.Pos k \<le> int n)"
  "(n < nat_of_num k) = (int n < Int.Pos k)" "(n \<le> nat_of_num k) = (int n \<le> Int.Pos k)"
  "(n = nat_of_num k) = (int n = Int.Pos k)" "(nat_of_num k = n) = (Int.Pos k = int n)"
  unfolding pos_nat by simp_all

lemma cp_code [code_unfold]: "int (of_char c) = of_char c"
  by (cases c) (simp add: of_char_def)

lemma lower_char_code [code]:
  "lower_char (Char b0 b1 b2 b3 b4 b5 b6 b7) =
     (if b6 \<and> \<not> b5 \<and>
         (if b7 then \<not> (b0 \<and> b1 \<and> b2 \<and> b4)
          else (b0 \<or> b1 \<or> b2 \<or> b3 \<or> b4) \<and> \<not> (b4 \<and> b3 \<and> (b2 \<or> b1 \<and> b0)))
      then Char b0 b1 b2 b3 b4 True b6 b7 else Char b0 b1 b2 b3 b4 b5 b6 b7)"
  by (cases b0; cases b1; cases b2; cases b3; cases b4; cases b5; cases b6; cases b7)
    (simp_all add: lower_char_def ascii_upper_def char_of_def bit_0)

lemma json_escape_char_code [code]:
  "json_escape_char (Char b0 b1 b2 b3 b4 b5 b6 b7) =
     (let c = Char b0 b1 b2 b3 b4 b5 b6 b7 in
      if b5 \<or> b6 \<or> b7
      then (if c = CHR 0x22 \<or> c = CHR 0x5C then [CHR 0x5C, c] else [c])
      else if cp c = 10 then [CHR 0x5C, CHR ''n'']
      else if cp c = 13 then [CHR 0x5C, CHR ''r'']
      else if cp c = 9 then [CHR 0x5C, CHR ''t'']
      else if cp c = 12 then [CHR 0x5C, CHR ''f'']
      else if cp c = 8 then [CHR 0x5C, CHR ''b'']
      else [CHR 0x5C, CHR ''u'', CHR ''0'', CHR ''0'',
         hex_digit (cp c div 16), hex_digit (cp c mod 16)])"
  by (cases b0; cases b1; cases b2; cases b3; cases b4; cases b5; cases b6; cases b7)
    (simp_all add: json_escape_char_def Let_def)

lemma utf8_len_code [code]:
  "utf8_len s = sum_list (map (\<lambda>c. if digit7 c then 2 else 1) s)"
proof -
  have "(if cp c < 128 then 1 else 2) = (if digit7 c then 2 else (1 :: nat))" for c
    by (cases c) simp
  then show ?thesis by (simp add: utf8_len_def)
qed
lemma bindR_code [code_unfold]: "bindR m f = (case m of Inl e \<Rightarrow> Inl e | Inr x \<Rightarrow> f x)"
  by (cases m) auto

text \<open>The decimal digits of a number, computed on binary integers.\<close>

function int_digits :: "int \<Rightarrow> string" where
  "int_digits i = (if i < 10 then [digit_char (nat i)] else int_digits (i div 10) @ [digit_char (nat (i mod 10))])"
  by pat_completeness auto
termination
  by (relation "measure nat") auto

declare int_digits.simps [simp del]

lemma int_digits_nat: "int_digits (int n) = nat_str n"
proof (induction n rule: nat_str.induct)
  case (1 n)
  have "int n div 10 = int (n div 10)" "int n mod 10 = int (n mod 10)"
    by (simp_all add: zdiv_int zmod_int)
  then show ?case
    using 1 by (subst int_digits.simps, subst nat_str.simps) auto
qed

lemma int_str_code [code]: "int_str i = (if i < 0 then CHR ''-'' # int_digits (- i) else int_digits i)"
  by (simp add: int_str_def flip: int_digits_nat)

section \<open>The size of a JSON text\<close>

text \<open>The bytes of the text of a value; of the elements of a collection, each with a separator.\<close>

fun json_len :: "(rat \<Rightarrow> string) \<Rightarrow> pyval \<Rightarrow> int option"
  and items_len :: "(rat \<Rightarrow> string) \<Rightarrow> pyval list \<Rightarrow> int option"
  and members_len :: "(rat \<Rightarrow> string) \<Rightarrow> (pyval \<times> pyval) list \<Rightarrow> int option" where
  "json_len fr PNone = Some 4"
| "json_len fr (PBool b) = Some (if b then 4 else 5)"
| "json_len fr (PInt i) = Some (int (utf8_len (int_str i)))"
| "json_len fr (PFloat f) = map_option (\<lambda>w. int (utf8_len w)) (json_float fr f)"
| "json_len fr (PStr s) = Some (int (utf8_len (json_string s)))"
| "json_len fr (PBytes _) = None"
| "json_len fr (PList vs) = map_option (\<lambda>n. if vs = [] then 2 else n + 1) (items_len fr vs)"
| "json_len fr (PTuple vs) = map_option (\<lambda>n. if vs = [] then 2 else n + 1) (items_len fr vs)"
| "json_len fr (PMap m) = map_option (\<lambda>n. if m = [] then 2 else n + 1) (members_len fr m)"
| "json_len fr (PObj _ _) = None"
| "items_len fr [] = Some 0"
| "items_len fr (v # vs) =
     (case json_len fr v of None \<Rightarrow> None
      | Some n \<Rightarrow> map_option (\<lambda>k. n + 1 + k) (items_len fr vs))"
| "members_len fr [] = Some 0"
| "members_len fr ((k, v) # m) =
     (case json_key fr k of None \<Rightarrow> None
      | Some ks \<Rightarrow>
        (case json_len fr v of None \<Rightarrow> None
         | Some n \<Rightarrow> map_option (\<lambda>l. int (utf8_len (json_string ks)) + 2 + n + l) (members_len fr m)))"

lemma utf8_len_append [simp]: "utf8_len (a @ b) = utf8_len a + utf8_len b"
  by (simp add: utf8_len_def)

lemma utf8_len_ascii [simp]: "cp c < 128 \<Longrightarrow> utf8_len (c # s) = Suc (utf8_len s)" "utf8_len [] = 0"
  by (simp_all add: utf8_len_def)

definition sep_len :: "string list \<Rightarrow> int" where
  "sep_len ws = sum_list (map (\<lambda>w. int (utf8_len w) + 1) ws)"

lemma sep_len_simps [simp]: "sep_len [] = 0" "sep_len (w # ws) = int (utf8_len w) + 1 + sep_len ws"
  by (simp_all add: sep_len_def)

lemma join_len: "ws \<noteq> [] \<Longrightarrow> int (utf8_len (join_with '','' ws)) + 1 = sep_len ws"
  by (induction "'',''" ws rule: join_with.induct) auto

lemma json_items_Nil: "json_items fr vs = Some ws \<Longrightarrow> ws = [] \<longleftrightarrow> vs = []"
  by (cases vs) (auto split: option.splits)

lemma json_members_Nil: "json_members fr m = Some ws \<Longrightarrow> ws = [] \<longleftrightarrow> m = []"
  by (cases m rule: list.exhaust) (auto split: option.splits prod.splits)

lemma json_len_dumps:
  "json_len fr v = map_option (\<lambda>w. int (utf8_len w)) (json_dumps fr v)"
  "items_len fr vs = map_option sep_len (json_items fr vs)"
  "members_len fr m = map_option sep_len (json_members fr m)"
proof (induction fr v and fr vs and fr m rule: json_dumps_json_items_json_members.induct)
  case (7 fr vs)
  then show ?case using json_items_Nil [of fr vs] join_len
    by (cases "json_items fr vs") (force simp: add.assoc)+
next
  case (8 fr vs)
  then show ?case using json_items_Nil [of fr vs] join_len
    by (cases "json_items fr vs") (force simp: add.assoc)+
next
  case (9 fr m)
  then show ?case using json_members_Nil [of fr m] join_len
    by (cases "json_members fr m") (force simp: add.assoc)+
qed (auto split: option.splits simp: option.map_comp comp_def intro!: option.map_cong)

end
