(* ===== verification/DeclValues.thy ===== *)
theory DeclValues
  imports PyNet EvalRules
begin

text \<open>
  The guards on values that every declaration passes (\<open>declarative/models.py\<close>, up to
  \<open>_assert_scalar\<close>): identifiers, JSON pointers, the bounded copies of JSON values, the policy
  against expressions and references, and host names.  \<open>spec_error\<close> raises \<open>SpecValidationError\<close>.
\<close>

record py_env =
  env_idna :: "string \<Rightarrow> string option"
  env_float :: "rat \<Rightarrow> string"

definition spec_error :: "string \<Rightarrow> exc" where
  "spec_error msg = Exc SpecValidationError msg"

definition type_error :: exc where
  "type_error = Exc TypeError ''expected string''"

text \<open>A guard that returned did not raise.\<close>

lemma if_raise_Inr [simp]:
  "(if c then Inl e else m) = Inr y \<longleftrightarrow> \<not> c \<and> m = Inr y"
  "(if c then m else Inl e) = Inr y \<longleftrightarrow> c \<and> m = Inr y"
  by simp_all

definition ALLOWED_AUTH_SCHEMES :: "string list" where
  "ALLOWED_AUTH_SCHEMES = [''api_key'', ''basic'', ''oauth2_client_credentials'']"
definition ALLOWED_METHODS :: "string list" where
  "ALLOWED_METHODS = [''GET'', ''POST'', ''PUT'', ''PATCH'', ''DELETE'']"
definition ALLOWED_OPERATION_KINDS :: "string list" where
  "ALLOWED_OPERATION_KINDS = [''read'', ''write'']"
definition ALLOWED_MAPPING_LOCATIONS :: "string list" where
  "ALLOWED_MAPPING_LOCATIONS = [''path'', ''query'', ''body'', ''header'']"

definition MAX_DOCUMENT_BYTES :: nat where "MAX_DOCUMENT_BYTES = 256 * 1024"
definition MAX_DOCUMENT_DEPTH :: nat where "MAX_DOCUMENT_DEPTH = 24"
definition MAX_PERSISTED_COLLECTION_ITEMS :: nat where "MAX_PERSISTED_COLLECTION_ITEMS = 2000"
definition MAX_OPERATION_COUNT :: nat where "MAX_OPERATION_COUNT = 64"
definition MAX_MAPPING_DEPTH :: nat where "MAX_MAPPING_DEPTH = 8"
definition MAX_INPUT_MAPPINGS :: nat where "MAX_INPUT_MAPPINGS = 64"
definition MAX_OUTPUT_MAPPINGS :: nat where "MAX_OUTPUT_MAPPINGS = 32"
definition MAX_POINTER_LENGTH :: nat where "MAX_POINTER_LENGTH = 512"
definition MAX_REQUEST_BODY_BYTES :: nat where "MAX_REQUEST_BODY_BYTES = 64 * 1024"
definition MAX_OUTPUT_BYTES :: nat where "MAX_OUTPUT_BYTES = 64 * 1024"
definition MAX_OUTPUT_ITEMS :: nat where "MAX_OUTPUT_ITEMS = 1000"
definition MAX_OUTPUT_DEPTH :: nat where "MAX_OUTPUT_DEPTH = 8"
definition MAX_PAGE_COUNT :: int where "MAX_PAGE_COUNT = 10"
definition MAX_PAGE_LIMIT :: int where "MAX_PAGE_LIMIT = 1000"
definition OPERATION_TIMEOUT_MS :: int where "OPERATION_TIMEOUT_MS = 30000"
definition MAX_TOOL_STEPS :: nat where "MAX_TOOL_STEPS = 16"
definition MAX_TOOL_TIMEOUT_MS :: int where "MAX_TOOL_TIMEOUT_MS = 60000"

lemma limits_code [code_unfold]:
  "(MAX_DOCUMENT_BYTES < n) = ((262144 :: int) < int n)"
  "(MAX_PERSISTED_COLLECTION_ITEMS < n) = ((2000 :: int) < int n)"
  "(n \<le> MAX_PERSISTED_COLLECTION_ITEMS) = (int n \<le> (2000 :: int))"
  "(MAX_REQUEST_BODY_BYTES < n) = ((65536 :: int) < int n)"
  "(MAX_OUTPUT_BYTES < n) = ((65536 :: int) < int n)"
  "(MAX_OUTPUT_ITEMS < n) = ((1000 :: int) < int n)"
  "(MAX_POINTER_LENGTH < n) = ((512 :: int) < int n)"
  by (simp_all add: MAX_DOCUMENT_BYTES_def MAX_PERSISTED_COLLECTION_ITEMS_def MAX_REQUEST_BODY_BYTES_def
    MAX_OUTPUT_BYTES_def MAX_OUTPUT_ITEMS_def MAX_POINTER_LENGTH_def)

section \<open>Patterns\<close>

text \<open>\<open>_IDENTIFIER_RE\<close> and \<open>_VALUE_FIELD_RE\<close> are \<open>ident_re\<close>.\<close>

definition scope_identifier_re :: "string \<Rightarrow> bool" where
  "scope_identifier_re = first_rest ascii_alnum ident_rest 127"

definition step_identifier_re :: "string \<Rightarrow> bool" where
  "step_identifier_re = first_rest ascii_alpha step_rest 63"

definition header_re :: "string \<Rightarrow> bool" where
  "header_re s \<longleftrightarrow> s \<noteq> [] \<and> length s \<le> 64 \<and> list_all (\<lambda>c. ascii_alnum c \<or> c = CHR ''-'') s"

definition body_target_re :: "string \<Rightarrow> bool" where
  "body_target_re = step_identifier_re"

definition PROTECTED_DYNAMIC_HEADERS :: "string list" where
  "PROTECTED_DYNAMIC_HEADERS = [''authorization'', ''cookie'', ''host'', ''content-length'',
     ''transfer-encoding'', ''connection'', ''proxy-authorization'', ''proxy-connection'',
     ''content-type'', ''forwarded'', ''x-forwarded-for'', ''x-forwarded-host'',
     ''x-forwarded-proto'', ''x-real-ip'']"

definition EXPRESSION_MARKERS :: "string list" where
  "EXPRESSION_MARKERS = [''${'', ''{{'', ''}}'', ''{%'', ''%}'', ''<script'', ''javascript:'',
     ''__import__'', ''eval('', ''exec('']"

definition VALUE_REFERENCE_MARKERS :: "string list" where
  "VALUE_REFERENCE_MARKERS = [''$input.'', ''$steps.'']"

section \<open>Identifiers and pointers\<close>

text \<open>The recurring tests: a string with a property, a string of a literal set, a boolean.\<close>

definition string_such :: "exc \<Rightarrow> (string \<Rightarrow> bool) \<Rightarrow> pyval \<Rightarrow> string result" where
  "string_such e p v = (case v of PStr s \<Rightarrow> (if p s then Inr s else Inl e) | _ \<Rightarrow> Inl e)"

definition string_among :: "exc \<Rightarrow> string list \<Rightarrow> pyval \<Rightarrow> string result" where
  "string_among e names v =
     (if \<not> hashable v then Inl (Exc TypeError ''unhashable type'')
      else string_such e (\<lambda>s. s \<in> set names) v)"

definition bool_or :: "exc \<Rightarrow> pyval \<Rightarrow> bool result" where
  "bool_or e v = (case v of PBool b \<Rightarrow> Inr b | _ \<Rightarrow> Inl e)"

lemma string_such_Inr [simp]: "string_such e p v = Inr s \<longleftrightarrow> v = PStr s \<and> p s"
  by (auto simp: string_such_def split: pyval.splits)

lemma string_among_Inr [simp]: "string_among e names v = Inr s \<longleftrightarrow> v = PStr s \<and> s \<in> set names"
  by (auto simp: string_among_def)

lemma bool_or_Inr [simp]: "bool_or e v = Inr b \<longleftrightarrow> v = PBool b"
  by (auto simp: bool_or_def split: pyval.splits)

definition ident_of :: "string \<Rightarrow> pyval \<Rightarrow> string result" where
  "ident_of label = string_such (spec_error (''invalid '' @ label)) ident_re"

definition decl_scope_identifier :: "string \<Rightarrow> pyval \<Rightarrow> string result" where
  "decl_scope_identifier label = string_such (spec_error (''invalid '' @ label)) scope_identifier_re"

lemma ident_of_Inr [simp]: "ident_of label v = Inr s \<longleftrightarrow> v = PStr s \<and> ident_re s"
  by (simp add: ident_of_def)

lemma decl_scope_identifier_Inr [simp]:
  "decl_scope_identifier label v = Inr s \<longleftrightarrow> v = PStr s \<and> scope_identifier_re s"
  by (simp add: decl_scope_identifier_def)

text \<open>A pattern applied to a value that is no string raises \<open>TypeError\<close>.\<close>

definition matches :: "(string \<Rightarrow> bool) \<Rightarrow> pyval \<Rightarrow> bool result" where
  "matches p v = (case v of PStr s \<Rightarrow> Inr (p s) | _ \<Rightarrow> Inl type_error)"

lemma matches_Inr [simp]: "matches p v = Inr b \<longleftrightarrow> (\<exists>s. v = PStr s \<and> b = p s)"
  by (auto simp: matches_def split: pyval.splits)

definition unescape_token :: "string \<Rightarrow> string" where
  "unescape_token t = py_replace ''~0'' ''~'' (py_replace ''~1'' ''/'' t)"

definition pointer_tokens :: "pyval \<Rightarrow> string list result" where
  "pointer_tokens pointer =
     (case pointer of
        PStr (c # cs) \<Rightarrow>
          (if length (c # cs) > MAX_POINTER_LENGTH \<or> c \<noteq> CHR ''/'' then Inl (spec_error ''invalid output pointer'')
           else let tokens = map unescape_token (split_on CHR ''/'' cs) in
             if length tokens > MAX_MAPPING_DEPTH \<or> list_ex (\<lambda>t. t = []) tokens
             then Inl (spec_error ''invalid output pointer'') else Inr tokens)
      | _ \<Rightarrow> Inl (spec_error ''invalid output pointer''))"

section \<open>The declaration policy\<close>

text \<open>
  \<open>assert_safe_declaration_value\<close>: \<open>n\<close> is the shared counter of visited values (a dictionary key
  is one of them), the result the counter afterwards.
\<close>

definition expression_in :: "string \<Rightarrow> bool" where
  "expression_in s \<longleftrightarrow> list_ex (\<lambda>m. contains m (py_lower s)) EXPRESSION_MARKERS"

text \<open>Every marker holds one of six characters, which most strings do not.\<close>

definition marker_char :: "char \<Rightarrow> bool" where
  "marker_char c \<longleftrightarrow> c \<in> set ''{}<:_(''"

lemma expression_in_code [code]:
  "expression_in s \<longleftrightarrow> list_ex marker_char (py_lower s) \<and>
     list_ex (\<lambda>m. contains m (py_lower s)) EXPRESSION_MARKERS"
proof -
  have "list_all (list_ex marker_char) EXPRESSION_MARKERS" by code_simp
  then have "\<exists>c\<in>set m. marker_char c" if "m \<in> set EXPRESSION_MARKERS" for m
    using that unfolding list_all_iff list_ex_iff by blast
  then show ?thesis
    unfolding expression_in_def list_ex_iff contains_iff using set_mono_sublist by blast
qed

definition safe_string :: "string \<Rightarrow> unit result" where
  "safe_string s =
     (if utf8_len s > 16384 then Inl (spec_error ''specification string exceeds limit'')
      else if expression_in s then Inl (spec_error ''expressions are not supported'') else Inr ())"

definition safe_count :: "nat \<Rightarrow> nat \<Rightarrow> unit result" where
  "safe_count depth n =
     (if n > 20000 \<or> depth > MAX_DOCUMENT_DEPTH
      then Inl (spec_error ''specification mapping exceeds limit'') else Inr ())"

fun safe_value_from :: "nat \<Rightarrow> nat \<Rightarrow> pyval \<Rightarrow> nat result"
  and safe_items_from :: "nat \<Rightarrow> nat \<Rightarrow> pyval list \<Rightarrow> nat result"
  and safe_members_from :: "nat \<Rightarrow> nat \<Rightarrow> (pyval \<times> pyval) list \<Rightarrow> nat result" where
  "safe_value_from depth n PNone = bindR (safe_count depth (Suc n)) (\<lambda>_. Inr (Suc n))"
| "safe_value_from depth n (PBool b) = bindR (safe_count depth (Suc n)) (\<lambda>_. Inr (Suc n))"
| "safe_value_from depth n (PInt i) = bindR (safe_count depth (Suc n)) (\<lambda>_. Inr (Suc n))"
| "safe_value_from depth n (PFloat f) =
     bindR (safe_count depth (Suc n)) (\<lambda>_.
     if float_finite f then Inr (Suc n) else Inl (spec_error ''specification contains unsupported values''))"
| "safe_value_from depth n (PStr s) =
     bindR (safe_count depth (Suc n)) (\<lambda>_. bindR (safe_string s) (\<lambda>_. Inr (Suc n)))"
| "safe_value_from depth n (PMap m) =
     bindR (safe_count depth (Suc n)) (\<lambda>_.
     if length m > MAX_PERSISTED_COLLECTION_ITEMS then Inl (spec_error ''specification mapping exceeds limit'')
     else safe_members_from (Suc depth) (Suc n) m)"
| "safe_value_from depth n (PList vs) =
     bindR (safe_count depth (Suc n)) (\<lambda>_.
     if length vs > MAX_PERSISTED_COLLECTION_ITEMS then Inl (spec_error ''specification list exceeds limit'')
     else safe_items_from (Suc depth) (Suc n) vs)"
| "safe_value_from depth n (PTuple vs) =
     bindR (safe_count depth (Suc n)) (\<lambda>_.
     if length vs > MAX_PERSISTED_COLLECTION_ITEMS then Inl (spec_error ''specification list exceeds limit'')
     else safe_items_from (Suc depth) (Suc n) vs)"
| "safe_value_from depth n (PBytes _) =
     bindR (safe_count depth (Suc n)) (\<lambda>_. Inl (spec_error ''specification contains unsupported values''))"
| "safe_value_from depth n (PObj _ _) =
     bindR (safe_count depth (Suc n)) (\<lambda>_. Inl (spec_error ''specification contains unsupported values''))"
| "safe_items_from depth n [] = Inr n"
| "safe_items_from depth n (v # vs) =
     bindR (safe_value_from depth n v) (\<lambda>n'. safe_items_from depth n' vs)"
| "safe_members_from depth n [] = Inr n"
| "safe_members_from depth n ((k, v) # m) =
     (case k of
        PStr s \<Rightarrow>
          (if s = ''$ref'' then Inl (spec_error ''references are not supported'')
           else bindR (safe_count depth (Suc n)) (\<lambda>_.
                bindR (safe_string s) (\<lambda>_.
                bindR (safe_value_from depth (Suc n) v) (\<lambda>n'. safe_members_from depth n' m))))
      | _ \<Rightarrow> Inl (spec_error ''specification keys must be strings''))"

definition assert_safe_declaration_value :: "pyval \<Rightarrow> unit result" where
  "assert_safe_declaration_value v = bindR (safe_value_from 0 0 v) (\<lambda>_. Inr ())"

text \<open>\<open>_assert_safe_non_reference_value\<close> applies the policy again at every nested value.\<close>

definition reference_in :: "string \<Rightarrow> bool" where
  "reference_in s \<longleftrightarrow> list_ex (\<lambda>m. contains m s) VALUE_REFERENCE_MARKERS"

definition no_reference :: "string \<Rightarrow> unit result" where
  "no_reference s =
     (if reference_in s then Inl (spec_error ''value references are not supported in this position'')
      else Inr ())"

function non_reference :: "pyval \<Rightarrow> unit result"
  and non_reference_items :: "pyval list \<Rightarrow> unit result"
  and non_reference_members :: "(pyval \<times> pyval) list \<Rightarrow> unit result" where
  "non_reference (PStr s) = bindR (assert_safe_declaration_value (PStr s)) (\<lambda>_. no_reference s)"
| "non_reference (PMap m) = bindR (assert_safe_declaration_value (PMap m)) (\<lambda>_. non_reference_members m)"
| "non_reference (PList vs) = bindR (assert_safe_declaration_value (PList vs)) (\<lambda>_. non_reference_items vs)"
| "non_reference (PTuple vs) = bindR (assert_safe_declaration_value (PTuple vs)) (\<lambda>_. non_reference_items vs)"
| "non_reference PNone = assert_safe_declaration_value PNone"
| "non_reference (PBool b) = assert_safe_declaration_value (PBool b)"
| "non_reference (PInt i) = assert_safe_declaration_value (PInt i)"
| "non_reference (PFloat f) = assert_safe_declaration_value (PFloat f)"
| "non_reference (PBytes b) = assert_safe_declaration_value (PBytes b)"
| "non_reference (PObj c a) = assert_safe_declaration_value (PObj c a)"
| "non_reference_items [] = Inr ()"
| "non_reference_items (v # vs) = bindR (non_reference v) (\<lambda>_. non_reference_items vs)"
| "non_reference_members [] = Inr ()"
| "non_reference_members ((k, v) # m) =
     bindR (non_reference k) (\<lambda>_. bindR (non_reference v) (\<lambda>_. non_reference_members m))"
  by pat_completeness auto
termination
  by (relation "measure (case_sum size (case_sum (size_list size) (size_list (size_prod size size))))") auto

section \<open>Copies of JSON values\<close>

fun freeze_json_value :: "pyval \<Rightarrow> pyval" where
  "freeze_json_value (PMap m) = PMap (map (\<lambda>(k, v). (k, freeze_json_value v)) m)"
| "freeze_json_value (PList vs) = PTuple (map freeze_json_value vs)"
| "freeze_json_value (PTuple vs) = PTuple (map freeze_json_value vs)"
| "freeze_json_value v = v"

definition frozen_mapping :: "pyval \<Rightarrow> (pyval \<times> pyval) list result" where
  "frozen_mapping v =
     (case v of
        PNone \<Rightarrow> Inr []
      | PMap m \<Rightarrow>
          bindR (assert_safe_declaration_value v) (\<lambda>_.
          Inr (map (\<lambda>(k, v). (k, freeze_json_value v)) m))
      | _ \<Rightarrow> Inl (spec_error ''mapping must be an object''))"

fun bounded_json :: "nat \<Rightarrow> pyval \<Rightarrow> unit result" where
  "bounded_json depth v =
     (if depth > MAX_DOCUMENT_DEPTH then Inl (spec_error ''persisted declaration exceeds nesting limit'')
      else case v of
        PNone \<Rightarrow> Inr ()
      | PStr _ \<Rightarrow> Inr ()
      | PBool _ \<Rightarrow> Inr ()
      | PInt _ \<Rightarrow> Inr ()
      | PFloat f \<Rightarrow> (if float_finite f then Inr () else Inl (spec_error ''persisted declaration is not JSON''))
      | PList vs \<Rightarrow>
          (if length vs > MAX_PERSISTED_COLLECTION_ITEMS
           then Inl (spec_error ''persisted declaration exceeds limits'')
           else forR (bounded_json (Suc depth)) vs)
      | PMap m \<Rightarrow>
          (if length m > MAX_PERSISTED_COLLECTION_ITEMS
           then Inl (spec_error ''persisted declaration exceeds limits'')
           else forR (\<lambda>(k, v).
                  case k of
                    PStr s \<Rightarrow> (if length s > 128 then Inl (spec_error ''persisted declaration is not JSON'')
                               else bounded_json (Suc depth) v)
                  | _ \<Rightarrow> Inl (spec_error ''persisted declaration is not JSON'')) m)
      | _ \<Rightarrow> Inl (spec_error ''persisted declaration is not JSON''))"

declare bounded_json.simps [simp del]

fun plain_convert :: "pyval \<Rightarrow> pyval" where
  "plain_convert (PMap m) = PMap (map (\<lambda>(k, v). (k, plain_convert v)) m)"
| "plain_convert (PList vs) = PList (map plain_convert vs)"
| "plain_convert (PTuple vs) = PList (map plain_convert vs)"
| "plain_convert v = v"

definition plain_json_value :: "pyval \<Rightarrow> pyval result" where
  "plain_json_value v =
     bindR (assert_safe_declaration_value v) (\<lambda>_.
     let plain = plain_convert v in bindR (bounded_json 0 plain) (\<lambda>_. Inr plain))"

text \<open>\<open>len(json.dumps(v, ..).encode("utf-8"))\<close>.\<close>

definition json_size :: "(rat \<Rightarrow> string) \<Rightarrow> pyval \<Rightarrow> nat result" where
  "json_size fr v =
     (case json_dumps fr v of
        None \<Rightarrow> Inl (spec_error ''request body must be JSON'')
      | Some text \<Rightarrow> Inr (utf8_len text))"

lemma json_size_code [code]:
  "json_size fr v =
     (case json_len fr v of
        None \<Rightarrow> Inl (spec_error ''request body must be JSON'')
      | Some n \<Rightarrow> Inr (nat n))"
  by (simp add: json_size_def json_len_dumps split: option.splits)

definition stored_invalid :: exc where
  "stored_invalid = spec_error ''invalid persisted declarative revision''"

text \<open>A persisted object with exactly the required keys.\<close>

definition stored_object :: "string list \<Rightarrow> pyval \<Rightarrow> (pyval \<times> pyval) list result" where
  "stored_object required v =
     (case v of
        PMap m \<Rightarrow> (if set (map fst m) = PStr ` set required then Inr m else Inl stored_invalid)
      | _ \<Rightarrow> Inl stored_invalid)"

section \<open>Host names and base URLs\<close>

definition host_label_ok :: "string \<Rightarrow> bool" where
  "host_label_ok label \<longleftrightarrow>
     label \<noteq> [] \<and> length label \<le> 63 \<and> hd label \<noteq> CHR ''-'' \<and> last label \<noteq> CHR ''-'' \<and>
     list_all (\<lambda>c. py_isalnum c \<or> c = CHR ''-'') label"

definition forbidden_host_char :: "char \<Rightarrow> bool" where
  "forbidden_host_char c \<longleftrightarrow>
     py_isspace c \<or> c \<in> {CHR ''/'', CHR '':'', CHR ''@'', CHR ''?'', CHR ''#'', CHR 0x5C}"

text \<open>The checks on the encoded name.\<close>

definition normal_host_ok :: "string \<Rightarrow> unit result" where
  "normal_host_ok h =
     (if h = [] \<or> length h > 253 then Inl (spec_error ''invalid declarative hostname'')
      else if ip_address h \<noteq> None then Inl (spec_error ''declarative IP literals are not supported'')
      else if h = ''localhost'' \<or> ends_with ''.localhost'' h \<or> \<not> list_all host_label_ok (split_on CHR ''.'' h)
      then Inl (spec_error ''invalid declarative hostname'')
      else Inr ())"

definition normalize_declaration_host :: "py_env \<Rightarrow> pyval \<Rightarrow> string result" where
  "normalize_declaration_host env v =
     (case v of
        PStr host \<Rightarrow>
          (if host = [] \<or> length host > 253 then Inl (spec_error ''invalid declarative hostname'')
           else if CHR ''*'' \<in> set host then Inl (spec_error ''wildcard declarative hosts are not supported'')
           else if list_ex forbidden_host_char host
           then Inl (spec_error ''invalid declarative hostname'')
           else case idna_encode (env_idna env) host of
             None \<Rightarrow> Inl (spec_error ''invalid declarative hostname'')
           | Some ascii \<Rightarrow>
               (let normalized = rstrip_char CHR ''.'' (py_lower ascii) in
                bindR (normal_host_ok normalized) (\<lambda>_. Inr normalized)))
      | _ \<Rightarrow> Inl (spec_error ''invalid declarative hostname''))"

definition unsafe_path :: "string \<Rightarrow> bool" where
  "unsafe_path path \<longleftrightarrow>
     contains ''//'' path \<or> contains ''/../'' path \<or> ends_with ''/..'' path \<or> contains ''/./'' path
     \<or> ends_with ''/.'' path \<or> CHR ''%'' \<in> set path"

definition declaration_base_host :: "py_env \<Rightarrow> pyval \<Rightarrow> string result" where
  "declaration_base_host env v =
     (let bad = Inl (spec_error ''invalid revision base URL'') in
      case v of
        PStr url \<Rightarrow>
          (if url = [] \<or> length url > 512 \<or> list_ex (\<lambda>c. py_isspace c \<or> c = CHR 0x5C) url then bad
           else case urlsplit url of
             None \<Rightarrow> bad
           | Some parts \<Rightarrow>
               (case (url_port parts, url_hostname parts) of
                  (Inr port, Some hostname) \<Rightarrow>
                    (if u_scheme parts \<noteq> ''https'' \<or> url_userinfo parts \<noteq> (None, None)
                        \<or> u_query parts \<noteq> [] \<or> u_fragment parts \<noteq> [] \<or> port \<notin> {None, Some 443}
                        \<or> unsafe_path (rstrip_char CHR ''/'' (u_path parts))
                     then bad
                     else normalize_declaration_host env (PStr hostname))
                | _ \<Rightarrow> bad))
      | _ \<Rightarrow> bad)"

definition assert_scalar :: "pyval \<Rightarrow> unit result" where
  "assert_scalar v =
     (case v of
        PBool _ \<Rightarrow> Inr () | PNone \<Rightarrow> Inr () | PStr _ \<Rightarrow> Inr () | PInt _ \<Rightarrow> Inr ()
      | PFloat f \<Rightarrow> (if float_finite f then Inr () else Inl (spec_error ''input must be finite JSON''))
      | _ \<Rightarrow> Inl (spec_error ''mapped path, query, and header inputs must be scalar''))"

end
