(* ===== verification/DeclTypes.thy ===== *)
theory DeclTypes
  imports DeclValues
begin

text \<open>
  The immutable parts of a declaration and their constructors (\<open>declarative/models.py\<close>,
  \<open>InputMapping\<close> to \<open>SyncSpec\<close>).  A record holds what its constructor establishes: a field it checks
  to be a string is a \<open>string\<close>, a field it leaves unchecked stays a Python value.  The constructor
  \<open>make_x\<close> takes the raw values and is \<open>__post_init__\<close>.
\<close>

section \<open>Optional bounded integers\<close>

text \<open>\<open>isinstance(v, int)\<close>, not a \<open>bool\<close>, within bounds.\<close>

definition int_between :: "int \<Rightarrow> int \<Rightarrow> pyval \<Rightarrow> int option" where
  "int_between lo hi v = (case v of PInt i \<Rightarrow> (if lo \<le> i \<and> i \<le> hi then Some i else None) | _ \<Rightarrow> None)"

definition required_int :: "string \<Rightarrow> int \<Rightarrow> int \<Rightarrow> pyval \<Rightarrow> int result" where
  "required_int msg lo hi v = (case int_between lo hi v of Some i \<Rightarrow> Inr i | None \<Rightarrow> Inl (spec_error msg))"

definition optional_int :: "string \<Rightarrow> int \<Rightarrow> int \<Rightarrow> pyval \<Rightarrow> int option result" where
  "optional_int msg lo hi v =
     (if v = PNone then Inr None else bindR (required_int msg lo hi v) (\<lambda>i. Inr (Some i)))"

definition opt_int :: "int option \<Rightarrow> pyval" where
  "opt_int v = (case v of None \<Rightarrow> PNone | Some i \<Rightarrow> PInt i)"

lemma opt_int_eq [simp]: "opt_int a = opt_int b \<longleftrightarrow> a = b"
  by (auto simp: opt_int_def split: option.splits)

lemma int_between_Some [simp]: "int_between lo hi v = Some i \<longleftrightarrow> v = PInt i \<and> lo \<le> i \<and> i \<le> hi"
  by (auto simp: int_between_def split: pyval.splits)

lemma required_int_Inr [simp]: "required_int msg lo hi v = Inr i \<longleftrightarrow> v = PInt i \<and> lo \<le> i \<and> i \<le> hi"
  by (auto simp: required_int_def int_between_def simp del: int_between_Some split: pyval.splits)

lemma optional_int_Inr [simp]:
  "optional_int msg lo hi v = Inr t \<longleftrightarrow> v = opt_int t \<and> (\<forall>i. t = Some i \<longrightarrow> lo \<le> i \<and> i \<le> hi)"
  by (cases t) (auto simp: optional_int_def opt_int_def)

section \<open>InputMapping and OutputMapping\<close>

record input_mapping =
  im_arg_name :: string
  im_location :: string
  im_target :: string
  im_required :: bool
  im_schema :: "(pyval \<times> pyval) list"

definition target_ok :: "string \<Rightarrow> string \<Rightarrow> unit result" where
  "target_ok location target =
     (if target = [] \<or> length target > 128 then Inl (spec_error ''invalid input mapping target'')
      else if location = ''header'' \<and> \<not> header_re target then Inl (spec_error ''invalid mapped header'')
      else if location = ''header'' \<and> py_lower target \<in> set PROTECTED_DYNAMIC_HEADERS
      then Inl (spec_error ''protected headers must use typed authentication'')
      else if location = ''body'' \<and> \<not> body_target_re target then Inl (spec_error ''invalid body mapping target'')
      else if location \<in> {''path'', ''query''} \<and> \<not> ident_re target
      then Inl (spec_error ''invalid input mapping target'')
      else Inr ())"

definition make_input_mapping :: "pyval \<Rightarrow> pyval \<Rightarrow> pyval \<Rightarrow> pyval \<Rightarrow> pyval \<Rightarrow> input_mapping result" where
  "make_input_mapping arg_name location target required schema =
     bindR (ident_of ''input name'' arg_name) (\<lambda>name.
     bindR (string_among (spec_error ''unsupported input mapping location'') ALLOWED_MAPPING_LOCATIONS location) (\<lambda>loc.
     bindR (string_such (spec_error ''invalid input mapping target'') (\<lambda>_. True) target) (\<lambda>tgt.
     bindR (target_ok loc tgt) (\<lambda>_.
     bindR (bool_or (spec_error ''input required must be a bool'') required) (\<lambda>req.
     bindR (frozen_mapping schema) (\<lambda>frozen.
     bindR (assert_safe_declaration_value (PMap frozen)) (\<lambda>_.
     Inr \<lparr>im_arg_name = name, im_location = loc, im_target = tgt, im_required = req,
          im_schema = frozen\<rparr>)))))))"

record output_mapping =
  om_name :: string
  om_pointer :: string

definition make_output_mapping :: "pyval \<Rightarrow> pyval \<Rightarrow> output_mapping result" where
  "make_output_mapping name pointer =
     bindR (ident_of ''output name'' name) (\<lambda>n.
     bindR (pointer_tokens pointer) (\<lambda>_.
     bindR (string_such (spec_error ''invalid output pointer'') (\<lambda>_. True) pointer) (\<lambda>p.
     Inr \<lparr>om_name = n, om_pointer = p\<rparr>)))"

section \<open>ValueRef\<close>

record value_ref =
  vr_source :: string
  vr_field :: string
  vr_step :: "string option"

definition make_value_ref :: "string \<Rightarrow> string \<Rightarrow> string option \<Rightarrow> value_ref result" where
  "make_value_ref source field step_id =
     (if source = ''input''
      then (if step_id \<noteq> None \<or> \<not> ident_re field then Inl (spec_error ''invalid input reference'')
            else Inr \<lparr>vr_source = source, vr_field = field, vr_step = step_id\<rparr>)
      else if source = ''steps''
      then (case step_id of
              None \<Rightarrow> Inl (spec_error ''invalid step reference'')
            | Some s \<Rightarrow>
                (if \<not> step_identifier_re s \<or> \<not> ident_re field then Inl (spec_error ''invalid step reference'')
                 else Inr \<lparr>vr_source = source, vr_field = field, vr_step = step_id\<rparr>))
      else Inl (spec_error ''unsupported value reference''))"

text \<open>
  \<open>ValueRef.parse\<close>.  The character class of a step identifier has no dot, so that the greedy match
  of \<open>_STEP_VALUE_REF_RE\<close> ends at the first dot.
\<close>

definition parse_value_ref :: "pyval \<Rightarrow> value_ref result" where
  "parse_value_ref raw =
     (case raw of
        PStr s \<Rightarrow>
          (if prefix ''$input.'' s \<and> ident_re (drop 7 s)
           then make_value_ref ''input'' (drop 7 s) None
           else case partition_at CHR ''.'' (drop 7 s) of
             (step, dot, field) \<Rightarrow>
               (if prefix ''$steps.'' s \<and> dot \<and> step_identifier_re step \<and> ident_re field
                then make_value_ref ''steps'' field (Some step)
                else Inl (spec_error ''unsupported value reference'')))
      | _ \<Rightarrow> Inl (spec_error ''value reference must be a string''))"

definition value_ref_str :: "value_ref \<Rightarrow> string" where
  "value_ref_str r =
     (if vr_source r = ''input'' then ''$input.'' @ vr_field r
      else ''$steps.'' @ (case vr_step r of None \<Rightarrow> ''None'' | Some s \<Rightarrow> s) @ ''.'' @ vr_field r)"

section \<open>Mappings of references and of names\<close>

definition value_ref_mapping ::
  "string \<Rightarrow> (pyval \<times> value_ref) list \<Rightarrow> (string \<times> value_ref) list result" where
  "value_ref_mapping label m =
     mapR (\<lambda>(name, ref). bindR (ident_of label name) (\<lambda>n. Inr (n, ref))) m"

definition string_mapping ::
  "string \<Rightarrow> string \<Rightarrow> pyval \<Rightarrow> (string \<times> string) list result" where
  "string_mapping key_label value_label v =
     (case v of
        PMap m \<Rightarrow>
          mapR (\<lambda>(name, target).
            bindR (ident_of key_label name) (\<lambda>n. bindR (ident_of value_label target) (\<lambda>t. Inr (n, t)))) m
      | _ \<Rightarrow> Inl (spec_error (key_label @ '' must be an object'')))"

section \<open>Schemas\<close>

definition SCHEMA_TYPES :: "string list" where
  "SCHEMA_TYPES = [''string'', ''integer'', ''number'', ''boolean'', ''array'', ''object'', ''null'']"

text \<open>\<open>required\<close>, a list or tuple of declared names; absent it is the empty tuple.\<close>

definition required_names_ok :: "(pyval \<times> pyval) list \<Rightarrow> (pyval \<times> pyval) list \<Rightarrow> bool" where
  "required_names_ok schema properties =
     (case mget_or schema ''required'' (PTuple []) of
        PList ns \<Rightarrow> list_all (\<lambda>n. is_str n \<and> n \<in> set (map fst properties)) ns
      | PTuple ns \<Rightarrow> list_all (\<lambda>n. is_str n \<and> n \<in> set (map fst properties)) ns
      | _ \<Rightarrow> False)"

definition field_name_ok :: "pyval \<Rightarrow> bool" where
  "field_name_ok k = (case k of PStr s \<Rightarrow> ident_re s | _ \<Rightarrow> False)"

text \<open>\<open>_validate_property_schema\<close>; the first argument is what the nesting limit leaves, \<open>9 - depth\<close>.\<close>

fun property_schema :: "nat \<Rightarrow> string \<Rightarrow> pyval \<Rightarrow> unit result" where
  "property_schema 0 label v = Inl (spec_error (''invalid '' @ label @ '' property schema''))"
| "property_schema (Suc left) label v =
     (case v of
        PMap m \<Rightarrow>
          bindR (assert_safe_declaration_value v) (\<lambda>_.
          bindR (case mget_none m ''type'' of PNone \<Rightarrow> Inr True | t \<Rightarrow> in_strings t SCHEMA_TYPES) (\<lambda>known.
          if \<not> known then Inl (spec_error (''invalid '' @ label @ '' property schema''))
          else bindR (case mget m ''items'' of None \<Rightarrow> Inr () | Some i \<Rightarrow> property_schema left label i) (\<lambda>_.
          (case mget m ''properties'' of
             None \<Rightarrow> Inr ()
           | Some (PMap ps) \<Rightarrow>
               bindR (forR (\<lambda>(name, child).
                   if \<not> field_name_ok name then Inl (spec_error (''invalid '' @ label @ '' field''))
                   else property_schema left label child) ps) (\<lambda>_.
               if required_names_ok m ps then Inr ()
               else Inl (spec_error (''invalid '' @ label @ '' required fields'')))
           | Some _ \<Rightarrow> Inl (spec_error (''invalid '' @ label @ '' property schema''))))))
      | _ \<Rightarrow> Inl (spec_error (''invalid '' @ label @ '' property schema'')))"

definition validate_property_schema :: "string \<Rightarrow> pyval \<Rightarrow> unit result" where
  "validate_property_schema label v = property_schema (Suc MAX_MAPPING_DEPTH) label v"

definition schema_fields ::
  "string \<Rightarrow> bool \<Rightarrow> (pyval \<times> pyval) list \<Rightarrow> string list result" where
  "schema_fields label non_empty schema =
     (if mget schema ''type'' \<noteq> Some (PStr ''object'') \<or> mget schema ''additionalProperties'' \<noteq> Some (PBool False)
      then Inl (spec_error (''invalid '' @ label @ '' schema''))
      else case mget schema ''properties'' of
        Some (PMap ps) \<Rightarrow>
          (if non_empty \<and> ps = [] then Inl (spec_error (''invalid '' @ label @ '' schema''))
           else bindR (mapR (\<lambda>(name, child).
               case name of
                 PStr s \<Rightarrow>
                   (if \<not> ident_re s then Inl (spec_error (''invalid '' @ label @ '' field''))
                    else bindR (validate_property_schema label child) (\<lambda>_. Inr s))
               | _ \<Rightarrow> Inl (spec_error (''invalid '' @ label @ '' field''))) ps) (\<lambda>names.
           if required_names_ok schema ps then Inr names
           else Inl (spec_error (''invalid '' @ label @ '' required fields''))))
      | _ \<Rightarrow> Inl (spec_error (''invalid '' @ label @ '' schema'')))"

section \<open>DeclarativeStep\<close>

record decl_step =
  st_id :: string
  st_operation :: string
  st_inputs :: "(string \<times> value_ref) list"
  st_outputs :: "(string \<times> string) list"
  st_timeout :: "int option"

definition make_step ::
  "pyval \<Rightarrow> pyval \<Rightarrow> (pyval \<times> value_ref) list \<Rightarrow> pyval \<Rightarrow> pyval \<Rightarrow> decl_step result" where
  "make_step step_id operation_key inputs outputs timeout =
     bindR (string_such (spec_error ''invalid step ID'') step_identifier_re step_id) (\<lambda>sid.
     bindR (ident_of ''step operation key'' operation_key) (\<lambda>op_key.
     bindR (value_ref_mapping ''step input'' inputs) (\<lambda>ins.
     bindR (string_mapping ''step output'' ''operation output'' outputs) (\<lambda>outs.
     if length ins > MAX_INPUT_MAPPINGS \<or> outs = [] \<or> length outs > MAX_OUTPUT_MAPPINGS
     then Inl (spec_error ''invalid step mappings'')
     else bindR (optional_int ''invalid step timeout'' 1 OPERATION_TIMEOUT_MS timeout) (\<lambda>t.
     Inr \<lparr>st_id = sid, st_operation = op_key, st_inputs = ins, st_outputs = outs,
          st_timeout = t\<rparr>)))))"

section \<open>DeclarativeTool\<close>

record decl_tool =
  dt_key :: string
  dt_mcp :: string
  dt_description :: string
  dt_input_schema :: "(pyval \<times> pyval) list"
  dt_output_schema :: "(pyval \<times> pyval) list"
  dt_steps :: "decl_step list"
  dt_result_map :: "(string \<times> value_ref) list"
  dt_cache_ttl :: "int option"

text \<open>\<open>validate_reference\<close> against the declared inputs and the outputs of the steps so far.\<close>

definition reference_ok :: "string list \<Rightarrow> (string, string list) dict \<Rightarrow> value_ref \<Rightarrow> unit result" where
  "reference_ok input_fields available r =
     (if vr_source r = ''input''
      then (if vr_field r \<in> set input_fields then Inr ()
            else Inl (spec_error ''reference targets undeclared tool input''))
      else case map_of available (case vr_step r of None \<Rightarrow> [] | Some s \<Rightarrow> s) of
        None \<Rightarrow> Inl (spec_error ''step reference must target an earlier step'')
      | Some declared \<Rightarrow>
          (if vr_field r \<in> set declared then Inr ()
           else Inl (spec_error ''reference targets undeclared step output'')))"

definition check_step ::
  "string list \<Rightarrow> (string, string list) dict \<Rightarrow> decl_step \<Rightarrow> (string, string list) dict result" where
  "check_step input_fields available step =
     bindR (forR (\<lambda>(_, r). reference_ok input_fields available r) (st_inputs step)) (\<lambda>_.
     Inr (AList.update (st_id step) (map fst (st_outputs step)) available))"

text \<open>The steps and the result map against the schemas; the result is the map with its names.\<close>

definition tool_wiring ::
  "(pyval \<times> pyval) list \<Rightarrow> (pyval \<times> pyval) list \<Rightarrow> decl_step list \<Rightarrow> (pyval \<times> value_ref) list
     \<Rightarrow> (string \<times> value_ref) list result" where
  "tool_wiring ischema oschema steps result_map =
     bindR (schema_fields ''tool input'' False ischema) (\<lambda>input_fields.
     bindR (schema_fields ''tool output'' True oschema) (\<lambda>output_fields.
     if steps = [] \<or> length steps > MAX_TOOL_STEPS
     then Inl (spec_error ''tool requires one to sixteen steps'')
     else if \<not> distinct (map st_id steps) then Inl (spec_error ''duplicate step ID'')
     else bindR (foldR (check_step input_fields) [] steps) (\<lambda>available.
          bindR (value_ref_mapping ''result'' result_map) (\<lambda>results.
          if results = [] \<or> set (map fst results) \<noteq> set output_fields
          then Inl (spec_error ''result map must declare every final output'')
          else bindR (forR (\<lambda>(_, r). reference_ok input_fields available r) results) (\<lambda>_. Inr results)))))"

definition make_tool ::
  "pyval \<Rightarrow> pyval \<Rightarrow> pyval \<Rightarrow> pyval \<Rightarrow> pyval \<Rightarrow> decl_step list \<Rightarrow> (pyval \<times> value_ref) list \<Rightarrow> pyval
     \<Rightarrow> decl_tool result" where
  "make_tool tool_key mcp_name description input_schema output_schema steps result_map cache_ttl =
     bindR (ident_of ''tool key'' tool_key) (\<lambda>key.
     bindR (ident_of ''MCP name'' mcp_name) (\<lambda>mcp.
     bindR (string_such (spec_error ''invalid tool description'') (\<lambda>d. length d \<le> 512) description) (\<lambda>descr.
     bindR (frozen_mapping input_schema) (\<lambda>ischema.
     bindR (frozen_mapping output_schema) (\<lambda>oschema.
     bindR (tool_wiring ischema oschema steps result_map) (\<lambda>results.
     bindR (optional_int ''invalid tool cache TTL'' 0 86400 cache_ttl) (\<lambda>ttl.
     Inr \<lparr>dt_key = key, dt_mcp = mcp, dt_description = descr, dt_input_schema = ischema,
          dt_output_schema = oschema, dt_steps = steps, dt_result_map = results,
          dt_cache_ttl = ttl\<rparr>)))))))"

section \<open>PaginationPolicy, AuthScheme and SyncSpec\<close>

record pagination =
  pg_max_pages :: int
  pg_max_items :: int
  pg_items_pointer :: pyval
  pg_next_pointer :: pyval
  pg_next_query_param :: pyval

definition make_pagination :: "pyval \<Rightarrow> pyval \<Rightarrow> pyval \<Rightarrow> pyval \<Rightarrow> pyval \<Rightarrow> pagination result" where
  "make_pagination max_pages max_items items_pointer next_pointer next_param =
     bindR (required_int ''invalid pagination page limit'' 1 MAX_PAGE_COUNT max_pages) (\<lambda>pages.
     bindR (required_int ''invalid pagination item limit'' 1 MAX_PAGE_LIMIT max_items) (\<lambda>items.
     bindR (if pages > 1
            then bindR (pointer_tokens items_pointer) (\<lambda>_.
                 bindR (pointer_tokens next_pointer) (\<lambda>_.
                 bindR (matches ident_re next_param) (\<lambda>ok.
                 if ok then Inr () else Inl (spec_error ''invalid pagination cursor parameter''))))
            else if truthy items_pointer \<or> truthy next_pointer \<or> truthy next_param
            then Inl (spec_error ''pagination cursor requires more than one page'')
            else Inr ()) (\<lambda>_.
     Inr \<lparr>pg_max_pages = pages, pg_max_items = items, pg_items_pointer = items_pointer,
          pg_next_pointer = next_pointer, pg_next_query_param = next_param\<rparr>)))"

record auth_scheme =
  au_kind :: pyval
  au_credential_key :: pyval
  au_header_name :: pyval
  au_username_key :: pyval
  au_password_key :: pyval
  au_token_url :: pyval
  au_client_id_key :: pyval
  au_client_secret_key :: pyval
  au_access_token_key :: pyval
  au_scopes :: "pyval list"

text \<open>The checks of a kind; \<open>scopes\<close> is a tuple.\<close>

definition scope_ok :: "pyval \<Rightarrow> bool" where
  "scope_ok v = (case v of PStr s \<Rightarrow> s \<noteq> [] \<and> length s \<le> 128 | _ \<Rightarrow> False)"

definition auth_ok :: "auth_scheme \<Rightarrow> unit result" where
  "auth_ok a =
     (if au_kind a = PStr ''api_key''
      then bindR (ident_of ''credential key'' (au_credential_key a)) (\<lambda>_.
           bindR (matches header_re (au_header_name a)) (\<lambda>ok.
           if ok then Inr () else Inl (spec_error ''invalid API key header'')))
      else if au_kind a = PStr ''basic''
      then bindR (ident_of ''username credential key'' (au_username_key a)) (\<lambda>_.
           bindR (ident_of ''password credential key'' (au_password_key a)) (\<lambda>_. Inr ()))
      else if \<not> is_str (au_token_url a) \<or> au_token_url a = PStr []
      then Inl (spec_error ''OAuth client credentials requires token URL'')
      else bindR (ident_of ''client ID credential key'' (au_client_id_key a)) (\<lambda>_.
           bindR (ident_of ''client secret credential key'' (au_client_secret_key a)) (\<lambda>_.
           bindR (ident_of ''access token credential key'' (au_access_token_key a)) (\<lambda>_.
           if list_all scope_ok (au_scopes a) then Inr () else Inl (spec_error ''invalid OAuth scope'')))))"

definition make_auth_scheme :: "auth_scheme \<Rightarrow> auth_scheme result" where
  "make_auth_scheme a =
     bindR (string_among (spec_error ''unsupported authentication scheme'') ALLOWED_AUTH_SCHEMES (au_kind a)) (\<lambda>_.
     bindR (auth_ok a) (\<lambda>_. Inr a))"

record sync_spec =
  sy_resource_key :: string
  sy_primary_key :: string
  sy_field_mappings :: "(pyval \<times> pyval) list"
  sy_operation_key :: string
  sy_items_pointer :: pyval

definition field_mapping_ok :: "pyval \<times> pyval \<Rightarrow> unit result" where
  "field_mapping_ok entry =
     bindR (ident_of ''sync field'' (fst entry)) (\<lambda>_.
     bindR (pointer_tokens (snd entry)) (\<lambda>_. Inr ()))"

definition make_sync_spec :: "pyval \<Rightarrow> pyval \<Rightarrow> pyval \<Rightarrow> pyval \<Rightarrow> pyval \<Rightarrow> sync_spec result" where
  "make_sync_spec resource_key primary_key field_mappings operation_key items_pointer =
     bindR (ident_of ''resource key'' resource_key) (\<lambda>resource.
     bindR (pointer_tokens primary_key) (\<lambda>_.
     bindR (frozen_mapping field_mappings) (\<lambda>mappings.
     if mappings = [] \<or> length mappings > MAX_OUTPUT_MAPPINGS
     then Inl (spec_error ''stored mode requires mapped fields'')
     else bindR (forR field_mapping_ok mappings) (\<lambda>_.
          bindR (ident_of ''sync operation key'' operation_key) (\<lambda>operation.
          bindR (if truthy items_pointer then bindR (pointer_tokens items_pointer) (\<lambda>_. Inr ()) else Inr ()) (\<lambda>_.
          bindR (string_such (spec_error ''invalid output pointer'') (\<lambda>_. True) primary_key) (\<lambda>pk.
          Inr \<lparr>sy_resource_key = resource, sy_primary_key = pk, sy_field_mappings = mappings,
               sy_operation_key = operation, sy_items_pointer = items_pointer\<rparr>)))))))"

end
