(* ===== verification/DeclInput.thy ===== *)
theory DeclInput
  imports DeclTypes
begin

text \<open>
  Values that cross the boundary of a declared operation (\<open>declarative/models.py\<close>): a caller's input
  against its schema (\<open>_validate_input_value\<close>), the bounded copy of a selected output
  (\<open>_selected_copy\<close>) and the JSON pointer that selects it (\<open>_read_pointer\<close>).
\<close>

section \<open>Input values\<close>

definition float_less :: "pyfloat \<Rightarrow> pyfloat \<Rightarrow> bool" where
  "float_less x y =
     (case (x, y) of
        (Fin p, Fin q) \<Rightarrow> p < q
      | (NegInf, Fin _) \<Rightarrow> True | (NegInf, PosInf) \<Rightarrow> True | (Fin _, PosInf) \<Rightarrow> True
      | _ \<Rightarrow> False)"

text \<open>\<open>isinstance(bound, (int, float))\<close>, not a \<open>bool\<close>, and \<open>value < bound\<close>.\<close>

definition below_bound :: "pyval \<Rightarrow> pyval \<Rightarrow> bool" where
  "below_bound v bound \<longleftrightarrow> \<not> is_bool bound \<and>
     (case (num_of v, num_of bound) of (Some x, Some y) \<Rightarrow> float_less x y | _ \<Rightarrow> False)"

definition above_bound :: "pyval \<Rightarrow> pyval \<Rightarrow> bool" where
  "above_bound v bound \<longleftrightarrow> \<not> is_bool bound \<and>
     (case (num_of v, num_of bound) of (Some x, Some y) \<Rightarrow> float_less y x | _ \<Rightarrow> False)"

text \<open>\<open>v in container\<close>; a schema holds no binary data and no objects.\<close>

definition py_contains :: "pyval \<Rightarrow> pyval \<Rightarrow> bool result" where
  "py_contains container v =
     (case container of
        PTuple ws \<Rightarrow> Inr (py_in v ws)
      | PList ws \<Rightarrow> Inr (py_in v ws)
      | PMap m \<Rightarrow> (if hashable v then Inr (py_in v (map fst m)) else Inl (Exc TypeError ''unhashable type''))
      | PStr s \<Rightarrow> (case v of PStr t \<Rightarrow> Inr (contains t s) | _ \<Rightarrow> Inl (Exc TypeError ''requires string as left operand''))
      | _ \<Rightarrow> Inl (Exc TypeError ''argument is not iterable''))"

definition type_matches :: "string \<Rightarrow> pyval \<Rightarrow> bool" where
  "type_matches t v \<longleftrightarrow>
     (t = ''string'' \<and> is_str v) \<or> (t = ''integer'' \<and> strict_int v \<noteq> None)
     \<or> (t = ''number'' \<and> num_of v \<noteq> None \<and> \<not> is_bool v) \<or> (t = ''boolean'' \<and> is_bool v)
     \<or> (t = ''object'' \<and> is_mapping v) \<or> (t = ''array'' \<and> is_list v) \<or> t = ''null''"

definition type_check :: "pyval \<Rightarrow> pyval \<Rightarrow> unit result" where
  "type_check schema_type v =
     (case schema_type of
        PNone \<Rightarrow> Inr ()
      | PStr t \<Rightarrow>
          (if t \<notin> set SCHEMA_TYPES then Inl (spec_error ''unsupported input schema type'')
           else if type_matches t v then Inr ()
           else Inl (spec_error ''input type does not match declaration''))
      | _ \<Rightarrow> Inl (spec_error ''unsupported input schema type''))"

definition length_check :: "(pyval \<times> pyval) list \<Rightarrow> pyval \<Rightarrow> unit result" where
  "length_check schema v =
     (case (mget_none schema ''maxLength'', v) of
        (PInt limit, PStr s) \<Rightarrow>
          (if int (length s) > limit then Inl (spec_error ''input exceeds declared length'') else Inr ())
      | _ \<Rightarrow> Inr ())"

definition range_check :: "(pyval \<times> pyval) list \<Rightarrow> pyval \<Rightarrow> unit result" where
  "range_check schema v =
     (if below_bound v (mget_none schema ''minimum'') then Inl (spec_error ''input is below declared minimum'')
      else if above_bound v (mget_none schema ''maximum'') then Inl (spec_error ''input exceeds declared maximum'')
      else Inr ())"

definition enum_check :: "(pyval \<times> pyval) list \<Rightarrow> pyval \<Rightarrow> unit result" where
  "enum_check schema v =
     (case mget schema ''enum'' of
        None \<Rightarrow> Inr ()
      | Some container \<Rightarrow>
          bindR (py_contains container v) (\<lambda>found.
          if found then Inr () else Inl (spec_error ''input is outside the declared enum'')))"

text \<open>The checks before the nested values.\<close>

definition leaf_check :: "(pyval \<times> pyval) list \<Rightarrow> pyval \<Rightarrow> unit result" where
  "leaf_check schema v =
     (let t = mget_none schema ''type'' in
      bindR (type_check t v) (\<lambda>_.
      bindR (if t = PStr ''string'' then length_check schema v else Inr ()) (\<lambda>_.
      bindR (if t \<in> {PStr ''integer'', PStr ''number''} then range_check schema v else Inr ()) (\<lambda>_.
      enum_check schema v))))"

text \<open>The \<open>required\<close> entry of an object schema: its names, absent it is empty.\<close>

definition required_list :: "(pyval \<times> pyval) list \<Rightarrow> pyval list option" where
  "required_list schema =
     (case mget_or schema ''required'' (PTuple []) of
        PList ns \<Rightarrow> Some ns | PTuple ns \<Rightarrow> Some ns | _ \<Rightarrow> None)"

definition object_shape ::
  "(pyval \<times> pyval) list \<Rightarrow> (pyval \<times> pyval) list \<Rightarrow> (pyval \<times> pyval) list result" where
  "object_shape schema m =
     (case (mget schema ''properties'', required_list schema) of
        (Some (PMap ps), Some required) \<Rightarrow>
          (if list_ex (\<lambda>(k, _). \<not> is_str k \<or> k \<notin> set (map fst ps)) m
           then Inl (spec_error ''undeclared object input'')
           else bindR (forR (\<lambda>name.
                  if \<not> hashable name then Inl (Exc TypeError ''unhashable type'')
                  else if name \<in> set (map fst m) then Inr ()
                  else Inl (spec_error ''required object input is missing'')) required) (\<lambda>_. Inr ps))
      | _ \<Rightarrow> Inl (spec_error ''invalid declared input schema''))"

definition child_schema :: "(pyval \<times> pyval) list \<Rightarrow> pyval \<Rightarrow> (pyval \<times> pyval) list result" where
  "child_schema ps key =
     (case map_of ps key of
        Some (PMap child) \<Rightarrow> Inr child
      | _ \<Rightarrow> Inl (spec_error ''invalid declared input schema''))"

function validate_input :: "pyval \<Rightarrow> (pyval \<times> pyval) list \<Rightarrow> unit result" where
  "validate_input v schema =
     (if schema = [] then Inr ()
      else bindR (leaf_check schema v) (\<lambda>_.
      if mget_none schema ''type'' = PStr ''array''
      then (case v of
              PList vs \<Rightarrow>
                (if length vs > MAX_OUTPUT_ITEMS then Inl (spec_error ''input array exceeds limits'')
                 else case mget schema ''items'' of
                   Some (PMap item_schema) \<Rightarrow> forR (\<lambda>w. validate_input w item_schema) vs
                 | _ \<Rightarrow> Inl (spec_error ''invalid declared input schema''))
            | _ \<Rightarrow> Inr ())
      else if mget_none schema ''type'' = PStr ''object''
      then (case v of
              PMap m \<Rightarrow>
                bindR (object_shape schema m) (\<lambda>ps.
                forR (\<lambda>(k, w). bindR (child_schema ps k) (\<lambda>child. validate_input w child)) m)
            | _ \<Rightarrow> Inr ())
      else Inr ()))"
  by pat_completeness auto
termination
  by (relation "measure (\<lambda>(v, _). size v)") (auto intro: size_list_item size_member simp del: pyval.size)

declare validate_input.simps [simp del]

section \<open>Selected output\<close>

definition output_error :: "string \<Rightarrow> exc" where
  "output_error msg = Exc OutputSelectionError msg"

fun selected_copy :: "nat \<Rightarrow> pyval \<Rightarrow> pyval result" where
  "selected_copy depth v =
     (if depth > MAX_OUTPUT_DEPTH then Inl (output_error ''selected output exceeds limits'')
      else case v of
        PNone \<Rightarrow> Inr v | PStr _ \<Rightarrow> Inr v | PInt _ \<Rightarrow> Inr v | PBool _ \<Rightarrow> Inr v
      | PFloat f \<Rightarrow> (if float_finite f then Inr v else Inl (output_error ''selected output is not JSON''))
      | PList vs \<Rightarrow>
          (if length vs > MAX_OUTPUT_ITEMS then Inl (output_error ''selected output exceeds limits'')
           else bindR (mapR (selected_copy (Suc depth)) vs) (\<lambda>ws. Inr (PList ws)))
      | PMap m \<Rightarrow>
          (if length m > MAX_OUTPUT_ITEMS then Inl (output_error ''selected output exceeds limits'')
           else bindR (mapR (\<lambda>(k, w).
                  case k of
                    PStr s \<Rightarrow>
                      (if length s > 128 then Inl (output_error ''selected output is not JSON'')
                       else bindR (selected_copy (Suc depth) w) (\<lambda>w'. Inr (k, w')))
                  | _ \<Rightarrow> Inl (output_error ''selected output is not JSON'')) m) (\<lambda>m'. Inr (PMap m')))
      | _ \<Rightarrow> Inl (output_error ''selected output is not JSON''))"

declare selected_copy.simps [simp del]

text \<open>
  \<open>_read_pointer\<close>.  \<open>str.isdigit\<close> also accepts superscript digits, for which \<open>int\<close> raises a plain
  \<open>ValueError\<close>.
\<close>

fun read_tokens :: "pyval \<Rightarrow> string list \<Rightarrow> pyval result" where
  "read_tokens v [] = Inr v"
| "read_tokens v (token # tokens) =
     (case v of
        PMap m \<Rightarrow>
          (case mget m token of
             Some w \<Rightarrow> read_tokens w tokens
           | None \<Rightarrow> Inl (output_error ''selected output is absent''))
      | PList vs \<Rightarrow>
          (if \<not> list_all py_isdigit token then Inl (output_error ''selected output is absent'')
           else if \<not> list_all ascii_digit token then Inl (Exc ValueError ''invalid literal for int()'')
           else if digits_val token \<ge> length vs then Inl (output_error ''selected output is absent'')
           else read_tokens (vs ! digits_val token) tokens)
      | _ \<Rightarrow> Inl (output_error ''selected output is absent''))"

definition read_pointer :: "pyval \<Rightarrow> string \<Rightarrow> pyval result" where
  "read_pointer document pointer =
     bindR (pointer_tokens (PStr pointer)) (\<lambda>tokens. read_tokens document tokens)"

end
