(* ===== verification/DeclOperation.thy ===== *)
theory DeclOperation
  imports DeclInput
begin

text \<open>
  \<open>DeclarativeOperation\<close> (\<open>declarative/models.py\<close>): its constructor, the request it builds from a
  caller's arguments and the output it selects from an upstream document.
\<close>

section \<open>The constructor\<close>

record raw_operation =
  ro_tool_key :: pyval
  ro_mcp_name :: pyval
  ro_description :: pyval
  ro_method :: pyval
  ro_path :: pyval
  ro_inputs :: "input_mapping list"
  ro_outputs :: "output_mapping list"
  ro_kind :: pyval
  ro_explicit_write :: pyval
  ro_base_url :: pyval
  ro_timeout :: pyval
  ro_cache_ttl :: pyval
  ro_pagination :: "pagination option"

record operation =
  op_key :: string
  op_mcp :: string
  op_description :: string
  op_method :: string
  op_path :: string
  op_inputs :: "input_mapping list"
  op_outputs :: "output_mapping list"
  op_kind :: string
  op_explicit_write :: bool
  op_base_url :: string
  op_timeout :: int
  op_cache_ttl :: "int option"
  op_pagination :: "pagination option"

definition operation_path_ok :: "string \<Rightarrow> bool" where
  "operation_path_ok path \<longleftrightarrow>
     prefix ''/'' path \<and> length path \<le> 512 \<and> \<not> unsafe_path path
     \<and> CHR ''?'' \<notin> set path \<and> CHR ''#'' \<notin> set path \<and> CHR 0x5C \<notin> set path"

text \<open>The method, the kind and the write gate.\<close>

definition method_and_kind :: "raw_operation \<Rightarrow> (string \<times> string \<times> bool) result" where
  "method_and_kind r =
     bindR (string_among (spec_error ''unsupported HTTP method'') ALLOWED_METHODS (ro_method r)) (\<lambda>method.
     bindR (string_among (spec_error ''invalid operation kind'') ALLOWED_OPERATION_KINDS (ro_kind r)) (\<lambda>kind.
     bindR (bool_or (spec_error ''write enablement must be a bool'') (ro_explicit_write r)) (\<lambda>explicit.
     if kind = ''write'' \<and> \<not> explicit
     then Inl (spec_error ''write operation requires explicit enablement'')
     else if kind = ''read'' \<and> method \<noteq> ''GET''
     then Inl (spec_error ''non-GET operations must be explicit writes'')
     else Inr (method, kind, explicit))))"

definition mappings_ok :: "input_mapping list \<Rightarrow> output_mapping list \<Rightarrow> unit result" where
  "mappings_ok inputs outputs =
     (if length inputs > MAX_INPUT_MAPPINGS \<or> length outputs > MAX_OUTPUT_MAPPINGS
      then Inl (spec_error ''too many declared mappings'')
      else if \<not> distinct (map im_arg_name inputs) then Inl (spec_error ''duplicate input mapping'')
      else if \<not> distinct (map (\<lambda>i. (im_location i, im_target i)) inputs)
      then Inl (spec_error ''duplicate request target mapping'')
      else if \<not> distinct (map om_name outputs) then Inl (spec_error ''duplicate output mapping'')
      else if outputs = [] then Inl (spec_error ''operation requires an output selection'')
      else Inr ())"

definition pagination_ok ::
  "string \<Rightarrow> string \<Rightarrow> input_mapping list \<Rightarrow> output_mapping list \<Rightarrow> pagination option \<Rightarrow> unit result" where
  "pagination_ok method kind inputs outputs p =
     (case p of
        None \<Rightarrow> Inr ()
      | Some pg \<Rightarrow>
          (if kind \<noteq> ''read'' \<or> method \<noteq> ''GET''
           then Inl (spec_error ''pagination requires a read GET operation'')
           else if pg_max_pages pg > 1 \<and> \<not> list_ex (\<lambda>o'. PStr (om_pointer o') = pg_items_pointer pg) outputs
           then Inl (spec_error ''pagination items pointer requires an output mapping'')
           else if pg_max_pages pg > 1 \<and>
             list_ex (\<lambda>i. im_location i = ''query'' \<and> PStr (im_target i) = pg_next_query_param pg) inputs
           then Inl (spec_error ''pagination cursor parameter conflicts with a declared input'')
           else Inr ()))"

definition make_operation :: "raw_operation \<Rightarrow> operation result" where
  "make_operation r =
     bindR (ident_of ''tool key'' (ro_tool_key r)) (\<lambda>key.
     bindR (ident_of ''MCP name'' (ro_mcp_name r)) (\<lambda>mcp.
     bindR (string_such (spec_error ''invalid operation description'') (\<lambda>d. length d \<le> 512) (ro_description r)) (\<lambda>descr.
     bindR (method_and_kind r) (\<lambda>(method, kind, explicit).
     bindR (string_such (spec_error ''invalid operation path'') operation_path_ok (ro_path r)) (\<lambda>path.
     bindR (string_such (spec_error ''invalid operation base URL'') (prefix ''https://'') (ro_base_url r)) (\<lambda>base_url.
     bindR (mappings_ok (ro_inputs r) (ro_outputs r)) (\<lambda>_.
     bindR (required_int ''invalid operation timeout'' 1 OPERATION_TIMEOUT_MS (ro_timeout r)) (\<lambda>timeout.
     bindR (optional_int ''invalid cache TTL'' 0 86400 (ro_cache_ttl r)) (\<lambda>ttl.
     bindR (pagination_ok method kind (ro_inputs r) (ro_outputs r) (ro_pagination r)) (\<lambda>_.
     Inr \<lparr>op_key = key, op_mcp = mcp, op_description = descr, op_method = method, op_path = path,
          op_inputs = ro_inputs r, op_outputs = ro_outputs r, op_kind = kind,
          op_explicit_write = explicit, op_base_url = base_url, op_timeout = timeout,
          op_cache_ttl = ttl, op_pagination = ro_pagination r\<rparr>))))))))))"

section \<open>Derived schemas\<close>

definition operation_input_schema :: "operation \<Rightarrow> pyval result" where
  "operation_input_schema p =
     bindR (mapR (\<lambda>i. bindR (plain_json_value (PMap (im_schema i))) (\<lambda>s. Inr (im_arg_name i, s))) (op_inputs p))
       (\<lambda>properties.
       let required = map (PStr \<circ> im_arg_name) (filter im_required (op_inputs p)) in
       Inr (pdict ([(''type'', PStr ''object''), (''properties'', pdict properties),
                    (''additionalProperties'', PBool False)]
                   @ (if required = [] then [] else [(''required'', PList required)]))))"

definition operation_output_schema :: "operation \<Rightarrow> pyval" where
  "operation_output_schema p =
     pdict [(''type'', PStr ''object''),
            (''properties'', pdict (map (\<lambda>o'. (om_name o', PMap [])) (op_outputs p))),
            (''additionalProperties'', PBool False)]"

definition pagination_items_field :: "operation \<Rightarrow> string" where
  "pagination_items_field p =
     (case op_pagination p of
        None \<Rightarrow> []
      | Some pg \<Rightarrow>
          (case filter (\<lambda>o'. PStr (om_pointer o') = pg_items_pointer pg) (op_outputs p) of
             [] \<Rightarrow> [] | o' # _ \<Rightarrow> om_name o'))"

section \<open>build\_request\<close>

record http_request =
  rq_method :: string
  rq_url :: string
  rq_body :: "(pyval \<times> pyval) list option"

record request_parts =
  rp_path :: string
  rp_query :: "(string \<times> string) list"
  rp_body :: "(pyval \<times> pyval) list"

definition placeholder :: "string \<Rightarrow> string" where
  "placeholder target = ''{'' @ target @ ''}''"

definition query_text :: "py_env \<Rightarrow> pyval \<Rightarrow> string" where
  "query_text env v = (if is_bool v then py_lower (py_str (env_float env) v) else py_str (env_float env) v)"

text \<open>One declared mapping with the caller's value.\<close>

definition place_value ::
  "py_env \<Rightarrow> request_parts \<Rightarrow> input_mapping \<Rightarrow> pyval \<Rightarrow> request_parts result" where
  "place_value env q i v =
     bindR (validate_input v (im_schema i)) (\<lambda>_.
     if im_location i = ''path''
     then bindR (assert_scalar v) (\<lambda>_.
          if \<not> contains (placeholder (im_target i)) (rp_path q)
          then Inl (spec_error ''path mapping is not declared in path'')
          else Inr (q\<lparr>rp_path := py_replace (placeholder (im_target i))
                      (quote (py_str (env_float env) v)) (rp_path q)\<rparr>))
     else if im_location i = ''query''
     then bindR (assert_scalar v) (\<lambda>_.
          Inr (q\<lparr>rp_query := rp_query q @ [(im_target i, query_text env v)]\<rparr>))
     else if im_location i = ''body''
     then Inr (q\<lparr>rp_body := AList.update (PStr (im_target i)) v (rp_body q)\<rparr>)
     else bindR (assert_scalar v) (\<lambda>_. Inr q))"

definition place_argument ::
  "py_env \<Rightarrow> (pyval \<times> pyval) list \<Rightarrow> request_parts \<Rightarrow> input_mapping \<Rightarrow> request_parts result" where
  "place_argument env args q i =
     (case mget args (im_arg_name i) of
        None \<Rightarrow> (if im_required i then Inl (spec_error ''required input is missing'') else Inr q)
      | Some v \<Rightarrow> place_value env q i v)"

definition arguments_declared :: "operation \<Rightarrow> (pyval \<times> pyval) list \<Rightarrow> bool" where
  "arguments_declared p args \<longleftrightarrow>
     list_all (\<lambda>(k, _). case k of PStr s \<Rightarrow> s \<in> set (map im_arg_name (op_inputs p)) | _ \<Rightarrow> False) args"

definition build_request :: "py_env \<Rightarrow> operation \<Rightarrow> pyval \<Rightarrow> http_request result" where
  "build_request env p arguments =
     (case arguments of
        PMap args \<Rightarrow>
          (if \<not> arguments_declared p args then Inl (spec_error ''undeclared input'')
           else bindR (foldR (place_argument env args)
                  \<lparr>rp_path = op_path p, rp_query = [], rp_body = []\<rparr> (op_inputs p)) (\<lambda>q.
                if CHR ''{'' \<in> set (rp_path q) \<or> CHR ''}'' \<in> set (rp_path q)
                then Inl (spec_error ''unmapped path parameter'')
                else let url = rstrip_char CHR ''/'' (op_base_url p) @ rp_path q
                           @ (if rp_query q = [] then [] else ''?'' @ urlencode (rp_query q)) in
                  (if rp_body q = [] then Inr \<lparr>rq_method = op_method p, rq_url = url, rq_body = None\<rparr>
                   else bindR (json_size (env_float env) (PMap (rp_body q))) (\<lambda>size.
                     if size > MAX_REQUEST_BODY_BYTES
                     then Inl (Exc RequestTooLargeError ''request body exceeds limit'')
                     else Inr \<lparr>rq_method = op_method p, rq_url = url, rq_body = Some (rp_body q)\<rparr>))))
      | _ \<Rightarrow> Inl (spec_error ''tool arguments must be an object''))"

definition declared_headers :: "py_env \<Rightarrow> operation \<Rightarrow> (pyval \<times> pyval) list \<Rightarrow> (string, string) dict result" where
  "declared_headers env p args =
     foldR (\<lambda>headers i.
       case (if im_location i = ''header'' then mget args (im_arg_name i) else None) of
         None \<Rightarrow> Inr headers
       | Some v \<Rightarrow>
           bindR (validate_input v (im_schema i)) (\<lambda>_.
           bindR (assert_scalar v) (\<lambda>_.
           Inr (AList.update (im_target i) (py_str (env_float env) v) headers)))) [] (op_inputs p)"

definition extract_safe_output :: "py_env \<Rightarrow> operation \<Rightarrow> pyval \<Rightarrow> pyval result" where
  "extract_safe_output env p document =
     bindR (mapR (\<lambda>o'.
         bindR (read_pointer document (om_pointer o')) (\<lambda>v.
         bindR (selected_copy 0 v) (\<lambda>w. Inr (om_name o', w)))) (op_outputs p)) (\<lambda>selected.
     bindR (json_size (env_float env) (pdict selected)) (\<lambda>size.
     if size > MAX_OUTPUT_BYTES then Inl (output_error ''selected output exceeds limits'')
     else Inr (pdict selected)))"

end
