(* ===== verification/DeclRevision.thy ===== *)
theory DeclRevision
  imports DeclOperation Contracts
begin

text \<open>
  \<open>DeclarativeRevision\<close> (\<open>declarative/models.py\<close>): the constructor that checks a set of operations and
  tools against each other, the single-operation tools it derives, the lookups, and the connector
  manifest (\<open>connector_spec\<close>) it publishes.
\<close>

section \<open>The record\<close>

record raw_revision =
  rr_spec_id :: pyval
  rr_revision :: pyval
  rr_tenant_id :: pyval
  rr_connection_id :: pyval
  rr_status :: pyval
  rr_base_url :: pyval
  rr_allowed_hosts :: "pyval list"
  rr_operations :: "operation list"
  rr_tools :: "decl_tool list"
  rr_auth :: "auth_scheme option"
  rr_sync :: "sync_spec option"

record revision =
  rv_spec_id :: pyval
  rv_revision :: int
  rv_tenant_id :: pyval
  rv_connection_id :: pyval
  rv_status :: string
  rv_base_url :: string
  rv_allowed_hosts :: "string list"
  rv_operations :: "operation list"
  rv_tools :: "decl_tool list"
  rv_auth :: "auth_scheme option"
  rv_sync :: "sync_spec option"

section \<open>The tool of a single operation\<close>

definition OPERATION_STEP :: string where "OPERATION_STEP = ''operation''"

definition input_ref :: "string \<Rightarrow> value_ref" where
  "input_ref field = \<lparr>vr_source = ''input'', vr_field = field, vr_step = None\<rparr>"

definition step_ref :: "string \<Rightarrow> string \<Rightarrow> value_ref" where
  "step_ref step field = \<lparr>vr_source = ''steps'', vr_field = field, vr_step = Some step\<rparr>"

definition single_operation_tool :: "operation \<Rightarrow> decl_tool result" where
  "single_operation_tool p =
     bindR (operation_input_schema p) (\<lambda>ischema.
     bindR (mapR (\<lambda>i. bindR (make_value_ref ''input'' (im_arg_name i) None)
                         (\<lambda>r. Inr (PStr (im_arg_name i), r))) (op_inputs p)) (\<lambda>ins.
     bindR (make_step (PStr OPERATION_STEP) (PStr (op_key p)) ins
              (pdict (map (\<lambda>o'. (om_name o', PStr (om_name o'))) (op_outputs p))) (PInt (op_timeout p))) (\<lambda>step.
     bindR (mapR (\<lambda>o'. bindR (make_value_ref ''steps'' (om_name o') (Some OPERATION_STEP))
                         (\<lambda>r. Inr (PStr (om_name o'), r))) (op_outputs p)) (\<lambda>results.
     make_tool (PStr (op_key p)) (PStr (op_mcp p)) (PStr (op_description p)) ischema
       (operation_output_schema p) [step] results
       (opt_int (op_cache_ttl p))))))"

section \<open>The constructor\<close>

text \<open>An identifier pair \<open>{tool_key, mcp_name}\<close> must be new.\<close>

definition claim_names :: "string \<Rightarrow> string list \<Rightarrow> string \<times> string \<Rightarrow> string list result" where
  "claim_names msg seen names =
     (if fst names \<in> set seen \<or> snd names \<in> set seen then Inl (spec_error msg)
      else Inr (seen @ remdups [fst names, snd names]))"

definition optional_identifier :: "(pyval \<Rightarrow> string result) \<Rightarrow> pyval \<Rightarrow> unit result" where
  "optional_identifier check v = (if truthy v then bindR (check v) (\<lambda>_. Inr ()) else Inr ())"

definition scope_of :: "raw_revision \<Rightarrow> (int \<times> string) result" where
  "scope_of r =
     bindR (optional_identifier (ident_of ''spec ID'') (rr_spec_id r)) (\<lambda>_.
     bindR (optional_identifier (decl_scope_identifier ''tenant ID'') (rr_tenant_id r)) (\<lambda>_.
     bindR (optional_identifier (decl_scope_identifier ''connection ID'') (rr_connection_id r)) (\<lambda>_.
     bindR (case rr_revision r of
              PInt n \<Rightarrow> (if n < 1 then Inl (spec_error ''invalid revision number'') else Inr n)
            | _ \<Rightarrow> Inl (spec_error ''invalid revision number'')) (\<lambda>n.
     bindR (string_among (spec_error ''invalid revision status'') [''draft'', ''published''] (rr_status r)) (\<lambda>status.
     Inr (n, status))))))"

definition hosts_of :: "py_env \<Rightarrow> raw_revision \<Rightarrow> string list result" where
  "hosts_of env r =
     bindR (declaration_base_host env (rr_base_url r)) (\<lambda>base_host.
     bindR (mapR (normalize_declaration_host env) (rr_allowed_hosts r)) (\<lambda>hosts.
     if hosts = [] \<or> \<not> distinct hosts then Inl (spec_error ''revision requires allowed hosts'')
     else if base_host \<notin> set hosts then Inl (spec_error ''revision base URL is absent from allowed hosts'')
     else Inr hosts))"

definition check_operations :: "pyval \<Rightarrow> operation list \<Rightarrow> string list result" where
  "check_operations base_url ops =
     (if ops = [] \<or> length ops > MAX_OPERATION_COUNT
      then Inl (spec_error ''revision requires declared operations'')
      else foldR (\<lambda>seen p.
             if PStr (op_base_url p) \<noteq> base_url
             then Inl (spec_error ''operation base URL does not match revision'')
             else claim_names ''duplicate operation identifier'' seen (op_key p, op_mcp p)) [] ops)"

text \<open>The operation of a step: the keys of the operations are distinct.\<close>

definition operation_of :: "operation list \<Rightarrow> string \<Rightarrow> operation option" where
  "operation_of ops key = map_of (map (\<lambda>p. (op_key p, p)) ops) key"

definition step_timeout :: "operation \<Rightarrow> decl_step \<Rightarrow> int" where
  "step_timeout p step = (case st_timeout step of None \<Rightarrow> op_timeout p | Some t \<Rightarrow> t)"

text \<open>One step against its operation: what it adds to the total timeout and to the write steps.\<close>

definition check_tool_step :: "operation list \<Rightarrow> int \<times> nat \<Rightarrow> decl_step \<Rightarrow> (int \<times> nat) result" where
  "check_tool_step ops acc step =
     (case operation_of ops (st_operation step) of
        None \<Rightarrow> Inl (spec_error ''tool step operation is not declared'')
      | Some p \<Rightarrow>
          (if list_ex (\<lambda>(name, _). name \<notin> set (map im_arg_name (op_inputs p))) (st_inputs step)
           then Inl (spec_error ''step input is not declared by operation'')
           else if list_ex (\<lambda>i. im_required i \<and> im_arg_name i \<notin> set (map fst (st_inputs step))) (op_inputs p)
           then Inl (spec_error ''required operation input is not mapped'')
           else if list_ex (\<lambda>(_, out). out \<notin> set (map om_name (op_outputs p))) (st_outputs step)
           then Inl (spec_error ''step output is not declared by operation'')
           else if step_timeout p step < 1 \<or> step_timeout p step > OPERATION_TIMEOUT_MS
           then Inl (spec_error ''invalid step timeout'')
           else Inr (fst acc + step_timeout p step,
                     (if op_kind p = ''write'' then Suc (snd acc) else snd acc))))"

definition check_revision_tool ::
  "operation list \<Rightarrow> string list \<Rightarrow> decl_tool \<Rightarrow> string list result" where
  "check_revision_tool ops seen t =
     bindR (claim_names ''duplicate tool identifier'' seen (dt_key t, dt_mcp t)) (\<lambda>seen'.
     bindR (foldR (check_tool_step ops) (0, 0) (dt_steps t)) (\<lambda>(total, writes).
     if total > MAX_TOOL_TIMEOUT_MS then Inl (spec_error ''tool timeout exceeds total limit'')
     else if writes > 1 then Inl (spec_error ''tool may contain at most one write step'')
     else Inr seen'))"

definition check_auth :: "py_env \<Rightarrow> string list \<Rightarrow> auth_scheme option \<Rightarrow> unit result" where
  "check_auth env hosts auth =
     (case auth of
        None \<Rightarrow> Inr ()
      | Some a \<Rightarrow>
          (if au_kind a \<noteq> PStr ''oauth2_client_credentials'' then Inr ()
           else bindR (declaration_base_host env (au_token_url a)) (\<lambda>host.
             if host \<in> set hosts then Inr ()
             else Inl (spec_error ''OAuth token URL is absent from allowed hosts''))))"

definition check_sync :: "operation list \<Rightarrow> sync_spec option \<Rightarrow> unit result" where
  "check_sync ops sync =
     (case sync of
        None \<Rightarrow> Inr ()
      | Some y \<Rightarrow>
          (case find (\<lambda>p. op_key p = sy_operation_key y) ops of
             None \<Rightarrow> Inl (spec_error ''sync operation is not declared'')
           | Some p \<Rightarrow>
               (let declared = map (PStr \<circ> om_pointer) (op_outputs p) in
                if op_kind p \<noteq> ''read'' then Inl (spec_error ''sync operation must be a declared read'')
                else if truthy (sy_items_pointer y)
                then (if sy_items_pointer y \<in> set declared then Inr ()
                      else Inl (spec_error ''sync items pointer is not declared''))
                else if PStr (sy_primary_key y) \<notin> set declared
                then Inl (spec_error ''sync primary key is not declared'')
                else if list_ex (\<lambda>(_, pointer). pointer \<notin> set declared) (sy_field_mappings y)
                then Inl (spec_error ''sync field mapping is not declared'')
                else Inr ())))"

definition make_revision :: "py_env \<Rightarrow> raw_revision \<Rightarrow> revision result" where
  "make_revision env r =
     bindR (scope_of r) (\<lambda>(number, status).
     bindR (hosts_of env r) (\<lambda>hosts.
     bindR (check_operations (rr_base_url r) (rr_operations r)) (\<lambda>_.
     bindR (if rr_tools r = [] then mapR single_operation_tool (rr_operations r) else Inr (rr_tools r)) (\<lambda>tools.
     if length tools > MAX_OPERATION_COUNT then Inl (spec_error ''invalid declarative tools'')
     else bindR (foldR (check_revision_tool (rr_operations r)) [] tools) (\<lambda>_.
          bindR (check_auth env hosts (rr_auth r)) (\<lambda>_.
          bindR (check_sync (rr_operations r) (rr_sync r)) (\<lambda>_.
          bindR (string_such (spec_error ''invalid revision base URL'') (\<lambda>_. True) (rr_base_url r)) (\<lambda>base_url.
          Inr \<lparr>rv_spec_id = rr_spec_id r, rv_revision = number, rv_tenant_id = rr_tenant_id r,
               rv_connection_id = rr_connection_id r, rv_status = status, rv_base_url = base_url,
               rv_allowed_hosts = hosts, rv_operations = rr_operations r, rv_tools = tools,
               rv_auth = rr_auth r, rv_sync = rr_sync r\<rparr>))))))))"

section \<open>Lookups\<close>

definition unknown_tool :: exc where
  "unknown_tool = Exc UnknownToolError ''unknown declarative tool''"

definition operation_for :: "revision \<Rightarrow> string \<Rightarrow> operation result" where
  "operation_for rv name =
     (case find (\<lambda>p. name \<in> {op_key p, op_mcp p}) (rv_operations rv) of
        Some p \<Rightarrow> Inr p | None \<Rightarrow> Inl unknown_tool)"

definition tool_for :: "revision \<Rightarrow> string \<Rightarrow> decl_tool result" where
  "tool_for rv name =
     (case find (\<lambda>t. name \<in> {dt_key t, dt_mcp t}) (rv_tools rv) of
        Some t \<Rightarrow> Inr t | None \<Rightarrow> Inl unknown_tool)"

definition assert_data_mode_allowed :: "revision \<Rightarrow> pyval \<Rightarrow> unit result" where
  "assert_data_mode_allowed rv mode =
     bindR (string_among (spec_error ''unsupported data mode'') [''direct'', ''hybrid'', ''stored''] mode) (\<lambda>_.
     if mode = PStr ''stored'' \<and> rv_sync rv = None
     then Inl (spec_error ''stored mode requires a validated sync spec'')
     else Inr ())"

section \<open>The connector manifest\<close>

text \<open>\<open>operation_by_key[..]\<close> of an undeclared operation raises \<open>KeyError\<close>.\<close>

definition step_operation :: "revision \<Rightarrow> decl_step \<Rightarrow> operation result" where
  "step_operation rv step =
     (case operation_of (rv_operations rv) (st_operation step) of
        Some p \<Rightarrow> Inr p | None \<Rightarrow> Inl (Exc KeyError (st_operation step)))"

text \<open>\<open>any(.. == "write" for step in ..)\<close> looks no further than the first write step.\<close>

fun any_write :: "revision \<Rightarrow> decl_step list \<Rightarrow> bool result" where
  "any_write rv [] = Inr False"
| "any_write rv (step # steps) =
     bindR (step_operation rv step) (\<lambda>p. if op_kind p = ''write'' then Inr True else any_write rv steps)"

definition total_timeout :: "revision \<Rightarrow> decl_step list \<Rightarrow> int result" where
  "total_timeout rv steps =
     foldR (\<lambda>sum step.
       case st_timeout step of
         Some t \<Rightarrow> Inr (sum + t)
       | None \<Rightarrow> bindR (step_operation rv step) (\<lambda>p. Inr (sum + op_timeout p))) 0 steps"

definition tool_spec_for :: "revision \<Rightarrow> decl_tool \<Rightarrow> pyval tool_spec result" where
  "tool_spec_for rv t =
     bindR (plain_json_value (PMap (dt_input_schema t))) (\<lambda>ischema.
     bindR (plain_json_value (PMap (dt_output_schema t))) (\<lambda>oschema.
     bindR (any_write rv (dt_steps t)) (\<lambda>write_tool.
     bindR (total_timeout rv (dt_steps t)) (\<lambda>timeout.
     Inr \<lparr>tool_key = PStr (dt_key t), mcp_name = PStr (dt_mcp t), tool_description = PStr (dt_description t),
          input_schema = ischema, output_schema = oschema,
          operation_kind = PStr (if write_tool then ''write'' else ''read''),
          default_timeout_ms = PInt timeout,
          cache_ttl_seconds = opt_int (dt_cache_ttl t)\<rparr>))))"

definition secret_field :: pyval where
  "secret_field = pdict [(''type'', PStr ''string''), (''writeOnly'', PBool True)]"

text \<open>The credential fields of a scheme; \<open>properties[k] = ..\<close> of an equal key overwrites.\<close>

definition credential_fields :: "auth_scheme option \<Rightarrow> (pyval \<times> pyval) list" where
  "credential_fields auth =
     (case auth of
        None \<Rightarrow> []
      | Some a \<Rightarrow>
          fold (\<lambda>k m. AList.update k secret_field m)
            (if au_kind a = PStr ''api_key'' then [au_credential_key a]
             else if au_kind a = PStr ''basic'' then [au_username_key a, au_password_key a]
             else [au_client_id_key a, au_client_secret_key a]) [])"

definition DECLARATIVE_KEY :: string where "DECLARATIVE_KEY = ''http_declarative''"

definition revision_connector_spec :: "revision \<Rightarrow> pyval connector_spec result" where
  "revision_connector_spec rv =
     bindR (mapR (tool_spec_for rv) (rv_tools rv)) (\<lambda>specs.
     make_connector_spec
       \<lparr>connector_key = PStr DECLARATIVE_KEY, spec_tools = map IsTool specs,
        supports_sync = PBool (rv_sync rv \<noteq> None), spec_version = PStr (int_str (rv_revision rv)),
        config_schema = pdict [(''type'', PStr ''object''), (''additionalProperties'', PBool False)],
        credential_schema = pdict [(''type'', PStr ''object''),
          (''properties'', PMap (credential_fields (rv_auth rv)))],
        supports_data_modes = PTuple (map PStr
          (if rv_sync rv \<noteq> None then [''direct'', ''hybrid'', ''stored''] else [''direct'', ''hybrid'']))\<rparr>)"

end
