(* ===== verification/DeclStorage.thy ===== *)
theory DeclStorage
  imports DeclRevision
begin

text \<open>
  The persisted form of a revision (\<open>declarative/models.py\<close>): \<open>storage_document\<close> writes plain JSON,
  \<open>from_storage_document\<close> accepts exactly that form and rebuilds every part through its constructor.
\<close>

section \<open>Writing\<close>

definition input_document :: "input_mapping \<Rightarrow> pyval result" where
  "input_document i =
     bindR (plain_json_value (PMap (im_schema i))) (\<lambda>schema.
     Inr (pdict [(''arg_name'', PStr (im_arg_name i)), (''location'', PStr (im_location i)),
                 (''target'', PStr (im_target i)), (''required'', PBool (im_required i)),
                 (''schema'', schema)]))"

definition output_document :: "output_mapping \<Rightarrow> pyval" where
  "output_document o' = pdict [(''name'', PStr (om_name o')), (''pointer'', PStr (om_pointer o'))]"

definition pagination_document :: "pagination option \<Rightarrow> pyval" where
  "pagination_document p =
     (case p of
        None \<Rightarrow> PNone
      | Some pg \<Rightarrow>
          pdict [(''max_pages'', PInt (pg_max_pages pg)), (''max_items'', PInt (pg_max_items pg)),
                 (''items_pointer'', pg_items_pointer pg), (''next_pointer'', pg_next_pointer pg),
                 (''next_query_param'', pg_next_query_param pg)])"

definition operation_document :: "operation \<Rightarrow> pyval result" where
  "operation_document p =
     bindR (mapR input_document (op_inputs p)) (\<lambda>inputs.
     Inr (pdict [(''tool_key'', PStr (op_key p)), (''mcp_name'', PStr (op_mcp p)),
                 (''description'', PStr (op_description p)), (''method'', PStr (op_method p)),
                 (''path'', PStr (op_path p)), (''input_mappings'', PList inputs),
                 (''output_mappings'', PList (map output_document (op_outputs p))),
                 (''operation_kind'', PStr (op_kind p)),
                 (''explicit_write_enabled'', PBool (op_explicit_write p)),
                 (''timeout_ms'', PInt (op_timeout p)), (''cache_ttl_seconds'', opt_int (op_cache_ttl p)),
                 (''pagination'', pagination_document (op_pagination p))]))"

definition refs_document :: "(string \<times> value_ref) list \<Rightarrow> pyval" where
  "refs_document m = pdict (map (\<lambda>(name, r). (name, PStr (value_ref_str r))) m)"

definition step_document :: "decl_step \<Rightarrow> pyval" where
  "step_document s =
     pdict [(''step_id'', PStr (st_id s)), (''operation_key'', PStr (st_operation s)),
            (''input_mappings'', refs_document (st_inputs s)),
            (''output_mappings'', pdict (map (\<lambda>(n, t). (n, PStr t)) (st_outputs s))),
            (''timeout_ms'', opt_int (st_timeout s))]"

definition tool_document :: "decl_tool \<Rightarrow> pyval result" where
  "tool_document t =
     bindR (plain_json_value (PMap (dt_input_schema t))) (\<lambda>ischema.
     bindR (plain_json_value (PMap (dt_output_schema t))) (\<lambda>oschema.
     Inr (pdict [(''tool_key'', PStr (dt_key t)), (''mcp_name'', PStr (dt_mcp t)),
                 (''description'', PStr (dt_description t)), (''input_schema'', ischema),
                 (''output_schema'', oschema), (''steps'', PList (map step_document (dt_steps t))),
                 (''result_map'', refs_document (dt_result_map t)),
                 (''cache_ttl_seconds'', opt_int (dt_cache_ttl t))])))"

definition auth_document :: "auth_scheme option \<Rightarrow> pyval" where
  "auth_document auth =
     (case auth of
        None \<Rightarrow> PNone
      | Some a \<Rightarrow>
          pdict [(''kind'', au_kind a), (''credential_key'', au_credential_key a),
                 (''header_name'', au_header_name a), (''username_key'', au_username_key a),
                 (''password_key'', au_password_key a), (''token_url'', au_token_url a),
                 (''client_id_key'', au_client_id_key a), (''client_secret_key'', au_client_secret_key a),
                 (''access_token_key'', au_access_token_key a), (''scopes'', PList (au_scopes a))])"

definition sync_document :: "sync_spec option \<Rightarrow> pyval result" where
  "sync_document sync =
     (case sync of
        None \<Rightarrow> Inr PNone
      | Some y \<Rightarrow>
          bindR (plain_json_value (PMap (sy_field_mappings y))) (\<lambda>mappings.
          Inr (pdict [(''resource_key'', PStr (sy_resource_key y)),
                      (''primary_key_pointer'', PStr (sy_primary_key y)), (''field_mappings'', mappings),
                      (''operation_key'', PStr (sy_operation_key y)),
                      (''items_pointer'', sy_items_pointer y)])))"

definition storage_document :: "revision \<Rightarrow> pyval result" where
  "storage_document rv =
     bindR (sync_document (rv_sync rv)) (\<lambda>sync.
     bindR (mapR operation_document (rv_operations rv)) (\<lambda>operations.
     bindR (mapR tool_document (rv_tools rv)) (\<lambda>tools.
     let document = pdict [(''base_url'', PStr (rv_base_url rv)),
            (''allowed_hosts'', PList (map PStr (rv_allowed_hosts rv))),
            (''auth_scheme'', auth_document (rv_auth rv)), (''sync_spec'', sync),
            (''operations'', PList operations), (''tools'', PList tools)] in
     bindR (assert_safe_declaration_value document) (\<lambda>_.
     bindR (bounded_json 0 document) (\<lambda>_. Inr document)))))"

section \<open>Reading\<close>

definition as_list :: "pyval \<Rightarrow> pyval list result" where
  "as_list v = (case v of PList vs \<Rightarrow> Inr vs | _ \<Rightarrow> Inl stored_invalid)"

definition as_mapping :: "pyval \<Rightarrow> (pyval \<times> pyval) list result" where
  "as_mapping v = (case v of PMap m \<Rightarrow> Inr m | _ \<Rightarrow> Inl stored_invalid)"

definition as_list_upto :: "nat \<Rightarrow> pyval \<Rightarrow> pyval list result" where
  "as_list_upto n v = bindR (as_list v) (\<lambda>vs. if length vs > n then Inl stored_invalid else Inr vs)"

definition AUTH_KEYS :: "string list" where
  "AUTH_KEYS = [''kind'', ''credential_key'', ''header_name'', ''username_key'', ''password_key'',
     ''token_url'', ''client_id_key'', ''client_secret_key'', ''access_token_key'', ''scopes'']"

definition read_auth :: "pyval \<Rightarrow> auth_scheme option result" where
  "read_auth raw =
     (if raw = PNone then Inr None
      else bindR (stored_object AUTH_KEYS raw) (\<lambda>m.
        bindR (non_reference (PMap m)) (\<lambda>_.
        bindR (as_list (mget_none m ''scopes'')) (\<lambda>scopes.
        bindR (make_auth_scheme
            \<lparr>au_kind = mget_none m ''kind'', au_credential_key = mget_none m ''credential_key'',
             au_header_name = mget_none m ''header_name'', au_username_key = mget_none m ''username_key'',
             au_password_key = mget_none m ''password_key'', au_token_url = mget_none m ''token_url'',
             au_client_id_key = mget_none m ''client_id_key'',
             au_client_secret_key = mget_none m ''client_secret_key'',
             au_access_token_key = mget_none m ''access_token_key'', au_scopes = scopes\<rparr>)
          (\<lambda>a. Inr (Some a))))))"

definition SYNC_KEYS :: "string list" where
  "SYNC_KEYS = [''resource_key'', ''primary_key_pointer'', ''field_mappings'', ''operation_key'',
     ''items_pointer'']"

definition read_sync :: "pyval \<Rightarrow> sync_spec option result" where
  "read_sync raw =
     (if raw = PNone then Inr None
      else bindR (stored_object SYNC_KEYS raw) (\<lambda>m.
        bindR (non_reference (PMap m)) (\<lambda>_.
        bindR (as_mapping (mget_none m ''field_mappings'')) (\<lambda>_.
        bindR (make_sync_spec (mget_none m ''resource_key'') (mget_none m ''primary_key_pointer'')
            (mget_none m ''field_mappings'') (mget_none m ''operation_key'') (mget_none m ''items_pointer''))
          (\<lambda>y. Inr (Some y))))))"

definition INPUT_KEYS :: "string list" where
  "INPUT_KEYS = [''arg_name'', ''location'', ''target'', ''required'', ''schema'']"

definition read_input :: "pyval \<Rightarrow> input_mapping result" where
  "read_input raw =
     bindR (stored_object INPUT_KEYS raw) (\<lambda>m.
     bindR (as_mapping (mget_none m ''schema'')) (\<lambda>_.
     make_input_mapping (mget_none m ''arg_name'') (mget_none m ''location'') (mget_none m ''target'')
       (mget_none m ''required'') (mget_none m ''schema'')))"

definition OUTPUT_KEYS :: "string list" where
  "OUTPUT_KEYS = [''name'', ''pointer'']"

definition read_output :: "pyval \<Rightarrow> output_mapping result" where
  "read_output raw =
     bindR (stored_object OUTPUT_KEYS raw) (\<lambda>m.
     make_output_mapping (mget_none m ''name'') (mget_none m ''pointer''))"

definition PAGINATION_KEYS :: "string list" where
  "PAGINATION_KEYS = [''max_pages'', ''max_items'', ''items_pointer'', ''next_pointer'', ''next_query_param'']"

definition read_pagination :: "pyval \<Rightarrow> pagination option result" where
  "read_pagination raw =
     (if raw = PNone then Inr None
      else bindR (stored_object PAGINATION_KEYS raw) (\<lambda>m.
        bindR (make_pagination (mget_none m ''max_pages'') (mget_none m ''max_items'')
            (mget_none m ''items_pointer'') (mget_none m ''next_pointer'') (mget_none m ''next_query_param''))
          (\<lambda>p. Inr (Some p))))"

definition OPERATION_KEYS :: "string list" where
  "OPERATION_KEYS = [''tool_key'', ''mcp_name'', ''description'', ''method'', ''path'', ''input_mappings'',
     ''output_mappings'', ''operation_kind'', ''explicit_write_enabled'', ''timeout_ms'',
     ''cache_ttl_seconds'', ''pagination'']"

definition read_operation :: "pyval \<Rightarrow> pyval \<Rightarrow> operation result" where
  "read_operation base_url raw =
     bindR (stored_object OPERATION_KEYS raw) (\<lambda>m.
     bindR (non_reference (PMap m)) (\<lambda>_.
     bindR (as_list_upto MAX_INPUT_MAPPINGS (mget_none m ''input_mappings'')) (\<lambda>raw_inputs.
     bindR (as_list_upto MAX_OUTPUT_MAPPINGS (mget_none m ''output_mappings'')) (\<lambda>raw_outputs.
     bindR (mapR read_input raw_inputs) (\<lambda>inputs.
     bindR (mapR read_output raw_outputs) (\<lambda>outputs.
     bindR (read_pagination (mget_none m ''pagination'')) (\<lambda>pg.
     make_operation
       \<lparr>ro_tool_key = mget_none m ''tool_key'', ro_mcp_name = mget_none m ''mcp_name'',
        ro_description = mget_none m ''description'', ro_method = mget_none m ''method'',
        ro_path = mget_none m ''path'', ro_inputs = inputs, ro_outputs = outputs,
        ro_kind = mget_none m ''operation_kind'',
        ro_explicit_write = mget_none m ''explicit_write_enabled'', ro_base_url = base_url,
        ro_timeout = mget_none m ''timeout_ms'', ro_cache_ttl = mget_none m ''cache_ttl_seconds'',
        ro_pagination = pg\<rparr>)))))))"

definition read_refs :: "(pyval \<times> pyval) list \<Rightarrow> (pyval \<times> value_ref) list result" where
  "read_refs m = mapR (\<lambda>(name, raw). bindR (parse_value_ref raw) (\<lambda>r. Inr (name, r))) m"

definition STEP_KEYS :: "string list" where
  "STEP_KEYS = [''step_id'', ''operation_key'', ''input_mappings'', ''output_mappings'', ''timeout_ms'']"

definition read_step :: "pyval \<Rightarrow> decl_step result" where
  "read_step raw =
     bindR (stored_object STEP_KEYS raw) (\<lambda>m.
     bindR (as_mapping (mget_none m ''input_mappings'')) (\<lambda>raw_inputs.
     bindR (as_mapping (mget_none m ''output_mappings'')) (\<lambda>_.
     bindR (non_reference (mget_none m ''step_id'')) (\<lambda>_.
     bindR (non_reference (mget_none m ''operation_key'')) (\<lambda>_.
     bindR (non_reference (mget_none m ''output_mappings'')) (\<lambda>_.
     bindR (non_reference (mget_none m ''timeout_ms'')) (\<lambda>_.
     bindR (read_refs raw_inputs) (\<lambda>inputs.
     make_step (mget_none m ''step_id'') (mget_none m ''operation_key'') inputs
       (mget_none m ''output_mappings'') (mget_none m ''timeout_ms'')))))))))"

definition TOOL_KEYS :: "string list" where
  "TOOL_KEYS = [''tool_key'', ''mcp_name'', ''description'', ''input_schema'', ''output_schema'', ''steps'',
     ''result_map'', ''cache_ttl_seconds'']"

definition read_tool_document :: "pyval \<Rightarrow> decl_tool result" where
  "read_tool_document raw =
     bindR (stored_object TOOL_KEYS raw) (\<lambda>m.
     bindR (as_mapping (mget_none m ''input_schema'')) (\<lambda>_.
     bindR (as_mapping (mget_none m ''output_schema'')) (\<lambda>_.
     bindR (as_list (mget_none m ''steps'')) (\<lambda>raw_steps.
     bindR (as_mapping (mget_none m ''result_map'')) (\<lambda>raw_results.
     bindR (non_reference (mget_none m ''description'')) (\<lambda>_.
     bindR (non_reference (mget_none m ''input_schema'')) (\<lambda>_.
     bindR (non_reference (mget_none m ''output_schema'')) (\<lambda>_.
     bindR (mapR read_step raw_steps) (\<lambda>steps.
     bindR (read_refs raw_results) (\<lambda>results.
     make_tool (mget_none m ''tool_key'') (mget_none m ''mcp_name'') (mget_none m ''description'')
       (mget_none m ''input_schema'') (mget_none m ''output_schema'') steps results
       (mget_none m ''cache_ttl_seconds''))))))))))) "

definition LEGACY_KEYS :: "string list" where
  "LEGACY_KEYS = [''base_url'', ''allowed_hosts'', ''auth_scheme'', ''sync_spec'', ''operations'']"

definition stored_document :: "pyval \<Rightarrow> (pyval \<times> pyval) list result" where
  "stored_document document =
     (case document of
        PMap m \<Rightarrow>
          (if set (map fst m) = PStr ` set LEGACY_KEYS then stored_object LEGACY_KEYS document
           else stored_object (LEGACY_KEYS @ [''tools'']) document)
      | _ \<Rightarrow> stored_object (LEGACY_KEYS @ [''tools'']) document)"

text \<open>The base URL, the hosts and the operations in their outer form.\<close>

definition document_shape :: "(pyval \<times> pyval) list \<Rightarrow> (pyval list \<times> pyval list) result" where
  "document_shape m =
     (case (mget_none m ''base_url'', mget_none m ''allowed_hosts'', mget_none m ''operations'') of
        (PStr _, PList hosts, PList operations) \<Rightarrow>
          (if \<not> list_all is_str hosts \<or> operations = [] \<or> length operations > MAX_OPERATION_COUNT
           then Inl stored_invalid else Inr (hosts, operations))
      | _ \<Rightarrow> Inl stored_invalid)"

definition read_tools :: "(pyval \<times> pyval) list \<Rightarrow> decl_tool list result" where
  "read_tools m =
     (case mget m ''tools'' of
        None \<Rightarrow> Inr []
      | Some raw \<Rightarrow>
          bindR (as_list_upto MAX_OPERATION_COUNT raw) (\<lambda>raw_tools.
          if raw_tools = [] then Inl stored_invalid else mapR read_tool_document raw_tools))"

definition from_storage_document ::
  "py_env \<Rightarrow> pyval \<Rightarrow> pyval \<Rightarrow> pyval \<Rightarrow> pyval \<Rightarrow> pyval \<Rightarrow> pyval \<Rightarrow> revision result" where
  "from_storage_document env spec_id number tenant_id connection_id status document =
     bindR (bounded_json 0 document) (\<lambda>_.
     bindR (assert_safe_declaration_value document) (\<lambda>_.
     bindR (json_size (env_float env) document) (\<lambda>size.
     if size > MAX_DOCUMENT_BYTES then Inl (spec_error ''persisted declaration exceeds size limit'')
     else bindR (stored_document document) (\<lambda>m.
          bindR (document_shape m) (\<lambda>(hosts, raw_operations).
          bindR (non_reference (mget_none m ''base_url'')) (\<lambda>_.
          bindR (non_reference (mget_none m ''allowed_hosts'')) (\<lambda>_.
          bindR (read_auth (mget_none m ''auth_scheme'')) (\<lambda>auth.
          bindR (read_sync (mget_none m ''sync_spec'')) (\<lambda>sync.
          bindR (mapR (read_operation (mget_none m ''base_url'')) raw_operations) (\<lambda>operations.
          bindR (read_tools m) (\<lambda>tools.
          make_revision env
            \<lparr>rr_spec_id = spec_id, rr_revision = number, rr_tenant_id = tenant_id,
             rr_connection_id = connection_id, rr_status = status, rr_base_url = mget_none m ''base_url'',
             rr_allowed_hosts = hosts, rr_operations = operations, rr_tools = tools, rr_auth = auth,
             rr_sync = sync\<rparr>)))))))))))"

end
