(* ===== verification/DeclFacts.thy ===== *)
theory DeclFacts
  imports DeclValues
begin

text \<open>
  Facts about the guards of \<open>DeclValues\<close>: what the declaration policy accepts, that it carries over to
  nested values and to copies, that a value without reference markers passes the stricter policy, and
  that host normalisation is stable.
\<close>

section \<open>What the declaration policy accepts\<close>

text \<open>The values a document counts: each node and each key.\<close>

fun safe_nodes :: "pyval \<Rightarrow> nat" where
  "safe_nodes (PMap m) = Suc (sum_list (map (\<lambda>(k, v). Suc (safe_nodes v)) m))"
| "safe_nodes (PList vs) = Suc (sum_list (map safe_nodes vs))"
| "safe_nodes (PTuple vs) = Suc (sum_list (map safe_nodes vs))"
| "safe_nodes _ = 1"

definition safe_key :: "nat \<Rightarrow> pyval \<Rightarrow> bool" where
  "safe_key depth k \<longleftrightarrow>
     (case k of PStr s \<Rightarrow> s \<noteq> ''$ref'' \<and> safe_string s = Inr () \<and> depth \<le> MAX_DOCUMENT_DEPTH | _ \<Rightarrow> False)"

fun safe_shape :: "nat \<Rightarrow> pyval \<Rightarrow> bool" where
  "safe_shape depth v \<longleftrightarrow> depth \<le> MAX_DOCUMENT_DEPTH \<and>
     (case v of
        PNone \<Rightarrow> True | PBool _ \<Rightarrow> True | PInt _ \<Rightarrow> True
      | PFloat f \<Rightarrow> float_finite f
      | PStr s \<Rightarrow> safe_string s = Inr ()
      | PMap m \<Rightarrow> length m \<le> MAX_PERSISTED_COLLECTION_ITEMS \<and>
          list_all (\<lambda>(k, w). safe_key (Suc depth) k \<and> safe_shape (Suc depth) w) m
      | PList vs \<Rightarrow> length vs \<le> MAX_PERSISTED_COLLECTION_ITEMS \<and> list_all (safe_shape (Suc depth)) vs
      | PTuple vs \<Rightarrow> length vs \<le> MAX_PERSISTED_COLLECTION_ITEMS \<and> list_all (safe_shape (Suc depth)) vs
      | _ \<Rightarrow> False)"

declare safe_shape.simps [simp del]

lemma safe_shape_simps [simp]:
  "safe_shape d PNone \<longleftrightarrow> d \<le> MAX_DOCUMENT_DEPTH"
  "safe_shape d (PBool b) \<longleftrightarrow> d \<le> MAX_DOCUMENT_DEPTH"
  "safe_shape d (PInt i) \<longleftrightarrow> d \<le> MAX_DOCUMENT_DEPTH"
  "safe_shape d (PFloat f) \<longleftrightarrow> d \<le> MAX_DOCUMENT_DEPTH \<and> float_finite f"
  "safe_shape d (PStr s) \<longleftrightarrow> d \<le> MAX_DOCUMENT_DEPTH \<and> safe_string s = Inr ()"
  "safe_shape d (PMap m) \<longleftrightarrow> d \<le> MAX_DOCUMENT_DEPTH \<and> length m \<le> MAX_PERSISTED_COLLECTION_ITEMS \<and>
     (\<forall>(k, w)\<in>set m. safe_key (Suc d) k \<and> safe_shape (Suc d) w)"
  "safe_shape d (PList vs) \<longleftrightarrow> d \<le> MAX_DOCUMENT_DEPTH \<and> length vs \<le> MAX_PERSISTED_COLLECTION_ITEMS \<and>
     (\<forall>w\<in>set vs. safe_shape (Suc d) w)"
  "safe_shape d (PTuple vs) \<longleftrightarrow> d \<le> MAX_DOCUMENT_DEPTH \<and> length vs \<le> MAX_PERSISTED_COLLECTION_ITEMS \<and>
     (\<forall>w\<in>set vs. safe_shape (Suc d) w)"
  "\<not> safe_shape d (PBytes bs)" "\<not> safe_shape d (PObj c a)"
  by (subst safe_shape.simps; auto simp: list_all_iff)+

lemma safe_count_Inr [simp]: "safe_count d n = Inr u \<longleftrightarrow> n \<le> 20000 \<and> d \<le> MAX_DOCUMENT_DEPTH"
  by (auto simp: safe_count_def)

lemma safe_from_iff:
  "safe_value_from d n v = Inr n' \<longleftrightarrow> safe_shape d v \<and> n' = n + safe_nodes v \<and> n' \<le> 20000"
  "n \<le> 20000 \<Longrightarrow> safe_items_from d n vs = Inr n' \<longleftrightarrow>
     (\<forall>v\<in>set vs. safe_shape d v) \<and> n' = n + sum_list (map safe_nodes vs) \<and> n' \<le> 20000"
  "n \<le> 20000 \<Longrightarrow> safe_members_from d n m = Inr n' \<longleftrightarrow>
     (\<forall>(k, w)\<in>set m. safe_key d k \<and> safe_shape d w) \<and>
     n' = n + sum_list (map (\<lambda>(k, v). Suc (safe_nodes v)) m) \<and> n' \<le> 20000"
proof (induction d n v and d n vs and d n m arbitrary: n' and n' and n'
    rule: safe_value_from_safe_items_from_safe_members_from.induct)
  case (14 d n k v m)
  show ?case
  proof (cases "safe_key d k \<and> n < 20000")
    case True
    then obtain s where k: "k = PStr s" and s: "s \<noteq> ''$ref''" "safe_string s = Inr ()" "d \<le> MAX_DOCUMENT_DEPTH"
      by (auto simp: safe_key_def split: pyval.splits)
    have count: "safe_count d (Suc n) = Inr ()" using True s by simp
    note v = 14(1) [OF k s(1) count s(2)]
    note m = 14(2) [OF k s(1) count s(2)]
    show ?thesis
    proof (cases "safe_value_from d (Suc n) v")
      case (Inl e)
      then have "\<not> (safe_shape d v \<and> Suc n + safe_nodes v \<le> 20000)" using v by fastforce
      then show ?thesis using k s count Inl by auto
    next
      case (Inr x)
      then have x: "safe_shape d v" "x = Suc n + safe_nodes v" "x \<le> 20000" using v by auto
      from m [OF Inr x(3)] show ?thesis using k s count Inr x True by (simp add: add.assoc)
    qed
  next
    case False
    then show ?thesis by (cases k) (auto simp: safe_key_def)
  qed
next
  case (12 d n v vs)
  show ?case
  proof (cases "safe_value_from d n v")
    case (Inl e)
    then have "\<not> (safe_shape d v \<and> n + safe_nodes v \<le> 20000)" using 12(1) by fastforce
    then show ?thesis using Inl by auto
  next
    case (Inr x)
    then have x: "safe_shape d v" "x = n + safe_nodes v" "x \<le> 20000" using 12(1) by auto
    from 12(2) [OF Inr x(3)] show ?thesis using Inr x by (simp add: add.assoc)
  qed
qed auto

lemma policy_iff: "assert_safe_declaration_value v = Inr u \<longleftrightarrow> safe_shape 0 v \<and> safe_nodes v \<le> 20000"
  by (auto simp: assert_safe_declaration_value_def safe_from_iff)

lemma assert_safe_code [code]:
  "assert_safe_declaration_value v =
     (if safe_shape 0 v \<and> safe_nodes v \<le> 20000 then Inr () else bindR (safe_value_from 0 0 v) (\<lambda>_. Inr ()))"
  by (simp add: policy_iff flip: assert_safe_declaration_value_def)

lemma safe_key_mono: "safe_key d k \<Longrightarrow> e \<le> d \<Longrightarrow> safe_key e k"
  by (auto simp: safe_key_def split: pyval.splits)

lemma safe_shape_mono: "safe_shape d v \<Longrightarrow> e \<le> d \<Longrightarrow> safe_shape e v"
proof (induction v arbitrary: d e rule: plain_convert.induct)
  case (1 m)
  then show ?case by (fastforce intro: safe_key_mono)
next
  case (2 vs)
  then show ?case by fastforce
next
  case (3 vs)
  then show ?case by fastforce
qed auto

lemma member_nodes: "(k, v) \<in> set m \<Longrightarrow> safe_nodes v < safe_nodes (PMap m)"
  by (induction m) auto

lemma item_nodes: "v \<in> set vs \<Longrightarrow> safe_nodes v \<le> sum_list (map safe_nodes vs)"
  by (induction vs) auto

lemma safe_member:
  assumes "assert_safe_declaration_value (PMap m) = Inr ()" and "(k, v) \<in> set m"
  shows "assert_safe_declaration_value v = Inr ()" and "\<exists>s. k = PStr s \<and> assert_safe_declaration_value k = Inr ()"
proof -
  have "safe_key (Suc 0) k" "safe_shape (Suc 0) v" "safe_nodes v \<le> 20000"
    using assms member_nodes [OF assms(2)]
    by (auto simp: policy_iff)
  then show "assert_safe_declaration_value v = Inr ()" "\<exists>s. k = PStr s \<and> assert_safe_declaration_value k = Inr ()"
    using safe_shape_mono [of "Suc 0" v 0]
    by (auto simp: policy_iff safe_key_def split: pyval.splits)
qed

lemma safe_item:
  assumes "assert_safe_declaration_value (PList vs) = Inr ()" and "v \<in> set vs"
  shows "assert_safe_declaration_value v = Inr ()"
  using assms item_nodes [OF assms(2)] safe_shape_mono [of "Suc 0" v 0]
  by (auto simp: policy_iff)

lemma safe_titem:
  assumes "assert_safe_declaration_value (PTuple vs) = Inr ()" and "v \<in> set vs"
  shows "assert_safe_declaration_value v = Inr ()"
  using assms item_nodes [OF assms(2)] safe_shape_mono [of "Suc 0" v 0]
  by (auto simp: policy_iff)

section \<open>References\<close>

fun texts :: "pyval \<Rightarrow> string list" where
  "texts (PStr s) = [s]"
| "texts (PList vs) = concat (map texts vs)"
| "texts (PTuple vs) = concat (map texts vs)"
| "texts (PMap m) = concat (map (\<lambda>(k, v). (case k of PStr s \<Rightarrow> [s] | _ \<Rightarrow> []) @ texts v) m)"
| "texts _ = []"

definition reference_free :: "pyval \<Rightarrow> bool" where
  "reference_free v \<longleftrightarrow> list_all (\<lambda>s. \<not> reference_in s) (texts v)"

lemma non_reference_intro:
  "assert_safe_declaration_value v = Inr () \<Longrightarrow> reference_free v \<Longrightarrow> non_reference v = Inr ()"
  "(\<And>v. v \<in> set vs \<Longrightarrow> assert_safe_declaration_value v = Inr () \<and> reference_free v) \<Longrightarrow>
     non_reference_items vs = Inr ()"
  "(\<And>k v. (k, v) \<in> set m \<Longrightarrow> (\<exists>s. k = PStr s \<and> assert_safe_declaration_value k = Inr () \<and> \<not> reference_in s) \<and>
       assert_safe_declaration_value v = Inr () \<and> reference_free v) \<Longrightarrow> non_reference_members m = Inr ()"
proof (induction v and vs and m rule: non_reference_non_reference_items_non_reference_members.induct)
  case (2 m)
  then have "non_reference_members m = Inr ()"
    using safe_member [OF 2(2)] by (intro 2(1)) (fastforce simp: reference_free_def list_all_iff)+
  then show ?case using 2 by simp
next
  case (3 vs)
  then have "non_reference_items vs = Inr ()"
    using safe_item [OF 3(2)] by (intro 3(1)) (fastforce simp: reference_free_def list_all_iff)+
  then show ?case using 3 by simp
next
  case (4 vs)
  then have "non_reference_items vs = Inr ()"
    using safe_titem [OF 4(2)] by (intro 4(1)) (fastforce simp: reference_free_def list_all_iff)+
  then show ?case using 4 by simp
next
  case (14 k v m)
  from 14(4) [of k v] obtain s where k: "k = PStr s" "assert_safe_declaration_value k = Inr ()"
      "\<not> reference_in s" and v: "assert_safe_declaration_value v = Inr ()" "reference_free v"
    by auto
  then have nk: "non_reference k = Inr ()" by (simp add: no_reference_def)
  have nv: "non_reference v = Inr ()" using 14(2) nk v by simp
  have "non_reference_members m = Inr ()" by (rule 14(3) [OF nk nv]) (rule 14(4), simp)
  then show ?case using nk nv by simp
qed (auto simp: reference_free_def no_reference_def)

section \<open>Copies\<close>

lemma freeze_plain [simp]: "freeze_json_value (plain_convert v) = freeze_json_value v"
  by (induction v rule: plain_convert.induct) (auto simp: comp_def)

lemma freeze_idem [simp]: "freeze_json_value (freeze_json_value v) = freeze_json_value v"
  by (induction v rule: freeze_json_value.induct) (auto simp: comp_def)

lemma plain_freeze [simp]: "plain_convert (freeze_json_value v) = plain_convert v"
  by (induction v rule: freeze_json_value.induct) (auto simp: comp_def)

lemma nodes_plain [simp]: "safe_nodes (plain_convert v) = safe_nodes v"
  by (induction v rule: plain_convert.induct) (auto simp: comp_def intro!: arg_cong [where f = sum_list])

lemma nodes_freeze [simp]: "safe_nodes (freeze_json_value v) = safe_nodes v"
  using nodes_plain [of "freeze_json_value v"] by (simp del: nodes_plain) (metis nodes_plain)

lemma shape_plain [simp]: "safe_shape d (plain_convert v) = safe_shape d v"
  by (induction v arbitrary: d rule: plain_convert.induct) auto

lemma shape_freeze [simp]: "safe_shape d (freeze_json_value v) = safe_shape d v"
  by (metis shape_plain plain_freeze)

lemma policy_plain [simp]: "assert_safe_declaration_value (plain_convert v) = Inr () \<longleftrightarrow> assert_safe_declaration_value v = Inr ()"
  by (simp add: policy_iff)

lemma policy_freeze [simp]: "assert_safe_declaration_value (freeze_json_value v) = Inr () \<longleftrightarrow> assert_safe_declaration_value v = Inr ()"
  by (simp add: policy_iff)

section \<open>Normalised host names\<close>

lemma set_split_on: "set s \<subseteq> insert c (\<Union> (set ` set (split_on c s)))"
proof (induction s)
  case (Cons x xs)
  then show ?case by (cases "split_on c xs") auto
qed simp

lemma lower_char_idem [simp]: "lower_char (lower_char c) = lower_char c"
  by (auto simp: lower_char_def ascii_upper_def of_char_of)

lemma py_lower_idem [simp]: "py_lower (py_lower s) = py_lower s"
  by (simp add: py_lower_def)

lemma lower_ascii: "cp c < 128 \<Longrightarrow> cp (lower_char c) < 128"
  by (auto simp: lower_char_def ascii_upper_def of_char_of)

lemma dropWhile_again [simp]: "dropWhile P (dropWhile P xs) = dropWhile P xs"
  by (induction xs) auto

lemma rstrip_idem [simp]: "rstrip_char c (rstrip_char c s) = rstrip_char c s"
  by (simp add: rstrip_char_def)

lemma set_rstrip: "set (rstrip_char c s) \<subseteq> set s"
  by (auto simp: rstrip_char_def dest: set_dropWhileD)

lemma rstrip_lower: "py_lower (rstrip_char CHR ''.'' (py_lower s)) = rstrip_char CHR ''.'' (py_lower s)"
proof -
  have "\<forall>c\<in>set (rstrip_char CHR ''.'' (py_lower s)). lower_char c = c"
    using set_rstrip by (fastforce simp: py_lower_def)
  then show ?thesis by (simp add: py_lower_def map_idI)
qed

lemma host_char:
  assumes "py_isalnum c \<or> c = CHR ''-'' \<or> c = CHR ''.''" and "cp c < 128"
  shows "\<not> forbidden_host_char c" "c \<noteq> CHR ''*''"
  using assms
  by (auto simp: forbidden_host_char_def py_isalnum_def ascii_alnum_def ascii_alpha_def ascii_upper_def ascii_lower_def
      ascii_digit_def py_isspace_def)

lemma normal_host_ok_iff:
  "normal_host_ok h = Inr () \<longleftrightarrow> h \<noteq> [] \<and> length h \<le> 253 \<and> ip_address h = None \<and> h \<noteq> ''localhost''
     \<and> \<not> ends_with ''.localhost'' h \<and> list_all host_label_ok (split_on CHR ''.'' h)"
  unfolding normal_host_ok_def by (simp add: not_less)

lemma normalize_host_Inr:
  assumes "normalize_declaration_host env v = Inr h"
  obtains host ascii where "idna_encode (env_idna env) host = Some ascii"
    "h = rstrip_char CHR ''.'' (py_lower ascii)" "normal_host_ok h = Inr ()"
proof (cases v)
  case (PStr host)
  show ?thesis
  proof (cases "idna_encode (env_idna env) host")
    case None
    then show ?thesis using assms unfolding PStr normalize_declaration_host_def by (simp split: if_splits)
  next
    case (Some ascii)
    then show ?thesis using assms that [OF Some] unfolding PStr normalize_declaration_host_def
      by (auto simp: Let_def split: if_splits)
  qed
qed (use assms in \<open>simp_all add: normalize_declaration_host_def\<close>)

lemma normalize_host_intro:
  assumes "h \<noteq> []" "length h \<le> 253" "CHR ''*'' \<notin> set h" "\<not> list_ex forbidden_host_char h"
    "idna_encode (env_idna env) h = Some h" "rstrip_char CHR ''.'' (py_lower h) = h" "normal_host_ok h = Inr ()"
  shows "normalize_declaration_host env (PStr h) = Inr h"
  unfolding normalize_declaration_host_def using assms by (simp add: Let_def)

lemma normal_host_chars:
  assumes "normal_host_ok h = Inr ()" and "c \<in> set h"
  shows "py_isalnum c \<or> c = CHR ''-'' \<or> c = CHR ''.''"
proof -
  have "c = CHR ''.'' \<or> (\<exists>l\<in>set (split_on CHR ''.'' h). c \<in> set l)"
    using set_split_on [of h "CHR ''.''"] assms(2) by auto
  then show ?thesis
    using assms(1) by (auto simp: normal_host_ok_iff list_all_iff host_label_ok_def)
qed

lemma idna_encode_self:
  assumes "is_ascii h" and "\<And>l. l \<in> set (split_on CHR ''.'' h) \<Longrightarrow> l \<noteq> [] \<and> length l < 64"
  shows "idna_encode idna h = Some h"
proof -
  define ls where "ls = split_on CHR ''.'' h"
  have "last ls \<in> set ls" unfolding ls_def by (rule last_in_set [OF split_on_ne])
  then have "length (last ls) < 64" using assms(2) unfolding ls_def by blast
  moreover have "\<not> list_ex (\<lambda>l. l = [] \<or> 64 \<le> length l) (butlast ls)"
    using assms(2) unfolding list_ex_iff ls_def by (meson in_set_butlastD not_le)
  ultimately show ?thesis
    unfolding idna_encode_def Let_def ls_def [symmetric] using assms(1) by simp
qed

lemma normal_host_encodes:
  assumes "normal_host_ok h = Inr ()" and "is_ascii h"
  shows "idna_encode idna h = Some h"
proof (rule idna_encode_self [OF assms(2)])
  fix l assume "l \<in> set (split_on CHR ''.'' h)"
  then have "host_label_ok l" using assms(1) unfolding normal_host_ok_iff list_all_iff by blast
  then show "l \<noteq> [] \<and> length l < 64" unfolding host_label_ok_def by simp
qed

lemma normalize_host_idem:
  assumes "normalize_declaration_host env v = Inr h"
  shows "normalize_declaration_host env (PStr h) = Inr h"
proof -
  obtain host ascii where idna: "idna_encode (env_idna env) host = Some ascii"
    and h: "h = rstrip_char CHR ''.'' (py_lower ascii)" and ok: "normal_host_ok h = Inr ()"
    using assms by (rule normalize_host_Inr)
  have "is_ascii (py_lower ascii)"
    using idna_encode_ascii [OF idna] lower_ascii by (auto simp: is_ascii_def list_all_iff py_lower_def)
  then have asc: "is_ascii h"
    using set_rstrip unfolding h by (fastforce simp: is_ascii_def list_all_iff)
  have low: "py_lower h = h" unfolding h by (rule rstrip_lower)
  have strip: "rstrip_char CHR ''.'' h = h" unfolding h by simp
  have safe: "\<not> forbidden_host_char c" "c \<noteq> CHR ''*''" if "c \<in> set h" for c
    using host_char [OF normal_host_chars [OF ok that]] asc that by (auto simp: is_ascii_def list_all_iff)
  have "\<not> list_ex forbidden_host_char h" "CHR ''*'' \<notin> set h" using safe by (auto simp: list_ex_iff)
  moreover have "h \<noteq> []" "length h \<le> 253" using ok by (auto simp: normal_host_ok_iff)
  ultimately show ?thesis
    using normal_host_encodes [OF ok asc] low strip ok by (intro normalize_host_intro) simp_all
qed

text \<open>On a value without markers the stricter policy is the policy of the whole value.\<close>

lemma non_reference_code [code]:
  "non_reference v =
     (if assert_safe_declaration_value v = Inr () \<and> reference_free v then Inr ()
      else bindR (assert_safe_declaration_value v) (\<lambda>_.
        case v of
          PStr s \<Rightarrow> no_reference s
        | PMap m \<Rightarrow> non_reference_members m
        | PList vs \<Rightarrow> non_reference_items vs
        | PTuple vs \<Rightarrow> non_reference_items vs
        | _ \<Rightarrow> Inr ()))"
proof (cases "assert_safe_declaration_value v = Inr () \<and> reference_free v")
  case True
  then show ?thesis using non_reference_intro(1) by simp
next
  case False
  have "m = bindR m (\<lambda>_. Inr ())" for m :: "unit result" by (cases m) auto
  then show ?thesis unfolding if_not_P [OF False]
    by (cases v) (simp_all only: non_reference.simps pyval.case)
qed

end
