(* ===== verification/DeclParts.thy ===== *)
theory DeclParts
  imports DeclStorage DeclFacts
begin

text \<open>
  The parts of a declaration are fixed points of their constructors (\<open>input_ok\<close>, \<open>output_ok\<close>,
  \<open>paging_ok\<close>, \<open>sync_ok\<close>, \<open>ref_ok\<close>): whatever a constructor returned, constructing again from its own
  fields returns it unchanged, and so does reading back the document written for it.
\<close>

section \<open>Persisted objects\<close>

lemma stored_object_pdict [simp]:
  "stored_object keys (pdict kvs) =
     (if set (map fst kvs) = set keys then Inr (map (\<lambda>(k, v). (PStr k, v)) kvs) else Inl stored_invalid)"
proof -
  have "set (map fst (map (\<lambda>(k, v). (PStr k, v)) kvs)) = PStr ` set (map fst kvs)"
    by (simp add: image_image case_prod_unfold)
  moreover have "PStr ` set (map fst kvs) = PStr ` set keys \<longleftrightarrow> set (map fst kvs) = set keys"
    by (rule inj_image_eq_iff) (simp add: inj_def)
  ultimately show ?thesis unfolding stored_object_def pdict_def by simp
qed

lemma mget_none_simps [simp]:
  "mget_none [] k = PNone"
  "mget_none ((PStr a, v) # m) k = (if a = k then v else mget_none m k)"
  by (simp_all add: mget_none_def)

lemma as_mapping_Inr [simp]: "as_mapping v = Inr m \<longleftrightarrow> v = PMap m"
  by (auto simp: as_mapping_def split: pyval.splits)

lemma as_list_Inr [simp]: "as_list v = Inr vs \<longleftrightarrow> v = PList vs"
  by (auto simp: as_list_def split: pyval.splits)

lemma as_list_upto_Inr [simp]: "as_list_upto n v = Inr vs \<longleftrightarrow> v = PList vs \<and> length vs \<le> n"
  by (cases v) (auto simp: as_list_upto_def as_list_def)

section \<open>Frozen mappings\<close>

definition is_frozen :: "(pyval \<times> pyval) list \<Rightarrow> bool" where
  "is_frozen m \<longleftrightarrow> freeze_json_value (PMap m) = PMap m"

lemma frozen_mapping_PMap [simp]:
  "frozen_mapping (PMap m) = Inr f \<longleftrightarrow> assert_safe_declaration_value (PMap m) = Inr () \<and>
     PMap f = freeze_json_value (PMap m)"
  by (auto simp: frozen_mapping_def)

lemma frozen_mapping_frozen:
  assumes "frozen_mapping v = Inr f"
  shows "is_frozen f \<and> assert_safe_declaration_value (PMap f) = Inr ()"
proof (cases v)
  case (PMap m)
  then have "assert_safe_declaration_value (PMap m) = Inr ()" "PMap f = freeze_json_value (PMap m)"
    using assms by simp_all
  then show ?thesis unfolding is_frozen_def by (metis freeze_idem policy_freeze)
next
  case PNone
  then show ?thesis using assms 
    by (auto simp: frozen_mapping_def is_frozen_def policy_iff)
qed (use assms in \<open>simp_all add: frozen_mapping_def\<close>)

text \<open>The plain copy of a frozen mapping freezes back to it.\<close>

lemma frozen_of_plain:
  assumes "is_frozen m" and "plain_json_value (PMap m) = Inr p"
  shows "\<exists>n. p = PMap n \<and> frozen_mapping (PMap n) = Inr m"
proof -
  have safe: "assert_safe_declaration_value (PMap m) = Inr ()" and p: "p = plain_convert (PMap m)"
    using assms(2) by (simp_all add: plain_json_value_def Let_def)
  obtain n where n: "p = PMap n" using p by simp
  have "freeze_json_value p = PMap m" using assms(1) p unfolding is_frozen_def by (metis freeze_plain)
  then have "frozen_mapping (PMap n) = Inr m"
    using safe p n by (metis frozen_mapping_PMap policy_plain)
  then show ?thesis using n by blast
qed

section \<open>Input and output mappings\<close>

lemma make_input_mapping_Inr:
  "make_input_mapping a l t r s = Inr i \<longleftrightarrow>
     a = PStr (im_arg_name i) \<and> ident_re (im_arg_name i) \<and> l = PStr (im_location i) \<and>
     im_location i \<in> set ALLOWED_MAPPING_LOCATIONS \<and> t = PStr (im_target i) \<and>
     target_ok (im_location i) (im_target i) = Inr () \<and> r = PBool (im_required i) \<and>
     frozen_mapping s = Inr (im_schema i) \<and> assert_safe_declaration_value (PMap (im_schema i)) = Inr ()"
  by (cases i) (auto simp: make_input_mapping_def)

lemma make_output_mapping_Inr:
  "make_output_mapping n p = Inr m \<longleftrightarrow>
     n = PStr (om_name m) \<and> ident_re (om_name m) \<and> p = PStr (om_pointer m) \<and>
     (\<exists>ts. pointer_tokens (PStr (om_pointer m)) = Inr ts)"
  by (cases m) (auto simp: make_output_mapping_def)


lemma frozen_mapping_again: "frozen_mapping v = Inr f \<Longrightarrow> frozen_mapping (PMap f) = Inr f"
  using frozen_mapping_frozen [of v f] by (simp add: is_frozen_def)

definition input_ok :: "input_mapping \<Rightarrow> bool" where
  "input_ok i \<longleftrightarrow> make_input_mapping (PStr (im_arg_name i)) (PStr (im_location i)) (PStr (im_target i))
     (PBool (im_required i)) (PMap (im_schema i)) = Inr i"

definition output_ok :: "output_mapping \<Rightarrow> bool" where
  "output_ok m \<longleftrightarrow> make_output_mapping (PStr (om_name m)) (PStr (om_pointer m)) = Inr m"

lemma make_input_ok: "make_input_mapping a l t r s = Inr i \<Longrightarrow> input_ok i"
  by (auto simp: input_ok_def make_input_mapping_Inr simp del: frozen_mapping_PMap intro: frozen_mapping_again)

lemma make_output_ok: "make_output_mapping n p = Inr m \<Longrightarrow> output_ok m"
  by (auto simp: output_ok_def make_output_mapping_Inr)

lemma read_input_document:
  assumes "input_ok i" and "input_document i = Inr d"
  shows "read_input d = Inr i"
proof -
  obtain p where p: "plain_json_value (PMap (im_schema i)) = Inr p"
    and d: "d = pdict [(''arg_name'', PStr (im_arg_name i)), (''location'', PStr (im_location i)),
                 (''target'', PStr (im_target i)), (''required'', PBool (im_required i)), (''schema'', p)]"
    using assms(2) by (auto simp: input_document_def)
  have ok: "frozen_mapping (PMap (im_schema i)) = Inr (im_schema i)"
    using assms(1) unfolding input_ok_def make_input_mapping_Inr by blast
  then obtain n where n: "p = PMap n" "frozen_mapping (PMap n) = Inr (im_schema i)"
    using frozen_of_plain [OF _ p] frozen_mapping_frozen by blast
  show ?thesis
    using assms(1) n unfolding d read_input_def input_ok_def
    by (auto simp: INPUT_KEYS_def make_input_mapping_Inr simp del: frozen_mapping_PMap)
qed

lemma read_output_document: "output_ok m \<Longrightarrow> read_output (output_document m) = Inr m"
  by (simp add: read_output_def output_document_def OUTPUT_KEYS_def output_ok_def)


section \<open>Pagination, authentication and synchronisation\<close>

definition paging_ok :: "pagination \<Rightarrow> bool" where
  "paging_ok g \<longleftrightarrow> make_pagination (PInt (pg_max_pages g)) (PInt (pg_max_items g)) (pg_items_pointer g)
     (pg_next_pointer g) (pg_next_query_param g) = Inr g"

definition sync_ok :: "sync_spec \<Rightarrow> bool" where
  "sync_ok y \<longleftrightarrow> make_sync_spec (PStr (sy_resource_key y)) (PStr (sy_primary_key y))
     (PMap (sy_field_mappings y)) (PStr (sy_operation_key y)) (sy_items_pointer y) = Inr y"

lemma make_pagination_ok: "make_pagination a b c d e = Inr g \<Longrightarrow> paging_ok g"
  by (auto simp: paging_ok_def make_pagination_def)

lemma read_pagination_document:
  assumes "\<And>g. pg = Some g \<Longrightarrow> paging_ok g"
  shows "read_pagination (pagination_document pg) = Inr pg"
proof (cases pg)
  case (Some g)
  then have "paging_ok g" using assms by blast
  then show ?thesis
    unfolding Some read_pagination_def pagination_document_def pdict_def paging_ok_def
    by (simp add: PAGINATION_KEYS_def stored_object_def)
qed (simp add: read_pagination_def pagination_document_def)

lemma make_sync_spec_Inr:
  "make_sync_spec r pk fm k ip = Inr y \<longleftrightarrow>
     r = PStr (sy_resource_key y) \<and> ident_re (sy_resource_key y) \<and> pk = PStr (sy_primary_key y) \<and>
     (\<exists>ts. pointer_tokens pk = Inr ts) \<and> frozen_mapping fm = Inr (sy_field_mappings y) \<and>
     sy_field_mappings y \<noteq> [] \<and> length (sy_field_mappings y) \<le> MAX_OUTPUT_MAPPINGS \<and>
     (\<forall>e\<in>set (sy_field_mappings y). field_mapping_ok e = Inr ()) \<and>
     k = PStr (sy_operation_key y) \<and> ident_re (sy_operation_key y) \<and> ip = sy_items_pointer y \<and>
     (truthy ip \<longrightarrow> (\<exists>ts. pointer_tokens ip = Inr ts))"
  unfolding make_sync_spec_def
  by (cases y; cases "truthy ip") (auto simp: not_less simp del: frozen_mapping_PMap)

lemma make_sync_ok: "make_sync_spec r pk fm k ip = Inr y \<Longrightarrow> sync_ok y"
  unfolding sync_ok_def make_sync_spec_Inr using frozen_mapping_again by blast

lemma read_sync_document:
  assumes "\<And>y. sync = Some y \<Longrightarrow> sync_ok y" and "sync_document sync = Inr d"
    and "sync \<noteq> None \<Longrightarrow> non_reference d = Inr ()"
  shows "read_sync d = Inr sync"
proof (cases sync)
  case None
  then show ?thesis using assms(2) by (simp add: sync_document_def read_sync_def)
next
  case (Some y)
  obtain p where p: "plain_json_value (PMap (sy_field_mappings y)) = Inr p"
    and d: "d = pdict [(''resource_key'', PStr (sy_resource_key y)),
       (''primary_key_pointer'', PStr (sy_primary_key y)), (''field_mappings'', p),
       (''operation_key'', PStr (sy_operation_key y)), (''items_pointer'', sy_items_pointer y)]"
    using assms(2) Some by (auto simp: sync_document_def)
  have ok: "sync_ok y" using assms(1) Some by blast
  then have "frozen_mapping (PMap (sy_field_mappings y)) = Inr (sy_field_mappings y)"
    unfolding sync_ok_def make_sync_spec_Inr by blast
  then obtain n where n: "p = PMap n" "frozen_mapping (PMap n) = Inr (sy_field_mappings y)"
    using frozen_of_plain [OF _ p] frozen_mapping_frozen by blast
  have "make_sync_spec (PStr (sy_resource_key y)) (PStr (sy_primary_key y)) (PMap n)
      (PStr (sy_operation_key y)) (sy_items_pointer y) = Inr y"
    using ok n(2) unfolding sync_ok_def make_sync_spec_Inr by blast
  moreover have "non_reference d = Inr ()" using assms(3) Some by simp
  ultimately show ?thesis
    using n Some unfolding d read_sync_def pdict_def
    by (simp add: SYNC_KEYS_def stored_object_def del: frozen_mapping_PMap)
qed

lemma read_auth_document:
  assumes "\<And>a. auth = Some a \<Longrightarrow> make_auth_scheme a = Inr a"
    and "auth \<noteq> None \<Longrightarrow> non_reference (auth_document auth) = Inr ()"
  shows "read_auth (auth_document auth) = Inr auth"
proof (cases auth)
  case (Some a)
  then have "make_auth_scheme a = Inr a" "non_reference (auth_document (Some a)) = Inr ()"
    using assms by auto
  then show ?thesis
    unfolding Some auth_document_def read_auth_def pdict_def
    by (cases a) (simp add: AUTH_KEYS_def stored_object_def del: non_reference.simps)
qed (simp add: auth_document_def read_auth_def)

section \<open>References, steps and tools\<close>

lemma first_rest_no: "first_rest f r n s \<Longrightarrow> \<not> f c \<Longrightarrow> \<not> r c \<Longrightarrow> c \<notin> set s"
  using first_rest_chars by metis

lemma dollar_chars: "\<not> ascii_alpha CHR ''$''" "\<not> ident_rest CHR ''$''" "\<not> step_rest CHR ''$''"
  "\<not> ascii_alpha CHR ''.''" "\<not> step_rest CHR ''.''"
  by code_simp+

lemma reference_dollar: "reference_in s \<Longrightarrow> CHR ''$'' \<in> set s"
  by (auto simp: reference_in_def VALUE_REFERENCE_MARKERS_def contains_iff dest!: set_mono_sublist)

lemma ident_no_reference: "ident_re s \<Longrightarrow> \<not> reference_in s"
  using reference_dollar first_rest_no dollar_chars unfolding ident_re_def by metis

lemma step_ident_no_reference: "step_identifier_re s \<Longrightarrow> \<not> reference_in s"
  using reference_dollar first_rest_no dollar_chars unfolding step_identifier_re_def by metis

definition ref_ok :: "value_ref \<Rightarrow> bool" where
  "ref_ok r \<longleftrightarrow> make_value_ref (vr_source r) (vr_field r) (vr_step r) = Inr r"

lemma make_value_ref_ok: "make_value_ref a b c = Inr r \<Longrightarrow> ref_ok r"
  by (auto simp: make_value_ref_def ref_ok_def split: if_splits option.splits)

lemma parse_value_ref_ok: "parse_value_ref v = Inr r \<Longrightarrow> ref_ok r"
  by (auto simp: parse_value_ref_def split: pyval.splits if_splits prod.splits intro: make_value_ref_ok)

lemma partition_at_first: "c \<notin> set u \<Longrightarrow> partition_at c (u @ c # v) = (u, True, v)"
  by (auto simp: partition_at_def takeWhile_append dropWhile_append)

lemma parse_value_ref_str:
  assumes "ref_ok r"
  shows "parse_value_ref (PStr (value_ref_str r)) = Inr r"
proof (cases "vr_source r = ''input''")
  case True
  then have "vr_step r = None" "ident_re (vr_field r)"
    using assms by (auto simp: ref_ok_def make_value_ref_def split: if_splits)
  then show ?thesis
    using assms True by (simp add: parse_value_ref_def value_ref_str_def ref_ok_def)
next
  case False
  then obtain s where s: "vr_source r = ''steps''" "vr_step r = Some s" "step_identifier_re s" "ident_re (vr_field r)"
    using assms by (auto simp: ref_ok_def make_value_ref_def split: if_splits option.splits)
  have "CHR ''.'' \<notin> set s"
    using s(3) first_rest_no dollar_chars unfolding step_identifier_re_def by metis
  then have "partition_at CHR ''.'' (s @ CHR ''.'' # vr_field r) = (s, True, vr_field r)"
    by (rule partition_at_first)
  then show ?thesis
    using assms s by (simp add: parse_value_ref_def value_ref_str_def ref_ok_def)
qed

section \<open>Steps\<close>

definition py_names :: "(string \<times> 'a) list \<Rightarrow> (pyval \<times> 'a) list" where
  "py_names m = map (\<lambda>(n, x). (PStr n, x)) m"

lemma value_ref_mapping_Inr [simp]:
  "value_ref_mapping label m = Inr rs \<longleftrightarrow> m = py_names rs \<and> (\<forall>(n, r)\<in>set rs. ident_re n)"
  unfolding value_ref_mapping_def
proof (induction m arbitrary: rs)
  case Nil
  then show ?case by (auto simp: py_names_def)
next
  case (Cons p m)
  obtain k r where p: "p = (k, r)" by fastforce
  show ?case unfolding p by (cases rs) (auto simp: Cons py_names_def)
qed

lemma string_mapping_Inr [simp]:
  "string_mapping a b v = Inr m \<longleftrightarrow>
     v = PMap (py_names (map (\<lambda>(n, t). (n, PStr t)) m)) \<and> (\<forall>(n, t)\<in>set m. ident_re n \<and> ident_re t)"
proof (cases v)
  case (PMap l)
  have "mapR (\<lambda>(name, target). bindR (ident_of a name) (\<lambda>n. bindR (ident_of b target) (\<lambda>t. Inr (n, t)))) l = Inr m
     \<longleftrightarrow> l = py_names (map (\<lambda>(n, t). (n, PStr t)) m) \<and> (\<forall>(n, t)\<in>set m. ident_re n \<and> ident_re t)"
  proof (induction l arbitrary: m)
    case Nil
    then show ?case by (auto simp: py_names_def)
  next
    case (Cons p l)
    obtain k r where p: "p = (k, r)" by fastforce
    show ?case unfolding p by (cases m) (auto simp: Cons py_names_def)
  qed
  then show ?thesis unfolding PMap by (simp add: string_mapping_def)
qed (simp_all add: string_mapping_def)

definition step_ok :: "decl_step \<Rightarrow> bool" where
  "step_ok s \<longleftrightarrow>
     make_step (PStr (st_id s)) (PStr (st_operation s)) (py_names (st_inputs s))
       (PMap (py_names (map (\<lambda>(n, t). (n, PStr t)) (st_outputs s)))) (opt_int (st_timeout s)) = Inr s \<and>
     (\<forall>(n, r)\<in>set (st_inputs s). ref_ok r)"

lemma make_step_Inr:
  "make_step i k ins outs t = Inr s \<longleftrightarrow>
     i = PStr (st_id s) \<and> step_identifier_re (st_id s) \<and> k = PStr (st_operation s) \<and> ident_re (st_operation s) \<and>
     ins = py_names (st_inputs s) \<and> (\<forall>(n, r)\<in>set (st_inputs s). ident_re n) \<and>
     outs = PMap (py_names (map (\<lambda>(n, t). (n, PStr t)) (st_outputs s))) \<and>
     (\<forall>(n, t)\<in>set (st_outputs s). ident_re n \<and> ident_re t) \<and>
     length (st_inputs s) \<le> MAX_INPUT_MAPPINGS \<and> st_outputs s \<noteq> [] \<and> length (st_outputs s) \<le> MAX_OUTPUT_MAPPINGS \<and>
     t = opt_int (st_timeout s) \<and> (\<forall>i. st_timeout s = Some i \<longrightarrow> 1 \<le> i \<and> i \<le> OPERATION_TIMEOUT_MS)"
  unfolding make_step_def by (cases s) (auto simp: not_less)

lemma make_step_ok:
  "make_step i k ins outs t = Inr s \<Longrightarrow> (\<forall>(n, r)\<in>set ins. ref_ok r) \<Longrightarrow> step_ok s"
  by (auto simp: step_ok_def make_step_Inr py_names_def)

lemma pdict_names: "pdict m = PMap (py_names m)"
  by (simp add: pdict_def py_names_def)

lemma read_refs_document:
  "(\<forall>(n, r)\<in>set m. ref_ok r) \<Longrightarrow>
     read_refs (py_names (map (\<lambda>(n, r). (n, PStr (value_ref_str r))) m)) = Inr (py_names m)"
  unfolding read_refs_def py_names_def
  by (induction m) (auto simp: parse_value_ref_str)

lemma reference_free_simps [simp]:
  "reference_free (PStr s) \<longleftrightarrow> \<not> reference_in s" "reference_free PNone" "reference_free (PInt i)"
  "reference_free (PBool b)"
  "reference_free (PList vs) \<longleftrightarrow> (\<forall>v\<in>set vs. reference_free v)"
  "reference_free (PMap m) \<longleftrightarrow> (\<forall>(k, v)\<in>set m. (\<forall>s. k = PStr s \<longrightarrow> \<not> reference_in s) \<and> reference_free v)"
  by (auto simp: reference_free_def list_all_iff split: pyval.splits)

lemma reference_free_opt_int [simp]: "reference_free (opt_int t)"
  by (cases t) (simp_all add: opt_int_def)

lemma safe_pdict:
  assumes "assert_safe_declaration_value (pdict kvs) = Inr ()"
  shows "\<forall>v\<in>set (map snd kvs). assert_safe_declaration_value v = Inr ()"
proof
  fix v assume "v \<in> set (map snd kvs)"
  then obtain k where "(k, v) \<in> set kvs" by auto
  then have "(PStr k, v) \<in> set (map (\<lambda>(k, v). (PStr k, v)) kvs)" by force
  then show "assert_safe_declaration_value v = Inr ()"
    using safe_member(1) assms unfolding pdict_def by blast
qed

lemma step_document_parts:
  assumes "step_ok s" and "assert_safe_declaration_value (step_document s) = Inr ()"
  shows "non_reference (PStr (st_id s)) = Inr ()" "non_reference (PStr (st_operation s)) = Inr ()"
    "non_reference (pdict (map (\<lambda>(n, t). (n, PStr t)) (st_outputs s))) = Inr ()"
    "non_reference (opt_int (st_timeout s)) = Inr ()"
proof -
  have ids: "step_identifier_re (st_id s)" "ident_re (st_operation s)"
     "\<forall>(n, t)\<in>set (st_outputs s). ident_re n \<and> ident_re t"
    using assms(1) unfolding step_ok_def make_step_Inr by blast+
  have free: "reference_free (PStr (st_id s))" "reference_free (PStr (st_operation s))"
     "reference_free (pdict (map (\<lambda>(n, t). (n, PStr t)) (st_outputs s)))"
    using ids by (auto simp: pdict_def ident_no_reference step_ident_no_reference)
  have "assert_safe_declaration_value (PStr (st_id s)) = Inr () \<and>
      assert_safe_declaration_value (PStr (st_operation s)) = Inr () \<and>
      assert_safe_declaration_value (pdict (map (\<lambda>(n, t). (n, PStr t)) (st_outputs s))) = Inr () \<and>
      assert_safe_declaration_value (opt_int (st_timeout s)) = Inr ()"
    using safe_pdict [OF assms(2) [unfolded step_document_def]] by simp
  then show "non_reference (PStr (st_id s)) = Inr ()" "non_reference (PStr (st_operation s)) = Inr ()"
    "non_reference (pdict (map (\<lambda>(n, t). (n, PStr t)) (st_outputs s))) = Inr ()"
    "non_reference (opt_int (st_timeout s)) = Inr ()"
    using free non_reference_intro(1) reference_free_opt_int by blast+
qed

lemma stored_object_fields:
  "set (map fst kvs) = set keys \<Longrightarrow> stored_object keys (pdict kvs) = Inr (py_names kvs)"
  by (simp add: py_names_def)

lemma mget_none_names [simp]:
  "mget_none (py_names ((a, v) # m)) k = (if a = k then v else mget_none (py_names m) k)"
  by (simp add: py_names_def)

lemma read_step_document:
  assumes "step_ok s" and "assert_safe_declaration_value (step_document s) = Inr ()"
  shows "read_step (step_document s) = Inr s"
proof -
  have ok: "make_step (PStr (st_id s)) (PStr (st_operation s)) (py_names (st_inputs s))
       (PMap (py_names (map (\<lambda>(n, t). (n, PStr t)) (st_outputs s)))) (opt_int (st_timeout s)) = Inr s"
    and refs: "\<forall>(n, r)\<in>set (st_inputs s). ref_ok r"
    using assms(1) unfolding step_ok_def by blast+
  define fields where "fields = py_names
     [(''step_id'', PStr (st_id s)), (''operation_key'', PStr (st_operation s)),
      (''input_mappings'', refs_document (st_inputs s)),
      (''output_mappings'', pdict (map (\<lambda>(n, t). (n, PStr t)) (st_outputs s))),
      (''timeout_ms'', opt_int (st_timeout s))]"
  have fs: "stored_object STEP_KEYS (step_document s) = Inr fields"
    unfolding step_document_def fields_def by (rule stored_object_fields) (simp add: STEP_KEYS_def)
  have get: "mget_none fields ''step_id'' = PStr (st_id s)" "mget_none fields ''operation_key'' = PStr (st_operation s)"
    "mget_none fields ''input_mappings'' = PMap (py_names (map (\<lambda>(n, r). (n, PStr (value_ref_str r))) (st_inputs s)))"
    "mget_none fields ''output_mappings'' = PMap (py_names (map (\<lambda>(n, t). (n, PStr t)) (st_outputs s)))"
    "mget_none fields ''timeout_ms'' = opt_int (st_timeout s)"
    unfolding fields_def refs_document_def pdict_names by simp_all
  show ?thesis
    unfolding read_step_def fs bindR.simps get
    using step_document_parts [OF assms, unfolded pdict_names] read_refs_document [OF refs] ok
    by (simp add: as_mapping_def)
qed

section \<open>Tools\<close>

lemma tool_wiring_names: "tool_wiring i o' s m = Inr rs \<Longrightarrow> m = py_names rs \<and> (\<forall>(n, r)\<in>set rs. ident_re n)"
  by (auto simp: tool_wiring_def)

lemma make_tool_Inr:
  "make_tool k m d i o' steps results ttl = Inr t \<longleftrightarrow>
     k = PStr (dt_key t) \<and> ident_re (dt_key t) \<and> m = PStr (dt_mcp t) \<and> ident_re (dt_mcp t) \<and>
     d = PStr (dt_description t) \<and> length (dt_description t) \<le> 512 \<and>
     frozen_mapping i = Inr (dt_input_schema t) \<and> frozen_mapping o' = Inr (dt_output_schema t) \<and>
     steps = dt_steps t \<and>
     tool_wiring (dt_input_schema t) (dt_output_schema t) (dt_steps t) results = Inr (dt_result_map t) \<and>
     ttl = opt_int (dt_cache_ttl t) \<and> (\<forall>n. dt_cache_ttl t = Some n \<longrightarrow> 0 \<le> n \<and> n \<le> 86400)"
  unfolding make_tool_def by (cases t) (auto simp del: frozen_mapping_PMap)

definition tool_ok :: "decl_tool \<Rightarrow> bool" where
  "tool_ok t \<longleftrightarrow>
     make_tool (PStr (dt_key t)) (PStr (dt_mcp t)) (PStr (dt_description t)) (PMap (dt_input_schema t))
       (PMap (dt_output_schema t)) (dt_steps t) (py_names (dt_result_map t)) (opt_int (dt_cache_ttl t)) = Inr t \<and>
     (\<forall>s\<in>set (dt_steps t). step_ok s) \<and> (\<forall>(n, r)\<in>set (dt_result_map t). ref_ok r)"

lemma make_tool_ok:
  assumes "make_tool k m d i o' steps results ttl = Inr t"
    and "\<forall>s\<in>set steps. step_ok s" and "\<forall>(n, r)\<in>set results. ref_ok r"
  shows "tool_ok t"
proof -
  have ws: "tool_wiring (dt_input_schema t) (dt_output_schema t) (dt_steps t) results = Inr (dt_result_map t)"
    and fr: "frozen_mapping i = Inr (dt_input_schema t)" "frozen_mapping o' = Inr (dt_output_schema t)"
    using assms(1) unfolding make_tool_Inr by blast+
  have rs: "results = py_names (dt_result_map t)" using tool_wiring_names [OF ws] by blast
  have "\<forall>(n, r)\<in>set (dt_result_map t). ref_ok r" using assms(3) unfolding rs by (auto simp: py_names_def)
  then show ?thesis
    using assms(1,2) frozen_mapping_again fr rs unfolding tool_ok_def make_tool_Inr by blast
qed

text \<open>Where no value reference may stand in a tool: its description and its schemas.\<close>

definition tool_ordinary :: "decl_tool \<Rightarrow> pyval list" where
  "tool_ordinary t = [PStr (dt_description t), PMap (dt_input_schema t), PMap (dt_output_schema t)]"

lemma texts_plain [simp]: "texts (plain_convert v) = texts v"
proof (induction v rule: plain_convert.induct)
  case (1 m)
  then have "map (\<lambda>x. (case fst x of PStr s \<Rightarrow> [s] | _ \<Rightarrow> []) @ texts (plain_convert (snd x))) m =
      map (\<lambda>x. (case fst x of PStr s \<Rightarrow> [s] | _ \<Rightarrow> []) @ texts (snd x)) m"
    by (intro map_cong) auto
  then have "concat (map (\<lambda>x. (case fst x of PStr s \<Rightarrow> [s] | _ \<Rightarrow> []) @ texts (plain_convert (snd x))) m) =
      concat (map (\<lambda>x. (case fst x of PStr s \<Rightarrow> [s] | _ \<Rightarrow> []) @ texts (snd x)) m)"
    by (rule arg_cong)
  then show ?case by (simp add: comp_def case_prod_unfold)
qed (auto simp: comp_def intro!: arg_cong [where f = concat] map_cong)

lemma reference_free_plain [simp]: "reference_free (plain_convert v) \<longleftrightarrow> reference_free v"
  by (simp add: reference_free_def)

lemma plain_json_Inr: "plain_json_value v = Inr p \<Longrightarrow> p = plain_convert v \<and> assert_safe_declaration_value p = Inr ()"
  by (auto simp: plain_json_value_def Let_def)

lemma mapR_inverse:
  assumes "mapR f xs = Inr ys" and "\<And>x y. x \<in> set xs \<Longrightarrow> f x = Inr y \<Longrightarrow> y \<in> set ys \<Longrightarrow> g y = Inr x"
  shows "mapR g ys = Inr xs"
  using assms
proof (induction xs arbitrary: ys)
  case Nil
  then show ?case by simp
next
  case (Cons x xs)
  then obtain y zs where ys: "ys = y # zs" "f x = Inr y" "mapR f xs = Inr zs" by auto
  have "mapR g zs = Inr xs" using Cons.IH [OF ys(3)] Cons.prems(2) ys(1) by simp
  moreover have "g y = Inr x" using Cons.prems(2) ys by simp
  ultimately show ?case using ys by simp
qed

lemma mapR_map: "mapR g (map f xs) = mapR (\<lambda>x. g (f x)) xs"
  by (induction xs) auto

lemma read_tool_document_written:
  assumes ok: "tool_ok t" and doc: "tool_document t = Inr d"
    and safe: "assert_safe_declaration_value d = Inr ()"
    and free: "\<forall>v\<in>set (tool_ordinary t). reference_free v"
  shows "read_tool_document d = Inr t"
proof -
  obtain pi po where pi: "plain_json_value (PMap (dt_input_schema t)) = Inr pi"
    and po: "plain_json_value (PMap (dt_output_schema t)) = Inr po"
    and d: "d = pdict [(''tool_key'', PStr (dt_key t)), (''mcp_name'', PStr (dt_mcp t)),
                 (''description'', PStr (dt_description t)), (''input_schema'', pi),
                 (''output_schema'', po), (''steps'', PList (map step_document (dt_steps t))),
                 (''result_map'', refs_document (dt_result_map t)),
                 (''cache_ttl_seconds'', opt_int (dt_cache_ttl t))]"
    using doc by (auto simp: tool_document_def)
  have tool: "make_tool (PStr (dt_key t)) (PStr (dt_mcp t)) (PStr (dt_description t)) (PMap (dt_input_schema t))
       (PMap (dt_output_schema t)) (dt_steps t) (py_names (dt_result_map t)) (opt_int (dt_cache_ttl t)) = Inr t"
    and steps: "\<forall>s\<in>set (dt_steps t). step_ok s" and refs: "\<forall>(n, r)\<in>set (dt_result_map t). ref_ok r"
    using ok unfolding tool_ok_def by blast+
  have fr: "frozen_mapping (PMap (dt_input_schema t)) = Inr (dt_input_schema t)"
    "frozen_mapping (PMap (dt_output_schema t)) = Inr (dt_output_schema t)"
    using tool unfolding make_tool_Inr by blast+
  obtain ni where ni: "pi = PMap ni" "frozen_mapping (PMap ni) = Inr (dt_input_schema t)"
    using frozen_of_plain [OF _ pi] frozen_mapping_frozen [OF fr(1)] by blast
  obtain no where no: "po = PMap no" "frozen_mapping (PMap no) = Inr (dt_output_schema t)"
    using frozen_of_plain [OF _ po] frozen_mapping_frozen [OF fr(2)] by blast
  have made: "make_tool (PStr (dt_key t)) (PStr (dt_mcp t)) (PStr (dt_description t)) (PMap ni)
       (PMap no) (dt_steps t) (py_names (dt_result_map t)) (opt_int (dt_cache_ttl t)) = Inr t"
    using tool ni(2) no(2) unfolding make_tool_Inr by blast
  have parts: "assert_safe_declaration_value (PStr (dt_description t)) = Inr ()"
    "assert_safe_declaration_value (PList (map step_document (dt_steps t))) = Inr ()"
    using safe_pdict [OF safe [unfolded d]] by simp_all
  have nr: "non_reference (PStr (dt_description t)) = Inr ()" "non_reference pi = Inr ()" "non_reference po = Inr ()"
    using free plain_json_Inr [OF pi] plain_json_Inr [OF po] parts(1)
    by (auto simp: tool_ordinary_def simp del: reference_free_simps plain_convert.simps non_reference.simps
        intro!: non_reference_intro(1))
  have "read_step (step_document s) = Inr s" if "s \<in> set (dt_steps t)" for s
    using that steps safe_item [OF parts(2)] by (intro read_step_document) auto
  then have rs: "mapR read_step (map step_document (dt_steps t)) = Inr (dt_steps t)"
    by (simp add: mapR_map mapR_total [where g = "\<lambda>x. x", simplified])
  define fields where "fields = py_names [(''tool_key'', PStr (dt_key t)), (''mcp_name'', PStr (dt_mcp t)),
                 (''description'', PStr (dt_description t)), (''input_schema'', pi),
                 (''output_schema'', po), (''steps'', PList (map step_document (dt_steps t))),
                 (''result_map'', refs_document (dt_result_map t)),
                 (''cache_ttl_seconds'', opt_int (dt_cache_ttl t))]"
  have fs: "stored_object TOOL_KEYS d = Inr fields"
    unfolding d fields_def by (rule stored_object_fields) (simp add: TOOL_KEYS_def)
  have get: "mget_none fields ''tool_key'' = PStr (dt_key t)" "mget_none fields ''mcp_name'' = PStr (dt_mcp t)"
    "mget_none fields ''description'' = PStr (dt_description t)"
    "mget_none fields ''input_schema'' = pi" "mget_none fields ''output_schema'' = po"
    "mget_none fields ''steps'' = PList (map step_document (dt_steps t))"
    "mget_none fields ''result_map'' = PMap (py_names (map (\<lambda>(n, r). (n, PStr (value_ref_str r))) (dt_result_map t)))"
    "mget_none fields ''cache_ttl_seconds'' = opt_int (dt_cache_ttl t)"
    unfolding fields_def refs_document_def pdict_names by simp_all
  show ?thesis
    unfolding read_tool_document_def fs bindR.simps get
    using nr rs made read_refs_document [OF refs] unfolding ni(1) no(1)
    by (simp add: as_mapping_def as_list_def del: non_reference.simps)
qed

section \<open>Operations\<close>

definition raw_of_operation :: "operation \<Rightarrow> raw_operation" where
  "raw_of_operation p =
     \<lparr>ro_tool_key = PStr (op_key p), ro_mcp_name = PStr (op_mcp p), ro_description = PStr (op_description p),
      ro_method = PStr (op_method p), ro_path = PStr (op_path p), ro_inputs = op_inputs p,
      ro_outputs = op_outputs p, ro_kind = PStr (op_kind p), ro_explicit_write = PBool (op_explicit_write p),
      ro_base_url = PStr (op_base_url p), ro_timeout = PInt (op_timeout p),
      ro_cache_ttl = opt_int (op_cache_ttl p), ro_pagination = op_pagination p\<rparr>"

definition operation_ok :: "operation \<Rightarrow> bool" where
  "operation_ok p \<longleftrightarrow> make_operation (raw_of_operation p) = Inr p \<and>
     (\<forall>i\<in>set (op_inputs p). input_ok i) \<and> (\<forall>m\<in>set (op_outputs p). output_ok m) \<and>
     (\<forall>g. op_pagination p = Some g \<longrightarrow> paging_ok g)"

lemma method_and_kind_Inr:
  "method_and_kind r = Inr (m, k, e) \<longleftrightarrow>
     ro_method r = PStr m \<and> m \<in> set ALLOWED_METHODS \<and> ro_kind r = PStr k \<and> k \<in> set ALLOWED_OPERATION_KINDS \<and>
     ro_explicit_write r = PBool e \<and> (k = ''write'' \<longrightarrow> e) \<and> (k = ''read'' \<longrightarrow> m = ''GET'')"
  by (auto simp: method_and_kind_def)

lemma make_operation_raw:
  assumes "make_operation r = Inr p"
  shows "r = raw_of_operation p"
  using assms unfolding make_operation_def raw_of_operation_def
  by (cases r) (auto simp: method_and_kind_Inr split: prod.splits)

lemma make_operation_ok:
  assumes "make_operation r = Inr p" and "\<forall>i\<in>set (ro_inputs r). input_ok i"
    and "\<forall>m\<in>set (ro_outputs r). output_ok m" and "\<forall>g. ro_pagination r = Some g \<longrightarrow> paging_ok g"
  shows "operation_ok p"
  using assms make_operation_raw [OF assms(1)] by (auto simp: operation_ok_def raw_of_operation_def)

lemma operation_facts:
  assumes "make_operation r = Inr p"
  shows "ident_re (op_key p)" "ident_re (op_mcp p)" "length (op_description p) \<le> 512"
    "op_method p \<in> set ALLOWED_METHODS" "op_kind p \<in> set ALLOWED_OPERATION_KINDS"
    "op_kind p = ''write'' \<longrightarrow> op_explicit_write p" "op_kind p = ''read'' \<longrightarrow> op_method p = ''GET''"
    "operation_path_ok (op_path p)" "prefix ''https://'' (op_base_url p)"
    "mappings_ok (op_inputs p) (op_outputs p) = Inr ()" "1 \<le> op_timeout p" "op_timeout p \<le> OPERATION_TIMEOUT_MS"
    "\<forall>t. op_cache_ttl p = Some t \<longrightarrow> 0 \<le> t \<and> t \<le> 86400"
    "pagination_ok (op_method p) (op_kind p) (op_inputs p) (op_outputs p) (op_pagination p) = Inr ()"
  using assms unfolding make_operation_raw [OF assms] make_operation_def raw_of_operation_def
  by (auto simp: method_and_kind_Inr split: prod.splits)

text \<open>Where a value reference must not stand in an operation.\<close>

definition operation_ordinary :: "operation \<Rightarrow> pyval list" where
  "operation_ordinary p =
     [PStr (op_description p), PStr (op_path p)] @ map (PMap \<circ> im_schema) (op_inputs p)
     @ map (PStr \<circ> om_pointer) (op_outputs p)
     @ (case op_pagination p of None \<Rightarrow> []
        | Some g \<Rightarrow> [pg_items_pointer g, pg_next_pointer g, pg_next_query_param g])"

lemma no_dollar [simp]: "CHR ''$'' \<notin> set s \<Longrightarrow> \<not> reference_in s"
  using reference_dollar by blast

lemma reference_free_pdict [simp]:
  "reference_free (pdict kvs) \<longleftrightarrow> (\<forall>(k, v)\<in>set kvs. \<not> reference_in k \<and> reference_free v)"
  by (fastforce simp: pdict_def)

lemma header_no_dollar: "header_re s \<Longrightarrow> CHR ''$'' \<notin> set s"
  by (auto simp: header_re_def list_all_iff ascii_alnum_def ascii_alpha_def ascii_upper_def ascii_lower_def
      ascii_digit_def)

lemma target_no_reference:
  assumes "target_ok loc tgt = Inr ()" and "loc \<in> set ALLOWED_MAPPING_LOCATIONS"
  shows "\<not> reference_in tgt"
proof -
  have "header_re tgt \<or> body_target_re tgt \<or> ident_re tgt"
    using assms by (auto simp: target_ok_def ALLOWED_MAPPING_LOCATIONS_def)
  then show ?thesis
    using header_no_dollar ident_no_reference step_ident_no_reference
    by (auto simp: body_target_re_def)
qed

lemma input_document_free:
  assumes "input_ok i" and "input_document i = Inr d" and "reference_free (PMap (im_schema i))"
  shows "reference_free d"
proof -
  obtain p where p: "plain_json_value (PMap (im_schema i)) = Inr p"
    and d: "d = pdict [(''arg_name'', PStr (im_arg_name i)), (''location'', PStr (im_location i)),
                 (''target'', PStr (im_target i)), (''required'', PBool (im_required i)), (''schema'', p)]"
    using assms(2) by (auto simp: input_document_def)
  have "reference_free p" using plain_json_Inr [OF p] assms(3) by (metis reference_free_plain)
  moreover have "\<not> reference_in (im_location i)"
    using assms(1) unfolding input_ok_def make_input_mapping_Inr
    by (auto simp: ALLOWED_MAPPING_LOCATIONS_def)
  ultimately show ?thesis
    using assms(1) unfolding d input_ok_def make_input_mapping_Inr
    by (auto simp: ident_no_reference target_no_reference)
qed


lemma operation_document_free:
  assumes ok: "operation_ok p" and doc: "operation_document p = Inr d"
    and free: "\<forall>v\<in>set (operation_ordinary p). reference_free v"
  shows "reference_free d"
proof -
  obtain ds where ds: "mapR input_document (op_inputs p) = Inr ds"
    and d: "d = pdict [(''tool_key'', PStr (op_key p)), (''mcp_name'', PStr (op_mcp p)),
                 (''description'', PStr (op_description p)), (''method'', PStr (op_method p)),
                 (''path'', PStr (op_path p)), (''input_mappings'', PList ds),
                 (''output_mappings'', PList (map output_document (op_outputs p))),
                 (''operation_kind'', PStr (op_kind p)),
                 (''explicit_write_enabled'', PBool (op_explicit_write p)),
                 (''timeout_ms'', PInt (op_timeout p)), (''cache_ttl_seconds'', opt_int (op_cache_ttl p)),
                 (''pagination'', pagination_document (op_pagination p))]"
    using doc by (auto simp: operation_document_def)
  have made: "make_operation (raw_of_operation p) = Inr p" using ok by (simp add: operation_ok_def)
  have f: "reference_free (PStr (op_description p))" "reference_free (PStr (op_path p))"
    "\<And>i. i \<in> set (op_inputs p) \<Longrightarrow> reference_free (PMap (im_schema i))"
    "\<And>m. m \<in> set (op_outputs p) \<Longrightarrow> reference_free (PStr (om_pointer m))"
    "\<And>g. op_pagination p = Some g \<Longrightarrow> reference_free (pg_items_pointer g) \<and>
        reference_free (pg_next_pointer g) \<and> reference_free (pg_next_query_param g)"
    using free by (simp_all add: operation_ordinary_def del: reference_free_simps)
  have ins: "reference_free e" if e: "e \<in> set ds" for e
  proof -
    obtain i where i: "i \<in> set (op_inputs p)" "input_document i = Inr e"
      using ds e unfolding mapR_Inr_iff list_all2_conv_all_nth by (metis in_set_conv_nth)
    moreover have "input_ok i" using ok i(1) by (simp add: operation_ok_def)
    ultimately show ?thesis using f(3) input_document_free by blast
  qed
  have outs: "reference_free (output_document m)" if "m \<in> set (op_outputs p)" for m
  proof -
    have "output_ok m" using ok that by (simp add: operation_ok_def)
    then have "ident_re (om_name m)" unfolding output_ok_def make_output_mapping_Inr by blast
    then show ?thesis using f(4) [OF that] by (simp add: output_document_def ident_no_reference)
  qed
  have pg: "reference_free (pagination_document (op_pagination p))"
    using f(5) by (cases "op_pagination p") (simp_all add: pagination_document_def)
  have names: "\<not> reference_in (op_method p)" "\<not> reference_in (op_kind p)"
    using operation_facts(4,5) [OF made] by (auto simp: ALLOWED_METHODS_def ALLOWED_OPERATION_KINDS_def)
  have "\<not> reference_in (op_key p)" "\<not> reference_in (op_mcp p)"
    using operation_facts(1,2) [OF made] ident_no_reference by blast+
  then show ?thesis
    using ins outs pg names f(1,2) unfolding d by simp
qed

lemma read_operation_document:
  assumes ok: "operation_ok p" and doc: "operation_document p = Inr d"
    and safe: "assert_safe_declaration_value d = Inr ()"
    and free: "\<forall>v\<in>set (operation_ordinary p). reference_free v"
  shows "read_operation (PStr (op_base_url p)) d = Inr p"
proof -
  obtain ds where ds: "mapR input_document (op_inputs p) = Inr ds"
    and d: "d = pdict [(''tool_key'', PStr (op_key p)), (''mcp_name'', PStr (op_mcp p)),
                 (''description'', PStr (op_description p)), (''method'', PStr (op_method p)),
                 (''path'', PStr (op_path p)), (''input_mappings'', PList ds),
                 (''output_mappings'', PList (map output_document (op_outputs p))),
                 (''operation_kind'', PStr (op_kind p)),
                 (''explicit_write_enabled'', PBool (op_explicit_write p)),
                 (''timeout_ms'', PInt (op_timeout p)), (''cache_ttl_seconds'', opt_int (op_cache_ttl p)),
                 (''pagination'', pagination_document (op_pagination p))]" (is "d = pdict ?kvs")
    using doc by (auto simp: operation_document_def)
  have made: "make_operation (raw_of_operation p) = Inr p" using ok by (simp add: operation_ok_def)
  have "length (op_inputs p) \<le> MAX_INPUT_MAPPINGS" "length (op_outputs p) \<le> MAX_OUTPUT_MAPPINGS"
    using operation_facts(10) [OF made] by (auto simp: mappings_ok_def)
  then have upto: "as_list_upto MAX_INPUT_MAPPINGS (PList ds) = Inr ds"
    "as_list_upto MAX_OUTPUT_MAPPINGS (PList (map output_document (op_outputs p)))
       = Inr (map output_document (op_outputs p))"
    using mapR_Inr_length [OF ds] by simp_all
  have ins: "mapR read_input ds = Inr (op_inputs p)"
    using ds by (rule mapR_inverse) (use ok in \<open>auto simp: operation_ok_def intro: read_input_document\<close>)
  have outs: "mapR read_output (map output_document (op_outputs p)) = Inr (op_outputs p)"
    unfolding mapR_map
    using ok mapR_total [of "op_outputs p" "\<lambda>m. read_output (output_document m)" "\<lambda>m. m"]
    by (simp add: operation_ok_def read_output_document)
  have pg: "read_pagination (pagination_document (op_pagination p)) = Inr (op_pagination p)"
    using ok by (intro read_pagination_document) (simp add: operation_ok_def)
  have nr: "non_reference d = Inr ()"
    by (rule non_reference_intro(1) [OF safe operation_document_free [OF ok doc free]])
  have dn: "d = PMap (py_names ?kvs)" unfolding d pdict_names ..
  define fields where "fields = py_names ?kvs"
  have fs: "stored_object OPERATION_KEYS d = Inr fields"
    unfolding d fields_def by (rule stored_object_fields) (simp add: OPERATION_KEYS_def)
  have get: "mget_none fields ''tool_key'' = PStr (op_key p)" "mget_none fields ''mcp_name'' = PStr (op_mcp p)"
    "mget_none fields ''description'' = PStr (op_description p)" "mget_none fields ''method'' = PStr (op_method p)"
    "mget_none fields ''path'' = PStr (op_path p)" "mget_none fields ''input_mappings'' = PList ds"
    "mget_none fields ''output_mappings'' = PList (map output_document (op_outputs p))"
    "mget_none fields ''operation_kind'' = PStr (op_kind p)"
    "mget_none fields ''explicit_write_enabled'' = PBool (op_explicit_write p)"
    "mget_none fields ''timeout_ms'' = PInt (op_timeout p)"
    "mget_none fields ''cache_ttl_seconds'' = opt_int (op_cache_ttl p)"
    "mget_none fields ''pagination'' = pagination_document (op_pagination p)"
    unfolding fields_def by simp_all
  have nf: "non_reference (PMap fields) = Inr ()" using nr dn fields_def by simp
  show ?thesis
    using made unfolding read_operation_def fs bindR.simps get nf upto ins outs pg raw_of_operation_def .
qed

end
