(* ===== verification/DeclRoundTrip.thy ===== *)
theory DeclRoundTrip
  imports DeclParts
begin

text \<open>
  The invariant of a revision (\<open>revision_ok\<close>: a fixed point of the constructor whose parts are fixed points
  of theirs), which \<open>make_revision\<close> and \<open>from_storage_document\<close> establish, and the round trip through the
  stored document.
\<close>

section \<open>The invariant of a revision\<close>

definition raw_of_revision :: "revision \<Rightarrow> raw_revision" where
  "raw_of_revision rv =
     \<lparr>rr_spec_id = rv_spec_id rv, rr_revision = PInt (rv_revision rv), rr_tenant_id = rv_tenant_id rv,
      rr_connection_id = rv_connection_id rv, rr_status = PStr (rv_status rv),
      rr_base_url = PStr (rv_base_url rv), rr_allowed_hosts = map PStr (rv_allowed_hosts rv),
      rr_operations = rv_operations rv, rr_tools = rv_tools rv, rr_auth = rv_auth rv, rr_sync = rv_sync rv\<rparr>"

definition parts_ok :: "operation list \<Rightarrow> decl_tool list \<Rightarrow> auth_scheme option \<Rightarrow> sync_spec option \<Rightarrow> bool" where
  "parts_ok ops tools auth sync \<longleftrightarrow>
     (\<forall>p\<in>set ops. operation_ok p) \<and> (\<forall>t\<in>set tools. tool_ok t) \<and>
     (\<forall>a. auth = Some a \<longrightarrow> make_auth_scheme a = Inr a) \<and> (\<forall>y. sync = Some y \<longrightarrow> sync_ok y)"

definition revision_ok :: "py_env \<Rightarrow> revision \<Rightarrow> bool" where
  "revision_ok env rv \<longleftrightarrow> make_revision env (raw_of_revision rv) = Inr rv \<and>
     parts_ok (rv_operations rv) (rv_tools rv) (rv_auth rv) (rv_sync rv)"

lemma single_operation_tool_Inr:
  assumes "single_operation_tool p = Inr t"
  obtains ischema ins step results where
    "mapR (\<lambda>i. bindR (make_value_ref ''input'' (im_arg_name i) None) (\<lambda>r. Inr (PStr (im_arg_name i), r)))
         (op_inputs p) = Inr ins"
    "make_step (PStr OPERATION_STEP) (PStr (op_key p)) ins
         (pdict (map (\<lambda>o'. (om_name o', PStr (om_name o'))) (op_outputs p))) (PInt (op_timeout p)) = Inr step"
    "mapR (\<lambda>o'. bindR (make_value_ref ''steps'' (om_name o') (Some OPERATION_STEP))
         (\<lambda>r. Inr (PStr (om_name o'), r))) (op_outputs p) = Inr results"
    "make_tool (PStr (op_key p)) (PStr (op_mcp p)) (PStr (op_description p)) ischema
       (operation_output_schema p) [step] results (opt_int (op_cache_ttl p)) = Inr t"
  using assms unfolding single_operation_tool_def bindR_Inr_iff by blast

lemma named_refs_ok:
  assumes "mapR (\<lambda>i. bindR (make_value_ref src (f i) st) (\<lambda>r. Inr (PStr (f i), r))) xs = Inr ys"
  shows "\<forall>(n, r)\<in>set ys. ref_ok r"
proof clarify
  fix n r assume "(n, r) \<in> set ys"
  from mapR_mem [OF assms this] obtain i where
    "bindR (make_value_ref src (f i) st) (\<lambda>r. Inr (PStr (f i), r)) = Inr (n, r)" by blast
  then have "make_value_ref src (f i) st = Inr r" unfolding bindR_Inr_iff by blast
  then show "ref_ok r" by (rule make_value_ref_ok)
qed

lemma single_operation_tool_ok:
  assumes "single_operation_tool p = Inr t"
  shows "tool_ok t"
  using assms
proof (rule single_operation_tool_Inr)
  fix ischema ins step results
  assume ins: "mapR (\<lambda>i. bindR (make_value_ref ''input'' (im_arg_name i) None) (\<lambda>r. Inr (PStr (im_arg_name i), r)))
         (op_inputs p) = Inr ins"
    and step: "make_step (PStr OPERATION_STEP) (PStr (op_key p)) ins
         (pdict (map (\<lambda>o'. (om_name o', PStr (om_name o'))) (op_outputs p))) (PInt (op_timeout p)) = Inr step"
    and results: "mapR (\<lambda>o'. bindR (make_value_ref ''steps'' (om_name o') (Some OPERATION_STEP))
         (\<lambda>r. Inr (PStr (om_name o'), r))) (op_outputs p) = Inr results"
    and tool: "make_tool (PStr (op_key p)) (PStr (op_mcp p)) (PStr (op_description p)) ischema
       (operation_output_schema p) [step] results (opt_int (op_cache_ttl p)) = Inr t"
  have "step_ok step" using make_step_ok [OF step] named_refs_ok [OF ins] by blast
  then show ?thesis using make_tool_ok [OF tool] named_refs_ok [OF results] by auto
qed

lemma scope_of_Inr:
  "scope_of r = Inr (n, status) \<longleftrightarrow>
     optional_identifier (ident_of ''spec ID'') (rr_spec_id r) = Inr () \<and>
     optional_identifier (decl_scope_identifier ''tenant ID'') (rr_tenant_id r) = Inr () \<and>
     optional_identifier (decl_scope_identifier ''connection ID'') (rr_connection_id r) = Inr () \<and>
     rr_revision r = PInt n \<and> 1 \<le> n \<and> rr_status r = PStr status \<and> status \<in> {''draft'', ''published''}"
  unfolding scope_of_def by (auto simp: not_less split: pyval.splits)

lemma hosts_again:
  assumes "hosts_of env r = Inr hosts"
  shows "hosts_of env (r\<lparr>rr_allowed_hosts := map PStr hosts\<rparr>) = Inr hosts"
proof -
  obtain hs where hs: "mapR (normalize_declaration_host env) (rr_allowed_hosts r) = Inr hosts"
    using assms unfolding hosts_of_def by auto
  have "normalize_declaration_host env (PStr h) = Inr h" if h: "h \<in> set hosts" for h
  proof -
    obtain v where "normalize_declaration_host env v = Inr h"
      using mapR_mem [OF hs h] by blast
    then show ?thesis by (rule normalize_host_idem)
  qed
  then have "mapR (normalize_declaration_host env) (map PStr hosts) = Inr hosts"
    unfolding mapR_map using mapR_total [of hosts "\<lambda>h. normalize_declaration_host env (PStr h)" "\<lambda>h. h"] by simp
  then show ?thesis using assms unfolding hosts_of_def by auto
qed

lemma make_revision_Inr:
  "make_revision env r = Inr rv \<longleftrightarrow>
     scope_of r = Inr (rv_revision rv, rv_status rv) \<and> hosts_of env r = Inr (rv_allowed_hosts rv) \<and>
     (\<exists>u. check_operations (rr_base_url r) (rr_operations r) = Inr u) \<and>
     (if rr_tools r = [] then mapR single_operation_tool (rr_operations r) else Inr (rr_tools r)) = Inr (rv_tools rv) \<and>
     length (rv_tools rv) \<le> MAX_OPERATION_COUNT \<and>
     (\<exists>u. foldR (check_revision_tool (rr_operations r)) [] (rv_tools rv) = Inr u) \<and>
     check_auth env (rv_allowed_hosts rv) (rr_auth r) = Inr () \<and> check_sync (rr_operations r) (rr_sync r) = Inr () \<and>
     rr_base_url r = PStr (rv_base_url rv) \<and> rr_spec_id r = rv_spec_id rv \<and> rr_tenant_id r = rv_tenant_id rv \<and>
     rr_connection_id r = rv_connection_id rv \<and> rr_operations r = rv_operations rv \<and> rr_auth r = rv_auth rv \<and>
     rr_sync r = rv_sync rv"
  unfolding make_revision_def by (cases rv) (auto simp: not_less simp del: if_raise_Inr(2))

lemma revision_tools:
  assumes "make_revision env r = Inr rv"
  shows "rv_tools rv \<noteq> []" and "\<forall>t\<in>set (rr_tools r). tool_ok t \<Longrightarrow> \<forall>t\<in>set (rv_tools rv). tool_ok t"
proof -
  have ops: "rr_operations r \<noteq> []"
    using assms unfolding make_revision_Inr check_operations_def by auto
  have ts: "(if rr_tools r = [] then mapR single_operation_tool (rr_operations r) else Inr (rr_tools r)) = Inr (rv_tools rv)"
    using assms unfolding make_revision_Inr by blast
  show "rv_tools rv \<noteq> []"
    using ts ops mapR_Inr_length [of single_operation_tool "rr_operations r" "rv_tools rv"] by (auto split: if_splits)
  show "\<forall>t\<in>set (rv_tools rv). tool_ok t" if given: "\<forall>t\<in>set (rr_tools r). tool_ok t"
  proof (cases "rr_tools r = []")
    case True
    show ?thesis
    proof
      fix t assume "t \<in> set (rv_tools rv)"
      then obtain p where "single_operation_tool p = Inr t"
        using ts True mapR_mem by (metis (full_types))
      then show "tool_ok t" by (rule single_operation_tool_ok)
    qed
  qed (use ts given in auto)
qed

lemma make_revision_ok:
  assumes made: "make_revision env r = Inr rv" and parts: "parts_ok (rr_operations r) (rr_tools r) (rr_auth r) (rr_sync r)"
  shows "revision_ok env rv"
proof -
  have m: "scope_of r = Inr (rv_revision rv, rv_status rv)" "hosts_of env r = Inr (rv_allowed_hosts rv)"
    and base: "rr_base_url r = PStr (rv_base_url rv)" and ops: "rr_operations r = rv_operations rv"
    and same: "rr_auth r = rv_auth rv" "rr_sync r = rv_sync rv"
    using made unfolding make_revision_Inr by blast+
  have ids: "rr_spec_id r = rv_spec_id rv" "rr_tenant_id r = rv_tenant_id rv" "rr_connection_id r = rv_connection_id rv"
    using made unfolding make_revision_Inr by blast+
  have "scope_of (raw_of_revision rv) = Inr (rv_revision rv, rv_status rv)"
    using m(1) ids unfolding scope_of_Inr by (simp add: raw_of_revision_def)
  moreover have "hosts_of env (raw_of_revision rv) = Inr (rv_allowed_hosts rv)"
    using hosts_again [OF m(2)] base by (simp add: hosts_of_def raw_of_revision_def)
  ultimately have "make_revision env (raw_of_revision rv) = Inr rv"
    using made revision_tools(1) [OF made] base ops same unfolding make_revision_Inr
    by (simp add: raw_of_revision_def)
  moreover have "parts_ok (rv_operations rv) (rv_tools rv) (rv_auth rv) (rv_sync rv)"
    using parts revision_tools(2) [OF made] ops same by (auto simp: parts_ok_def)
  ultimately show ?thesis by (simp add: revision_ok_def)
qed


section \<open>The round trip\<close>

text \<open>
  Where an ordinary string of a declaration would be read as a value reference: none of these positions
  may hold one, since \<open>from_storage_document\<close> refuses it there.
\<close>

definition ordinary_parts :: "revision \<Rightarrow> pyval list" where
  "ordinary_parts rv =
     PStr (rv_base_url rv) # map PStr (rv_allowed_hosts rv)
     @ concat (map operation_ordinary (rv_operations rv)) @ concat (map tool_ordinary (rv_tools rv))
     @ (if rv_auth rv = None then [] else [auth_document (rv_auth rv)])
     @ (case rv_sync rv of None \<Rightarrow> []
        | Some y \<Rightarrow> [PStr (sy_primary_key y), PMap (sy_field_mappings y), sy_items_pointer y])"

lemma sync_document_free:
  assumes "sync_ok y" and "sync_document (Some y) = Inr d" and "assert_safe_declaration_value d = Inr ()"
    and free: "\<forall>v\<in>{PStr (sy_primary_key y), PMap (sy_field_mappings y), sy_items_pointer y}. reference_free v"
  shows "non_reference d = Inr ()"
proof -
  obtain p where p: "plain_json_value (PMap (sy_field_mappings y)) = Inr p"
    and d: "d = pdict [(''resource_key'', PStr (sy_resource_key y)),
       (''primary_key_pointer'', PStr (sy_primary_key y)), (''field_mappings'', p),
       (''operation_key'', PStr (sy_operation_key y)), (''items_pointer'', sy_items_pointer y)]"
    using assms(2) by (auto simp: sync_document_def)
  have "ident_re (sy_resource_key y)" "ident_re (sy_operation_key y)"
    using assms(1) unfolding sync_ok_def make_sync_spec_Inr by blast+
  moreover have "reference_free p"
    using plain_json_Inr [OF p] free reference_free_plain by blast
  ultimately have "reference_free d"
    using free unfolding d by (simp add: ident_no_reference)
  then show ?thesis using assms(3) by (rule non_reference_intro(1) [rotated])
qed

definition written_document :: "revision \<Rightarrow> pyval \<Rightarrow> pyval list \<Rightarrow> pyval list \<Rightarrow> (string \<times> pyval) list" where
  "written_document rv sync ops tools =
     [(''base_url'', PStr (rv_base_url rv)), (''allowed_hosts'', PList (map PStr (rv_allowed_hosts rv))),
      (''auth_scheme'', auth_document (rv_auth rv)), (''sync_spec'', sync),
      (''operations'', PList ops), (''tools'', PList tools)]"

lemma storage_document_Inr:
  assumes "storage_document rv = Inr d"
  obtains sync ops tools where
    "sync_document (rv_sync rv) = Inr sync" "mapR operation_document (rv_operations rv) = Inr ops"
    "mapR tool_document (rv_tools rv) = Inr tools" "d = pdict (written_document rv sync ops tools)"
    "assert_safe_declaration_value d = Inr ()" "bounded_json 0 d = Inr ()"
proof -
  obtain sync ops tools where
    *: "sync_document (rv_sync rv) = Inr sync" "mapR operation_document (rv_operations rv) = Inr ops"
    "mapR tool_document (rv_tools rv) = Inr tools"
    using assms unfolding storage_document_def bindR_Inr_iff by blast
  define e where "e = pdict (written_document rv sync ops tools)"
  have "bindR (assert_safe_declaration_value e) (\<lambda>_. bindR (bounded_json 0 e) (\<lambda>_. Inr e)) = Inr d"
    using assms unfolding storage_document_def * bindR.simps Let_def e_def written_document_def .
  then have "assert_safe_declaration_value d = Inr ()" "bounded_json 0 d = Inr ()" "e = d" by auto
  then show thesis using that * e_def by blast
qed

lemma operations_on_base:
  assumes "check_operations base ops = Inr u" and "p \<in> set ops"
  shows "PStr (op_base_url p) = base"
proof -
  let ?f = "\<lambda>seen p. if PStr (op_base_url p) \<noteq> base
             then Inl (spec_error ''operation base URL does not match revision'')
             else claim_names ''duplicate operation identifier'' seen (op_key p, op_mcp p)"
  have "foldR ?f [] ops = Inr u" using assms(1) by (simp add: check_operations_def split: if_splits)
  then show ?thesis using assms(2) foldR_each [of ?f "[]" ops u p] by (auto split: if_splits)
qed

lemma written_operations:
  assumes ops: "mapR operation_document ps = Inr ds" and ok: "\<forall>p\<in>set ps. operation_ok p \<and> PStr (op_base_url p) = base"
    and safe: "assert_safe_declaration_value (PList ds) = Inr ()"
    and free: "\<forall>p\<in>set ps. \<forall>v\<in>set (operation_ordinary p). reference_free v"
  shows "mapR (read_operation base) ds = Inr ps"
proof (rule mapR_inverse [OF ops])
  fix p d assume p: "p \<in> set ps" and d: "operation_document p = Inr d" "d \<in> set ds"
  have "read_operation (PStr (op_base_url p)) d = Inr p"
    by (rule read_operation_document) (use ok free p d safe_item [OF safe] in blast)+
  then show "read_operation base d = Inr p" using ok p by simp
qed

lemma written_tools:
  assumes ts: "mapR tool_document ts = Inr ds" and ok: "\<forall>t\<in>set ts. tool_ok t"
    and safe: "assert_safe_declaration_value (PList ds) = Inr ()"
    and free: "\<forall>t\<in>set ts. \<forall>v\<in>set (tool_ordinary t). reference_free v"
  shows "mapR read_tool_document ds = Inr ts"
proof (rule mapR_inverse [OF ts])
  fix t d assume t: "t \<in> set ts" and d: "tool_document t = Inr d" "d \<in> set ds"
  show "read_tool_document d = Inr t"
    by (rule read_tool_document_written) (use ok free t d safe_item [OF safe] in blast)+
qed

lemma set_neq_mem: "x \<in> A \<Longrightarrow> x \<notin> B \<Longrightarrow> A \<noteq> B"
  by blast

lemma written_stored_document:
  "stored_document (pdict (written_document rv sync ops tools)) = Inr (py_names (written_document rv sync ops tools))"
proof -
  have "set (map fst (py_names (written_document rv sync ops tools))) \<noteq> PStr ` set LEGACY_KEYS"
    by (rule set_neq_mem [of "PStr ''tools''"]) (simp_all add: py_names_def written_document_def LEGACY_KEYS_def)
  moreover have "stored_object (LEGACY_KEYS @ [''tools'']) (pdict (written_document rv sync ops tools))
      = Inr (py_names (written_document rv sync ops tools))"
    by (rule stored_object_fields) (auto simp: written_document_def LEGACY_KEYS_def)
  ultimately show ?thesis unfolding stored_document_def by (simp add: pdict_names)
qed

lemma written_fields:
  fixes rv sync ops tools
  defines "m \<equiv> py_names (written_document rv sync ops tools)"
  shows "mget_none m ''base_url'' = PStr (rv_base_url rv)"
    "mget_none m ''allowed_hosts'' = PList (map PStr (rv_allowed_hosts rv))"
    "mget_none m ''auth_scheme'' = auth_document (rv_auth rv)" "mget_none m ''sync_spec'' = sync"
    "mget_none m ''operations'' = PList ops" "mget m ''tools'' = Some (PList tools)"
  unfolding m_def written_document_def by (simp_all add: py_names_def)

lemma written_shape:
  assumes "ops \<noteq> []" and "length ops \<le> MAX_OPERATION_COUNT"
  shows "document_shape (py_names (written_document rv sync ops tools)) = Inr (map PStr (rv_allowed_hosts rv), ops)"
  using assms by (simp add: document_shape_def written_fields list_all_iff)

text \<open>
  What \<open>storage_document\<close> writes, \<open>from_storage_document\<close> reads back to the same revision, as long as the
  document is within the size limit and no ordinary string holds a value reference.
\<close>

lemma stored_revision_reads_back:
  assumes ok: "revision_ok env rv" and doc: "storage_document rv = Inr d"
    and size: "json_size (env_float env) d = Inr n" "n \<le> MAX_DOCUMENT_BYTES"
    and free: "\<forall>v\<in>set (ordinary_parts rv). reference_free v"
  shows "from_storage_document env (rv_spec_id rv) (PInt (rv_revision rv)) (rv_tenant_id rv) (rv_connection_id rv)
    (PStr (rv_status rv)) d = Inr rv"
proof -
  obtain sync ops tools where sync: "sync_document (rv_sync rv) = Inr sync"
    and ops: "mapR operation_document (rv_operations rv) = Inr ops"
    and tools: "mapR tool_document (rv_tools rv) = Inr tools"
    and d: "d = pdict (written_document rv sync ops tools)"
    and safe: "assert_safe_declaration_value d = Inr ()" and bounded: "bounded_json 0 d = Inr ()"
    using storage_document_Inr [OF doc] by blast
  have made: "make_revision env (raw_of_revision rv) = Inr rv"
    and parts: "parts_ok (rv_operations rv) (rv_tools rv) (rv_auth rv) (rv_sync rv)"
    using ok by (simp_all add: revision_ok_def)
  have f: "\<forall>p\<in>set (rv_operations rv). \<forall>v\<in>set (operation_ordinary p). reference_free v"
    "\<forall>t\<in>set (rv_tools rv). \<forall>v\<in>set (tool_ordinary t). reference_free v"
    "reference_free (PStr (rv_base_url rv))" "\<forall>h\<in>set (rv_allowed_hosts rv). reference_free (PStr h)"
    "rv_auth rv \<noteq> None \<Longrightarrow> reference_free (auth_document (rv_auth rv))"
    "\<And>y. rv_sync rv = Some y \<Longrightarrow>
       \<forall>v\<in>{PStr (sy_primary_key y), PMap (sy_field_mappings y), sy_items_pointer y}. reference_free v"
    using free unfolding ordinary_parts_def by (auto simp del: reference_free_simps split: if_splits)
  have s: "\<forall>v\<in>set (map snd (written_document rv sync ops tools)). assert_safe_declaration_value v = Inr ()"
    using safe_pdict safe unfolding d by blast
  then have s: "assert_safe_declaration_value (PStr (rv_base_url rv)) = Inr ()"
    "assert_safe_declaration_value (PList (map PStr (rv_allowed_hosts rv))) = Inr ()"
    "assert_safe_declaration_value (auth_document (rv_auth rv)) = Inr ()"
    "assert_safe_declaration_value sync = Inr ()" "assert_safe_declaration_value (PList ops) = Inr ()"
    "assert_safe_declaration_value (PList tools) = Inr ()"
    by (simp_all add: written_document_def)
  define m where "m = py_names (written_document rv sync ops tools)"
  note get = written_fields [of rv sync ops tools, folded m_def]
  have checked: "\<exists>u. check_operations (PStr (rv_base_url rv)) (rv_operations rv) = Inr u"
    and some_tools: "rv_tools rv \<noteq> []" "length (rv_tools rv) \<le> MAX_OPERATION_COUNT"
    using made revision_tools(1) [OF made] unfolding make_revision_Inr by (simp_all add: raw_of_revision_def)
  have on_base: "\<forall>p\<in>set (rv_operations rv). operation_ok p \<and> PStr (op_base_url p) = PStr (rv_base_url rv)"
    using checked operations_on_base parts by (auto simp: parts_ok_def)
  have "rv_operations rv \<noteq> []" "length (rv_operations rv) \<le> MAX_OPERATION_COUNT"
    using checked by (auto simp: check_operations_def)
  then have shape: "document_shape m = Inr (map PStr (rv_allowed_hosts rv), ops)"
    unfolding m_def using mapR_Inr_length [OF ops] by (intro written_shape) auto
  have ro: "mapR (read_operation (PStr (rv_base_url rv))) ops = Inr (rv_operations rv)"
    by (rule written_operations [OF ops on_base s(5) f(1)])
  have "mapR read_tool_document tools = Inr (rv_tools rv)"
    by (rule written_tools [OF tools _ s(6) f(2)]) (use parts in \<open>simp add: parts_ok_def\<close>)
  moreover have "as_list_upto MAX_OPERATION_COUNT (PList tools) = Inr tools" "tools \<noteq> []"
    using mapR_Inr_length [OF tools] some_tools by auto
  ultimately have rt: "read_tools m = Inr (rv_tools rv)"
    by (simp add: read_tools_def get)
  have ra: "read_auth (auth_document (rv_auth rv)) = Inr (rv_auth rv)"
    by (rule read_auth_document) (use parts f(5) s(3) non_reference_intro(1) in \<open>auto simp: parts_ok_def\<close>)
  have rs: "read_sync sync = Inr (rv_sync rv)"
  proof (rule read_sync_document [OF _ sync])
    show "sync_ok y" if "rv_sync rv = Some y" for y using parts that by (simp add: parts_ok_def)
    then show "non_reference sync = Inr ()" if "rv_sync rv \<noteq> None"
      using that sync sync_document_free [OF _ _ s(4)] f(6) by (metis option.exhaust)
  qed
  have nr: "non_reference (PStr (rv_base_url rv)) = Inr ()"
    "non_reference (PList (map PStr (rv_allowed_hosts rv))) = Inr ()"
    using f(3,4) s(1,2) non_reference_intro(1) by (simp_all del: non_reference.simps)
  have "stored_document d = Inr m" unfolding d m_def by (rule written_stored_document)
  then show ?thesis
    using made size bounded safe shape
    unfolding from_storage_document_def by (simp add: get nr ra rs ro rt raw_of_revision_def del: non_reference.simps)
qed

section \<open>What is read is well formed\<close>

lemma read_input_ok: "read_input d = Inr i \<Longrightarrow> input_ok i"
  unfolding read_input_def bindR_Inr_iff using make_input_ok by blast

lemma read_output_ok: "read_output d = Inr m \<Longrightarrow> output_ok m"
  unfolding read_output_def bindR_Inr_iff using make_output_ok by blast

lemma read_pagination_ok: "read_pagination d = Inr (Some g) \<Longrightarrow> paging_ok g"
  unfolding read_pagination_def by (auto split: if_splits intro: make_pagination_ok)

lemma read_sync_ok: "read_sync d = Inr (Some y) \<Longrightarrow> sync_ok y"
  unfolding read_sync_def by (auto split: if_splits intro: make_sync_ok simp del: non_reference.simps)

lemma read_auth_ok: "read_auth d = Inr (Some a) \<Longrightarrow> make_auth_scheme a = Inr a"
  unfolding read_auth_def by (auto split: if_splits simp: make_auth_scheme_def simp del: non_reference.simps)

lemma read_refs_ok: "read_refs m = Inr rs \<Longrightarrow> \<forall>(n, r)\<in>set rs. ref_ok r"
  unfolding read_refs_def by (auto dest!: mapR_mem intro: parse_value_ref_ok)

lemma read_step_ok:
  assumes "read_step d = Inr s"
  shows "step_ok s"
proof -
  obtain m raw ins where "read_refs raw = Inr ins"
    "make_step (mget_none m ''step_id'') (mget_none m ''operation_key'') ins
       (mget_none m ''output_mappings'') (mget_none m ''timeout_ms'') = Inr s"
    using assms unfolding read_step_def bindR_Inr_iff by blast
  then show ?thesis using make_step_ok read_refs_ok by blast
qed

lemma read_tool_ok:
  assumes "read_tool_document d = Inr t"
  shows "tool_ok t"
proof -
  obtain m raw steps raw_results results where steps: "mapR read_step raw = Inr steps"
    and results: "read_refs raw_results = Inr results"
    and made: "make_tool (mget_none m ''tool_key'') (mget_none m ''mcp_name'') (mget_none m ''description'')
       (mget_none m ''input_schema'') (mget_none m ''output_schema'') steps results
       (mget_none m ''cache_ttl_seconds'') = Inr t"
    using assms unfolding read_tool_document_def bindR_Inr_iff by blast
  have "\<forall>s\<in>set steps. step_ok s" using mapR_mem [OF steps] read_step_ok by blast
  then show ?thesis using make_tool_ok [OF made] read_refs_ok [OF results] by blast
qed

lemma read_operation_ok:
  assumes "read_operation base d = Inr p"
  shows "operation_ok p"
proof -
  obtain m ri ro ins outs pg where ins: "mapR read_input ri = Inr ins" and outs: "mapR read_output ro = Inr outs"
    and pg: "read_pagination (mget_none m ''pagination'') = Inr pg"
    and made: "make_operation
       \<lparr>ro_tool_key = mget_none m ''tool_key'', ro_mcp_name = mget_none m ''mcp_name'',
        ro_description = mget_none m ''description'', ro_method = mget_none m ''method'',
        ro_path = mget_none m ''path'', ro_inputs = ins, ro_outputs = outs,
        ro_kind = mget_none m ''operation_kind'',
        ro_explicit_write = mget_none m ''explicit_write_enabled'', ro_base_url = base,
        ro_timeout = mget_none m ''timeout_ms'', ro_cache_ttl = mget_none m ''cache_ttl_seconds'',
        ro_pagination = pg\<rparr> = Inr p"
    using assms unfolding read_operation_def bindR_Inr_iff by blast
  have "\<forall>i\<in>set ins. input_ok i" using mapR_mem [OF ins] read_input_ok by blast
  moreover have "\<forall>m\<in>set outs. output_ok m" using mapR_mem [OF outs] read_output_ok by blast
  ultimately show ?thesis
    using make_operation_ok [OF made] pg read_pagination_ok by auto
qed

lemma read_tools_ok:
  assumes "read_tools m = Inr ts"
  shows "\<forall>t\<in>set ts. tool_ok t"
proof (cases "mget m ''tools''")
  case None
  then show ?thesis using assms by (simp add: read_tools_def)
next
  case (Some raw)
  obtain docs where "(if docs = [] then Inl stored_invalid else mapR read_tool_document docs) = Inr ts"
    using assms unfolding read_tools_def Some option.case bindR_Inr_iff by blast
  then have docs: "mapR read_tool_document docs = Inr ts" by (cases "docs = []") simp_all
  show ?thesis using mapR_mem [OF docs] read_tool_ok by blast
qed

lemma loaded_revision_ok:
  assumes "from_storage_document env spec_id number tenant_id connection_id status document = Inr rv"
  shows "revision_ok env rv"
proof -
  obtain m hosts raw auth sync ops tools where auth: "read_auth (mget_none m ''auth_scheme'') = Inr auth"
    and sync: "read_sync (mget_none m ''sync_spec'') = Inr sync"
    and ops: "mapR (read_operation (mget_none m ''base_url'')) raw = Inr ops" and tools: "read_tools m = Inr tools"
    and made: "make_revision env
            \<lparr>rr_spec_id = spec_id, rr_revision = number, rr_tenant_id = tenant_id,
             rr_connection_id = connection_id, rr_status = status, rr_base_url = mget_none m ''base_url'',
             rr_allowed_hosts = hosts, rr_operations = ops, rr_tools = tools, rr_auth = auth,
             rr_sync = sync\<rparr> = Inr rv"
    using assms unfolding from_storage_document_def
    by (auto simp del: non_reference.simps split: if_splits)
  have "\<forall>p\<in>set ops. operation_ok p" using mapR_mem [OF ops] read_operation_ok by blast
  then have "parts_ok ops tools auth sync"
    using read_tools_ok [OF tools] auth sync read_auth_ok read_sync_ok by (auto simp: parts_ok_def)
  then show ?thesis using make_revision_ok [OF made] by simp
qed

end
