(* ===== verification/DeclDemo.thy ===== *)
theory DeclDemo
  imports DeclRoundTrip
begin

text \<open>
  A concrete declaration for the witnesses: an operation that reads, one that writes, and a tool that
  feeds the output of the first to the second.
\<close>

definition demo_env :: py_env where
  "demo_env = \<lparr>env_idna = (\<lambda>_. None), env_float = (\<lambda>_. ''1.5'')\<rparr>"

definition demo_base :: string where "demo_base = ''https://api.example.com/v1''"

definition demo_document :: pyval where
  "demo_document = pdict
     [(''base_url'', PStr demo_base), (''allowed_hosts'', PList [PStr ''api.example.com'']),
      (''auth_scheme'', PNone), (''sync_spec'', PNone),
      (''operations'', PList
         [pdict [(''tool_key'', PStr ''find''), (''mcp_name'', PStr ''find_item''), (''description'', PStr ''Find''),
                 (''method'', PStr ''GET''), (''path'', PStr ''/items/{item}''),
                 (''input_mappings'', PList
                    [pdict [(''arg_name'', PStr ''item''), (''location'', PStr ''path''), (''target'', PStr ''item''),
                            (''required'', PBool True), (''schema'', pdict [(''type'', PStr ''string'')])]]),
                 (''output_mappings'', PList [pdict [(''name'', PStr ''id''), (''pointer'', PStr ''/id'')]]),
                 (''operation_kind'', PStr ''read''), (''explicit_write_enabled'', PBool False),
                 (''timeout_ms'', PInt 10000), (''cache_ttl_seconds'', PNone), (''pagination'', PNone)],
          pdict [(''tool_key'', PStr ''save''), (''mcp_name'', PStr ''save_item''), (''description'', PStr ''Save''),
                 (''method'', PStr ''POST''), (''path'', PStr ''/items''),
                 (''input_mappings'', PList
                    [pdict [(''arg_name'', PStr ''id''), (''location'', PStr ''body''), (''target'', PStr ''id''),
                            (''required'', PBool True), (''schema'', PMap [])]]),
                 (''output_mappings'', PList [pdict [(''name'', PStr ''done''), (''pointer'', PStr ''/done'')]]),
                 (''operation_kind'', PStr ''write''), (''explicit_write_enabled'', PBool True),
                 (''timeout_ms'', PInt 20000), (''cache_ttl_seconds'', PNone), (''pagination'', PNone)]]),
      (''tools'', PList
         [pdict [(''tool_key'', PStr ''copy''), (''mcp_name'', PStr ''copy_item''), (''description'', PStr ''Copy''),
                 (''input_schema'', pdict [(''type'', PStr ''object''),
                    (''properties'', pdict [(''item'', pdict [(''type'', PStr ''string'')])]),
                    (''additionalProperties'', PBool False)]),
                 (''output_schema'', pdict [(''type'', PStr ''object''),
                    (''properties'', pdict [(''done'', PMap [])]), (''additionalProperties'', PBool False)]),
                 (''steps'', PList
                    [pdict [(''step_id'', PStr ''one''), (''operation_key'', PStr ''find''),
                            (''input_mappings'', pdict [(''item'', PStr ''$input.item'')]),
                            (''output_mappings'', pdict [(''id'', PStr ''id'')]), (''timeout_ms'', PNone)],
                     pdict [(''step_id'', PStr ''two''), (''operation_key'', PStr ''save''),
                            (''input_mappings'', pdict [(''id'', PStr ''$steps.one.id'')]),
                            (''output_mappings'', pdict [(''done'', PStr ''done'')]), (''timeout_ms'', PInt 25000)]]),
                 (''result_map'', pdict [(''done'', PStr ''$steps.two.done'')]), (''cache_ttl_seconds'', PNone)]])]"

definition demo_find :: operation where
  "demo_find =
     \<lparr>op_key = ''find'', op_mcp = ''find_item'', op_description = ''Find'', op_method = ''GET'',
      op_path = ''/items/{item}'',
      op_inputs = [\<lparr>im_arg_name = ''item'', im_location = ''path'', im_target = ''item'', im_required = True,
                     im_schema = [(PStr ''type'', PStr ''string'')]\<rparr>],
      op_outputs = [\<lparr>om_name = ''id'', om_pointer = ''/id''\<rparr>], op_kind = ''read'', op_explicit_write = False,
      op_base_url = demo_base, op_timeout = 10000, op_cache_ttl = None, op_pagination = None\<rparr>"

definition demo_save :: operation where
  "demo_save =
     \<lparr>op_key = ''save'', op_mcp = ''save_item'', op_description = ''Save'', op_method = ''POST'',
      op_path = ''/items'',
      op_inputs = [\<lparr>im_arg_name = ''id'', im_location = ''body'', im_target = ''id'', im_required = True,
                     im_schema = []\<rparr>],
      op_outputs = [\<lparr>om_name = ''done'', om_pointer = ''/done''\<rparr>], op_kind = ''write'', op_explicit_write = True,
      op_base_url = demo_base, op_timeout = 20000, op_cache_ttl = None, op_pagination = None\<rparr>"

definition demo_copy :: decl_tool where
  "demo_copy =
     \<lparr>dt_key = ''copy'', dt_mcp = ''copy_item'', dt_description = ''Copy'',
      dt_input_schema =
        [(PStr ''type'', PStr ''object''),
         (PStr ''properties'', pdict [(''item'', pdict [(''type'', PStr ''string'')])]),
         (PStr ''additionalProperties'', PBool False)],
      dt_output_schema =
        [(PStr ''type'', PStr ''object''), (PStr ''properties'', pdict [(''done'', PMap [])]),
         (PStr ''additionalProperties'', PBool False)],
      dt_steps =
        [\<lparr>st_id = ''one'', st_operation = ''find'',
          st_inputs = [(''item'', \<lparr>vr_source = ''input'', vr_field = ''item'', vr_step = None\<rparr>)],
          st_outputs = [(''id'', ''id'')], st_timeout = None\<rparr>,
         \<lparr>st_id = ''two'', st_operation = ''save'',
          st_inputs = [(''id'', \<lparr>vr_source = ''steps'', vr_field = ''id'', vr_step = Some ''one''\<rparr>)],
          st_outputs = [(''done'', ''done'')], st_timeout = Some 25000\<rparr>],
      dt_result_map = [(''done'', \<lparr>vr_source = ''steps'', vr_field = ''done'', vr_step = Some ''two''\<rparr>)],
      dt_cache_ttl = None\<rparr>"

definition demo_revision :: revision where
  "demo_revision =
     \<lparr>rv_spec_id = PStr ''spec'', rv_revision = 3, rv_tenant_id = PStr ''t1'', rv_connection_id = PStr ''c1'',
      rv_status = ''published'', rv_base_url = demo_base, rv_allowed_hosts = [''api.example.com''],
      rv_operations = [demo_find, demo_save], rv_tools = [demo_copy], rv_auth = None, rv_sync = None\<rparr>"

lemma demo_loads:
  "from_storage_document demo_env (PStr ''spec'') (PInt 3) (PStr ''t1'') (PStr ''c1'') (PStr ''published'')
     demo_document = Inr demo_revision"
  by code_simp

lemma demo_stores: "storage_document demo_revision = Inr demo_document"
  by code_simp

lemma demo_ordinary: "list_all reference_free (ordinary_parts demo_revision)"
  by code_simp

lemma from_storage_size:
  "from_storage_document env a b c e f d = Inr rv \<Longrightarrow> \<exists>n. json_size (env_float env) d = Inr n \<and> n \<le> MAX_DOCUMENT_BYTES"
  by (auto simp: from_storage_document_def not_less simp del: non_reference.simps split: if_splits)

lemma demo_size: "\<exists>n. json_size (env_float demo_env) demo_document = Inr n \<and> n \<le> MAX_DOCUMENT_BYTES"
  by (rule from_storage_size [OF demo_loads])

lemma demo_revision_ok: "revision_ok demo_env demo_revision"
  by (rule loaded_revision_ok [OF demo_loads])

end
