(* ===== verification/DeclSafety.thy ===== *)
theory DeclSafety
  imports DeclDemo
begin

text \<open>
  What a loaded revision guarantees: the bounds of its tools, the gates of its operations, references that
  reach only declared inputs and earlier steps, the manifest it publishes, and the requests it builds.
\<close>

section \<open>What a loaded revision guarantees\<close>

text \<open>The time a step may take, whether it writes, and its time in a tool.\<close>

definition step_cost :: "operation list \<Rightarrow> decl_step \<Rightarrow> int" where
  "step_cost ops s = (case operation_of ops (st_operation s) of None \<Rightarrow> 0 | Some p \<Rightarrow> step_timeout p s)"

definition step_writes :: "operation list \<Rightarrow> decl_step \<Rightarrow> bool" where
  "step_writes ops s \<longleftrightarrow> (case operation_of ops (st_operation s) of None \<Rightarrow> False | Some p \<Rightarrow> op_kind p = ''write'')"

text \<open>A step calls a declared operation, with its declared and all its required inputs.\<close>

definition step_fits :: "operation list \<Rightarrow> decl_step \<Rightarrow> bool" where
  "step_fits ops s \<longleftrightarrow>
     (case operation_of ops (st_operation s) of
        None \<Rightarrow> False
      | Some p \<Rightarrow>
          list_all (\<lambda>(n, _). n \<in> set (map im_arg_name (op_inputs p))) (st_inputs s) \<and>
          list_all (\<lambda>i. im_required i \<longrightarrow> im_arg_name i \<in> set (map fst (st_inputs s))) (op_inputs p) \<and>
          list_all (\<lambda>(_, out). out \<in> set (map om_name (op_outputs p))) (st_outputs s) \<and>
          1 \<le> step_timeout p s \<and> step_timeout p s \<le> OPERATION_TIMEOUT_MS)"

lemma check_tool_step_Inr:
  "check_tool_step ops acc s = Inr acc' \<longleftrightarrow>
     step_fits ops s \<and>
     acc' = (fst acc + step_cost ops s, snd acc + (if step_writes ops s then 1 else 0))"
  unfolding check_tool_step_def step_fits_def step_cost_def step_writes_def
  by (auto simp: list_ex_iff list_all_iff not_less split: option.splits)

lemma check_tool_steps:
  assumes "foldR (check_tool_step ops) acc steps = Inr acc'"
  shows "fst acc' = fst acc + sum_list (map (step_cost ops) steps)"
    and "snd acc' = snd acc + length (filter (step_writes ops) steps)"
    and "list_all (step_fits ops) steps"
  using assms by (induction steps arbitrary: acc) (auto simp: check_tool_step_Inr)

definition tool_fits :: "operation list \<Rightarrow> decl_tool \<Rightarrow> bool" where
  "tool_fits ops t \<longleftrightarrow>
     list_all (step_fits ops) (dt_steps t) \<and>
     sum_list (map (step_cost ops) (dt_steps t)) \<le> MAX_TOOL_TIMEOUT_MS \<and>
     length (filter (step_writes ops) (dt_steps t)) \<le> 1"

lemma check_revision_tool_Inr:
  assumes "check_revision_tool ops seen t = Inr seen'"
  shows "claim_names ''duplicate tool identifier'' seen (dt_key t, dt_mcp t) = Inr seen'" "tool_fits ops t"
proof -
  obtain total writes where c: "claim_names ''duplicate tool identifier'' seen (dt_key t, dt_mcp t) = Inr seen'"
    and f: "foldR (check_tool_step ops) (0, 0) (dt_steps t) = Inr (total, writes)"
    and b: "\<not> total > MAX_TOOL_TIMEOUT_MS" "\<not> writes > 1"
    using assms unfolding check_revision_tool_def by (auto split: if_splits)
  show "claim_names ''duplicate tool identifier'' seen (dt_key t, dt_mcp t) = Inr seen'" by (rule c)
  show "tool_fits ops t" using check_tool_steps [OF f] b by (simp add: tool_fits_def)
qed

lemma revision_tools_fit:
  assumes "make_revision env r = Inr rv" and "t \<in> set (rv_tools rv)"
  shows "tool_fits (rv_operations rv) t"
proof -
  obtain u where "foldR (check_revision_tool (rr_operations r)) [] (rv_tools rv) = Inr u"
    and "rr_operations r = rv_operations rv"
    using assms(1) unfolding make_revision_Inr by blast
  then show ?thesis using foldR_each [OF _ assms(2)] check_revision_tool_Inr(2) by metis
qed

section \<open>References reach backwards\<close>

definition declared_field :: "(pyval \<times> pyval) list \<Rightarrow> string \<Rightarrow> bool" where
  "declared_field schema f \<longleftrightarrow> (case mget schema ''properties'' of Some (PMap ps) \<Rightarrow> PStr f \<in> set (map fst ps) | _ \<Rightarrow> False)"

definition reference_reaches :: "(pyval \<times> pyval) list \<Rightarrow> decl_step list \<Rightarrow> value_ref \<Rightarrow> bool" where
  "reference_reaches ischema earlier r \<longleftrightarrow>
     (if vr_source r = ''input'' then declared_field ischema (vr_field r)
      else list_ex (\<lambda>s. vr_step r = Some (st_id s) \<and> vr_field r \<in> set (map fst (st_outputs s))) earlier)"

lemma schema_fields_declared:
  assumes "schema_fields label ne schema = Inr fs" and "f \<in> set fs"
  shows "declared_field schema f"
proof -
  obtain ps where ps: "mget schema ''properties'' = Some (PMap ps)"
    using assms(1) by (auto simp: schema_fields_def split: if_splits option.splits pyval.splits)
  then have "mapR (\<lambda>(name, child).
               case name of
                 PStr s \<Rightarrow>
                   (if \<not> ident_re s then Inl (spec_error (''invalid '' @ label @ '' field''))
                    else bindR (validate_property_schema label child) (\<lambda>_. Inr s))
               | _ \<Rightarrow> Inl (spec_error (''invalid '' @ label @ '' field''))) ps = Inr fs"
    using assms(1) by (auto simp: schema_fields_def simp del: if_raise_Inr(2) split: if_splits)
  from mapR_mem [OF this assms(2)] obtain name child where "(name, child) \<in> set ps"
    "(case name of
                 PStr s \<Rightarrow>
                   (if \<not> ident_re s then Inl (spec_error (''invalid '' @ label @ '' field''))
                    else bindR (validate_property_schema label child) (\<lambda>_. Inr s))
               | _ \<Rightarrow> Inl (spec_error (''invalid '' @ label @ '' field''))) = Inr f" by auto
  then have "(PStr f, child) \<in> set ps" by (auto split: pyval.splits if_splits)
  then show ?thesis using ps by (force simp: declared_field_def)
qed

text \<open>The outputs that \<open>available_outputs\<close> holds before a step are those of the earlier steps.\<close>

definition available_from :: "decl_step list \<Rightarrow> (string, string list) dict \<Rightarrow> bool" where
  "available_from earlier available \<longleftrightarrow>
     (\<forall>sid outs. map_of available sid = Some outs \<longrightarrow> (\<exists>s\<in>set earlier. st_id s = sid \<and> outs = map fst (st_outputs s)))"

lemma reference_ok_reaches:
  assumes "available_from earlier available" and "ref_ok r" and "reference_ok fs available r = Inr ()"
    and "\<forall>f\<in>set fs. declared_field ischema f"
  shows "reference_reaches ischema earlier r"
proof (cases "vr_source r = ''input''")
  case True
  then show ?thesis using assms(3,4) by (auto simp: reference_ok_def reference_reaches_def)
next
  case False
  then obtain sid where sid: "vr_step r = Some sid"
    using assms(2) by (auto simp: ref_ok_def make_value_ref_def split: option.splits if_splits)
  then obtain outs where "map_of available sid = Some outs" "vr_field r \<in> set outs"
    using assms(3) False by (auto simp: reference_ok_def split: option.splits)
  then show ?thesis using assms(1) False sid
    by (fastforce simp: available_from_def reference_reaches_def list_ex_iff)
qed

lemma check_step_available:
  assumes "available_from earlier available" and "check_step fs available s = Inr available'"
  shows "available_from (earlier @ [s]) available'"
  unfolding available_from_def
proof (intro allI impI)
  fix sid outs assume found: "map_of available' sid = Some outs"
  have "available' = AList.update (st_id s) (map fst (st_outputs s)) available"
    using assms(2) by (auto simp: check_step_def)
  then show "\<exists>t\<in>set (earlier @ [s]). st_id t = sid \<and> outs = map fst (st_outputs t)"
    using found assms(1) by (cases "sid = st_id s") (auto simp: available_from_def)
qed

lemma check_steps_reach:
  assumes "foldR (check_step fs) available steps = Inr available'" and "available_from earlier available"
    and "\<forall>f\<in>set fs. declared_field ischema f" and "\<forall>s\<in>set steps. step_ok s"
  shows "available_from (earlier @ steps) available'"
    and "\<forall>i < length steps. \<forall>(n, r)\<in>set (st_inputs (steps ! i)).
      reference_reaches ischema (earlier @ take i steps) r"
  using assms
proof (induction steps arbitrary: earlier available)
  case Nil
  { case 1 then show ?case by simp }
  { case 2 then show ?case by simp }
next
  case (Cons s steps)
  { case 1
    then obtain av where av: "check_step fs available s = Inr av" "foldR (check_step fs) av steps = Inr available'"
      by auto
    then show ?case using Cons.IH(1) [OF av(2) check_step_available [OF 1(2) av(1)] 1(3)] 1(4) by simp }
  { case 2
    then obtain av where av: "check_step fs available s = Inr av" "foldR (check_step fs) av steps = Inr available'"
      by auto
    have rest: "\<forall>i < length steps. \<forall>(n, r)\<in>set (st_inputs (steps ! i)).
        reference_reaches ischema (earlier @ s # take i steps) r"
      using Cons.IH(2) [OF av(2) check_step_available [OF 2(2) av(1)] 2(3)] 2(4) by simp
    have now: "\<forall>(n, r)\<in>set (st_inputs s). reference_reaches ischema earlier r"
      using av(1) 2 reference_ok_reaches by (fastforce simp: check_step_def step_ok_def)
    show ?case
    proof (intro allI impI)
      fix i assume "i < length (s # steps)"
      then show "\<forall>(n, r)\<in>set (st_inputs ((s # steps) ! i)). reference_reaches ischema (earlier @ take i (s # steps)) r"
        using rest now by (cases i) auto
    qed }
qed

lemma tool_ok_reaches:
  assumes "tool_ok t"
  shows "\<forall>i < length (dt_steps t). \<forall>(n, r)\<in>set (st_inputs (dt_steps t ! i)).
      reference_reaches (dt_input_schema t) (take i (dt_steps t)) r"
    and "\<forall>(n, r)\<in>set (dt_result_map t). reference_reaches (dt_input_schema t) (dt_steps t) r"
    and "1 \<le> length (dt_steps t)" "length (dt_steps t) \<le> MAX_TOOL_STEPS" "distinct (map st_id (dt_steps t))"
proof -
  have w: "tool_wiring (dt_input_schema t) (dt_output_schema t) (dt_steps t) (py_names (dt_result_map t))
      = Inr (dt_result_map t)"
    and steps: "\<forall>s\<in>set (dt_steps t). step_ok s" and refs: "\<forall>(n, r)\<in>set (dt_result_map t). ref_ok r"
    using assms unfolding tool_ok_def make_tool_Inr by blast+
  obtain fs av where fs: "schema_fields ''tool input'' False (dt_input_schema t) = Inr fs"
    and av: "foldR (check_step fs) [] (dt_steps t) = Inr av"
    and res: "forR (\<lambda>(_, r). reference_ok fs av r) (dt_result_map t) = Inr ()"
    and shape: "dt_steps t \<noteq> []" "length (dt_steps t) \<le> MAX_TOOL_STEPS" "distinct (map st_id (dt_steps t))"
    using w unfolding tool_wiring_def by (auto simp: not_less)
  have d: "\<forall>f\<in>set fs. declared_field (dt_input_schema t) f"
    using schema_fields_declared [OF fs] by blast
  have start: "available_from [] []" by (simp add: available_from_def)
  note reach = check_steps_reach [OF av start d steps]
  show "\<forall>i < length (dt_steps t). \<forall>(n, r)\<in>set (st_inputs (dt_steps t ! i)).
      reference_reaches (dt_input_schema t) (take i (dt_steps t)) r"
    using reach(2) by simp
  show "\<forall>(n, r)\<in>set (dt_result_map t). reference_reaches (dt_input_schema t) (dt_steps t) r"
    using reference_ok_reaches [OF reach(1) _ _ d] refs res by fastforce
  show "1 \<le> length (dt_steps t)" "length (dt_steps t) \<le> MAX_TOOL_STEPS" "distinct (map st_id (dt_steps t))"
    using shape by (auto simp: Suc_le_eq)
qed

section \<open>Operations of a loaded revision\<close>

lemma target_not_protected:
  assumes "input_ok i" and "im_location i = ''header''"
  shows "py_lower (im_target i) \<notin> set PROTECTED_DYNAMIC_HEADERS"
  using assms unfolding input_ok_def make_input_mapping_Inr target_ok_def by auto

definition operation_gated :: "string \<Rightarrow> operation \<Rightarrow> bool" where
  "operation_gated base p \<longleftrightarrow>
     op_base_url p = base \<and> operation_path_ok (op_path p) \<and>
     (op_kind p = ''write'' \<and> op_explicit_write p \<or> op_kind p = ''read'' \<and> op_method p = ''GET'') \<and>
     1 \<le> op_timeout p \<and> op_timeout p \<le> OPERATION_TIMEOUT_MS \<and>
     list_all (\<lambda>i. im_location i = ''header'' \<longrightarrow> py_lower (im_target i) \<notin> set PROTECTED_DYNAMIC_HEADERS) (op_inputs p)"

lemma operation_ok_gated: "operation_ok p \<Longrightarrow> operation_gated (op_base_url p) p"
  using operation_facts [of "raw_of_operation p" p] target_not_protected
  unfolding operation_ok_def operation_gated_def ALLOWED_OPERATION_KINDS_def
  by (auto simp: list_all_iff)

lemma revision_ok_gated:
  assumes "revision_ok env rv" and "p \<in> set (rv_operations rv)"
  shows "operation_gated (rv_base_url rv) p"
proof -
  have "make_revision env (raw_of_revision rv) = Inr rv" "operation_ok p"
    using assms by (auto simp: revision_ok_def parts_ok_def)
  moreover obtain u where "check_operations (PStr (rv_base_url rv)) (rv_operations rv) = Inr u"
    using calculation(1) unfolding make_revision_Inr by (auto simp: raw_of_revision_def)
  ultimately show ?thesis
    using operations_on_base [OF _ assms(2)] operation_ok_gated by fastforce
qed

lemma revision_ok_host:
  assumes "revision_ok env rv"
  shows "\<exists>h. declaration_base_host env (PStr (rv_base_url rv)) = Inr h \<and> h \<in> set (rv_allowed_hosts rv)"
proof -
  have "hosts_of env (raw_of_revision rv) = Inr (rv_allowed_hosts rv)"
    using assms unfolding revision_ok_def make_revision_Inr by blast
  then show ?thesis by (auto simp: hosts_of_def raw_of_revision_def split: if_splits)
qed

section \<open>The connector manifest\<close>

lemma any_write_fits:
  "list_all (step_fits (rv_operations rv)) steps \<Longrightarrow>
     any_write rv steps = Inr (list_ex (step_writes (rv_operations rv)) steps)"
  by (induction steps) (auto simp: step_operation_def step_fits_def step_writes_def split: option.splits)

lemma total_timeout_from:
  "list_all (step_fits (rv_operations rv)) steps \<Longrightarrow>
     foldR (\<lambda>sum step.
       case st_timeout step of
         Some t \<Rightarrow> Inr (sum + t)
       | None \<Rightarrow> bindR (step_operation rv step) (\<lambda>p. Inr (sum + op_timeout p))) n steps
     = Inr (n + sum_list (map (step_cost (rv_operations rv)) steps))"
  by (induction steps arbitrary: n)
    (auto simp: step_operation_def step_fits_def step_cost_def step_timeout_def split: option.splits)

lemma total_timeout_fits:
  "list_all (step_fits (rv_operations rv)) steps \<Longrightarrow>
     total_timeout rv steps = Inr (sum_list (map (step_cost (rv_operations rv)) steps))"
  unfolding total_timeout_def using total_timeout_from [of rv steps 0] by simp

lemma py_in_str: "py_in (PStr s) ids \<longleftrightarrow> PStr s \<in> set ids"
proof -
  have "py_eq (PStr s) v \<longleftrightarrow> v = PStr s" for v by (cases v) (auto simp: py_eq.simps num_eq_def)
  then show ?thesis by (auto simp: py_in_def list_ex_iff)
qed

lemma add_identifiers_claim:
  assumes "claim_names msg seen (k, m) = Inr seen'" and "set ids = PStr ` set seen"
  shows "\<exists>ids'. add_identifiers dup ids (PStr k, PStr m) = Inr ids' \<and> set ids' = PStr ` set seen'"
  using assms by (cases "k = m") (auto simp: claim_names_def add_identifiers_def name_set_def py_in_str split: if_splits)

lemma tools_claim_names:
  assumes "foldR (check_revision_tool ops) seen ts = Inr seen'" and "set ids = PStr ` set seen"
    and "list_all2 (\<lambda>t s. tool_names s = (PStr (dt_key t), PStr (dt_mcp t))) ts specs"
  shows "\<exists>ids'. foldR (\<lambda>ids t. add_identifiers duplicate_identifier ids (tool_names t)) ids specs = Inr ids'"
  using assms(3,1,2)
proof (induction ts specs arbitrary: seen ids rule: list_all2_induct)
  case (Cons t ts s specs)
  then obtain seen1 where "check_revision_tool ops seen t = Inr seen1"
    and rest: "foldR (check_revision_tool ops) seen1 ts = Inr seen'" by auto
  then have "claim_names ''duplicate tool identifier'' seen (dt_key t, dt_mcp t) = Inr seen1"
    using check_revision_tool_Inr(1) by blast
  then obtain ids1 where "add_identifiers duplicate_identifier ids (tool_names s) = Inr ids1"
    "set ids1 = PStr ` set seen1"
    using add_identifiers_claim Cons.prems(2) Cons.hyps(1) by metis
  then show ?case using Cons.IH [OF rest] by auto
qed simp

text \<open>The entry of the manifest that a tool of the revision has.\<close>

definition published_as :: "operation list \<Rightarrow> decl_tool \<Rightarrow> pyval tool_spec \<Rightarrow> bool" where
  "published_as ops t s \<longleftrightarrow>
     tool_key s = PStr (dt_key t) \<and> mcp_name s = PStr (dt_mcp t) \<and>
     tool_description s = PStr (dt_description t) \<and>
     input_schema s = plain_convert (PMap (dt_input_schema t)) \<and>
     output_schema s = plain_convert (PMap (dt_output_schema t)) \<and>
     operation_kind s = PStr (if list_ex (step_writes ops) (dt_steps t) then ''write'' else ''read'') \<and>
     default_timeout_ms s = PInt (sum_list (map (step_cost ops) (dt_steps t))) \<and>
     cache_ttl_seconds s = opt_int (dt_cache_ttl t)"

definition schemas_plain :: "decl_tool \<Rightarrow> bool" where
  "schemas_plain t \<longleftrightarrow> \<not> isl (plain_json_value (PMap (dt_input_schema t))) \<and>
     \<not> isl (plain_json_value (PMap (dt_output_schema t)))"

lemma tool_spec_published:
  assumes "tool_fits (rv_operations rv) t" and "schemas_plain t"
  shows "\<exists>s. tool_spec_for rv t = Inr s \<and> published_as (rv_operations rv) t s"
proof -
  obtain p q where p: "plain_json_value (PMap (dt_input_schema t)) = Inr p"
    and q: "plain_json_value (PMap (dt_output_schema t)) = Inr q"
    using assms(2) unfolding schemas_plain_def isl_def by (metis sum.exhaust)
  have fits: "list_all (step_fits (rv_operations rv)) (dt_steps t)"
    using assms(1) by (simp add: tool_fits_def)
  show ?thesis
    unfolding tool_spec_for_def p q any_write_fits [OF fits] total_timeout_fits [OF fits] bindR.simps
    using plain_json_Inr [OF p] plain_json_Inr [OF q] by (simp add: published_as_def)
qed

lemma manifest_published:
  assumes "revision_ok env rv" and "list_all schemas_plain (rv_tools rv)"
  shows "\<exists>spec specs. revision_connector_spec rv = Inr spec \<and> spec_tools spec = map IsTool specs \<and>
    list_all2 (published_as (rv_operations rv)) (rv_tools rv) specs"
proof -
  have made: "make_revision env (raw_of_revision rv) = Inr rv"
    using assms(1) by (simp add: revision_ok_def)
  have each: "\<exists>s. tool_spec_for rv t = Inr s \<and> published_as (rv_operations rv) t s" if "t \<in> set (rv_tools rv)" for t
    using tool_spec_published revision_tools_fit [OF made that] assms(2) that by (auto simp: list_all_iff)
  define spec_of where "spec_of t = projr (tool_spec_for rv t)" for t
  have spec_of: "tool_spec_for rv t = Inr (spec_of t)" "published_as (rv_operations rv) t (spec_of t)"
    if "t \<in> set (rv_tools rv)" for t using each [OF that] by (auto simp: spec_of_def)
  define specs where "specs = map spec_of (rv_tools rv)"
  have specs: "mapR (tool_spec_for rv) (rv_tools rv) = Inr specs"
    unfolding specs_def by (rule mapR_total) (rule spec_of(1))
  have pub: "list_all2 (published_as (rv_operations rv)) (rv_tools rv) specs"
    unfolding specs_def list_all2_map2 using spec_of(2) by (simp add: list_all2_same)
  then have names: "list_all2 (\<lambda>t s. tool_names s = (PStr (dt_key t), PStr (dt_mcp t))) (rv_tools rv) (map IsTool specs)"
    unfolding list_all2_map2 by (rule list_all2_mono) (simp add: published_as_def)
  obtain u where "foldR (check_revision_tool (rv_operations rv)) [] (rv_tools rv) = Inr u"
    using made unfolding make_revision_Inr by (auto simp: raw_of_revision_def)
  then obtain ids where "foldR (\<lambda>ids t. add_identifiers duplicate_identifier ids (tool_names t)) [] (map IsTool specs) = Inr ids"
    using tools_claim_names [OF _ _ names, of "rv_operations rv" "[]" u "[]"] by auto
  then show ?thesis
    using pub unfolding revision_connector_spec_def specs by (auto simp: make_connector_spec_def)
qed

end
