(* ===== verification/DeclRequest.thy ===== *)
theory DeclRequest
  imports DeclSafety
begin

text \<open>
  The address a request goes to (\<open>DeclarativeOperation.build_request\<close>): arguments are percent-encoded into
  their placeholders, so the path keeps the segments that were declared.
\<close>

section \<open>The address of a request\<close>

text \<open>What percent-encoding leaves of a text: unreserved characters, the sign and hexadecimal digits.\<close>

definition quoted_char :: "char \<Rightarrow> bool" where
  "quoted_char c \<longleftrightarrow> always_safe c \<or> c = CHR ''%''"

lemma upper_hex_safe: "d < 16 \<Longrightarrow> always_safe (upper_hex d)"
proof -
  have "list_all (\<lambda>d. always_safe (upper_hex d)) [0, 1, 2, 3, 4, 5, 6, 7, 8, 9, 10, 11, 12, 13, 14, 15]"
    by code_simp
  moreover assume "d < 16"
  then have "d = 0 \<or> d = 1 \<or> d = 2 \<or> d = 3 \<or> d = 4 \<or> d = 5 \<or> d = 6 \<or> d = 7 \<or> d = 8 \<or> d = 9 \<or> d = 10 \<or>
      d = 11 \<or> d = 12 \<or> d = 13 \<or> d = 14 \<or> d = 15" by presburger
  then have "d \<in> set [0, 1, 2, 3, 4, 5, 6, 7, 8, 9, 10, 11, 12, 13, 14, 15]" by (elim disjE) simp_all
  ultimately show ?thesis by (simp only: list_all_iff)
qed

lemma quote_byte_chars: "b < 256 \<Longrightarrow> list_all quoted_char (quote_byte b)"
  using upper_hex_safe [of "b div 16"] upper_hex_safe [of "b mod 16"]
  by (auto simp: quote_byte_def quoted_char_def)

lemma utf8_bytes: "b \<in> set (utf8 s) \<Longrightarrow> b < 256"
proof -
  have "b < 256" if "b \<in> set (utf8_char c)" for c b
  proof -
    have "cp c < 256" by simp
    then have "cp c div 64 < 64" by linarith
    then show ?thesis using that \<open>cp c < 256\<close> by (auto simp: utf8_char_def split: if_splits)
  qed
  then show "b \<in> set (utf8 s) \<Longrightarrow> b < 256" by (auto simp: utf8_def)
qed

lemma quote_chars: "list_all quoted_char (quote s)"
  using quote_byte_chars utf8_bytes by (auto simp: quote_def list_all_iff)

lemma quote_plus_chars: "list_all (\<lambda>c. quoted_char c \<or> c = CHR ''+'') (quote_plus s)"
  using quote_byte_chars utf8_bytes by (auto simp: quote_plus_def list_all_iff split: if_splits)

lemma join_with_chars: "list_all P sep \<Longrightarrow> list_all (list_all P) ws \<Longrightarrow> list_all P (join_with sep ws)"
  by (induction sep ws rule: join_with.induct) auto

definition query_char :: "char \<Rightarrow> bool" where
  "query_char c \<longleftrightarrow> quoted_char c \<or> c = CHR ''+'' \<or> c = CHR ''&'' \<or> c = CHR ''=''"

lemma urlencode_chars: "list_all query_char (urlencode kvs)"
  unfolding urlencode_def
proof (rule join_with_chars)
  show "list_all (list_all query_char) (map (\<lambda>(k, v). quote_plus k @ ''='' @ quote_plus v) kvs)"
    using quote_plus_chars by (auto simp: list_all_iff query_char_def)
qed (simp add: query_char_def)

lemma py_replace_set: "set (py_replace old new s) \<subseteq> set s \<union> set new"
  by (induction old new s rule: py_replace.induct) (auto dest: in_set_dropD)

lemma py_replace_keeps:
  assumes "c \<notin> set old" and "c \<notin> set new"
  shows "filter (\<lambda>d. d = c) (py_replace old new s) = filter (\<lambda>d. d = c) s"
  using assms
proof (induction old new s rule: py_replace.induct)
  case (2 old new x s)
  have none: "filter (\<lambda>d. d = c) new = []" "filter (\<lambda>d. d = c) old = []"
    using 2(3,4) by (auto simp: filter_empty_conv)
  show ?case
  proof (cases "old \<noteq> [] \<and> prefix old (x # s)")
    case True
    then obtain rest where rest: "x # s = old @ rest" by (auto simp: prefix_def)
    have "drop (length old - 1) s = rest"
      using rest True by (cases old) auto
    moreover have "filter (\<lambda>d. d = c) (x # s) = filter (\<lambda>d. d = c) rest"
      using rest none by simp
    ultimately show ?thesis using 2(1) [OF True 2(3,4)] True none by simp
  next
    case False
    then show ?thesis using 2(2) [OF False 2(3,4)] by auto
  qed
qed simp

text \<open>A path that came from the declared one by filling in arguments.\<close>

definition path_of :: "string \<Rightarrow> string \<Rightarrow> bool" where
  "path_of declared path \<longleftrightarrow>
     filter (\<lambda>c. c = CHR ''/'') path = filter (\<lambda>c. c = CHR ''/'') declared \<and>
     list_all (\<lambda>c. c \<in> set declared \<or> quoted_char c) path"

lemma target_plain:
  assumes "input_ok i" and "im_location i = ''path''"
  shows "CHR ''/'' \<notin> set (placeholder (im_target i))"
proof -
  have "ident_re (im_target i)"
    using assms unfolding input_ok_def make_input_mapping_Inr target_ok_def by auto
  moreover have "\<not> ascii_alpha CHR ''/''" "\<not> ident_rest CHR ''/''" by code_simp+
  ultimately show ?thesis
    using first_rest_no unfolding ident_re_def placeholder_def by fastforce
qed

lemma quoted_no_slash: "list_all quoted_char s \<Longrightarrow> CHR ''/'' \<notin> set s"
proof -
  have "\<not> quoted_char CHR ''/''" by code_simp
  then show "list_all quoted_char s \<Longrightarrow> CHR ''/'' \<notin> set s" by (auto simp: list_all_iff)
qed

lemma place_value_path:
  assumes "place_value env q i v = Inr q'" and "input_ok i" and "path_of declared (rp_path q)"
  shows "path_of declared (rp_path q')"
proof (cases "im_location i = ''path''")
  case True
  then have q': "rp_path q' = py_replace (placeholder (im_target i)) (quote (py_str (env_float env) v)) (rp_path q)"
    using assms(1) by (auto simp: place_value_def split: if_splits)
  have slash: "CHR ''/'' \<notin> set (placeholder (im_target i))" "CHR ''/'' \<notin> set (quote (py_str (env_float env) v))"
    using target_plain [OF assms(2) True] quoted_no_slash [OF quote_chars] by blast+
  show ?thesis
    using assms(3) py_replace_set [of "placeholder (im_target i)" "quote (py_str (env_float env) v)" "rp_path q"]
      quote_chars [of "py_str (env_float env) v"]
    unfolding q' path_of_def py_replace_keeps [OF slash] by (auto simp: list_all_iff)
next
  case False
  then have "rp_path q' = rp_path q"
    using assms(1) by (auto simp: place_value_def split: if_splits)
  then show ?thesis using assms(3) by simp
qed

lemma place_argument_path:
  assumes "place_argument env args q i = Inr q'" and "input_ok i" and "path_of declared (rp_path q)"
  shows "path_of declared (rp_path q')"
  using assms place_value_path by (auto simp: place_argument_def split: option.splits if_splits)

lemma build_request_Inr:
  assumes "build_request env p arguments = Inr rq"
  obtains args q where "arguments = PMap args" "arguments_declared p args"
    "foldR (place_argument env args) \<lparr>rp_path = op_path p, rp_query = [], rp_body = []\<rparr> (op_inputs p) = Inr q"
    "CHR ''{'' \<notin> set (rp_path q)" "CHR ''}'' \<notin> set (rp_path q)" "rq_method rq = op_method p"
    "rq_url rq = rstrip_char CHR ''/'' (op_base_url p) @ rp_path q
       @ (if rp_query q = [] then [] else ''?'' @ urlencode (rp_query q))"
    "\<forall>b. rq_body rq = Some b \<longrightarrow> (\<exists>n. json_size (env_float env) (PMap b) = Inr n \<and> n \<le> MAX_REQUEST_BODY_BYTES)"
proof -
  obtain args where args: "arguments = PMap args" and dec: "arguments_declared p args"
    using assms by (auto simp: build_request_def split: pyval.splits if_splits)
  obtain q where q: "foldR (place_argument env args) \<lparr>rp_path = op_path p, rp_query = [], rp_body = []\<rparr> (op_inputs p) = Inr q"
    using assms dec unfolding args by (auto simp: build_request_def)
  define url where "url = rstrip_char CHR ''/'' (op_base_url p) @ rp_path q
       @ (if rp_query q = [] then [] else ''?'' @ urlencode (rp_query q))"
  have b: "\<not> (CHR ''{'' \<in> set (rp_path q) \<or> CHR ''}'' \<in> set (rp_path q))"
    and e: "(if rp_body q = [] then Inr \<lparr>rq_method = op_method p, rq_url = url, rq_body = None\<rparr>
         else bindR (json_size (env_float env) (PMap (rp_body q))) (\<lambda>size.
                     if size > MAX_REQUEST_BODY_BYTES
                     then Inl (Exc RequestTooLargeError ''request body exceeds limit'')
                     else Inr \<lparr>rq_method = op_method p, rq_url = url, rq_body = Some (rp_body q)\<rparr>)) = Inr rq"
    using assms dec unfolding args build_request_def url_def by (simp_all add: q Let_def split: if_splits)
  have "rq_method rq = op_method p" "rq_url rq = url"
    "\<forall>b. rq_body rq = Some b \<longrightarrow> (\<exists>n. json_size (env_float env) (PMap b) = Inr n \<and> n \<le> MAX_REQUEST_BODY_BYTES)"
    using e by (auto split: if_splits)
  then show thesis using that args dec q b url_def by blast
qed

end
