(* ===== verification/DeclClaims.thy ===== *)
theory DeclClaims
  imports DeclRequest
begin

text \<open>
  The properties of declarations: storing and loading, the bounds and gates of what was loaded, the
  manifest, and the requests.
\<close>

section \<open>Storing and loading\<close>

text \<open>C14: Storing a revision and loading the stored document gives the same revision, for every document
  within the size limit in which no ordinary string holds a value-reference marker.\<close>

theorem storage_round_trip:
  assumes "revision_ok env rv" and "storage_document rv = Inr d"
    and "json_size (env_float env) d = Inr n" and "n \<le> MAX_DOCUMENT_BYTES"
    and "\<forall>v\<in>set (ordinary_parts rv). reference_free v"
  shows "from_storage_document env (rv_spec_id rv) (PInt (rv_revision rv)) (rv_tenant_id rv) (rv_connection_id rv)
    (PStr (rv_status rv)) d = Inr rv"
  using assms by (rule stored_revision_reads_back)

lemma storage_round_trip_witness:
  "from_storage_document demo_env (PStr ''spec'') (PInt 3) (PStr ''t1'') (PStr ''c1'') (PStr ''published'')
     demo_document = Inr demo_revision"
proof -
  obtain n where "json_size (env_float demo_env) demo_document = Inr n" "n \<le> MAX_DOCUMENT_BYTES"
    using demo_size by blast
  from storage_round_trip [OF demo_revision_ok demo_stores this demo_ordinary [unfolded list_all_iff]]
  show ?thesis by (simp add: demo_revision_def)
qed

text \<open>C15: A loaded revision is well formed: constructing it again from its own fields returns it, and every
  operation, input and output mapping, tool, step, reference, authentication scheme and sync specification in
  it is what its own constructor returns.\<close>

theorem loaded_revision_typed:
  assumes "from_storage_document env spec_id number tenant_id connection_id status document = Inr rv"
  shows "make_revision env (raw_of_revision rv) = Inr rv \<and>
    parts_ok (rv_operations rv) (rv_tools rv) (rv_auth rv) (rv_sync rv)"
  using loaded_revision_ok [OF assms] by (simp add: revision_ok_def)

lemma loaded_revision_typed_witness:
  "make_revision demo_env (raw_of_revision demo_revision) = Inr demo_revision \<and>
    parts_ok [demo_find, demo_save] [demo_copy] None None"
  using loaded_revision_typed [OF demo_loads] by (simp add: demo_revision_def)

text \<open>An operation whose description mentions a value reference can be declared and stored, but the stored
  revision can never be loaded again.\<close>

definition demo_described :: "revision result" where
  "demo_described =
     make_revision demo_env ((raw_of_revision demo_revision)
       \<lparr>rr_operations := [demo_find\<lparr>op_description := ''Item $input.item''\<rparr>], rr_tools := []\<rparr>)"

theorem stored_description_unreadable:
  "(case demo_described of
      Inl _ \<Rightarrow> False
    | Inr rv \<Rightarrow>
        (case storage_document rv of
           Inl _ \<Rightarrow> False
         | Inr d \<Rightarrow>
             from_storage_document demo_env (rv_spec_id rv) (PInt (rv_revision rv)) (rv_tenant_id rv)
               (rv_connection_id rv) (PStr (rv_status rv)) d
             = Inl (spec_error ''value references are not supported in this position'')))"
  by code_simp

text \<open>C20: A value passes the declaration policy exactly when it nests at most 24 levels, holds only finite JSON
  values in collections of at most 2000 elements, its strings are at most 16384 bytes and free of expression
  markers, no key is \<open>$ref\<close>, and its nodes and keys are at most 20000.\<close>

theorem declaration_policy_exact:
  "assert_safe_declaration_value v = Inr () \<longleftrightarrow> safe_shape 0 v \<and> safe_nodes v \<le> 20000"
  by (rule policy_iff)

section \<open>What a loaded revision guarantees\<close>

text \<open>C16: Every tool of a loaded revision has 1 to 16 steps on declared operations, at most one of which writes,
  passes each operation its required and only its declared inputs, and takes at most 60 seconds in total.\<close>

theorem loaded_tools_bounded:
  assumes "from_storage_document env spec_id number tenant_id connection_id status document = Inr rv"
    and "t \<in> set (rv_tools rv)"
  shows "1 \<le> length (dt_steps t) \<and> length (dt_steps t) \<le> 16 \<and> distinct (map st_id (dt_steps t)) \<and>
    list_all (step_fits (rv_operations rv)) (dt_steps t) \<and>
    length (filter (step_writes (rv_operations rv)) (dt_steps t)) \<le> 1 \<and>
    sum_list (map (step_cost (rv_operations rv)) (dt_steps t)) \<le> 60000"
proof -
  have ok: "revision_ok env rv" by (rule loaded_revision_ok [OF assms(1)])
  then have "tool_fits (rv_operations rv) t"
    unfolding revision_ok_def using revision_tools_fit assms(2) by blast
  moreover have "tool_ok t" using ok assms(2) by (simp add: revision_ok_def parts_ok_def)
  ultimately show ?thesis
    using tool_ok_reaches(3-5) by (auto simp: tool_fits_def MAX_TOOL_STEPS_def MAX_TOOL_TIMEOUT_MS_def)
qed

lemma loaded_tools_bounded_witness:
  "length (filter (step_writes [demo_find, demo_save]) (dt_steps demo_copy)) \<le> 1 \<and>
    sum_list (map (step_cost [demo_find, demo_save]) (dt_steps demo_copy)) \<le> 60000"
  using loaded_tools_bounded [OF demo_loads, of demo_copy] by (simp add: demo_revision_def)

text \<open>C17: In a loaded revision every value reference of a step names a declared tool input or an output of an
  earlier step, and every reference of the result map one of a declared input or of any step.\<close>

theorem loaded_references_resolve:
  assumes "from_storage_document env spec_id number tenant_id connection_id status document = Inr rv"
    and "t \<in> set (rv_tools rv)"
  shows "(\<forall>i < length (dt_steps t). \<forall>(n, r)\<in>set (st_inputs (dt_steps t ! i)).
      reference_reaches (dt_input_schema t) (take i (dt_steps t)) r) \<and>
    (\<forall>(n, r)\<in>set (dt_result_map t). reference_reaches (dt_input_schema t) (dt_steps t) r)"
proof -
  have "tool_ok t"
    using loaded_revision_ok [OF assms(1)] assms(2) by (simp add: revision_ok_def parts_ok_def)
  then show ?thesis using tool_ok_reaches(1,2) by blast
qed

lemma loaded_references_resolve_witness:
  "reference_reaches (dt_input_schema demo_copy) (take 1 (dt_steps demo_copy))
     \<lparr>vr_source = ''steps'', vr_field = ''id'', vr_step = Some ''one''\<rparr>"
proof -
  have "demo_copy \<in> set (rv_tools demo_revision)" by (simp add: demo_revision_def)
  from loaded_references_resolve [OF demo_loads this, THEN conjunct1, rule_format, of 1]
  show ?thesis by (simp add: demo_copy_def)
qed

text \<open>C18: Every operation of a loaded revision goes to the revision's base URL, whose host is an allowed host; it
  writes only with the explicit write flag and otherwise uses GET; its path is absolute and free of empty and
  dot segments, queries, fragments and escapes; and no caller input sets a protected header.\<close>

theorem loaded_operations_gated:
  assumes "from_storage_document env spec_id number tenant_id connection_id status document = Inr rv"
    and "p \<in> set (rv_operations rv)"
  shows "operation_gated (rv_base_url rv) p \<and>
    (\<exists>h. declaration_base_host env (PStr (rv_base_url rv)) = Inr h \<and> h \<in> set (rv_allowed_hosts rv))"
  using loaded_revision_ok [OF assms(1)] revision_ok_gated revision_ok_host assms(2) by blast

lemma loaded_operations_gated_witness:
  "operation_gated demo_base demo_save"
  using loaded_operations_gated [OF demo_loads, of demo_save] by (simp add: demo_revision_def)

text \<open>The manifest of a loaded revision whose schemas convert to plain JSON is always built; each tool in it
  is a write tool exactly when one of its steps writes, and its default timeout is the sum of its steps'.\<close>

theorem manifest_of_loaded:
  assumes "from_storage_document env spec_id number tenant_id connection_id status document = Inr rv"
    and "list_all schemas_plain (rv_tools rv)"
  shows "\<exists>spec specs. revision_connector_spec rv = Inr spec \<and> spec_tools spec = map IsTool specs \<and>
    list_all2 (published_as (rv_operations rv)) (rv_tools rv) specs"
  using loaded_revision_ok [OF assms(1)] assms(2) by (rule manifest_published)

lemma manifest_of_loaded_witness:
  "\<exists>spec s. revision_connector_spec demo_revision = Inr spec \<and> spec_tools spec = [IsTool s] \<and>
    operation_kind s = PStr ''write'' \<and> default_timeout_ms s = PInt 35000"
proof -
  have "list_all schemas_plain (rv_tools demo_revision)" by code_simp
  from manifest_of_loaded [OF demo_loads this] obtain spec specs where
    "revision_connector_spec demo_revision = Inr spec" "spec_tools spec = map IsTool specs"
    "list_all2 (published_as [demo_find, demo_save]) [demo_copy] specs"
    by (auto simp: demo_revision_def)
  moreover have "list_ex (step_writes [demo_find, demo_save]) (dt_steps demo_copy)"
    "sum_list (map (step_cost [demo_find, demo_save]) (dt_steps demo_copy)) = 35000" by code_simp+
  ultimately show ?thesis by (auto simp: list_all2_Cons1 published_as_def)
qed

section \<open>Requests\<close>

text \<open>C19: A request built for an operation uses its method, and its address is the base URL, a path with exactly
  the slashes of the declared path in which every other character is declared or percent-encoded, and a query
  of encoded pairs; a body is at most 65536 bytes.\<close>

theorem request_keeps_path:
  assumes "operation_ok p" and "build_request env p arguments = Inr rq"
  shows "\<exists>path query. rq_url rq = rstrip_char CHR ''/'' (op_base_url p) @ path @ query \<and> path_of (op_path p) path \<and>
    CHR ''{'' \<notin> set path \<and> CHR ''}'' \<notin> set path \<and> (query = [] \<or> (\<exists>s. query = CHR ''?'' # s \<and> list_all query_char s)) \<and>
    rq_method rq = op_method p \<and>
    (\<forall>b. rq_body rq = Some b \<longrightarrow> (\<exists>n. json_size (env_float env) (PMap b) = Inr n \<and> n \<le> MAX_REQUEST_BODY_BYTES))"
  using assms(2)
proof (rule build_request_Inr)
  fix args q
  assume fold: "foldR (place_argument env args) \<lparr>rp_path = op_path p, rp_query = [], rp_body = []\<rparr> (op_inputs p) = Inr q"
    and rest: "CHR ''{'' \<notin> set (rp_path q)" "CHR ''}'' \<notin> set (rp_path q)" "rq_method rq = op_method p"
    "rq_url rq = rstrip_char CHR ''/'' (op_base_url p) @ rp_path q
       @ (if rp_query q = [] then [] else ''?'' @ urlencode (rp_query q))"
    "\<forall>b. rq_body rq = Some b \<longrightarrow> (\<exists>n. json_size (env_float env) (PMap b) = Inr n \<and> n \<le> MAX_REQUEST_BODY_BYTES)"
  have "path_of (op_path p) (rp_path q)"
    using fold
  proof (rule foldR_invariant)
    show "path_of (op_path p) (rp_path \<lparr>rp_path = op_path p, rp_query = [], rp_body = []\<rparr>)"
      by (simp add: path_of_def list_all_iff)
  next
    fix q i q' assume "i \<in> set (op_inputs p)" "path_of (op_path p) (rp_path q)" "place_argument env args q i = Inr q'"
    then show "path_of (op_path p) (rp_path q')"
      using place_argument_path assms(1) by (auto simp: operation_ok_def)
  qed
  then show ?thesis using rest urlencode_chars by (auto simp: exI [of _ "rp_path q"])
qed

lemma request_keeps_path_witness:
  "\<exists>path query. demo_base @ ''/items/a%2Fb'' = demo_base @ path @ query \<and> path_of ''/items/{item}'' path"
proof -
  have "operation_ok demo_find" using demo_revision_ok by (simp add: revision_ok_def parts_ok_def demo_revision_def)
  moreover have "build_request demo_env demo_find (pdict [(''item'', PStr ''a/b'')])
    = Inr \<lparr>rq_method = ''GET'', rq_url = demo_base @ ''/items/a%2Fb'', rq_body = None\<rparr>" by code_simp
  moreover have "rstrip_char CHR ''/'' (op_base_url demo_find) = demo_base" "op_path demo_find = ''/items/{item}''"
    by code_simp+
  ultimately show ?thesis using request_keeps_path by (metis http_request.select_convs(2))
qed

text \<open>The rule against dot segments holds for the declared path only: an argument \<open>..\<close> is passed through the
  encoding unchanged and gives a path that no declaration may have.\<close>

theorem path_argument_dots:
  "build_request demo_env demo_find (pdict [(''item'', PStr ''..'')])
     = Inr \<lparr>rq_method = ''GET'', rq_url = demo_base @ ''/items/..'', rq_body = None\<rparr> \<and>
   \<not> operation_path_ok ''/items/..''"
  by code_simp

end
