(* ===== verification/Listing.thy ===== *)
theory Listing
  imports Runtime DeclClaims
begin

text \<open>
  The tools a connection lists and the calls \<open>ConnectorRuntime\<close> admits, for static and for declarative
  connections: the tools of a declarative connection are those the manifest of its published revision
  declares (\<open>revision_connector_spec\<close>), with names as proper and disjoint as those of a registered connector.
\<close>

section \<open>The names in a revision's manifest\<close>

lemma claim_names_fresh:
  assumes "claim_names msg seen (k, m) = Inr seen'"
  shows "{k, m} \<inter> set seen = {}" "set seen' = set seen \<union> {k, m}"
  using assms by (auto simp: claim_names_def split: if_splits)

lemma check_tools_disjoint:
  "foldR (check_revision_tool ops) seen ts = Inr seen'
     \<Longrightarrow> sorted_wrt (\<lambda>t u. {dt_key t, dt_mcp t} \<inter> {dt_key u, dt_mcp u} = {}) ts \<and>
         (\<forall>t \<in> set ts. {dt_key t, dt_mcp t} \<inter> set seen = {})"
proof (induction ts arbitrary: seen)
  case (Cons t ts)
  then obtain seen1 where t: "check_revision_tool ops seen t = Inr seen1"
    and rest: "foldR (check_revision_tool ops) seen1 ts = Inr seen'" by auto
  note fresh = claim_names_fresh [OF check_revision_tool_Inr(1) [OF t]]
  then show ?case using Cons.IH [OF rest] by auto
qed simp

lemma named_like:
  assumes "list_all2 (\<lambda>t s. tool_key s = PStr (dt_key t) \<and> mcp_name s = PStr (dt_mcp t)) ts specs"
    and "\<forall>t \<in> set ts. ident_re (dt_key t) \<and> ident_re (dt_mcp t)"
    and "sorted_wrt (\<lambda>t u. {dt_key t, dt_mcp t} \<inter> {dt_key u, dt_mcp u} = {}) ts"
  shows "list_all named_tool (map IsTool specs) \<and> disjoint_idents (map IsTool specs) \<and>
    (\<forall>s \<in> set specs. \<exists>t \<in> set ts. set (tool_idents (IsTool s)) = {dt_key t, dt_mcp t})"
  using assms
proof (induction ts specs rule: list_all2_induct)
  case Nil
  then show ?case by (simp add: disjoint_idents_def)
next
  case (Cons t ts s specs)
  have s: "set (tool_idents (IsTool s)) = {dt_key t, dt_mcp t}" "named_tool (IsTool s)"
    using Cons.hyps(1) Cons.prems(1) by (auto simp: tool_idents_def named_tool_def)
  have "\<forall>u \<in> set specs. set (tool_idents (IsTool s)) \<inter> set (tool_idents (IsTool u)) = {}"
    using Cons s(1) by fastforce
  then show ?case using Cons s by (auto simp: disjoint_idents_def)
qed

lemma manifest_names:
  assumes "revision_ok env rv" and "revision_connector_spec rv = Inr spec"
  shows "list_all named_tool (spec_tools spec)" "disjoint_idents (spec_tools spec)"
proof -
  obtain specs where specs: "mapR (tool_spec_for rv) (rv_tools rv) = Inr specs" and tools: "spec_tools spec = map IsTool specs"
    using assms(2) by (auto simp: revision_connector_spec_def make_connector_spec_def)
  have "tool_spec_for rv t = Inr s \<Longrightarrow> tool_key s = PStr (dt_key t) \<and> mcp_name s = PStr (dt_mcp t)" for t s
    by (auto simp: tool_spec_for_def)
  then have names: "list_all2 (\<lambda>t s. tool_key s = PStr (dt_key t) \<and> mcp_name s = PStr (dt_mcp t)) (rv_tools rv) specs"
    using specs unfolding mapR_Inr_iff by (auto elim: list_all2_mono)
  have idents: "\<forall>t \<in> set (rv_tools rv). ident_re (dt_key t) \<and> ident_re (dt_mcp t)"
    using assms(1) by (auto simp: revision_ok_def parts_ok_def tool_ok_def make_tool_Inr)
  have "make_revision env (raw_of_revision rv) = Inr rv" using assms(1) by (simp add: revision_ok_def)
  then obtain u where "foldR (check_revision_tool (rv_operations rv)) [] (rv_tools rv) = Inr u"
    unfolding make_revision_Inr by (auto simp: raw_of_revision_def)
  from named_like [OF names idents conjunct1 [OF check_tools_disjoint [OF this]]]
  show "list_all named_tool (spec_tools spec)" "disjoint_idents (spec_tools spec)" unfolding tools by blast+
qed

section \<open>Listing and admission\<close>

text \<open>A manifest with the tools of a constructed revision, as the provider of declarative connections makes it.\<close>

definition declared_manifest :: "pyval connector_spec \<Rightarrow> bool" where
  "declared_manifest spec \<longleftrightarrow> (\<exists>env rv derived. revision_ok env rv \<and> revision_connector_spec rv = Inr derived \<and>
     spec_tools spec = spec_tools derived)"

text \<open>C1: The list of tools and the admission of calls agree.  For an active connection, of a registered connector
  or of a published revision, a tool is listed exactly when the policy guard lets it pass; a call of a listed
  tool, under its key or its MCP name, is admitted for that very tool or refused by its rate limit alone; and a
  call of a tool that is not listed is refused by policy, before anything is executed.  Only where an audit sink
  raises what is no exception, such as a cancellation, while a refusal is recorded, that comes out instead.\<close>

theorem listing_matches_admission:
  assumes "registry_reachable (rt_registry rt)" and "cn_status cn = ''active''"
    and "list_enabled_tools rt cn = Inr ts" and "spec_for rt cn = Inr spec"
    and "cn_connector cn = ''http_declarative'' \<Longrightarrow> declared_manifest spec"
    and "IsTool t \<in> set (spec_tools spec)" and "n \<in> set (tool_idents (IsTool t))"
  shows "if tool_key t \<in> tool_key ` set ts
         then (\<exists>r. fst (execute_admit rt now s cn n (PMap args) (PBool b)) = Inr (t, r)) \<or>
              (\<exists>e. fst (execute_admit rt now s cn n (PMap args) (PBool b)) = Inl e \<and>
                 (e = Exc RateLimitError ''rate limit exceeded'' \<or> \<not> is_exception e \<and> \<not> sink_calm rt))
         else (\<exists>e. fst (execute_admit rt now s cn n (PMap args) (PBool b)) = Inl e \<and>
                 (policy_denial e \<or> \<not> is_exception e \<and> \<not> sink_calm rt))"
proof -
  have "list_all named_tool (spec_tools spec) \<and> disjoint_idents (spec_tools spec)"
  proof (cases "cn_connector cn = ''http_declarative''")
    case True
    then show ?thesis using assms(5) manifest_names by (auto simp: declared_manifest_def)
  next
    case False
    then show ?thesis using spec_for_validated [OF assms(4,1)] by blast
  qed
  then show ?thesis using listing_admission assms(2-4,6,7) by blast
qed

text \<open>A connection of the example revision: its one tool writes, so that without a policy it is not listed.\<close>

definition declared_connection :: connection where
  "declared_connection = (crm_connection ''direct'')\<lparr>cn_connector := ''http_declarative''\<rparr>"

definition declared_runtime :: "nat runtime" where
  "declared_runtime = (crm_runtime [] None)\<lparr>rt_provider :=
     Some \<lparr>pv_key = ''http_declarative'', pv_spec = (\<lambda>_. revision_connector_spec demo_revision),
           pv_connect = (\<lambda>_. Inr 0)\<rparr>\<rparr>"

lemma listing_matches_admission_witness:
  "\<exists>e. fst (execute_admit declared_runtime 0 start_state declared_connection ''copy_item'' (PMap []) (PBool False)) = Inl e \<and>
     policy_denial e"
proof -
  have "case revision_connector_spec demo_revision of
      Inr spec \<Rightarrow> length (spec_tools spec) = 1 \<and> list_all (\<lambda>obj. case obj of
          IsTool t \<Rightarrow> ''copy_item'' \<in> set (tool_idents (IsTool t)) \<and>
            assert_allowed t None = Inl (Exc WritePolicyError ''write tools require explicit connection policy'')
        | NotTool _ _ \<Rightarrow> False) (spec_tools spec)
    | Inl _ \<Rightarrow> False" by code_simp
  then obtain spec y where spec1: "revision_connector_spec demo_revision = Inr spec" "spec_tools spec = [y]"
    and y: "case y of
          IsTool t \<Rightarrow> ''copy_item'' \<in> set (tool_idents (IsTool t)) \<and>
            assert_allowed t None = Inl (Exc WritePolicyError ''write tools require explicit connection policy'')
        | NotTool _ _ \<Rightarrow> False"
    by (cases "revision_connector_spec demo_revision") (auto simp: length_Suc_conv)
  then obtain t where spec: "revision_connector_spec demo_revision = Inr spec" "spec_tools spec = [IsTool t]"
    and name: "''copy_item'' \<in> set (tool_idents (IsTool t))"
    and denied: "assert_allowed t None = Inl (Exc WritePolicyError ''write tools require explicit connection policy'')"
    by (cases y) auto
  have spec_for: "spec_for declared_runtime declared_connection = Inr spec"
    using spec(1) by (simp add: spec_for_def provider_for_def declared_runtime_def declared_connection_def)
  have no_policy: "policy_for declared_runtime declared_connection t = Inr None"
    by (simp add: policy_for_def declared_runtime_def crm_runtime_simps)
  have active: "cn_status declared_connection = ''active''" by (simp add: declared_connection_def)
  have list: "list_enabled_tools declared_runtime declared_connection = Inr []"
    by (simp add: list_enabled_tools_def active spec_for spec(2) no_policy denied policy_denial_def)
  have reach: "registry_reachable (rt_registry declared_runtime)"
    by (simp add: declared_runtime_def crm_runtime_simps crm_registry_reachable)
  have manifest: "declared_manifest spec" using demo_revision_ok spec(1) unfolding declared_manifest_def by blast
  have calm: "sink_calm declared_runtime"
    using crm_runtime_simps(4) by (simp add: sink_calm_def declared_runtime_def)
  have tool: "IsTool t \<in> set (spec_tools spec)" by (simp add: spec(2))
  show ?thesis
    using listing_matches_admission [OF reach active list spec_for manifest tool name, of 0 start_state "[]" False] calm
    by simp
qed

end
