(* ===== verification/PyUrl.thy ===== *)
theory PyUrl
  imports PyNet
begin

text \<open>
  The rest of \<open>urllib.parse\<close> the program uses: \<open>urlunsplit\<close>, \<open>urljoin\<close> and \<open>parse_qsl\<close>, as in Python
  3.11, on the URLs the program gives them: the base of a join is an \<open>https\<close> URL, and a parsed query holds
  what \<open>urlencode\<close> wrote for Latin-1 text.
\<close>

section \<open>Joining\<close>

definition uses_relative :: "string list" where
  "uses_relative = ['''', ''ftp'', ''http'', ''gopher'', ''nntp'', ''imap'', ''wais'', ''file'', ''https'', ''shttp'',
     ''mms'', ''prospero'', ''rtsp'', ''rtsps'', ''rtspu'', ''sftp'', ''svn'', ''svn+ssh'', ''ws'', ''wss'']"

definition uses_netloc :: "string list" where
  "uses_netloc = ['''', ''ftp'', ''http'', ''gopher'', ''nntp'', ''telnet'', ''imap'', ''wais'', ''file'', ''mms'',
     ''https'', ''shttp'', ''snews'', ''prospero'', ''rtsp'', ''rtsps'', ''rtspu'', ''rsync'', ''svn'', ''svn+ssh'',
     ''sftp'', ''nfs'', ''git'', ''git+ssh'', ''ws'', ''wss'']"

definition uses_params :: "string list" where
  "uses_params = ['''', ''ftp'', ''hdl'', ''prospero'', ''http'', ''imap'', ''https'', ''shttp'', ''rtsp'', ''rtsps'',
     ''rtspu'', ''sip'', ''sips'', ''mms'', ''sftp'', ''tel'']"

definition urlunsplit :: "url_parts \<Rightarrow> string" where
  "urlunsplit u =
     (let path = u_path u;
          rooted = (if path \<noteq> [] \<and> \<not> prefix ''/'' path then ''/'' @ path else path);
          s1 = (if u_netloc u \<noteq> [] \<or> (u_scheme u \<noteq> [] \<and> u_scheme u \<in> set uses_netloc) \<or> prefix ''//'' path
                then ''//'' @ u_netloc u @ rooted else path);
          s2 = (if u_scheme u \<noteq> [] then u_scheme u @ '':'' @ s1 else s1);
          s3 = (if u_query u \<noteq> [] then s2 @ ''?'' @ u_query u else s2)
      in if u_fragment u \<noteq> [] then s3 @ ''#'' @ u_fragment u else s3)"

text \<open>\<open>_splitparams\<close>: at the first \<open>;\<close> of the last segment.\<close>

definition split_params :: "string \<Rightarrow> string \<Rightarrow> string \<times> string" where
  "split_params scheme path =
     (if scheme \<in> set uses_params \<and> CHR '';'' \<in> set path
      then (case rpartition_at CHR ''/'' path of
              (dir, slash, seg) \<Rightarrow>
                (case partition_at CHR '';'' seg of
                   (name, found, params) \<Rightarrow>
                     (if found then ((if slash then dir @ ''/'' else []) @ name, params) else (path, []))))
      else (path, []))"

definition with_params :: "string \<Rightarrow> string \<Rightarrow> string" where
  "with_params path params = (if params \<noteq> [] then path @ '';'' @ params else path)"

fun resolve_dots :: "string list \<Rightarrow> string list \<Rightarrow> string list" where
  "resolve_dots done' [] = done'"
| "resolve_dots done' (seg # segs) =
     (if seg = ''..'' then resolve_dots (butlast done') segs
      else if seg = ''.'' then resolve_dots done' segs
      else resolve_dots (done' @ [seg]) segs)"

text \<open>\<open>segments[1:-1] = filter(None, segments[1:-1])\<close>\<close>

definition drop_empty_inner :: "string list \<Rightarrow> string list" where
  "drop_empty_inner segs =
     (case segs of
        [] \<Rightarrow> [] | [s] \<Rightarrow> [s]
      | s # rest \<Rightarrow> s # filter (\<lambda>x. x \<noteq> []) (butlast rest) @ [last rest])"

definition joined_path :: "string \<Rightarrow> string \<Rightarrow> string" where
  "joined_path bpath path =
     (let base_parts = split_on CHR ''/'' bpath;
          base_parts' = (if last base_parts \<noteq> [] then butlast base_parts else base_parts);
          segments = (if prefix ''/'' path then split_on CHR ''/'' path
                      else drop_empty_inner (base_parts' @ split_on CHR ''/'' path));
          resolved = resolve_dots [] segments;
          resolved' = (if last segments \<in> {''.'', ''..''} then resolved @ [[]] else resolved);
          text = join_with ''/'' resolved'
      in if text = [] then ''/'' else text)"

text \<open>\<open>urljoin(base, url)\<close>, \<open>None\<close> where parsing raises \<open>ValueError\<close>.\<close>

definition urljoin :: "string \<Rightarrow> string \<Rightarrow> string option" where
  "urljoin base url =
     (if base = [] then Some url
      else if url = [] then Some base
      else case (urlsplit base, urlsplit url) of
        (Some b, Some u) \<Rightarrow>
          (let scheme = (if u_scheme u = [] then u_scheme b else u_scheme u);
               (bpath, bparams) = split_params (u_scheme b) (u_path b);
               (path, params) = split_params scheme (u_path u)
           in if scheme \<noteq> u_scheme b \<or> scheme \<notin> set uses_relative then Some url
              else if scheme \<in> set uses_netloc \<and> u_netloc u \<noteq> []
              then Some (urlunsplit (u\<lparr>u_scheme := scheme, u_path := with_params path params\<rparr>))
              else let netloc = (if scheme \<in> set uses_netloc then u_netloc b else u_netloc u) in
                if path = [] \<and> params = []
                then Some (urlunsplit \<lparr>u_scheme = scheme, u_netloc = netloc,
                       u_path = with_params bpath bparams,
                       u_query = (if u_query u = [] then u_query b else u_query u), u_fragment = u_fragment u\<rparr>)
                else Some (urlunsplit \<lparr>u_scheme = scheme, u_netloc = netloc,
                       u_path = with_params (joined_path bpath path) params,
                       u_query = u_query u, u_fragment = u_fragment u\<rparr>))
      | _ \<Rightarrow> None)"

section \<open>Reading a query\<close>

definition hex_digit_val :: "char \<Rightarrow> nat" where
  "hex_digit_val c =
     (if ascii_digit c then cp c - 48 else if ascii_lower c then cp c - 87 else cp c - 55)"

text \<open>\<open>unquote_to_bytes\<close>: a sign that no two hexadecimal digits follow stands for itself.\<close>

fun unquote_bytes :: "string \<Rightarrow> nat list" where
  "unquote_bytes (p # a # b # s) =
     (if p = CHR ''%'' \<and> hex_char a \<and> hex_char b
      then (16 * hex_digit_val a + hex_digit_val b) # unquote_bytes s
      else utf8_char p @ unquote_bytes (a # b # s))"
| "unquote_bytes s = utf8 s"

definition unquote_plus :: "string \<Rightarrow> string" where
  "unquote_plus s = utf8_decode (unquote_bytes (map (\<lambda>c. if c = CHR ''+'' then CHR '' '' else c) s))"

text \<open>\<open>parse_qsl(s, keep_blank_values=True)\<close>\<close>

definition parse_qsl :: "string \<Rightarrow> (string \<times> string) list" where
  "parse_qsl s =
     map (\<lambda>pair. case partition_at CHR ''='' pair of
                   (name, _, value) \<Rightarrow> (unquote_plus name, unquote_plus value))
       (filter (\<lambda>pair. pair \<noteq> []) (if s = [] then [] else split_on CHR ''&'' s))"

end
