(* ===== verification/HttpGuard.thy ===== *)
theory HttpGuard
  imports DeclInput PyUrl
begin

text \<open>
  \<open>TargetGuard\<close> of \<open>declarative/http_client.py\<close>: the check of every URL before a request goes out, the
  addresses it approves, and the connection to an approved address.  The resolver is a parameter of the
  operations, from a host and a port to what it yields, \<open>None\<close> where it raises.
\<close>

definition unsafe_target :: exc where
  "unsafe_target = Exc UnsafeTargetError ''unsafe outbound target''"

definition guard_error :: "string \<Rightarrow> exc" where
  "guard_error msg = Exc ValueError msg"

type_synonym resolver = "string \<Rightarrow> int \<Rightarrow> pyval list option"

record target =
  tg_host :: string
  tg_port :: int
  tg_addresses :: "string list"

definition normalize_host :: "(string \<Rightarrow> string option) \<Rightarrow> pyval \<Rightarrow> string result" where
  "normalize_host idna v =
     (case v of
        PStr host \<Rightarrow>
          (if host = [] \<or> length host > 253 then Inl unsafe_target
           else case idna_encode idna host of
             None \<Rightarrow> Inl unsafe_target
           | Some ascii \<Rightarrow>
               (let normalized = rstrip_char CHR ''.'' (py_lower ascii) in
                if normalized = [] \<or> list_ex py_isspace normalized then Inl unsafe_target
                else Inr normalized))
      | _ \<Rightarrow> Inl unsafe_target)"

definition is_safe_address :: "string \<Rightarrow> bool" where
  "is_safe_address s =
     (case ip_address s of
        None \<Rightarrow> False
      | Some a \<Rightarrow> is_global a \<and> \<not> is_private a \<and> \<not> is_loopback a \<and> \<not> is_link_local a
          \<and> \<not> is_multicast a \<and> \<not> is_reserved a \<and> \<not> is_unspecified a)"

section \<open>The guard\<close>

record guard =
  g_hosts :: "string list"
  g_allow_ip :: bool
  g_literals :: "string list"
  g_ports :: "int list"
  g_approved :: "(string \<times> int, string list) dict"

text \<open>The elements a loop over a value goes through.\<close>

definition iterated :: "pyval \<Rightarrow> pyval list result" where
  "iterated v =
     (case v of
        PList vs \<Rightarrow> Inr vs
      | PTuple vs \<Rightarrow> Inr vs
      | PMap m \<Rightarrow> Inr (map fst m)
      | PStr s \<Rightarrow> Inr (map (\<lambda>c. PStr [c]) s)
      | PBytes bs \<Rightarrow> Inr (map (\<lambda>b. PInt (int b)) bs)
      | _ \<Rightarrow> Inl (Exc TypeError ''object is not iterable''))"

definition is_text_or_bytes :: "pyval \<Rightarrow> bool" where
  "is_text_or_bytes v \<longleftrightarrow> (case v of PStr _ \<Rightarrow> True | PBytes _ \<Rightarrow> True | _ \<Rightarrow> False)"

definition guard_port :: "pyval \<Rightarrow> int result" where
  "guard_port v =
     (case v of
        PInt p \<Rightarrow> (if 1 \<le> p \<and> p \<le> 65535 then Inr p else Inl (guard_error ''allowed_ports must contain valid ports''))
      | _ \<Rightarrow> Inl (guard_error ''allowed_ports must contain valid ports''))"

definition make_guard ::
  "(string \<Rightarrow> string option) \<Rightarrow> pyval \<Rightarrow> pyval \<Rightarrow> string list \<Rightarrow> pyval list \<Rightarrow> guard result" where
  "make_guard idna allowed_hosts allow_ip_literals allowed_ip_literals allowed_ports =
     (if is_text_or_bytes allowed_hosts
      then Inl (guard_error ''allowed_hosts must be an iterable of hostnames'')
      else bindR (iterated allowed_hosts) (\<lambda>items.
        bindR (mapR (normalize_host idna) items) (\<lambda>hosts.
        if hosts = [] \<or> list_ex (\<lambda>h. CHR ''*'' \<in> set h) hosts
        then Inl (guard_error ''wildcard hosts are not supported'')
        else if allowed_ports = [] then Inl (guard_error ''allowed_ports must contain valid ports'')
        else bindR (mapR guard_port allowed_ports) (\<lambda>ports.
          if \<not> list_all is_safe_address allowed_ip_literals
          then Inl (guard_error ''allowed IP literals must be globally routable'')
          else Inr \<lparr>g_hosts = hosts, g_allow_ip = (allow_ip_literals = PBool True),
                    g_literals = allowed_ip_literals, g_ports = ports, g_approved = []\<rparr>))))"

section \<open>Resolving\<close>

text \<open>An answer is a string, or a pair or list that starts with it.\<close>

definition address_text :: "pyval \<Rightarrow> string result" where
  "address_text v =
     (case (case v of PTuple [] \<Rightarrow> PStr [] | PTuple (x # _) \<Rightarrow> x | PList [] \<Rightarrow> PStr [] | PList (x # _) \<Rightarrow> x | _ \<Rightarrow> v) of
        PStr s \<Rightarrow> (case ip_address s of Some a \<Rightarrow> Inr (ip_str a) | None \<Rightarrow> Inl unsafe_target)
      | _ \<Rightarrow> Inl unsafe_target)"

text \<open>\<open>dict.fromkeys\<close>: the first of equal elements stays.\<close>

definition distinct_first :: "'a list \<Rightarrow> 'a list" where
  "distinct_first xs = rev (remdups (rev xs))"

definition resolve_addresses :: "resolver \<Rightarrow> string \<Rightarrow> int \<Rightarrow> string list result" where
  "resolve_addresses resolver host port =
     (case resolver host port of
        None \<Rightarrow> Inl unsafe_target
      | Some vs \<Rightarrow> bindR (mapR address_text vs) (\<lambda>addresses. Inr (distinct_first addresses)))"

section \<open>The check of a URL\<close>

definition forbidden_url_char :: "char \<Rightarrow> bool" where
  "forbidden_url_char c \<longleftrightarrow> c = CHR 0x5C \<or> py_isspace c \<or> cp c < 32 \<or> cp c = 127"

text \<open>The host and port of an acceptable URL.\<close>

definition url_target :: "(string \<Rightarrow> string option) \<Rightarrow> guard \<Rightarrow> pyval \<Rightarrow> (string \<times> int) result" where
  "url_target idna g v =
     (case v of
        PStr url \<Rightarrow>
          (if url = [] \<or> length url > 2048 \<or> list_ex forbidden_url_char url then Inl unsafe_target
           else case urlsplit url of
             None \<Rightarrow> Inl unsafe_target
           | Some parts \<Rightarrow>
               (case (url_port parts, url_hostname parts) of
                  (Inr port', Some hostname) \<Rightarrow>
                    (let port = (case port' of Some p \<Rightarrow> int p | None \<Rightarrow> 443) in
                     if py_lower (u_scheme parts) \<noteq> ''https'' \<or> url_userinfo parts \<noteq> (None, None)
                        \<or> u_fragment parts \<noteq> [] \<or> port \<notin> set (g_ports g)
                     then Inl unsafe_target
                     else bindR (normalize_host idna (PStr hostname)) (\<lambda>host.
                       if host = ''localhost'' \<or> ends_with ''.localhost'' host then Inl unsafe_target
                       else Inr (host, port)))
                | _ \<Rightarrow> Inl unsafe_target))
      | _ \<Rightarrow> Inl unsafe_target)"

definition target_addresses :: "resolver \<Rightarrow> guard \<Rightarrow> string \<Rightarrow> int \<Rightarrow> string list result" where
  "target_addresses resolver g host port =
     (case ip_address host of
        None \<Rightarrow>
          (if host \<notin> set (g_hosts g) then Inl unsafe_target
           else bindR (resolve_addresses resolver host port) (\<lambda>addresses.
             if addresses = [] \<or> \<not> list_all is_safe_address addresses then Inl unsafe_target
             else Inr addresses))
      | Some _ \<Rightarrow>
          (if \<not> g_allow_ip g \<or> host \<notin> set (g_literals g) \<or> \<not> is_safe_address host
           then Inl unsafe_target else Inr [host]))"

definition assert_allowed_url ::
  "(string \<Rightarrow> string option) \<Rightarrow> resolver \<Rightarrow> guard \<Rightarrow> pyval \<Rightarrow> (target \<times> guard) result" where
  "assert_allowed_url idna resolver g v =
     bindR (url_target idna g v) (\<lambda>(host, port).
     bindR (target_addresses resolver g host port) (\<lambda>addresses.
       Inr (\<lparr>tg_host = host, tg_port = port, tg_addresses = addresses\<rparr>,
            g\<lparr>g_approved := AList.update (host, port) addresses (g_approved g)\<rparr>)))"

definition approved_addresses :: "guard \<Rightarrow> string \<Rightarrow> int \<Rightarrow> string list" where
  "approved_addresses g host port =
     (case map_of (g_approved g) (rstrip_char CHR ''.'' (py_lower host), port) of
        Some addresses \<Rightarrow> addresses | None \<Rightarrow> [])"

definition exactly_matches_hosts :: "(string \<Rightarrow> string option) \<Rightarrow> guard \<Rightarrow> pyval \<Rightarrow> bool" where
  "exactly_matches_hosts idna g v \<longleftrightarrow>
     \<not> is_text_or_bytes v \<and>
     (case bindR (iterated v) (mapR (normalize_host idna)) of
        Inl _ \<Rightarrow> False
      | Inr expected \<Rightarrow> expected \<noteq> [] \<and> set expected = set (g_hosts g) \<and> \<not> g_allow_ip g
          \<and> g_literals g = [] \<and> set (g_ports g) = {443})"

text \<open>\<open>_PinnedNetworkBackend.connect_tcp\<close>: the address the socket connects to.\<close>

definition connect_tcp :: "guard \<Rightarrow> string \<Rightarrow> int \<Rightarrow> string result" where
  "connect_tcp g host port =
     (case approved_addresses g host port of
        [] \<Rightarrow> Inl (Exc (OtherError ''ConnectError'') ''outbound target was not prevalidated'')
      | address # _ \<Rightarrow> Inr address)"

section \<open>What a safe address is\<close>

text \<open>
  Addresses that may be reached from everywhere, by their leading bits: outside this network, private
  networks, the shared address space, loopback, link-local, documentation, benchmarking, multicast and
  reserved addresses for IPv4, global unicast without tunnelled and
  documentation addresses for IPv6.
\<close>

definition public_v4 :: "32 word \<Rightarrow> bool" where
  "public_v4 w \<longleftrightarrow>
     (let first = uint w div 16777216; two = uint w div 65536; three = uint w div 256 in
      first \<noteq> 0 \<and> first \<noteq> 10 \<and> first \<noteq> 127 \<and> first < 224 \<and>
      \<not> (100 * 256 + 64 \<le> two \<and> two < 100 * 256 + 128) \<and> two \<noteq> 169 * 256 + 254 \<and>
      \<not> (172 * 256 + 16 \<le> two \<and> two < 172 * 256 + 32) \<and> two \<noteq> 192 * 256 + 168 \<and>
      two \<noteq> 198 * 256 + 18 \<and> two \<noteq> 198 * 256 + 19 \<and>
      three \<noteq> (192 * 256 + 0) * 256 + 2 \<and> three \<noteq> (198 * 256 + 51) * 256 + 100 \<and>
      three \<noteq> (203 * 256 + 0) * 256 + 113)"

definition public_v6 :: "128 word \<Rightarrow> bool" where
  "public_v6 w \<longleftrightarrow>
     (let first = uint w div 2 ^ 112; two = uint w div 2 ^ 96 in
      0x2000 \<le> first \<and> first < 0x4000 \<and> first \<noteq> 0x2002 \<and> two \<noteq> 0x20010000 \<and> two \<noteq> 0x20010db8)"

fun public_address :: "ipaddr \<Rightarrow> bool" where
  "public_address (V4 w) = public_v4 w"
| "public_address (V6 w _) = public_v6 w"

text \<open>Deprecated site-local addresses, \<open>fec0::/10\<close>, are not public, but \<open>ipaddress\<close> counts them as global.\<close>

fun site_local_address :: "ipaddr \<Rightarrow> bool" where
  "site_local_address (V4 w) = False"
| "site_local_address (V6 w _) = (let first = uint w div 2 ^ 112 in 0xfec0 \<le> first \<and> first < 0xff00)"

text \<open>What the program connects to.\<close>

definition outbound_address :: "string \<Rightarrow> bool" where
  "outbound_address s \<longleftrightarrow> (\<exists>a. ip_address s = Some a \<and> (public_address a \<or> site_local_address a))"

lemma div_below:
  assumes "(0 :: int) < c" "n < m * c"
  shows "n div c < m"
proof (rule ccontr)
  assume "\<not> n div c < m"
  then have "m * c \<le> (n div c) * c" using assms(1) by simp
  moreover have "(n div c) * c \<le> n" using div_mult_mod_eq [of n c] pos_mod_sign [OF assms(1), of n] by linarith
  ultimately show False using assms(2) by linarith
qed

lemma next_block:
  assumes "h div d \<noteq> k" "k * d \<le> h" "(0 :: int) < d"
  shows "(k + 1) * d \<le> h"
proof -
  have "k \<le> h div d" using zdiv_mono1 [OF assms(2,3)] assms(3) by simp
  then have "(k + 1) * d \<le> (h div d) * d" using assms(1,3) by simp
  moreover have "(h div d) * d \<le> h" using div_mult_mod_eq [of h d] pos_mod_sign [OF assms(3), of h] by linarith
  ultimately show ?thesis by linarith
qed

lemma in_net_prefix:
  assumes "in_net width base bits n" "k \<le> bits" "bits \<le> width"
  shows "n div 2 ^ (width - k) = base div 2 ^ (width - k)"
proof -
  have "(2 :: int) ^ (width - k) = 2 ^ (width - bits) * 2 ^ (bits - k)"
    using assms(2,3) by (simp flip: power_add)
  then show ?thesis using assms(1) by (simp add: in_net_def zdiv_zmult2_eq)
qed

lemma replicate_pred [simp]: "replicate (numeral k) x = x # replicate (pred_numeral k) x"
  by (simp add: numeral_eq_Suc)

lemma high_part:
  assumes "bits \<le> k" "k \<le> width"
  shows "in_net width base bits n = in_net k (base div 2 ^ (width - k)) bits (n div 2 ^ (width - k))"
proof -
  have "width - bits = (width - k) + (k - bits)" using assms by simp
  then have "(2 :: int) ^ (width - bits) = 2 ^ (width - k) * 2 ^ (k - bits)" by (simp add: power_add)
  then show ?thesis by (simp add: in_net_def zdiv_zmult2_eq)
qed

lemma v4_high: "bits \<le> 16 \<Longrightarrow> in_net 32 base bits n = in_net 16 (base div 65536) bits (n div 65536)"
  using high_part [of bits 16 32 base n] by simp

lemma v4_high24: "bits \<le> 24 \<Longrightarrow> in_net 32 base bits n = in_net 24 (base div 256) bits (n div 256)"
  using high_part [of bits 24 32 base n] by simp

lemma v6_high: "bits \<le> 16 \<Longrightarrow> in_net 128 base bits n = in_net 16 (base div 2 ^ 112) bits (n div 2 ^ 112)"
  using high_part [of bits 16 128 base n] by simp

lemma v4_private_exception:
  "in_v4_nets V4_PRIVATE_EXCEPTIONS w \<Longrightarrow> uint w div 65536 = 49152 \<and> uint w div 256 = 12582912"
  by (auto simp: in_v4_nets_def V4_PRIVATE_EXCEPTIONS_def v4_net_def in_net_def)

lemma v4_not_private:
  assumes "\<not> in_v4_nets V4_PRIVATE w" and "a = uint w div 65536"
  shows "a div 256 \<noteq> 0" "a div 256 \<noteq> 10" "a div 256 \<noteq> 127" "a \<noteq> 43518" "a div 16 \<noteq> 2753" "a \<noteq> 49320" "a div 4096 \<noteq> 15"
    "a div 2 \<noteq> 25353"
  using assms by (simp_all add: in_v4_nets_def V4_PRIVATE_def v4_net_def v4_high in_net_def [of 16])

lemma v4_not_documentation:
  assumes "\<not> in_v4_nets V4_PRIVATE w"
  shows "uint w div 256 \<noteq> 12582914" "uint w div 256 \<noteq> 12989284" "uint w div 256 \<noteq> 13303921"
  using assms by (simp_all add: in_v4_nets_def V4_PRIVATE_def v4_net_def v4_high24 in_net_def [of 24])

lemma v4_nets_safe:
  assumes "\<not> v4_is_private w" "\<not> v4_net [100, 64, 0, 0] 10 w" "\<not> v4_net [224, 0, 0, 0] 4 w"
  shows "public_v4 w"
proof -
  define a where "a = uint w div 65536"
  have first: "uint w div 16777216 = a div 256"
    using zdiv_zmult2_eq [of 256 "uint w" 65536] by (simp add: a_def)
  have a: "0 \<le> a" "a < 65536" "a div 64 \<noteq> 401" "a div 4096 \<noteq> 14"
    using unsigned_less [of w, where ?'a = int] assms(2,3)
    by (simp_all add: a_def v4_net_def v4_high in_net_def [of 16] pos_imp_zdiv_nonneg_iff div_below)
  show ?thesis
  proof (cases "in_v4_nets V4_PRIVATE_EXCEPTIONS w")
    case True
    then have "a = 49152" "uint w div 256 = 12582912" using v4_private_exception by (simp_all add: a_def)
    then show ?thesis by (simp add: public_v4_def Let_def first flip: a_def)
  next
    case False
    then have np: "\<not> in_v4_nets V4_PRIVATE w" using assms(1) by (simp add: v4_is_private_def)
    note doc = v4_not_documentation [OF np]
    note np = v4_not_private [OF np a_def]
    have "a div 256 < 224" using a(2,4) np(7) by linarith
    moreover have "\<not> (25664 \<le> a \<and> a < 25728)" using a(3) by linarith
    moreover have "\<not> (44048 \<le> a \<and> a < 44064)" using np(5) by linarith
    moreover have "a \<noteq> 50706" "a \<noteq> 50707" using np(8) by auto
    ultimately show ?thesis using np(1-4,6) doc by (simp add: public_v4_def Let_def first flip: a_def)
  qed
qed

lemma v6_prefix32:
  assumes "in_net 128 base bits n" "28 \<le> bits" "bits \<le> 128" and "bits = 28 \<or> 32 \<le> bits"
  shows "n div 2 ^ 96 = base div 2 ^ 96 \<or> bits = 28 \<and> n div 2 ^ 96 div 16 = base div 2 ^ 100"
  using in_net_prefix [OF assms(1) _ assms(3), of 32] in_net_prefix [OF assms(1,2,3)] assms(4)
    zdiv_zmult2_eq [of 16 n "2 ^ 96"] by auto

lemma v6_private_exception:
  assumes "in_v6_nets V6_PRIVATE_EXCEPTIONS w"
  shows "uint w div 2 ^ 112 = 0x2001" "uint w div 2 ^ 96 \<noteq> 0x20010db8" "uint w div 2 ^ 96 \<noteq> 0x20010000"
  using assms
  by (auto simp: in_v6_nets_def V6_PRIVATE_EXCEPTIONS_def v6_net_def v6_base_def
      dest: in_net_prefix [of 128 _ _ _ 16] v6_prefix32)

lemma v6_not_private:
  assumes "\<not> v6_is_private w" and "uint w div 2 ^ 112 \<noteq> 0"
  shows "uint w div 2 ^ 112 div 512 \<noteq> 126" "uint w div 2 ^ 112 \<noteq> 0x2002" "uint w div 2 ^ 96 \<noteq> 0x20010000"
    "uint w div 2 ^ 96 \<noteq> 0x20010db8"
proof -
  have "uint w div 2 ^ 112 div 512 \<noteq> 126 \<and> uint w div 2 ^ 112 \<noteq> 0x2002 \<and> uint w div 2 ^ 96 \<noteq> 0x20010000 \<and>
      uint w div 2 ^ 96 \<noteq> 0x20010db8"
  proof (cases "in_v6_nets V6_PRIVATE_EXCEPTIONS w")
    case True
    then show ?thesis using v6_private_exception by simp
  next
    case False
    have "ipv4_mapped w = None"
    proof (rule ccontr)
      assume "ipv4_mapped w \<noteq> None"
      then have "uint w div 2 ^ 32 = 65535" by (simp add: ipv4_mapped_def split: if_splits)
      then have "uint w div (2 ^ 32 * 2 ^ 80) = 0" by (subst zdiv_zmult2_eq) simp_all
      then show False using assms(2) by simp
    qed
    then have np: "\<not> in_v6_nets V6_PRIVATE w" using assms(1) False by (simp add: v6_is_private_def)
    then have "\<not> v6_net [0xfc00] 7 w" "\<not> v6_net [0x2002] 16 w" by (simp_all add: in_v6_nets_def V6_PRIVATE_def)
    then have "uint w div 2 ^ 112 div 512 \<noteq> 126" "uint w div 2 ^ 112 \<noteq> 0x2002"
      by (simp_all add: v6_net_def v6_base_def v6_high in_net_def [of 16])
    moreover have "uint w div 2 ^ 96 \<noteq> 0x20010db8"
      using np by (simp add: in_v6_nets_def V6_PRIVATE_def v6_net_def v6_base_def in_net_def)
    moreover have "uint w div 2 ^ 105 \<noteq> 0x100080"
      using np by (simp add: in_v6_nets_def V6_PRIVATE_def v6_net_def v6_base_def in_net_def)
    then have "uint w div (2 ^ 96 * 2 ^ 9) \<noteq> 0x100080" by simp
    then have "uint w div 2 ^ 96 \<noteq> 0x20010000" by (subst (asm) zdiv_zmult2_eq) auto
    ultimately show ?thesis by blast
  qed
  then show "uint w div 2 ^ 112 div 512 \<noteq> 126" "uint w div 2 ^ 112 \<noteq> 0x2002" "uint w div 2 ^ 96 \<noteq> 0x20010000"
    "uint w div 2 ^ 96 \<noteq> 0x20010db8" by blast+
qed

lemma v6_nets_safe:
  assumes "\<not> v6_is_private w" "\<not> in_v6_nets V6_RESERVED w" "\<not> v6_net [0xff00] 8 w" "\<not> v6_net [0xfe80] 10 w"
  shows "public_v6 w \<or> site_local_address (V6 w z)"
proof -
  define h where "h = uint w div 2 ^ 112"
  have h: "0 \<le> h" "h < 65536"
    using unsigned_less [of w, where ?'a = int] by (simp_all add: h_def pos_imp_zdiv_nonneg_iff div_below)
  have reserved: "h div 256 \<noteq> 0" "h div 256 \<noteq> 1" "h div 512 \<noteq> 1" "h div 1024 \<noteq> 1" "h div 2048 \<noteq> 1" "h div 4096 \<noteq> 1"
    "h div 8192 \<noteq> 2" "h div 8192 \<noteq> 3" "h div 8192 \<noteq> 4" "h div 8192 \<noteq> 5" "h div 8192 \<noteq> 6" "h div 4096 \<noteq> 14"
    "h div 2048 \<noteq> 30" "h div 1024 \<noteq> 62" "h div 128 \<noteq> 508"
    using assms(2) by (simp_all add: in_v6_nets_def V6_RESERVED_def v6_net_def v6_base_def v6_high in_net_def [of 16] h_def)
  have other: "h div 256 \<noteq> 255" "h div 64 \<noteq> 1018"
    using assms(3,4) by (simp_all add: v6_net_def v6_base_def v6_high in_net_def [of 16] h_def)
  have "h \<noteq> 0" using reserved(1) by auto
  note np = v6_not_private [OF assms(1), folded h_def, OF this]
  then have "0x4000 \<le> h \<Longrightarrow> 0xfec0 \<le> h"
    using reserved(7-14)[THEN next_block] reserved(15) other(2) next_block [of h 512 126] next_block [of h 128 508]
      next_block [of h 64 1018] by simp
  moreover have "0x2000 \<le> h" using reserved(1-6)[THEN next_block] h(1) by simp
  moreover have "h < 0xff00" using h(2) other(1) by linarith
  ultimately show ?thesis using np(2-4) unfolding public_v6_def site_local_address.simps Let_def h_def [symmetric] by linarith
qed

lemma safe_address_outbound: "is_safe_address s \<Longrightarrow> outbound_address s"
proof -
  assume s: "is_safe_address s"
  then obtain a where a: "ip_address s = Some a" by (auto simp: is_safe_address_def split: option.splits)
  have "public_address a \<or> site_local_address a"
  proof (cases a)
    case (V4 w)
    then show ?thesis using s a by (simp add: is_safe_address_def v4_nets_safe)
  next
    case (V6 w z)
    then show ?thesis using s a v6_nets_safe [of w z] by (simp add: is_safe_address_def)
  qed
  then show ?thesis using a by (auto simp: outbound_address_def)
qed


section \<open>What the guard approves\<close>

definition approval_ok :: "guard \<Rightarrow> string \<times> int \<Rightarrow> string list \<Rightarrow> bool" where
  "approval_ok g hp addresses \<longleftrightarrow> addresses \<noteq> [] \<and> list_all is_safe_address addresses \<and> snd hp \<in> set (g_ports g) \<and>
     (fst hp \<in> set (g_hosts g) \<or> g_allow_ip g \<and> fst hp \<in> set (g_literals g))"

definition guard_inv :: "guard \<Rightarrow> bool" where
  "guard_inv g \<longleftrightarrow> (\<forall>hp addresses. map_of (g_approved g) hp = Some addresses \<longrightarrow> approval_ok g hp addresses)"

text \<open>The policy of the guard, which no check changes.\<close>

definition same_policy :: "guard \<Rightarrow> guard \<Rightarrow> bool" where
  "same_policy g g' \<longleftrightarrow> (\<exists>approved. g' = g\<lparr>g_approved := approved\<rparr>)"

lemma same_policy_refl [simp]: "same_policy g g"
  unfolding same_policy_def by (metis guard.surjective guard.update_convs(5) old.unit.exhaust)

lemma same_policy_trans [trans]: "same_policy g g' \<Longrightarrow> same_policy g' g'' \<Longrightarrow> same_policy g g''"
  by (auto simp: same_policy_def)

lemma make_guard_inv: "make_guard idna hosts allow literals ports = Inr g \<Longrightarrow> guard_inv g"
  by (auto simp: make_guard_def guard_inv_def split: if_splits)

lemma assert_allowed_target:
  assumes "assert_allowed_url idna resolver g v = Inr (t, g')"
  shows "approval_ok g (tg_host t, tg_port t) (tg_addresses t)"
    "g' = g\<lparr>g_approved := AList.update (tg_host t, tg_port t) (tg_addresses t) (g_approved g)\<rparr>"
proof -
  obtain host port addresses where u: "url_target idna g v = Inr (host, port)"
    and a: "target_addresses resolver g host port = Inr addresses"
    and t: "t = \<lparr>tg_host = host, tg_port = port, tg_addresses = addresses\<rparr>"
    and g': "g' = g\<lparr>g_approved := AList.update (host, port) addresses (g_approved g)\<rparr>"
    using assms by (auto simp: assert_allowed_url_def split: prod.splits)
  have "port \<in> set (g_ports g)"
    using u by (auto simp: url_target_def Let_def split: pyval.splits option.splits sum.splits if_splits)
  moreover have "addresses \<noteq> [] \<and> list_all is_safe_address addresses \<and>
      (host \<in> set (g_hosts g) \<or> g_allow_ip g \<and> host \<in> set (g_literals g))"
    using a by (auto simp: target_addresses_def split: option.splits if_splits)
  ultimately show "approval_ok g (tg_host t, tg_port t) (tg_addresses t)" by (simp add: approval_ok_def t)
  show "g' = g\<lparr>g_approved := AList.update (tg_host t, tg_port t) (tg_addresses t) (g_approved g)\<rparr>"
    by (simp add: g' t)
qed

lemma assert_allowed_inv:
  assumes "assert_allowed_url idna resolver g v = Inr (t, g')" and "guard_inv g"
  shows "guard_inv g'" and "same_policy g g'"
  using assert_allowed_target [OF assms(1)] assms(2)
  by (auto simp: guard_inv_def approval_ok_def same_policy_def split: if_splits)

section \<open>What a fresh check of a URL means\<close>

text \<open>The host and port an \<open>https\<close> URL without user information and fragment names.\<close>

definition url_names :: "(string \<Rightarrow> string option) \<Rightarrow> string \<Rightarrow> string \<Rightarrow> int \<Rightarrow> bool" where
  "url_names idna url host port \<longleftrightarrow>
     (\<exists>parts name number. urlsplit url = Some parts \<and> py_lower (u_scheme parts) = ''https'' \<and>
        url_userinfo parts = (None, None) \<and> u_fragment parts = [] \<and> url_hostname parts = Some name \<and>
        normalize_host idna (PStr name) = Inr host \<and> url_port parts = Inr number \<and>
        port = (case number of Some n \<Rightarrow> int n | None \<Rightarrow> 443))"

text \<open>The target is the one the URL names, allowed by the policy, with what this resolver answered now.\<close>

definition fresh_approval :: "(string \<Rightarrow> string option) \<Rightarrow> resolver \<Rightarrow> guard \<Rightarrow> string \<Rightarrow> target \<Rightarrow> bool" where
  "fresh_approval idna resolver g url t \<longleftrightarrow>
     url_names idna url (tg_host t) (tg_port t) \<and> tg_port t \<in> set (g_ports g) \<and>
     tg_addresses t \<noteq> [] \<and> list_all outbound_address (tg_addresses t) \<and>
     (case ip_address (tg_host t) of
        None \<Rightarrow> tg_host t \<in> set (g_hosts g) \<and> resolve_addresses resolver (tg_host t) (tg_port t) = Inr (tg_addresses t)
      | Some _ \<Rightarrow> g_allow_ip g \<and> tg_host t \<in> set (g_literals g) \<and> tg_addresses t = [tg_host t])"

lemma assert_allowed_fresh:
  assumes "assert_allowed_url idna resolver g v = Inr (t, g')"
  obtains url where "v = PStr url" "fresh_approval idna resolver g url t"
proof -
  obtain host port addresses where u: "url_target idna g v = Inr (host, port)"
    and a: "target_addresses resolver g host port = Inr addresses"
    and t: "t = \<lparr>tg_host = host, tg_port = port, tg_addresses = addresses\<rparr>"
    using assms by (auto simp: assert_allowed_url_def split: prod.splits)
  obtain url where v: "v = PStr url" and "url_names idna url host port" "port \<in> set (g_ports g)"
    using u by (auto simp: url_target_def url_names_def Let_def split: pyval.splits option.splits sum.splits if_splits)
  moreover have "addresses \<noteq> [] \<and> list_all is_safe_address addresses \<and>
      (case ip_address host of
         None \<Rightarrow> host \<in> set (g_hosts g) \<and> resolve_addresses resolver host port = Inr addresses
       | Some _ \<Rightarrow> g_allow_ip g \<and> host \<in> set (g_literals g) \<and> addresses = [host])"
    using a by (auto simp: target_addresses_def split: option.splits if_splits)
  ultimately have "fresh_approval idna resolver g url t"
    using safe_address_outbound by (auto simp: fresh_approval_def t list_all_iff split: option.splits)
  then show ?thesis using v that by blast
qed

lemma fresh_same_policy: "same_policy g g' \<Longrightarrow> fresh_approval idna resolver g' url t = fresh_approval idna resolver g url t"
  by (auto simp: same_policy_def fresh_approval_def split: option.splits)

text \<open>A guard after checks of several URLs, each with the answers of its resolver; a refused one changes nothing.\<close>

fun after_checks :: "(string \<Rightarrow> string option) \<Rightarrow> guard \<Rightarrow> (resolver \<times> pyval) list \<Rightarrow> guard" where
  "after_checks idna g [] = g"
| "after_checks idna g ((resolver, v) # checks) =
     (case assert_allowed_url idna resolver g v of
        Inl _ \<Rightarrow> after_checks idna g checks
      | Inr (_, g') \<Rightarrow> after_checks idna g' checks)"

lemma after_checks_inv: "guard_inv g \<Longrightarrow> guard_inv (after_checks idna g checks) \<and> same_policy g (after_checks idna g checks)"
proof (induction idna g checks rule: after_checks.induct)
  case (2 idna g resolver v checks)
  show ?case
  proof (cases "assert_allowed_url idna resolver g v")
    case (Inl e)
    then show ?thesis using 2 by simp
  next
    case (Inr r)
    obtain t g' where r: "r = (t, g')" by (cases r)
    show ?thesis
      using "2.IH"(2) [OF Inr r [symmetric]] assert_allowed_inv [OF Inr [unfolded r] "2.prems"] Inr r same_policy_trans by auto
  qed
qed simp

lemma connect_approved:
  assumes "connect_tcp g host port = Inr address" and "guard_inv g"
  shows "is_safe_address address" "port \<in> set (g_ports g)"
    "rstrip_char CHR ''.'' (py_lower host) \<in> set (g_hosts g) \<or>
     g_allow_ip g \<and> rstrip_char CHR ''.'' (py_lower host) \<in> set (g_literals g)"
proof -
  obtain addresses where a: "map_of (g_approved g) (rstrip_char CHR ''.'' (py_lower host), port) = Some addresses"
    and "address \<in> set addresses"
    using assms(1) by (auto simp: connect_tcp_def approved_addresses_def split: list.splits option.splits)
  moreover have "approval_ok g (rstrip_char CHR ''.'' (py_lower host), port) addresses"
    using assms(2) a by (simp add: guard_inv_def)
  ultimately show "is_safe_address address" "port \<in> set (g_ports g)"
    "rstrip_char CHR ''.'' (py_lower host) \<in> set (g_hosts g) \<or>
     g_allow_ip g \<and> rstrip_char CHR ''.'' (py_lower host) \<in> set (g_literals g)"
    by (auto simp: approval_ok_def list_all_iff)
qed

text \<open>C21: Whatever URLs a guard checked and whatever their resolvers answered, a connection is made only to a
  public address or a site-local IPv6 one (\<open>fec0::/10\<close>, which the check lets through although it is not globally
  routable), at an allowed port, for an allowed host or IP literal.\<close>

theorem connects_only_public:
  assumes "make_guard idna hosts allow literals ports = Inr g"
    and "connect_tcp (after_checks idna g checks) host port = Inr address"
  shows "(\<exists>a. ip_address address = Some a \<and> (public_address a \<or> site_local_address a)) \<and> port \<in> set (g_ports g) \<and>
    (rstrip_char CHR ''.'' (py_lower host) \<in> set (g_hosts g) \<or>
     allow = PBool True \<and> rstrip_char CHR ''.'' (py_lower host) \<in> set literals)"
proof -
  have inv: "guard_inv (after_checks idna g checks)" and "same_policy g (after_checks idna g checks)"
    using after_checks_inv [OF make_guard_inv [OF assms(1)]] by blast+
  then obtain approved where g': "after_checks idna g checks = g\<lparr>g_approved := approved\<rparr>"
    by (auto simp: same_policy_def)
  have "g_literals g = literals" "g_allow_ip g \<longleftrightarrow> allow = PBool True"
    using assms(1) by (auto simp: make_guard_def split: if_splits)
  then show ?thesis using connect_approved [OF assms(2) inv] safe_address_outbound g'
    by (auto simp: outbound_address_def)
qed

definition demo_guard :: guard where
  "demo_guard = \<lparr>g_hosts = [''api.example.com''], g_allow_ip = False, g_literals = [], g_ports = [443],
     g_approved = []\<rparr>"

definition demo_resolver :: resolver where
  "demo_resolver host port = Some [PTuple [PStr ''93.184.215.14'', PInt port]]"

lemma demo_guard_made:
  "make_guard (\<lambda>_. None) (PList [PStr ''API.example.com'']) (PBool False) [] [PInt 443] = Inr demo_guard"
  by code_simp

lemma connects_only_public_witness:
  "(\<exists>a. ip_address ''93.184.215.14'' = Some a \<and> (public_address a \<or> site_local_address a)) \<and>
    443 \<in> set (g_ports demo_guard)"
proof -
  have "connect_tcp (after_checks (\<lambda>_. None) demo_guard [(demo_resolver, PStr ''https://api.example.com/v1'')])
      ''api.example.com'' 443 = Inr ''93.184.215.14''" by code_simp
  from connects_only_public [OF demo_guard_made this] show ?thesis by blast
qed

end
