(* ===== verification/HttpClient.thy ===== *)
theory HttpClient
  imports HttpGuard
begin

text \<open>
  \<open>SafeHttpClient\<close> of \<open>declarative/http_client.py\<close>: its limits, the checks of a request, the loop over
  redirects with a fresh check at each hop, and the bounded reading of a response.  The network is a
  parameter: at each hop a resolver and an answer, \<open>None\<close> where building or sending the request raises;
  the inflating decoder of \<open>zlib\<close> is another.
\<close>

section \<open>Limits\<close>

definition MAX_HEADERS :: nat where "MAX_HEADERS = 32"
definition MAX_HEADER_BYTES :: nat where "MAX_HEADER_BYTES = 8192"
definition MAX_TIMEOUT_SECONDS :: rat where "MAX_TIMEOUT_SECONDS = 30"

definition PROHIBITED_HEADERS :: "string list" where
  "PROHIBITED_HEADERS = [''host'', ''content-length'', ''transfer-encoding'', ''connection'',
     ''proxy-authorization'', ''proxy-connection'', ''cookie'']"

record client =
  cl_guard :: guard
  cl_max_response :: int
  cl_max_redirects :: int
  cl_max_pages :: int
  cl_pinned :: bool

definition bounded_limit :: "string \<Rightarrow> int \<Rightarrow> int \<Rightarrow> pyval \<Rightarrow> int result" where
  "bounded_limit msg lo hi v =
     (case v of PInt i \<Rightarrow> (if lo \<le> i \<and> i \<le> hi then Inr i else Inl (guard_error msg)) | _ \<Rightarrow> Inl (guard_error msg))"

definition timeout_in_bounds :: "pyval \<Rightarrow> bool" where
  "timeout_in_bounds v \<longleftrightarrow>
     (case v of
        PInt i \<Rightarrow> 0 < i \<and> of_int i \<le> MAX_TIMEOUT_SECONDS
      | PFloat (Fin q) \<Rightarrow> 0 < q \<and> q \<le> MAX_TIMEOUT_SECONDS
      | _ \<Rightarrow> False)"

text \<open>
  The guard the constructor uses: one that was supplied, or a new one for the allowed hosts.  \<open>has_resolver\<close>
  is whether a resolver was supplied.
\<close>

definition client_guard ::
  "(string \<Rightarrow> string option) \<Rightarrow> pyval \<Rightarrow> guard option \<Rightarrow> bool \<Rightarrow> guard result" where
  "client_guard idna allowed_hosts target_guard has_resolver =
     (case target_guard of
        None \<Rightarrow>
          (if allowed_hosts = PNone then Inl (guard_error ''allowed_hosts or target_guard is required'')
           else make_guard idna allowed_hosts (PBool False) [] [PInt 443])
      | Some g \<Rightarrow>
          (if allowed_hosts \<noteq> PNone \<or> has_resolver
           then Inl (guard_error ''target_guard cannot be combined with host or resolver options'') else Inr g))"

text \<open>
  The constructor.  \<open>transport\<close> is whether a test transport was supplied and \<open>token\<close> whether the private
  token was; \<open>versions_ok\<close> is whether the HTTP library is the verified one, with its hook for the backend.
\<close>

definition make_client ::
  "(string \<Rightarrow> string option) \<Rightarrow> bool \<Rightarrow> bool \<Rightarrow> bool \<Rightarrow> pyval \<Rightarrow> guard option \<Rightarrow> bool \<Rightarrow> pyval \<Rightarrow> pyval
     \<Rightarrow> pyval \<Rightarrow> pyval \<Rightarrow> pyval \<Rightarrow> client result" where
  "make_client idna versions_ok transport token allowed_hosts target_guard has_resolver connect_timeout
       read_timeout max_response max_redirects max_pages =
     (if transport \<and> \<not> token then Inl (Exc TypeError ''test transport is private'')
      else bindR (client_guard idna allowed_hosts target_guard has_resolver) (\<lambda>g.
        bindR (bounded_limit ''max_response_bytes must be bounded'' 1 (16 * 1024 * 1024) max_response) (\<lambda>response.
        bindR (bounded_limit ''max_redirects must be bounded'' 0 10 max_redirects) (\<lambda>redirects.
        bindR (bounded_limit ''max_pages must be bounded'' 1 MAX_PAGE_COUNT max_pages) (\<lambda>pages.
        if \<not> timeout_in_bounds connect_timeout \<or> \<not> timeout_in_bounds read_timeout
        then Inl (guard_error ''timeouts must be positive and bounded'')
        else if \<not> transport \<and> \<not> versions_ok
        then Inl (Exc RuntimeError ''unsupported HTTP transport runtime'')
        else Inr \<lparr>cl_guard = g, cl_max_response = response, cl_max_redirects = redirects,
                  cl_max_pages = pages, cl_pinned = (\<not> transport)\<rparr>)))))"

section \<open>The checks of a request\<close>

definition request_error :: "string \<Rightarrow> exc" where
  "request_error msg = Exc SafeRequestError msg"

definition header_name_char :: "char \<Rightarrow> bool" where
  "header_name_char c \<longleftrightarrow> ascii_alnum c \<or> cp c \<in> {33, 35, 36, 37, 38, 39, 42, 43, 45, 46, 94, 95, 96, 124, 126}"

text \<open>\<open>_HEADER_NAME_RE\<close>.\<close>

definition header_name_re :: "string \<Rightarrow> bool" where
  "header_name_re s \<longleftrightarrow> s \<noteq> [] \<and> length s \<le> 64 \<and> list_all header_name_char s"

type_synonym headers = "(string, string) dict"

text \<open>One header: the bytes so far and the headers so far.\<close>

definition add_header :: "nat \<times> headers \<Rightarrow> pyval \<times> pyval \<Rightarrow> (nat \<times> headers) result" where
  "add_header acc item =
     (case (acc, item) of
        ((used, headers), (PStr name, PStr value)) \<Rightarrow>
          (if \<not> header_name_re name \<or> py_lower name \<in> set PROHIBITED_HEADERS
              \<or> CHR 0x0D \<in> set value \<or> CHR 0x0A \<in> set value
           then Inl (request_error ''invalid outbound headers'')
           else let used' = used + length name + utf8_len value in
             if used' > MAX_HEADER_BYTES then Inl (request_error ''outbound headers exceed limit'')
             else Inr (used', AList.update name value headers))
      | _ \<Rightarrow> Inl (request_error ''invalid outbound headers''))"

definition validated_headers :: "pyval \<Rightarrow> headers result" where
  "validated_headers v =
     (case v of
        PMap m \<Rightarrow>
          (if length m > MAX_HEADERS then Inl (request_error ''invalid outbound headers'')
           else bindR (foldR add_header (0, []) m) (\<lambda>(used, headers). Inr headers))
      | _ \<Rightarrow> Inl (request_error ''invalid outbound headers''))"

definition body_size :: "(rat \<Rightarrow> string) \<Rightarrow> pyval \<Rightarrow> nat result" where
  "body_size fr v =
     (case json_dumps fr v of
        None \<Rightarrow> Inl (request_error ''request body must be JSON'')
      | Some text \<Rightarrow> Inr (utf8_len text))"

text \<open>The form as an encoded body; what is encoded is ASCII.\<close>

definition form_pair :: "pyval \<times> pyval \<Rightarrow> (string \<times> string) result" where
  "form_pair kv =
     (case kv of (PStr k, PStr v) \<Rightarrow> Inr (k, v) | _ \<Rightarrow> Inl (request_error ''invalid OAuth request''))"

definition encoded_form :: "pyval \<Rightarrow> string result" where
  "encoded_form v =
     (case v of
        PMap m \<Rightarrow>
          bindR (mapR form_pair m) (\<lambda>pairs.
          let encoded = urlencode pairs in
          if length encoded > MAX_REQUEST_BODY_BYTES
          then Inl (Exc RequestTooLargeError ''request body exceeds limit'') else Inr encoded)
      | _ \<Rightarrow> Inl (request_error ''invalid OAuth request''))"

text \<open>
  \<open>method.upper()\<close>, compared with ASCII names only: no character outside ASCII has an upper case that
  occurs in one of them.
\<close>

definition method_upper :: "string \<Rightarrow> string" where
  "method_upper s = map (\<lambda>c. if ascii_lower c then char_of (cp c - 32) else c) s"

record outbound =
  ob_method :: string
  ob_headers :: headers
  ob_json :: pyval
  ob_content :: "string option"

definition set_default :: "string \<Rightarrow> string \<Rightarrow> headers \<Rightarrow> headers" where
  "set_default k v headers = (if map_of headers k = None then headers @ [(k, v)] else headers)"

text \<open>\<open>request\<close> up to its loop.\<close>

definition check_request ::
  "(rat \<Rightarrow> string) \<Rightarrow> client \<Rightarrow> pyval \<Rightarrow> pyval \<Rightarrow> pyval \<Rightarrow> pyval \<Rightarrow> pyval \<Rightarrow> pyval \<Rightarrow> outbound result" where
  "check_request fr cl method headers json_body page_count form_body allow_redirects =
     (let name = (case method of PStr s \<Rightarrow> method_upper s | _ \<Rightarrow> []) in
      if name \<notin> set ALLOWED_METHODS then Inl (request_error ''unsupported outbound method'')
      else if \<not> (case page_count of PInt n \<Rightarrow> 1 \<le> n \<and> n \<le> cl_max_pages cl | _ \<Rightarrow> False)
      then Inl (request_error ''pagination limit exceeded'')
      else if json_body \<noteq> PNone \<and> form_body \<noteq> PNone then Inl (request_error ''invalid outbound request'')
      else if \<not> is_bool allow_redirects then Inl (request_error ''invalid redirect policy'')
      else bindR (validated_headers headers) (\<lambda>hs.
        bindR (if json_body \<noteq> PNone then body_size fr json_body else Inr 0) (\<lambda>size.
        if size > MAX_REQUEST_BODY_BYTES then Inl (Exc RequestTooLargeError ''request body exceeds limit'')
        else if form_body \<noteq> PNone
        then bindR (encoded_form form_body) (\<lambda>encoded.
          Inr \<lparr>ob_method = name,
               ob_headers = set_default ''Content-Type'' ''application/x-www-form-urlencoded'' hs,
               ob_json = json_body, ob_content = Some encoded\<rparr>)
        else Inr \<lparr>ob_method = name, ob_headers = hs, ob_json = json_body, ob_content = None\<rparr>)))"

section \<open>Reading a response\<close>

text \<open>
  What the network returns: the status, the value of \<open>headers.get\<close>, whether the body was read already
  (\<open>is_stream_consumed\<close>) and the body then, else the raw chunks and whether reading them ends in an error.
\<close>

record wire =
  wr_status :: int
  wr_header :: "string \<Rightarrow> string option"
  wr_consumed :: bool
  wr_content :: "nat list"
  wr_chunks :: "nat list list"
  wr_broken :: bool

text \<open>
  A decompression object of \<open>zlib\<close>; \<open>None\<close> where a call raises, which \<open>_send_bounded\<close> turns into
  \<open>outbound_failed\<close>.
\<close>

record 'd inflater =
  in_gzip :: 'd
  in_zlib :: 'd
  in_decompress :: "'d \<Rightarrow> nat list \<Rightarrow> int \<Rightarrow> (nat list \<times> 'd) option"
  in_tail :: "'d \<Rightarrow> nat list"
  in_flush :: "'d \<Rightarrow> int \<Rightarrow> (nat list \<times> 'd) option"
  in_eof :: "'d \<Rightarrow> bool"
  in_unused :: "'d \<Rightarrow> nat list"

definition too_large :: exc where
  "too_large = Exc ResponseTooLargeError ''response exceeds limit''"

definition invalid_upstream :: exc where
  "invalid_upstream = request_error ''invalid upstream response''"

definition outbound_failed :: exc where
  "outbound_failed = request_error ''outbound request failed''"

text \<open>
  \<open>int(s)\<close>: white space around, a sign, digits with single underscores between.  White space outside ASCII,
  and the separators from 28 to 31, count only in a text that is not ASCII.
\<close>

definition int_space :: "string \<Rightarrow> char \<Rightarrow> bool" where
  "int_space s c \<longleftrightarrow> (9 \<le> cp c \<and> cp c \<le> 13) \<or> cp c = 32 \<or> (\<not> is_ascii s \<and> py_isspace c)"

definition digit_groups :: "string \<Rightarrow> nat option" where
  "digit_groups s =
     (let groups = split_on CHR ''_'' s in
      if list_all (\<lambda>g. g \<noteq> [] \<and> list_all ascii_digit g) groups then Some (digits_val (concat groups)) else None)"

definition py_int :: "string \<Rightarrow> int option" where
  "py_int s =
     (case rev (dropWhile (int_space s) (rev (dropWhile (int_space s) s))) of
        [] \<Rightarrow> None
      | c # cs \<Rightarrow>
          (if c = CHR ''-'' then map_option (\<lambda>n. - int n) (digit_groups cs)
           else if c = CHR ''+'' then map_option int (digit_groups cs)
           else map_option int (digit_groups (c # cs))))"

definition content_length_ok :: "int \<Rightarrow> string option \<Rightarrow> unit result" where
  "content_length_ok limit v =
     (case v of
        None \<Rightarrow> Inr ()
      | Some text \<Rightarrow>
          (case py_int text of
             None \<Rightarrow> Inl invalid_upstream
           | Some n \<Rightarrow> (if n < 0 then Inl invalid_upstream else if n > limit then Inl too_large else Inr ())))"

text \<open>The state of the loop over the chunks: bytes read, bytes decoded, what is kept, the decoder.\<close>

record 'd reading =
  rd_raw :: int
  rd_decoded :: int
  rd_kept :: "nat list"
  rd_decoder :: "'d option"

definition decode_chunk :: "'d inflater \<Rightarrow> int \<Rightarrow> 'd reading \<Rightarrow> nat list \<Rightarrow> (nat list \<times> 'd option) result" where
  "decode_chunk z limit r chunk =
     (case rd_decoder r of
        None \<Rightarrow> Inr (chunk, None)
      | Some d \<Rightarrow>
          (case in_decompress z d chunk (limit - rd_decoded r + 1) of
             None \<Rightarrow> Inl outbound_failed
           | Some (decoded, d') \<Rightarrow> (if in_tail z d' \<noteq> [] then Inl too_large else Inr (decoded, Some d'))))"

definition read_chunk :: "'d inflater \<Rightarrow> int \<Rightarrow> 'd reading \<Rightarrow> nat list \<Rightarrow> 'd reading result" where
  "read_chunk z limit r chunk =
     (if rd_raw r + int (length chunk) > limit then Inl too_large
      else bindR (decode_chunk z limit r chunk) (\<lambda>(decoded, decoder).
        if rd_decoded r + int (length decoded) > limit then Inl too_large
        else Inr \<lparr>rd_raw = rd_raw r + int (length chunk), rd_decoded = rd_decoded r + int (length decoded),
                  rd_kept = rd_kept r @ decoded, rd_decoder = decoder\<rparr>))"

definition finish_reading :: "'d inflater \<Rightarrow> int \<Rightarrow> 'd reading \<Rightarrow> nat list result" where
  "finish_reading z limit r =
     (case rd_decoder r of
        None \<Rightarrow> Inr (rd_kept r)
      | Some d \<Rightarrow>
          (case in_flush z d (limit - rd_decoded r + 1) of
             None \<Rightarrow> Inl outbound_failed
           | Some (rest, d') \<Rightarrow>
               (if rd_decoded r + int (length rest) > limit then Inl too_large
                else if \<not> in_eof z d' \<or> in_unused z d' \<noteq> [] then Inl invalid_upstream
                else Inr (rd_kept r @ rest))))"

definition decoder_for :: "'d inflater \<Rightarrow> string \<Rightarrow> 'd option result" where
  "decoder_for z encoding =
     (if encoding \<in> {'''', ''identity''} then Inr None
      else if encoding = ''gzip'' then Inr (Some (in_gzip z))
      else if encoding = ''deflate'' then Inr (Some (in_zlib z))
      else Inl (request_error ''unsupported upstream content encoding''))"

definition content_encoding :: "wire \<Rightarrow> string" where
  "content_encoding w =
     py_lower (py_strip (case wr_header w ''content-encoding'' of Some s \<Rightarrow> s | None \<Rightarrow> []))"

definition start_reading :: "'d option \<Rightarrow> 'd reading" where
  "start_reading decoder = \<lparr>rd_raw = 0, rd_decoded = 0, rd_kept = [], rd_decoder = decoder\<rparr>"

definition read_bounded :: "'d inflater \<Rightarrow> client \<Rightarrow> wire \<Rightarrow> nat list result" where
  "read_bounded z cl w =
     (if wr_consumed w
      then (if cl_pinned cl then Inl (request_error ''invalid upstream response stream'')
            else if int (length (wr_content w)) > cl_max_response cl then Inl too_large
            else Inr (wr_content w))
      else bindR (decoder_for z (content_encoding w)) (\<lambda>decoder.
        bindR (content_length_ok (cl_max_response cl) (wr_header w ''content-length'')) (\<lambda>_.
        bindR (foldR (read_chunk z (cl_max_response cl)) (start_reading decoder) (wr_chunks w)) (\<lambda>r.
        if wr_broken w then Inl outbound_failed
        else finish_reading z (cl_max_response cl) r))))"

section \<open>Sending\<close>

text \<open>A response as the caller gets it; \<open>is_redirect\<close> is a function of the status (a parameter).\<close>

record response =
  rs_status :: int
  rs_location :: "string option"
  rs_content :: "nat list"

record 'd network =
  nw_resolve :: "nat \<Rightarrow> resolver"
  nw_send :: "nat \<Rightarrow> string \<Rightarrow> outbound \<Rightarrow> wire option"
  nw_redirect :: "int \<Rightarrow> bool"
  nw_inflater :: "'d inflater"

definition send_bounded :: "'d network \<Rightarrow> client \<Rightarrow> nat \<Rightarrow> string \<Rightarrow> outbound \<Rightarrow> response result" where
  "send_bounded nw cl hop url ob =
     (case nw_send nw hop url ob of
        None \<Rightarrow> Inl outbound_failed
      | Some w \<Rightarrow>
          (if nw_redirect nw (wr_status w)
           then Inr \<lparr>rs_status = wr_status w, rs_location = wr_header w ''location'', rs_content = []\<rparr>
           else bindR (read_bounded (nw_inflater nw) cl w) (\<lambda>content.
             Inr \<lparr>rs_status = wr_status w, rs_location = None, rs_content = content\<rparr>)))"

text \<open>
  The loop of \<open>request\<close>.  The result is the outcome, the guard afterwards and the requests that were sent,
  each with the target it was checked for.
\<close>

record sent =
  sn_target :: target
  sn_url :: string
  sn_request :: outbound

function request_loop ::
  "py_env \<Rightarrow> 'd network \<Rightarrow> client \<Rightarrow> outbound \<Rightarrow> bool \<Rightarrow> nat \<Rightarrow> guard \<Rightarrow> pyval \<Rightarrow> target option
     \<Rightarrow> response result \<times> guard \<times> sent list" where
  "request_loop env nw cl ob follow redirects g url previous =
     (case assert_allowed_url (env_idna env) (nw_resolve nw redirects) g url of
        Inl e \<Rightarrow> (Inl e, g, [])
      | Inr (target, g') \<Rightarrow>
          (if (case previous of
                 Some p \<Rightarrow> tg_host p \<noteq> tg_host target \<or> tg_port p \<noteq> tg_port target | None \<Rightarrow> False)
           then (Inl (request_error ''unsafe redirect''), g', [])
           else let text = (case url of PStr s \<Rightarrow> s | _ \<Rightarrow> []);
                    this = \<lparr>sn_target = target, sn_url = text, sn_request = ob\<rparr> in
             case send_bounded nw cl redirects text ob of
               Inl e \<Rightarrow> (Inl e, g', [this])
             | Inr response \<Rightarrow>
                 (if \<not> nw_redirect nw (rs_status response) then (Inr response, g', [this])
                  else if \<not> follow then (Inl (request_error ''unsafe redirect''), g', [this])
                  else case rs_location response of
                    None \<Rightarrow> (Inl (request_error ''unsafe redirect''), g', [this])
                  | Some location \<Rightarrow>
                      (if location = [] \<or> int redirects \<ge> cl_max_redirects cl
                       then (Inl (request_error ''unsafe redirect''), g', [this])
                       else case urljoin text location of
                         None \<Rightarrow> (Inl (request_error ''unsafe redirect''), g', [this])
                       | Some next_url \<Rightarrow>
                           (case request_loop env nw cl ob follow (Suc redirects) g' (PStr next_url) (Some target) of
                              (outcome, g'', sents) \<Rightarrow> (outcome, g'', this # sents))))))"
  by pat_completeness auto
termination
  by (relation "measure (\<lambda>(env, nw, cl, ob, follow, redirects, g, url, previous).
        nat (cl_max_redirects cl - int redirects))") auto

declare request_loop.simps [simp del]

text \<open>\<open>request\<close>; the client's guard keeps what was approved.\<close>

definition http_send ::
  "py_env \<Rightarrow> 'd network \<Rightarrow> client \<Rightarrow> pyval \<Rightarrow> pyval \<Rightarrow> pyval \<Rightarrow> pyval \<Rightarrow> pyval \<Rightarrow> pyval \<Rightarrow> pyval
     \<Rightarrow> response result \<times> client \<times> sent list" where
  "http_send env nw cl method url headers json_body page_count form_body allow_redirects =
     (case check_request (env_float env) cl method headers json_body page_count form_body allow_redirects of
        Inl e \<Rightarrow> (Inl e, cl, [])
      | Inr ob \<Rightarrow>
          (case request_loop env nw cl ob (truthy allow_redirects) 0 (cl_guard cl) url None of
             (outcome, g, sents) \<Rightarrow> (outcome, cl\<lparr>cl_guard := g\<rparr>, sents)))"

end
