(* ===== verification/HttpBounds.thy ===== *)
theory HttpBounds
  imports HttpClient DeclDemo
begin

text \<open>
  What a request through \<open>SafeHttpClient\<close> keeps: the bound on a response (\<open>reading_ok\<close>), on the output the
  decoder is asked for (\<open>agree_up_to\<close>), on the headers and bodies that go out (\<open>outbound_ok\<close>), and on the
  requests of one loop over redirects (\<open>hops_ok\<close>), with a concrete exchange for the witnesses.
\<close>

section \<open>Reading keeps the bound\<close>

definition reading_ok :: "int \<Rightarrow> 'd reading \<Rightarrow> bool" where
  "reading_ok limit r \<longleftrightarrow> rd_decoded r = int (length (rd_kept r)) \<and> rd_decoded r \<le> limit \<and> rd_raw r \<le> limit"

lemma read_chunk_ok:
  "read_chunk z limit r chunk = Inr r' \<Longrightarrow> reading_ok limit r \<Longrightarrow> reading_ok limit r'"
  by (auto simp: read_chunk_def reading_ok_def)

lemma chunks_ok:
  assumes "foldR (read_chunk z limit) (start_reading decoder) chunks = Inr r" and "0 \<le> limit"
  shows "reading_ok limit r"
  using assms(1)
proof (rule foldR_invariant)
  show "reading_ok limit (start_reading decoder)" using assms(2) by (simp add: reading_ok_def start_reading_def)
qed (rule read_chunk_ok)

lemma read_bounded_length:
  assumes "read_bounded z cl w = Inr content" and "0 \<le> cl_max_response cl"
  shows "int (length content) \<le> cl_max_response cl"
proof (cases "wr_consumed w")
  case True
  then show ?thesis using assms by (auto simp: read_bounded_def split: if_splits)
next
  case False
  with assms obtain decoder r where
    r: "foldR (read_chunk z (cl_max_response cl)) (start_reading decoder) (wr_chunks w) = Inr r"
    and fin: "finish_reading z (cl_max_response cl) r = Inr content"
    by (auto simp: read_bounded_def split: if_splits)
  have "reading_ok (cl_max_response cl) r" by (rule chunks_ok [OF r assms(2)])
  then show ?thesis using fin
    by (auto simp: finish_reading_def reading_ok_def split: option.splits if_splits)
qed

text \<open>Without a decoder the chunks are joined, as long as they fit.\<close>

lemma plain_chunks:
  assumes "rd_decoder r = None" and "rd_raw r = rd_decoded r"
  shows "foldR (read_chunk z limit) r chunks =
     (if int (length (concat chunks)) + rd_decoded r > limit \<and> chunks \<noteq> [] then Inl too_large
      else Inr (r\<lparr>rd_raw := rd_raw r + int (length (concat chunks)),
                  rd_decoded := rd_decoded r + int (length (concat chunks)),
                  rd_kept := rd_kept r @ concat chunks\<rparr>))"
  using assms
proof (induction chunks arbitrary: r)
  case (Cons c cs)
  let ?r = "\<lparr>rd_raw = rd_raw r + int (length c), rd_decoded = rd_decoded r + int (length c), rd_kept = rd_kept r @ c,
    rd_decoder = None\<rparr>"
  show ?case
  proof (cases "rd_decoded r + int (length c) > limit")
    case True
    then show ?thesis using Cons.prems by (simp add: read_chunk_def decode_chunk_def)
  next
    case False
    then have "foldR (read_chunk z limit) r (c # cs) = foldR (read_chunk z limit) ?r cs"
      using Cons.prems by (simp add: read_chunk_def decode_chunk_def)
    then show ?thesis using Cons.IH [of ?r] Cons.prems False by (auto simp: add.assoc)
  qed
qed simp

section \<open>The decoder is asked for bounded output only\<close>

text \<open>Two decoders that agree wherever the output they may return is bounded by a positive limit.\<close>

definition agree_up_to :: "int \<Rightarrow> 'd inflater \<Rightarrow> 'd inflater \<Rightarrow> bool" where
  "agree_up_to limit z z' \<longleftrightarrow>
     in_gzip z' = in_gzip z \<and> in_zlib z' = in_zlib z \<and> in_tail z' = in_tail z \<and> in_eof z' = in_eof z \<and>
     in_unused z' = in_unused z \<and>
     (\<forall>n. 1 \<le> n \<and> n \<le> limit \<longrightarrow> (\<forall>d. in_flush z' d n = in_flush z d n \<and>
        (\<forall>chunk. in_decompress z' d chunk n = in_decompress z d chunk n)))"

lemma agree_read_chunk:
  assumes "agree_up_to (limit + 1) z z'" and "reading_ok limit r"
  shows "read_chunk z' limit r chunk = read_chunk z limit r chunk"
proof -
  have "1 \<le> limit - rd_decoded r + 1" "limit - rd_decoded r + 1 \<le> limit + 1"
    using assms(2) by (simp_all add: reading_ok_def)
  then show ?thesis using assms(1)
    by (auto simp: read_chunk_def decode_chunk_def agree_up_to_def split: option.splits)
qed

lemma agree_chunks:
  "agree_up_to (limit + 1) z z' \<Longrightarrow> reading_ok limit r
     \<Longrightarrow> foldR (read_chunk z' limit) r chunks = foldR (read_chunk z limit) r chunks"
proof (induction chunks arbitrary: r)
  case (Cons c cs)
  then show ?case using agree_read_chunk [OF Cons.prems] read_chunk_ok [of z limit r c]
    by (cases "read_chunk z limit r c") simp_all
qed simp

lemma agree_finish:
  assumes "agree_up_to (limit + 1) z z'" and "reading_ok limit r"
  shows "finish_reading z' limit r = finish_reading z limit r"
proof -
  have "1 \<le> limit - rd_decoded r + 1" "limit - rd_decoded r + 1 \<le> limit + 1"
    using assms(2) by (simp_all add: reading_ok_def)
  then show ?thesis using assms(1) by (simp add: finish_reading_def agree_up_to_def split: option.splits)
qed

lemma agree_read_bounded:
  assumes "agree_up_to (cl_max_response cl + 1) z z'" and "0 \<le> cl_max_response cl"
  shows "read_bounded z' cl w = read_bounded z cl w"
proof -
  have "decoder_for z' e = decoder_for z e" for e using assms(1) by (simp add: decoder_for_def agree_up_to_def)
  moreover have "reading_ok (cl_max_response cl) (start_reading decoder)" for decoder :: "'a option"
    using assms(2) by (simp add: reading_ok_def start_reading_def)
  moreover have "bindR (foldR (read_chunk z (cl_max_response cl)) (start_reading decoder) (wr_chunks w))
        (\<lambda>r. if wr_broken w then Inl outbound_failed else finish_reading z' (cl_max_response cl) r)
      = bindR (foldR (read_chunk z (cl_max_response cl)) (start_reading decoder) (wr_chunks w))
        (\<lambda>r. if wr_broken w then Inl outbound_failed else finish_reading z (cl_max_response cl) r)" for decoder
    by (rule bindR_cong) (auto simp: agree_finish [OF assms(1)] dest!: chunks_ok [OF _ assms(2)])
  ultimately show ?thesis using agree_chunks [OF assms(1)] by (simp add: read_bounded_def)
qed

section \<open>What a checked request is\<close>

definition header_safe :: "string \<times> string \<Rightarrow> bool" where
  "header_safe h \<longleftrightarrow> header_name_re (fst h) \<and> py_lower (fst h) \<notin> set PROHIBITED_HEADERS \<and>
     CHR 0x0D \<notin> set (snd h) \<and> CHR 0x0A \<notin> set (snd h)"

definition header_bytes :: "headers \<Rightarrow> nat" where
  "header_bytes hs = sum_list (map (\<lambda>(n, v). length n + utf8_len v) hs)"

definition outbound_ok :: "(rat \<Rightarrow> string) \<Rightarrow> outbound \<Rightarrow> bool" where
  "outbound_ok fr ob \<longleftrightarrow> ob_method ob \<in> set ALLOWED_METHODS \<and> list_all header_safe (ob_headers ob) \<and>
     length (ob_headers ob) \<le> 33 \<and> header_bytes (ob_headers ob) \<le> 8192 + 45 \<and>
     (ob_json ob = PNone \<or> (\<exists>n. body_size fr (ob_json ob) = Inr n \<and> n \<le> MAX_REQUEST_BODY_BYTES)) \<and>
     (\<forall>c. ob_content ob = Some c \<longrightarrow> length c \<le> MAX_REQUEST_BODY_BYTES)"

definition headers_so_far :: "nat \<Rightarrow> nat \<times> headers \<Rightarrow> bool" where
  "headers_so_far k acc \<longleftrightarrow> list_all header_safe (snd acc) \<and> length (snd acc) \<le> k \<and>
     header_bytes (snd acc) \<le> fst acc \<and> fst acc \<le> MAX_HEADER_BYTES"

lemma header_bytes_update: "header_bytes (AList.update n v hs) \<le> header_bytes hs + length n + utf8_len v"
  by (induction hs) (auto simp: header_bytes_def)

lemma length_update: "length (AList.update n v hs) \<le> Suc (length hs)"
  by (induction hs) auto

lemma add_header_ok:
  assumes "add_header acc item = Inr acc'" and "headers_so_far k acc"
  shows "headers_so_far (Suc k) acc'"
proof -
  obtain name shown where item: "item = (PStr name, PStr shown)" and safe: "header_safe (name, shown)"
    and acc': "acc' = (fst acc + length name + utf8_len shown, AList.update name shown (snd acc))"
    and le: "fst acc + length name + utf8_len shown \<le> MAX_HEADER_BYTES"
    using assms(1)
    by (auto simp: add_header_def header_safe_def Let_def not_less split: prod.splits pyval.splits if_splits)
  have "list_all header_safe (AList.update name shown (snd acc))"
    using assms(2) safe set_update_subset [of name shown "snd acc"] by (auto simp: headers_so_far_def list_all_iff)
  then show ?thesis
    using assms(2) acc' le header_bytes_update [of name shown "snd acc"] length_update [of name shown "snd acc"]
    by (simp add: headers_so_far_def)
qed

lemma add_headers_ok:
  "foldR add_header acc items = Inr acc' \<Longrightarrow> headers_so_far k acc \<Longrightarrow> headers_so_far (k + length items) acc'"
proof (induction items arbitrary: acc k)
  case (Cons i items)
  then obtain acc1 where "add_header acc i = Inr acc1" "foldR add_header acc1 items = Inr acc'" by auto
  then show ?case using Cons.IH [of acc1 "Suc k"] add_header_ok Cons.prems(2) by fastforce
qed simp

lemma validated_headers_ok:
  assumes "validated_headers v = Inr hs"
  shows "list_all header_safe hs" "length hs \<le> 32" "header_bytes hs \<le> 8192"
proof -
  obtain m used where "length m \<le> 32" "foldR add_header (0, []) m = Inr (used, hs)"
    using assms by (auto simp: validated_headers_def MAX_HEADERS_def not_less split: pyval.splits if_splits)
  moreover have "headers_so_far 0 (0, [])" by (simp add: headers_so_far_def header_bytes_def)
  ultimately have "headers_so_far (length m) (used, hs)" "length m \<le> 32"
    using add_headers_ok [of "(0, [])" m "(used, hs)" 0] by simp_all
  then show "list_all header_safe hs" "length hs \<le> 32" "header_bytes hs \<le> 8192"
    by (simp_all add: headers_so_far_def MAX_HEADER_BYTES_def)
qed

lemma content_type_safe: "header_safe (''Content-Type'', ''application/x-www-form-urlencoded'')"
  by code_simp

lemma set_default_ok:
  assumes "list_all header_safe hs" "length hs \<le> 32" "header_bytes hs \<le> 8192"
  shows "list_all header_safe (set_default ''Content-Type'' ''application/x-www-form-urlencoded'' hs)"
    "length (set_default ''Content-Type'' ''application/x-www-form-urlencoded'' hs) \<le> 33"
    "header_bytes (set_default ''Content-Type'' ''application/x-www-form-urlencoded'' hs) \<le> 8192 + 45"
proof -
  have "header_bytes [(''Content-Type'', ''application/x-www-form-urlencoded'')] = 45" by code_simp
  then show "header_bytes (set_default ''Content-Type'' ''application/x-www-form-urlencoded'' hs) \<le> 8192 + 45"
    using assms(3) by (simp add: set_default_def header_bytes_def)
qed (use assms content_type_safe in \<open>simp_all add: set_default_def\<close>)

lemma check_request_ok:
  assumes "check_request fr cl method headers json_body page_count form_body allow_redirects = Inr ob"
  shows "outbound_ok fr ob"
proof -
  obtain hs where name: "ob_method ob \<in> set ALLOWED_METHODS" and hs: "validated_headers headers = Inr hs"
    and payload: "json_body = PNone \<or> (\<exists>n. body_size fr json_body = Inr n \<and> n \<le> MAX_REQUEST_BODY_BYTES)" "ob_json ob = json_body"
    and rest: "ob_headers ob = set_default ''Content-Type'' ''application/x-www-form-urlencoded'' hs \<and>
        (\<exists>c. encoded_form form_body = Inr c \<and> ob_content ob = Some c) \<or> ob_headers ob = hs \<and> ob_content ob = None"
    using assms by (auto simp: check_request_def Let_def not_less split: if_splits)
  have "length c \<le> MAX_REQUEST_BODY_BYTES" if "encoded_form form_body = Inr c" for c
    using that by (auto simp: encoded_form_def Let_def split: pyval.splits if_splits)
  moreover note v = validated_headers_ok [OF hs] set_default_ok [OF validated_headers_ok [OF hs]]
  ultimately show ?thesis using name payload rest by (auto simp: outbound_ok_def)
qed

section \<open>The loop over redirects\<close>

text \<open>
  The requests of one loop from its \<open>k\<close>-th redirect on: each URL was checked afresh with the resolver of its
  own hop, right before it was sent, all name the same host and port, and each further URL is the one the
  redirect the request before it was answered with leads to.
\<close>

fun hops_ok :: "py_env \<Rightarrow> 'd network \<Rightarrow> client \<Rightarrow> guard \<Rightarrow> outbound \<Rightarrow> string \<times> int \<Rightarrow> nat \<Rightarrow> pyval \<Rightarrow> sent list \<Rightarrow> bool" where
  "hops_ok env nw cl g ob hp k url [] \<longleftrightarrow> True"
| "hops_ok env nw cl g ob hp k url (x # xs) \<longleftrightarrow>
     url = PStr (sn_url x) \<and> sn_request x = ob \<and> (tg_host (sn_target x), tg_port (sn_target x)) = hp \<and>
     fresh_approval (env_idna env) (nw_resolve nw k) g (sn_url x) (sn_target x) \<and>
     (xs \<noteq> [] \<longrightarrow> (\<exists>r location next_url. send_bounded nw cl k (sn_url x) ob = Inr r \<and> nw_redirect nw (rs_status r) \<and>
        rs_location r = Some location \<and> urljoin (sn_url x) location = Some next_url \<and>
        hops_ok env nw cl g ob hp (Suc k) (PStr next_url) xs))"

lemma hops_same_policy: "same_policy g g' \<Longrightarrow> hops_ok env nw cl g' ob hp k url xs = hops_ok env nw cl g ob hp k url xs"
  by (induction xs arbitrary: k url) (simp_all add: fresh_same_policy)

text \<open>Without redirects to follow there is one request, and a response is the answer to the last one.\<close>

definition loop_result_ok ::
  "'d network \<Rightarrow> client \<Rightarrow> outbound \<Rightarrow> bool \<Rightarrow> nat \<Rightarrow> response result \<Rightarrow> sent list \<Rightarrow> bool" where
  "loop_result_ok nw cl ob follow k outcome sents \<longleftrightarrow>
     int (length sents) \<le> cl_max_redirects cl - int k + 1 \<and> (follow \<or> length sents \<le> 1) \<and>
     (case outcome of
        Inr r \<Rightarrow> sents \<noteq> [] \<and> \<not> nw_redirect nw (rs_status r) \<and>
          send_bounded nw cl (k + length sents - 1) (sn_url (last sents)) ob = Inr r
      | Inl _ \<Rightarrow> True)"

lemma loop_result_Cons:
  assumes "loop_result_ok nw cl ob follow (Suc k) outcome sents" "follow"
  shows "loop_result_ok nw cl ob follow k outcome (x # sents)"
  using assms by (auto simp: loop_result_ok_def split: sum.splits)

lemma request_loop_ok:
  assumes "request_loop env nw cl ob follow redirects g url previous = (outcome, g', sents)" and "guard_inv g"
    and "int redirects \<le> cl_max_redirects cl"
  shows "guard_inv g' \<and> same_policy g g' \<and> loop_result_ok nw cl ob follow redirects outcome sents \<and>
    (\<exists>hp. hops_ok env nw cl g ob hp redirects url sents \<and> (\<forall>t. previous = Some t \<longrightarrow> hp = (tg_host t, tg_port t)))"
  using assms
proof (induction env nw cl ob follow redirects g url previous arbitrary: outcome g' sents rule: request_loop.induct)
  case (1 env nw cl ob follow redirects g url previous)
  note prems = "1.prems"(1) [unfolded request_loop.simps [of env nw cl ob follow redirects g url previous]] "1.prems"(2,3)
  show ?case
  proof (cases "assert_allowed_url (env_idna env) (nw_resolve nw redirects) g url")
    case (Inl e)
    then show ?thesis using prems by (cases previous) (auto simp: loop_result_ok_def)
  next
    case (Inr r)
    obtain target g1 where r: "r = (target, g1)" by (cases r)
    note step = Inr [unfolded r]
    have g1: "guard_inv g1" "same_policy g g1" using assert_allowed_inv [OF step] prems(2) by blast+
    obtain shown where url: "url = PStr shown"
      and fresh: "fresh_approval (env_idna env) (nw_resolve nw redirects) g shown target"
      by (rule assert_allowed_fresh [OF step])
    define this_sent where "this_sent = \<lparr>sn_target = target, sn_url = shown, sn_request = ob\<rparr>"
    let ?hp = "(tg_host target, tg_port target)"
    let ?moved = "case previous of
      Some p \<Rightarrow> tg_host p \<noteq> tg_host target \<or> tg_port p \<noteq> tg_port target | None \<Rightarrow> False"
    show ?thesis
    proof (cases ?moved)
      case True
      then show ?thesis using prems step g1 by (cases previous) (auto simp: loop_result_ok_def)
    next
      case False
      have hp: "\<forall>t. previous = Some t \<longrightarrow> ?hp = (tg_host t, tg_port t)"
        using False by (auto split: option.splits)
      have one: "hops_ok env nw cl g ob ?hp redirects url [this_sent]"
        using fresh url by (simp add: this_sent_def)
      have alone: "loop_result_ok nw cl ob follow redirects (Inl e) [this_sent]" for e
        using prems(3) by (simp add: loop_result_ok_def)
      show ?thesis
      proof (cases "send_bounded nw cl redirects shown ob")
        case (Inl e)
        then have "sents = [this_sent]" "g' = g1" "outcome = Inl e"
          using prems(1) step False url by (simp_all add: this_sent_def)
        then show ?thesis using g1 one hp alone by blast
      next
        case (Inr response)
        note sent = Inr
        let ?stop = "\<not> nw_redirect nw (rs_status response) \<or> \<not> follow \<or> rs_location response = None \<or>
          rs_location response = Some [] \<or> int redirects \<ge> cl_max_redirects cl \<or>
          urljoin shown (the (rs_location response)) = None"
        show ?thesis
        proof (cases ?stop)
          case True
          then have "sents = [this_sent]" "g' = g1"
            "outcome = Inr response \<and> \<not> nw_redirect nw (rs_status response) \<or> (\<exists>e. outcome = Inl e)"
            using prems(1) step False sent url
            by (auto simp: this_sent_def [symmetric] split: if_splits option.splits)
          moreover have "loop_result_ok nw cl ob follow redirects (Inr response) [this_sent]"
            if "\<not> nw_redirect nw (rs_status response)"
            using that prems(3) sent by (simp add: loop_result_ok_def this_sent_def)
          ultimately show ?thesis using g1 one hp alone by blast
        next
          case more: False
          then obtain location next_url where location: "rs_location response = Some location"
            and next_url: "urljoin shown location = Some next_url" by auto
          obtain outcome' g2 sents' where rest: "request_loop env nw cl ob follow (Suc redirects) g1
              (PStr next_url) (Some target) = (outcome', g2, sents')" by (metis prod_cases3)
          have all: "outcome = outcome'" "g' = g2" "sents = this_sent # sents'"
            using prems(1) step False sent more location next_url rest url
            by (auto simp: this_sent_def [symmetric])
          have ih: "guard_inv g2 \<and> same_policy g1 g2 \<and> loop_result_ok nw cl ob follow (Suc redirects) outcome' sents' \<and>
              (\<exists>hp. hops_ok env nw cl g1 ob hp (Suc redirects) (PStr next_url) sents' \<and>
                 (\<forall>t. Some target = Some t \<longrightarrow> hp = (tg_host t, tg_port t)))"
            by (rule "1.IH" [OF step refl False _ this_sent_def sent _ _ location _ next_url rest g1(1)])
              (use more location prems(3) url in auto)
          then have later: "hops_ok env nw cl g ob ?hp (Suc redirects) (PStr next_url) sents'"
            using hops_same_policy [OF g1(2)] by blast
          have "hops_ok env nw cl g ob ?hp redirects url (this_sent # sents')"
            using one later sent more location next_url by (auto simp: this_sent_def)
          moreover have "loop_result_ok nw cl ob follow redirects outcome' (this_sent # sents')"
            using loop_result_Cons ih more by blast
          ultimately show ?thesis using ih g1(2) same_policy_trans all hp by blast
        qed
      qed
    qed
  qed
qed

section \<open>Clients\<close>

definition client_ok :: "client \<Rightarrow> bool" where
  "client_ok cl \<longleftrightarrow> guard_inv (cl_guard cl) \<and> 1 \<le> cl_max_response cl \<and> cl_max_response cl \<le> 16 * 1024 * 1024 \<and>
     0 \<le> cl_max_redirects cl \<and> cl_max_redirects cl \<le> 10 \<and> 1 \<le> cl_max_pages cl \<and> cl_max_pages cl \<le> MAX_PAGE_COUNT"

lemma bounded_limit_Inr [simp]: "bounded_limit msg lo hi v = Inr i \<longleftrightarrow> v = PInt i \<and> lo \<le> i \<and> i \<le> hi"
  by (auto simp: bounded_limit_def split: pyval.splits)

lemma make_client_ok:
  assumes "make_client idna versions_ok transport token hosts target_guard has_resolver connect_timeout
      read_timeout max_response max_redirects max_pages = Inr cl"
    and "\<And>g. target_guard = Some g \<Longrightarrow> guard_inv g"
  shows "client_ok cl"
proof -
  obtain g where "client_guard idna hosts target_guard has_resolver = Inr g" "cl_guard cl = g"
    "1 \<le> cl_max_response cl \<and> cl_max_response cl \<le> 16 * 1024 * 1024"
    "0 \<le> cl_max_redirects cl \<and> cl_max_redirects cl \<le> 10" "1 \<le> cl_max_pages cl \<and> cl_max_pages cl \<le> MAX_PAGE_COUNT"
    using assms(1) by (auto simp: make_client_def split: if_splits)
  moreover have "guard_inv g"
    using calculation(1) assms(2) make_guard_inv by (auto simp: client_guard_def split: option.splits if_splits)
  ultimately show ?thesis by (simp add: client_ok_def)
qed

lemma http_send_run:
  assumes "http_send env nw cl method url headers json_body page_count form_body allow_redirects = (outcome, cl', sents)"
  obtains (refused) e where "outcome = Inl e" "cl' = cl" "sents = []"
  | (sent) ob g where "outbound_ok (env_float env) ob" "cl' = cl\<lparr>cl_guard := g\<rparr>"
      "request_loop env nw cl ob (truthy allow_redirects) 0 (cl_guard cl) url None = (outcome, g, sents)"
proof (cases "check_request (env_float env) cl method headers json_body page_count form_body allow_redirects")
  case (Inl e)
  then show ?thesis using assms refused by (auto simp: http_send_def)
next
  case (Inr ob)
  then show ?thesis using assms sent check_request_ok [OF Inr]
    by (auto simp: http_send_def split: prod.splits)
qed

lemma send_bounded_length:
  assumes "send_bounded nw cl hop url ob = Inr r" and "0 \<le> cl_max_response cl"
  shows "int (length (rs_content r)) \<le> cl_max_response cl"
  using assms read_bounded_length by (auto simp: send_bounded_def split: option.splits if_splits)

text \<open>C22: One call sends at most one request more than the redirects its client allows, at most eleven, and just
  one when it follows none.  Each URL sent was checked afresh right before, with what the resolver of that hop
  answered: it names the one host and port all requests of the call go to, over https and allowed by the policy,
  and every address approved for it is public or site-local; each further URL is where the redirect before it
  leads.  All carry the same safe method, headers and body, a response is the answer to the last of them, and the
  client stays within its limits.\<close>

theorem request_hops_bounded:
  assumes "client_ok cl"
    and "http_send env nw cl method url headers json_body page_count form_body allow_redirects = (outcome, cl', sents)"
  shows "int (length sents) \<le> cl_max_redirects cl + 1 \<and> length sents \<le> 11 \<and>
    (truthy allow_redirects \<or> length sents \<le> 1) \<and> client_ok cl' \<and>
    (\<exists>ob hp. hops_ok env nw cl (cl_guard cl) ob hp 0 url sents \<and> (sents = [] \<or> outbound_ok (env_float env) ob) \<and>
      (\<forall>r. outcome = Inr r \<longrightarrow> sents \<noteq> [] \<and> send_bounded nw cl (length sents - 1) (sn_url (last sents)) ob = Inr r))"
  using assms(2)
proof (cases rule: http_send_run)
  case (refused e)
  then show ?thesis using assms(1) by (simp add: client_ok_def)
next
  case (sent ob g)
  have c: "guard_inv (cl_guard cl)" "int 0 \<le> cl_max_redirects cl" "cl_max_redirects cl \<le> 10"
    using assms(1) by (simp_all add: client_ok_def)
  note loop = request_loop_ok [OF sent(3) c(1,2)]
  then have "length sents \<le> 11" "client_ok cl'"
    using c(3) assms(1) sent(2) by (auto simp: client_ok_def loop_result_ok_def)
  then show ?thesis using loop sent(1) unfolding loop_result_ok_def
    by (intro conjI exI [of _ ob]) (auto split: sum.splits)
qed

text \<open>C23: A response is returned only when it is no redirect, and holds at most the bytes its client allows, at
  most 16 MiB, whatever the network sends and whatever its decoder returns.\<close>

theorem response_bounded:
  assumes "client_ok cl"
    and "http_send env nw cl method url headers json_body page_count form_body allow_redirects = (Inr r, cl', sents)"
  shows "int (length (rs_content r)) \<le> cl_max_response cl \<and> length (rs_content r) \<le> 16777216 \<and>
    \<not> nw_redirect nw (rs_status r)"
  using assms(2)
proof (cases rule: http_send_run)
  case (sent ob g)
  have c: "guard_inv (cl_guard cl)" "int 0 \<le> cl_max_redirects cl" "0 \<le> cl_max_response cl"
    "cl_max_response cl \<le> 16777216"
    using assms(1) by (simp_all add: client_ok_def)
  from request_loop_ok [OF sent(3) c(1,2)] have
    "send_bounded nw cl (length sents - 1) (sn_url (last sents)) ob = Inr r" "\<not> nw_redirect nw (rs_status r)"
    by (auto simp: loop_result_ok_def)
  then have "int (length (rs_content r)) \<le> cl_max_response cl" using send_bounded_length c(3) by blast
  then show ?thesis using c(4) \<open>\<not> nw_redirect nw (rs_status r)\<close> by simp
qed simp

text \<open>The decoder is only called with a positive output limit of at most one byte more than a response may
  hold, never with the zero that means no limit: two decoders that agree on such calls read every response
  alike.\<close>

theorem decoder_calls_bounded:
  assumes "client_ok cl" and "agree_up_to (cl_max_response cl + 1) z z'"
  shows "read_bounded z' cl w = read_bounded z cl w"
  using assms by (intro agree_read_bounded) (simp_all add: client_ok_def)

text \<open>A body that is not encoded is returned as the chunks it came in, exactly when they fit the limit.\<close>

theorem plain_body_exact:
  assumes "client_ok cl" and "\<not> wr_consumed w" and "\<not> wr_broken w"
    and "content_encoding w \<in> {'''', ''identity''}"
    and "content_length_ok (cl_max_response cl) (wr_header w ''content-length'') = Inr ()"
  shows "read_bounded z cl w =
    (if int (length (concat (wr_chunks w))) \<le> cl_max_response cl then Inr (concat (wr_chunks w)) else Inl too_large)"
proof -
  have "decoder_for z (content_encoding w) = Inr None" using assms(4) by (auto simp: decoder_for_def)
  moreover have "finish_reading z l (start_reading None\<lparr>rd_raw := a, rd_decoded := b, rd_kept := k\<rparr>) = Inr k" for l a b k
    by (simp add: finish_reading_def start_reading_def)
  ultimately show ?thesis
    using assms plain_chunks [of "start_reading None" z "cl_max_response cl" "wr_chunks w"]
    by (auto simp: read_bounded_def start_reading_def client_ok_def)
qed

section \<open>A concrete exchange\<close>

definition demo_inflater :: "unit inflater" where
  "demo_inflater = \<lparr>in_gzip = (), in_zlib = (), in_decompress = (\<lambda>_ chunk n. Some (take (nat n) chunk, ())),
     in_tail = (\<lambda>_. []), in_flush = (\<lambda>_ _. Some ([], ())), in_eof = (\<lambda>_. True), in_unused = (\<lambda>_. [])\<rparr>"

text \<open>Like it, but without a positive limit it returns whatever comes in.\<close>

definition unlimited_inflater :: "unit inflater" where
  "unlimited_inflater = demo_inflater\<lparr>in_decompress := (\<lambda>_ chunk n.
     Some (if n < 1 then chunk else take (nat n) chunk, ()))\<rparr>"

definition demo_wire :: wire where
  "demo_wire = \<lparr>wr_status = 200, wr_header = (\<lambda>_. None), wr_consumed = False, wr_content = [],
     wr_chunks = [[1, 2], [3]], wr_broken = False\<rparr>"

text \<open>The first request is redirected, the second answered.\<close>

definition demo_network :: "unit network" where
  "demo_network = \<lparr>nw_resolve = (\<lambda>_. demo_resolver),
     nw_send = (\<lambda>hop _ _. Some (if hop = 0
        then demo_wire\<lparr>wr_status := 302, wr_header := [''location'' \<mapsto> ''../v2?x=1'']\<rparr> else demo_wire)),
     nw_redirect = (\<lambda>status. 300 \<le> status \<and> status < 400), nw_inflater = demo_inflater\<rparr>"

definition demo_client :: client where
  "demo_client = \<lparr>cl_guard = demo_guard, cl_max_response = 1048576, cl_max_redirects = 3, cl_max_pages = 10,
     cl_pinned = True\<rparr>"

lemma demo_client_ok: "client_ok demo_client"
proof (rule make_client_ok)
  show "make_client (\<lambda>_. None) True False False (PList [PStr ''api.example.com'']) None True (PInt 5) (PInt 10)
      (PInt 1048576) (PInt 3) (PInt 10) = Inr demo_client" by code_simp
qed simp

definition demo_approved :: guard where
  "demo_approved = demo_guard\<lparr>g_approved := [((''api.example.com'', 443), [''93.184.215.14''])]\<rparr>"

definition demo_outbound :: outbound where
  "demo_outbound = \<lparr>ob_method = ''GET'', ob_headers = [(''Accept'', ''application/json'')], ob_json = PNone,
     ob_content = None\<rparr>"

definition demo_sent :: "string \<Rightarrow> sent" where
  "demo_sent url = \<lparr>sn_target = \<lparr>tg_host = ''api.example.com'', tg_port = 443, tg_addresses = [''93.184.215.14'']\<rparr>,
     sn_url = url, sn_request = demo_outbound\<rparr>"

lemma demo_exchange_run:
  "http_send demo_env demo_network demo_client (PStr ''get'') (PStr ''https://api.example.com/v1/items'')
     (pdict [(''Accept'', PStr ''application/json'')]) PNone (PInt 1) PNone (PBool True) =
   (Inr \<lparr>rs_status = 200, rs_location = None, rs_content = [1, 2, 3]\<rparr>, demo_client\<lparr>cl_guard := demo_approved\<rparr>,
    [demo_sent ''https://api.example.com/v1/items'', demo_sent ''https://api.example.com/v2?x=1''])"
  by code_simp

lemma request_hops_bounded_witness:
  "client_ok (demo_client\<lparr>cl_guard := demo_approved\<rparr>) \<and> (2 :: int) \<le> cl_max_redirects demo_client + 1 \<and>
    (\<exists>ob hp. hops_ok demo_env demo_network demo_client (cl_guard demo_client) ob hp 0
      (PStr ''https://api.example.com/v1/items'')
      [demo_sent ''https://api.example.com/v1/items'', demo_sent ''https://api.example.com/v2?x=1''])"
  using request_hops_bounded [OF demo_client_ok demo_exchange_run] by auto

lemma response_bounded_witness:
  "int (length [1, 2, 3 :: nat]) \<le> cl_max_response demo_client"
  using response_bounded [OF demo_client_ok demo_exchange_run] by simp

lemma decoder_calls_bounded_witness:
  "read_bounded unlimited_inflater demo_client demo_wire = read_bounded demo_inflater demo_client demo_wire"
  by (rule decoder_calls_bounded [OF demo_client_ok])
    (simp add: agree_up_to_def unlimited_inflater_def demo_inflater_def)

lemma plain_body_exact_witness: "read_bounded demo_inflater demo_client demo_wire = Inr [1, 2, 3]"
  using plain_body_exact [OF demo_client_ok, of demo_wire demo_inflater]
  by (simp add: demo_wire_def demo_client_def content_encoding_def content_length_ok_def py_strip_def py_lower_def)


section \<open>What the address check lets through\<close>

text \<open>
  A site-local address counts as global, and the zone of an IPv6 address survives the canonical form that
  is meant to drop it.
\<close>

lemma site_local_accepted: "is_safe_address ''fec0::1''"
  by code_simp

lemma zone_kept:
  "resolve_addresses (\<lambda>_ _. Some [PStr ''2606:4700::1111%eth0'']) ''api.example.com'' 443
     = Inr [''2606:4700::1111%eth0''] \<and> is_safe_address ''2606:4700::1111%eth0''"
  by code_simp

end
