(* ===== verification/DeclPages.thy ===== *)
theory DeclPages
  imports DeclRevision DeclStorage HttpClient ConnCache
begin

text \<open>
  The parts of \<open>declarative/connector.py\<close> that compute without effects: cursors and record keys that come
  from upstream, the rewritten query of a later page, the check of a tool's arguments, the selection of a
  page's output and the largest prefix of its items that fits, and the rows a synchronisation stores.
\<close>

lemma budget_code [code_unfold]:
  "(n \<le> MAX_OUTPUT_BYTES) = (int n \<le> (65536 :: int))" "(n \<le> MAX_OUTPUT_ITEMS) = (int n \<le> (1000 :: int))"
  by (simp_all add: MAX_OUTPUT_BYTES_def MAX_OUTPUT_ITEMS_def)

section \<open>Cursors and record keys\<close>

definition MAX_CURSOR_LENGTH :: nat where "MAX_CURSOR_LENGTH = 512"
definition MAX_RECORD_KEY_LENGTH :: nat where "MAX_RECORD_KEY_LENGTH = 255"

text \<open>\<open>_read_pointer\<close> with a pointer that may be no string.\<close>

definition read_at :: "pyval \<Rightarrow> pyval \<Rightarrow> pyval result" where
  "read_at document pointer =
     bindR (pointer_tokens pointer) (\<lambda>tokens. read_tokens document tokens)"

definition cursor_value :: "pyval \<Rightarrow> pyval \<Rightarrow> string option" where
  "cursor_value document pointer =
     (case read_at document pointer of
        Inr (PInt i) \<Rightarrow> Some (int_str i)
      | Inr (PStr s) \<Rightarrow> (if s = [] \<or> length s > MAX_CURSOR_LENGTH \<or> list_ex category_C s then None else Some s)
      | _ \<Rightarrow> None)"

definition normalize_cursor :: "pyval \<Rightarrow> string option" where
  "normalize_cursor v =
     (case (case v of PInt i \<Rightarrow> PStr (int_str i) | _ \<Rightarrow> v) of
        PStr s \<Rightarrow> (if s = [] \<or> length s > MAX_RECORD_KEY_LENGTH \<or> list_ex category_C s then None else Some s)
      | _ \<Rightarrow> None)"

definition record_key_value :: "pyval \<Rightarrow> string option" where
  "record_key_value v = normalize_cursor v"

definition record_key :: "pyval \<Rightarrow> pyval \<Rightarrow> string option" where
  "record_key row pointer = (case read_at row pointer of Inl _ \<Rightarrow> None | Inr v \<Rightarrow> record_key_value v)"

text \<open>\<open>None\<close> where \<open>urlsplit\<close> raises.\<close>

definition url_with_cursor :: "string \<Rightarrow> string \<Rightarrow> string \<Rightarrow> string option" where
  "url_with_cursor url parameter cursor =
     (case urlsplit url of
        None \<Rightarrow> None
      | Some parts \<Rightarrow>
          Some (urlunsplit (parts\<lparr>u_query :=
            urlencode (filter (\<lambda>(name, _). name \<noteq> parameter) (parse_qsl (u_query parts)) @ [(parameter, cursor)])\<rparr>)))"

section \<open>Arguments of a tool\<close>

text \<open>The object checks before the members: the declared properties and \<open>additionalProperties\<close>.\<close>

definition public_object ::
  "(pyval \<times> pyval) list \<Rightarrow> (pyval \<times> pyval) list \<Rightarrow> ((pyval \<times> pyval) list \<times> pyval) result" where
  "public_object schema m =
     (case (mget_or schema ''properties'' (PMap []), required_list schema) of
        (PMap ps, Some required) \<Rightarrow>
          bindR (forR (\<lambda>name.
              if \<not> hashable name then Inl (Exc TypeError ''unhashable type'')
              else if name \<in> set (map fst m) then Inr ()
              else Inl (spec_error ''required object input is missing'')) required) (\<lambda>_.
          bindR (enum_check schema (PMap m)) (\<lambda>_.
          let additional = mget_or schema ''additionalProperties'' (PBool True) in
          if \<not> is_bool additional \<and> \<not> is_mapping additional
          then Inl (spec_error ''invalid declared input schema'') else Inr (ps, additional)))
      | _ \<Rightarrow> Inl (spec_error ''invalid declared input schema''))"

text \<open>The schema for one member: declared, additional, or none.\<close>

definition member_schema ::
  "(pyval \<times> pyval) list \<times> pyval \<Rightarrow> pyval \<Rightarrow> (pyval \<times> pyval) list option result" where
  "member_schema shape key =
     (if \<not> is_str key then Inl (spec_error ''undeclared object input'')
      else case (case map_of (fst shape) key of Some v \<Rightarrow> v | None \<Rightarrow> PNone) of
        PMap sub \<Rightarrow> Inr (Some sub)
      | PNone \<Rightarrow>
          (case snd shape of
             PBool b \<Rightarrow> (if b then Inr None else Inl (spec_error ''undeclared object input''))
           | PMap sub \<Rightarrow> Inr (Some sub)
           | _ \<Rightarrow> Inr None)
      | _ \<Rightarrow> Inl (spec_error ''invalid declared input schema''))"

function validate_public_input :: "pyval \<Rightarrow> (pyval \<times> pyval) list \<Rightarrow> unit result" where
  "validate_public_input v schema =
     (let t = mget_none schema ''type'' in
      if t = PStr ''null''
      then (if v \<noteq> PNone then Inl (spec_error ''input type does not match declaration'') else validate_input v schema)
      else bindR (in_strings t [''object'', ''array'']) (\<lambda>nested.
        if \<not> nested then validate_input v schema
        else if t = PStr ''array''
        then (case v of
                PList vs \<Rightarrow>
                  (if length vs > MAX_OUTPUT_ITEMS then Inl (spec_error ''input array exceeds limits'')
                   else bindR (enum_check schema v) (\<lambda>_.
                     case mget schema ''items'' of
                       Some (PMap item_schema) \<Rightarrow> forR (\<lambda>w. validate_public_input w item_schema) vs
                     | _ \<Rightarrow> Inl (spec_error ''invalid declared input schema'')))
              | _ \<Rightarrow> Inl (spec_error ''input type does not match declaration''))
        else (case v of
                PMap m \<Rightarrow>
                  bindR (public_object schema m) (\<lambda>shape.
                  forR (\<lambda>(k, w). bindR (member_schema shape k) (\<lambda>sub.
                    case sub of None \<Rightarrow> Inr () | Some s \<Rightarrow> validate_public_input w s)) m)
              | _ \<Rightarrow> Inl (spec_error ''input type does not match declaration''))))"
  by pat_completeness auto
termination
  by (relation "measure (\<lambda>(v, _). size v)") (auto intro: size_list_item size_member simp del: pyval.size)

declare validate_public_input.simps [simp del]

section \<open>References\<close>

type_synonym step_outputs = "(string, (string, pyval) dict) dict"

definition resolve_ref :: "(pyval \<times> pyval) list \<Rightarrow> step_outputs \<Rightarrow> value_ref \<Rightarrow> pyval result" where
  "resolve_ref args outputs r =
     (if vr_source r = ''input''
      then (case mget args (vr_field r) of Some v \<Rightarrow> Inr v | None \<Rightarrow> Inl (Exc KeyError (vr_field r)))
      else case map_of outputs (case vr_step r of Some s \<Rightarrow> s | None \<Rightarrow> []) of
        None \<Rightarrow> Inl (Exc KeyError (case vr_step r of Some s \<Rightarrow> s | None \<Rightarrow> []))
      | Some out \<Rightarrow> (case map_of out (vr_field r) of Some v \<Rightarrow> Inr v | None \<Rightarrow> Inl (Exc KeyError (vr_field r))))"

section \<open>The output of a page\<close>

definition step_failure :: "string \<Rightarrow> exc" where
  "step_failure code = Exc StepExecutionFailure code"

definition multi_page :: "operation \<Rightarrow> bool" where
  "multi_page p \<longleftrightarrow> (case op_pagination p of Some pg \<Rightarrow> pg_max_pages pg > 1 | None \<Rightarrow> False)"

text \<open>One selection of a page that may have successors.\<close>

definition page_selection :: "pyval \<Rightarrow> pyval \<Rightarrow> output_mapping \<Rightarrow> (string \<times> pyval) result" where
  "page_selection items_pointer document o' =
     bindR (read_pointer document (om_pointer o')) (\<lambda>v.
     bindR (case v of
              PList vs \<Rightarrow>
                (if PStr (om_pointer o') = items_pointer
                 then bindR (mapR (selected_copy 0) (take MAX_OUTPUT_ITEMS vs)) (\<lambda>ws. Inr (PList ws))
                 else selected_copy 0 v)
            | _ \<Rightarrow> selected_copy 0 v) (\<lambda>w. Inr (om_name o', w)))"

definition safe_output :: "py_env \<Rightarrow> operation \<Rightarrow> pyval \<Rightarrow> (string \<times> pyval) list result" where
  "safe_output env p document =
     (case (if multi_page p
            then mapR (page_selection (case op_pagination p of Some pg \<Rightarrow> pg_items_pointer pg | None \<Rightarrow> PNone) document)
                   (op_outputs p)
            else bindR (extract_safe_output env p document) (\<lambda>out.
              Inr (case out of PMap m \<Rightarrow> map (\<lambda>(k, v). (case k of PStr s \<Rightarrow> s | _ \<Rightarrow> [], v)) m | _ \<Rightarrow> []))) of
        Inr selected \<Rightarrow> Inr selected
      | Inl _ \<Rightarrow> Inl (step_failure ''mapping_error''))"

definition fits_output_budget :: "py_env \<Rightarrow> (string \<times> pyval) list \<Rightarrow> string \<Rightarrow> pyval list \<Rightarrow> bool" where
  "fits_output_budget env first_page items_field candidate \<longleftrightarrow>
     length candidate \<le> MAX_OUTPUT_ITEMS \<and>
     (case json_size (env_float env) (pdict (AList.update items_field (PList candidate) first_page)) of
        Inr n \<Rightarrow> n \<le> MAX_OUTPUT_BYTES | Inl _ \<Rightarrow> False)"

text \<open>The binary search of \<open>_bounded_items\<close>.\<close>

function search_prefix :: "(nat \<Rightarrow> bool) \<Rightarrow> nat \<Rightarrow> nat \<Rightarrow> nat" where
  "search_prefix fits low high =
     (if low < high
      then let midpoint = (low + high + 1) div 2 in
        if fits midpoint then search_prefix fits midpoint high else search_prefix fits low (midpoint - 1)
      else low)"
  by pat_completeness auto
termination
  by (relation "measure (\<lambda>(fits, low, high). high - low)") auto

declare search_prefix.simps [simp del]

definition bounded_items ::
  "py_env \<Rightarrow> (string \<times> pyval) list \<Rightarrow> string \<Rightarrow> pyval list \<Rightarrow> int \<Rightarrow> pyval list" where
  "bounded_items env first_page items_field items max_items =
     take (search_prefix (\<lambda>n. fits_output_budget env first_page items_field (take n items)) 0
             (min (length items) (min (nat max_items) MAX_OUTPUT_ITEMS))) items"

section \<open>Rows of a synchronisation\<close>

text \<open>The output field that holds the items, \<open>''\<close> if none does.\<close>

definition field_of_pointer :: "operation \<Rightarrow> pyval \<Rightarrow> string" where
  "field_of_pointer p pointer =
     (case find (\<lambda>o'. PStr (om_pointer o') = pointer) (op_outputs p) of Some o' \<Rightarrow> om_name o' | None \<Rightarrow> [])"

text \<open>
  \<open>read_value\<close>: from the row by its pointer, or from the document by the field of the pointer, of which the
  last declared one counts.
\<close>

definition row_value :: "sync_spec \<Rightarrow> operation \<Rightarrow> (string \<times> pyval) list \<Rightarrow> pyval \<Rightarrow> pyval \<Rightarrow> pyval result" where
  "row_value sy p document row pointer =
     (if truthy (sy_items_pointer sy) then read_at row pointer
      else case find (\<lambda>o'. PStr (om_pointer o') = pointer) (rev (op_outputs p)) of
        None \<Rightarrow> Inl (Exc KeyError ''pointer'')
      | Some o' \<Rightarrow>
          (case map_of document (om_name o') of Some v \<Rightarrow> Inr v | None \<Rightarrow> Inl (Exc KeyError (om_name o'))))"

definition row_payload ::
  "sync_spec \<Rightarrow> operation \<Rightarrow> (string \<times> pyval) list \<Rightarrow> pyval \<Rightarrow> (pyval \<times> pyval) list result" where
  "row_payload sy p document row =
     mapR (\<lambda>(name, pointer). bindR (row_value sy p document row pointer) (\<lambda>v. Inr (name, v))) (sy_field_mappings sy)"

definition row_record ::
  "sync_spec \<Rightarrow> operation \<Rightarrow> (string \<times> pyval) list \<Rightarrow> pyval \<Rightarrow> (string \<times> (pyval \<times> pyval) list) option" where
  "row_record sy p document row =
     (case row_value sy p document row (PStr (sy_primary_key sy)) of
        Inl _ \<Rightarrow> None
      | Inr v \<Rightarrow>
          (case record_key_value v of
             None \<Rightarrow> None
           | Some key \<Rightarrow>
               (case row_payload sy p document row of
                  Inl _ \<Rightarrow> None
                | Inr payload \<Rightarrow> (if contains_sensitive 0 (PMap payload) then None else Some (key, payload)))))"

definition sync_rows :: "sync_spec \<Rightarrow> operation \<Rightarrow> (string \<times> pyval) list \<Rightarrow> pyval list" where
  "sync_rows sy p document =
     (if truthy (sy_items_pointer sy)
      then (case map_of document (field_of_pointer p (sy_items_pointer sy)) of Some (PList vs) \<Rightarrow> vs | _ \<Rightarrow> [])
      else [pdict document])"

text \<open>\<open>_project_records\<close>: how many rows there were, and the records of the usable ones.\<close>

definition project_records ::
  "sync_spec \<Rightarrow> operation \<Rightarrow> (string \<times> pyval) list \<Rightarrow> int \<times> (string \<times> (pyval \<times> pyval) list) list" where
  "project_records sy p document =
     (int (length (sync_rows sy p document)),
      List.map_filter (row_record sy p document) (sync_rows sy p document))"

end
