(* ===== verification/DeclSession.thy ===== *)
theory DeclSession
  imports DeclPages TokenCache
begin

text \<open>
  The effects of \<open>DeclarativeConnector\<close> (\<open>declarative/connector.py\<close>): requests through the HTTP client, the
  token cache and the step audits, as actions on a session.  What lies outside is the record \<open>world\<close>: the
  network of each client call, an exception that interrupts it (its own timer of so many milliseconds, a
  timer around it or a cancellation), the time after a number of calls, the text of JSON, the digest of the token cache and
  the outcome of an exchange another task began.  Time passes only while a client call waits.
\<close>

section \<open>Actions\<close>

type_synonym ('s, 'a) action = "'s \<Rightarrow> 'a result \<times> 's"

definition pureA :: "'a \<Rightarrow> ('s, 'a) action" where
  "pureA x s = (Inr x, s)"

definition raiseA :: "exc \<Rightarrow> ('s, 'a) action" where
  "raiseA e s = (Inl e, s)"

definition liftA :: "'a result \<Rightarrow> ('s, 'a) action" where
  "liftA r s = (r, s)"

definition bindA :: "('s, 'a) action \<Rightarrow> ('a \<Rightarrow> ('s, 'b) action) \<Rightarrow> ('s, 'b) action" where
  "bindA m f s = (case m s of (Inl e, s') \<Rightarrow> (Inl e, s') | (Inr x, s') \<Rightarrow> f x s')"

text \<open>\<open>try: m except: h e\<close>, where the handler sees every exception.\<close>

definition catchA :: "('s, 'a) action \<Rightarrow> (exc \<Rightarrow> ('s, 'a) action) \<Rightarrow> ('s, 'a) action" where
  "catchA m h s = (case m s of (Inl e, s') \<Rightarrow> h e s' | (Inr x, s') \<Rightarrow> (Inr x, s'))"

section \<open>The session\<close>

record conn_context =
  cx_tenant :: string
  cx_connection :: string
  cx_mode :: pyval
  cx_credentials :: "(pyval \<times> pyval) list"

record step_event =
  se_connection :: string
  se_tool :: string
  se_step :: string
  se_operation :: string
  se_status :: string
  se_error :: string
  se_cost :: int

record session =
  ss_client :: client
  ss_tokens :: token_cache
  ss_calls :: nat
  ss_sent :: "sent list"
  ss_audits :: "step_event list"

record 'd world =
  wd_env :: py_env
  wd_network :: "nat \<Rightarrow> 'd network"
  wd_interrupt :: "nat \<Rightarrow> int \<Rightarrow> exc option"
  wd_time :: "nat \<Rightarrow> time"
  wd_json :: "nat list \<Rightarrow> pyval option"
  wd_digest :: "nat list \<Rightarrow> string"
  wd_shared :: "nat \<Rightarrow> string result"

text \<open>
  \<open>TimeoutError\<close> is what a timer around the current code raises.  The timer of the whole tool cancels the
  code inside, which \<open>deadline\<close> marks until the tool turns it into a \<open>TimeoutError\<close>.
\<close>

definition timed_out :: exc where "timed_out = Exc TimeoutError []"
definition deadline :: exc where "deadline = Exc CancelledError ''deadline''"

text \<open>\<open>_request_with_timeout\<close>: one call of the client under a timer of so many milliseconds.\<close>

definition client_call ::
  "'d world \<Rightarrow> int \<Rightarrow> string \<Rightarrow> string \<Rightarrow> headers \<Rightarrow> pyval \<Rightarrow> int \<Rightarrow> pyval \<Rightarrow> bool \<Rightarrow> (session, response) action" where
  "client_call w timeout method url headers json_body page_count form_body allow_redirects s =
     (case http_send (wd_env w) (wd_network w (ss_calls s)) (ss_client s) (PStr method) (PStr url)
             (pdict (map (\<lambda>(k, v). (k, PStr v)) headers)) json_body (PInt page_count) form_body
             (PBool allow_redirects) of
        (outcome, cl, sents) \<Rightarrow>
          (case wd_interrupt w (ss_calls s) timeout of Some e \<Rightarrow> Inl e | None \<Rightarrow> outcome,
           s\<lparr>ss_client := cl, ss_calls := Suc (ss_calls s), ss_sent := ss_sent s @ sents\<rparr>))"

section \<open>Credentials\<close>

definition MAX_CREDENTIAL_BYTES :: nat where "MAX_CREDENTIAL_BYTES = 4096"

definition single_line :: "string \<Rightarrow> bool" where
  "single_line s \<longleftrightarrow> CHR 0x0D \<notin> set s \<and> CHR 0x0A \<notin> set s"

definition credential :: "conn_context \<Rightarrow> pyval \<Rightarrow> string result" where
  "credential cx key =
     (case map_of (cx_credentials cx) key of
        Some (PStr v) \<Rightarrow>
          (if v = [] \<or> utf8_len v > MAX_CREDENTIAL_BYTES \<or> \<not> single_line v
           then Inl (Exc RuntimeError ''credential is unavailable'') else Inr v)
      | _ \<Rightarrow> Inl (Exc RuntimeError ''credential is unavailable''))"

text \<open>\<open>base64.b64encode\<close>\<close>

definition base64_char :: "nat \<Rightarrow> char" where
  "base64_char d =
     (if d < 26 then char_of (65 + d) else if d < 52 then char_of (71 + d)
      else if d < 62 then char_of (d - 4) else if d = 62 then CHR ''+'' else CHR ''/'')"

fun base64 :: "nat list \<Rightarrow> string" where
  "base64 [] = []"
| "base64 [a] = [base64_char (a div 4), base64_char (a mod 4 * 16), CHR ''='', CHR ''='']"
| "base64 [a, b] = [base64_char (a div 4), base64_char (a mod 4 * 16 + b div 16), base64_char (b mod 16 * 4), CHR ''='']"
| "base64 (a # b # c # bs) =
     base64_char (a div 4) # base64_char (a mod 4 * 16 + b div 16) # base64_char (b mod 16 * 4 + c div 64)
       # base64_char (c mod 64) # base64 bs"

text \<open>A text field of a validated scheme.\<close>

definition text_of :: "pyval \<Rightarrow> string" where
  "text_of v = (case v of PStr s \<Rightarrow> s | _ \<Rightarrow> [])"

definition token_request_of :: "auth_scheme \<Rightarrow> string \<Rightarrow> string \<Rightarrow> token_request" where
  "token_request_of a client_id client_secret =
     \<lparr>tr_token_url = text_of (au_token_url a), tr_client_id_key = text_of (au_client_id_key a),
      tr_client_secret_key = text_of (au_client_secret_key a), tr_scopes = map text_of (au_scopes a),
      tr_client_id = client_id, tr_client_secret = client_secret\<rparr>"

definition is_oauth :: "auth_scheme \<Rightarrow> bool" where
  "is_oauth a \<longleftrightarrow> au_kind a = PStr ''oauth2_client_credentials''"

text \<open>\<open>_oauth_cache_key\<close>: \<open>None\<close> when the scheme has no token or deriving its key raises.\<close>

definition oauth_cache_key :: "'d world \<Rightarrow> auth_scheme option \<Rightarrow> conn_context \<Rightarrow> token_key option" where
  "oauth_cache_key w scheme cx =
     (case scheme of
        None \<Rightarrow> None
      | Some a \<Rightarrow>
          (if \<not> is_oauth a then None
           else case bindR (credential cx (au_client_id_key a)) (\<lambda>cid.
                bindR (credential cx (au_client_secret_key a)) (\<lambda>secret.
                token_cache_key (wd_digest w) (PStr (cx_connection cx)) (token_request_of a cid secret))) of
             Inr key \<Rightarrow> Some key | Inl _ \<Rightarrow> None))"

section \<open>The OAuth exchange\<close>

definition success_status :: "int \<Rightarrow> bool" where
  "success_status n \<longleftrightarrow> 200 \<le> n \<and> n < 300"

definition form_of :: "auth_scheme \<Rightarrow> string \<Rightarrow> string \<Rightarrow> pyval" where
  "form_of a client_id client_secret =
     pdict ([(''grant_type'', PStr ''client_credentials''), (''client_id'', PStr client_id),
             (''client_secret'', PStr client_secret)]
            @ (if au_scopes a = [] then [] else [(''scope'', PStr (join_with '' '' (map text_of (au_scopes a))))]))"

text \<open>The token and its lifetime in a response.\<close>

definition token_in :: "auth_scheme \<Rightarrow> pyval option \<Rightarrow> (string \<times> pyval) result" where
  "token_in a payload =
     (case payload of
        Some (PMap m) \<Rightarrow>
          (case mget m (text_of (au_access_token_key a)) of
             Some (PStr token) \<Rightarrow>
               (if token = [] \<or> utf8_len token > MAX_CREDENTIAL_BYTES \<or> \<not> single_line token
                then Inl (Exc RuntimeError ''OAuth token response is invalid'')
                else bindR (parse_lifetime_seconds (mget_none m ''expires_in'')) (\<lambda>seconds.
                  Inr (token, PFloat (Fin seconds))))
           | _ \<Rightarrow> Inl (Exc RuntimeError ''OAuth token response is invalid''))
      | None \<Rightarrow> Inl (Exc ValueError ''not JSON'')
      | _ \<Rightarrow> Inl (Exc RuntimeError ''OAuth token response is invalid''))"

definition exchange_oauth_token ::
  "'d world \<Rightarrow> int \<Rightarrow> auth_scheme \<Rightarrow> string \<Rightarrow> string \<Rightarrow> (session, string \<times> pyval) action" where
  "exchange_oauth_token w timeout a client_id client_secret =
     bindA (client_call w timeout ''POST'' (text_of (au_token_url a)) [(''Accept'', ''application/json'')] PNone 1
              (form_of a client_id client_secret) False) (\<lambda>response.
     if \<not> success_status (rs_status response) then raiseA (Exc RuntimeError ''OAuth token request failed'')
     else liftA (token_in a (wd_json w (rs_content response))))"

text \<open>\<open>get_or_exchange\<close> in a task of its own: it holds the token, runs the exchange, or joins another's.\<close>

definition get_or_exchange ::
  "'d world \<Rightarrow> token_key \<Rightarrow> (session, string \<times> pyval) action \<Rightarrow> (session, string) action" where
  "get_or_exchange w key exchange s =
     (case exchange_begin (wd_time w (ss_calls s)) (ss_tokens s) key of
        (TDone r, c) \<Rightarrow> (r, s\<lparr>ss_tokens := c\<rparr>)
      | (TWaiting k f, c) \<Rightarrow> (wd_shared w (ss_calls s), s\<lparr>ss_tokens := c\<rparr>)
      | (Exchanging k f generation, c) \<Rightarrow>
          (case exchange (s\<lparr>ss_tokens := c\<rparr>) of
             (outcome, s') \<Rightarrow>
               (case exchange_finish (wd_time w (ss_calls s')) (ss_tokens s') k f generation outcome of
                  (r, c') \<Rightarrow> (r, s'\<lparr>ss_tokens := c'\<rparr>))))"

definition auth_headers :: "'d world \<Rightarrow> int \<Rightarrow> auth_scheme option \<Rightarrow> conn_context \<Rightarrow> (session, headers) action" where
  "auth_headers w timeout scheme cx =
     (case scheme of
        None \<Rightarrow> pureA []
      | Some a \<Rightarrow>
          (if au_kind a = PStr ''api_key''
           then liftA (bindR (credential cx (au_credential_key a)) (\<lambda>v. Inr [(text_of (au_header_name a), v)]))
           else if au_kind a = PStr ''basic''
           then liftA (bindR (credential cx (au_username_key a)) (\<lambda>user.
                bindR (credential cx (au_password_key a)) (\<lambda>password.
                Inr [(''Authorization'', ''Basic '' @ base64 (utf8 (user @ '':'' @ password)))])))
           else if is_oauth a
           then bindA (liftA (bindR (credential cx (au_client_id_key a)) (\<lambda>cid.
                  bindR (credential cx (au_client_secret_key a)) (\<lambda>secret.
                  bindR (token_cache_key (wd_digest w) (PStr (cx_connection cx)) (token_request_of a cid secret))
                    (\<lambda>key. Inr (cid, secret, key)))))) (\<lambda>(cid, secret, key).
                bindA (get_or_exchange w key (exchange_oauth_token w timeout a cid secret)) (\<lambda>token.
                pureA [(''Authorization'', ''Bearer '' @ token)]))
           else raiseA (Exc RuntimeError ''unsupported authentication scheme'')))"

section \<open>Authorized requests\<close>

definition body_of :: "http_request \<Rightarrow> pyval" where
  "body_of rq = (case rq_body rq of None \<Rightarrow> PNone | Some m \<Rightarrow> PMap m)"

definition with_headers :: "headers \<Rightarrow> headers \<Rightarrow> headers" where
  "with_headers declared auth = foldl (\<lambda>hs (k, v). AList.update k v hs) declared auth"

text \<open>One attempt with fresh authorization headers.\<close>

definition attempt ::
  "'d world \<Rightarrow> int \<Rightarrow> auth_scheme option \<Rightarrow> conn_context \<Rightarrow> http_request \<Rightarrow> headers \<Rightarrow> int \<Rightarrow> (session, response) action" where
  "attempt w timeout scheme cx rq declared page_count =
     bindA (auth_headers w timeout scheme cx) (\<lambda>auth.
     client_call w timeout (rq_method rq) (rq_url rq) (with_headers declared auth) (body_of rq) page_count PNone True)"

definition discard_token :: "token_key \<Rightarrow> (session, unit) action" where
  "discard_token key s = (Inr (), s\<lparr>ss_tokens := snd (token_discard (ss_tokens s) key)\<rparr>)"

definition send_authorized ::
  "'d world \<Rightarrow> int \<Rightarrow> auth_scheme option \<Rightarrow> conn_context \<Rightarrow> http_request \<Rightarrow> headers \<Rightarrow> int \<Rightarrow> (session, response) action" where
  "send_authorized w timeout scheme cx rq declared page_count =
     bindA (attempt w timeout scheme cx rq declared page_count) (\<lambda>response.
     if rs_status response \<noteq> 401 then pureA response
     else case oauth_cache_key w scheme cx of
       None \<Rightarrow> pureA response
     | Some key \<Rightarrow>
         bindA (discard_token key) (\<lambda>_. attempt w timeout scheme cx rq declared page_count))"

definition fetch_page ::
  "'d world \<Rightarrow> int \<Rightarrow> auth_scheme option \<Rightarrow> conn_context \<Rightarrow> http_request \<Rightarrow> headers \<Rightarrow> int \<Rightarrow> (session, pyval) action" where
  "fetch_page w timeout scheme cx rq declared page_count =
     bindA (send_authorized w timeout scheme cx rq declared page_count) (\<lambda>response.
     if \<not> success_status (rs_status response) then raiseA (step_failure ''operation_error'')
     else case wd_json w (rs_content response) of
       None \<Rightarrow> raiseA (step_failure ''mapping_error'')
     | Some document \<Rightarrow> pureA document)"

end
