(* ===== verification/DeclExec.thy ===== *)
theory DeclExec
  imports DeclSession
begin

text \<open>
  The execution of a declared tool (\<open>execute\<close>, \<open>_execute_operation\<close> and \<open>_execute_pages\<close> of
  \<open>declarative/connector.py\<close>): one operation with its pages, the steps of a tool with their audit events,
  and the result the caller gets.
\<close>

section \<open>One operation\<close>

text \<open>A text parameter of a validated pagination.\<close>

definition cursor_param :: "pagination \<Rightarrow> string" where
  "cursor_param pg = text_of (pg_next_query_param pg)"

definition item_limit :: "pagination \<Rightarrow> nat" where
  "item_limit pg = min (nat (pg_max_items pg)) MAX_OUTPUT_ITEMS"

text \<open>\<open>{**request, "url": ..}\<close>\<close>

definition cursor_request :: "pagination \<Rightarrow> http_request \<Rightarrow> string \<Rightarrow> http_request result" where
  "cursor_request pg rq cursor =
     (case url_with_cursor (rq_url rq) (cursor_param pg) cursor of
        Some url \<Rightarrow> Inr (rq\<lparr>rq_url := url\<rparr>)
      | None \<Rightarrow> Inl (Exc ValueError ''invalid URL''))"

text \<open>The items of a page, if they are a list.\<close>

definition listed :: "(string \<times> pyval) list \<Rightarrow> string \<Rightarrow> pyval list option" where
  "listed selected field = (case map_of selected field of Some (PList vs) \<Rightarrow> Some vs | _ \<Rightarrow> None)"

text \<open>The loop over the later pages: the page numbers that are left, the last document, the items so far.\<close>

fun more_pages ::
  "'d world \<Rightarrow> int \<Rightarrow> auth_scheme option \<Rightarrow> conn_context \<Rightarrow> operation \<Rightarrow> pagination \<Rightarrow> http_request \<Rightarrow> headers
     \<Rightarrow> (string \<times> pyval) list \<Rightarrow> int list \<Rightarrow> pyval \<Rightarrow> pyval list \<Rightarrow> (session, pyval list) action" where
  "more_pages w timeout scheme cx p pg rq declared first_page [] document collected = pureA collected"
| "more_pages w timeout scheme cx p pg rq declared first_page (page # pages) document collected =
     (if int (length collected) \<ge> pg_max_items pg then pureA collected
      else case cursor_value document (pg_next_pointer pg) of
        None \<Rightarrow> pureA collected
      | Some cursor \<Rightarrow>
          bindA (liftA (cursor_request pg rq cursor)) (\<lambda>request.
          bindA (fetch_page w timeout scheme cx request declared page) (\<lambda>next_document.
          bindA (liftA (safe_output (wd_env w) p next_document)) (\<lambda>selected.
          let page_items = (case listed selected (pagination_items_field p) of Some vs \<Rightarrow> vs | None \<Rightarrow> []);
              combined = collected @ page_items;
              candidate = bounded_items (wd_env w) first_page (pagination_items_field p) combined (pg_max_items pg) in
          if page_items = [] \<or> length candidate = length collected then pureA collected
          else if length candidate < min (length combined) (item_limit pg) then pureA candidate
          else more_pages w timeout scheme cx p pg rq declared first_page pages next_document candidate))))"

definition paged_result ::
  "'d world \<Rightarrow> int \<Rightarrow> auth_scheme option \<Rightarrow> conn_context \<Rightarrow> operation \<Rightarrow> pagination \<Rightarrow> http_request \<Rightarrow> headers
     \<Rightarrow> (string \<times> pyval) list \<Rightarrow> pyval \<Rightarrow> pyval list \<Rightarrow> (session, (string \<times> pyval) list) action" where
  "paged_result w timeout scheme cx p pg rq declared first_page document first_items =
     (let field = pagination_items_field p in
      if \<not> fits_output_budget (wd_env w) first_page field [] then raiseA (step_failure ''mapping_error'')
      else let collected = bounded_items (wd_env w) first_page field first_items (pg_max_items pg) in
        if length collected < min (length first_items) (item_limit pg)
        then pureA (AList.update field (PList collected) first_page)
        else bindA (more_pages w timeout scheme cx p pg rq declared first_page [2..pg_max_pages pg] document collected)
               (\<lambda>items. pureA (AList.update field (PList (take (nat (pg_max_items pg)) items)) first_page)))"

definition execute_pages ::
  "'d world \<Rightarrow> int \<Rightarrow> auth_scheme option \<Rightarrow> conn_context \<Rightarrow> operation \<Rightarrow> (pyval \<times> pyval) list
     \<Rightarrow> (session, (string \<times> pyval) list) action" where
  "execute_pages w timeout scheme cx p args =
     bindA (liftA (build_request (wd_env w) p (PMap args))) (\<lambda>rq.
     bindA (liftA (declared_headers (wd_env w) p args)) (\<lambda>declared.
     bindA (fetch_page w timeout scheme cx rq declared 1) (\<lambda>document.
     bindA (liftA (safe_output (wd_env w) p document)) (\<lambda>first_page.
     case op_pagination p of
       None \<Rightarrow> pureA first_page
     | Some pg \<Rightarrow>
         (if pg_max_pages pg \<le> 1 then pureA first_page
          else case listed first_page (pagination_items_field p) of
            Some first_items \<Rightarrow> paged_result w timeout scheme cx p pg rq declared first_page document first_items
          | None \<Rightarrow> pureA first_page)))))"

text \<open>What \<open>_execute_operation\<close> makes of an exception.\<close>

definition operation_failure :: "exc \<Rightarrow> exc" where
  "operation_failure e =
     (case exc_kind e of
        StepExecutionFailure \<Rightarrow> e
      | TimeoutError \<Rightarrow> step_failure ''timeout''
      | CancelledError \<Rightarrow> e
      | _ \<Rightarrow> step_failure ''operation_error'')"

definition execute_operation ::
  "'d world \<Rightarrow> int \<Rightarrow> auth_scheme option \<Rightarrow> conn_context \<Rightarrow> operation \<Rightarrow> (pyval \<times> pyval) list
     \<Rightarrow> (session, (string \<times> pyval) list) action" where
  "execute_operation w timeout scheme cx p args =
     catchA (execute_pages w timeout scheme cx p args) (\<lambda>e. raiseA (operation_failure e))"

section \<open>Step audits\<close>

definition MAX_STEP_AUDIT_COST_MS :: int where "MAX_STEP_AUDIT_COST_MS = 300000"

definition SENSITIVE_DIMENSION_PARTS :: "string list" where
  "SENSITIVE_DIMENSION_PARTS = [''authorization'', ''cookie'', ''credential'', ''password'', ''secret'', ''token'']"

definition dimension_char :: "char \<Rightarrow> bool" where
  "dimension_char c \<longleftrightarrow> ascii_alnum c \<or> c \<in> {CHR ''_'', CHR ''.'', CHR '':'', CHR ''-''}"

text \<open>\<open>_validate_dimension\<close> of a string.\<close>

definition dimension_ok :: "nat \<Rightarrow> string \<Rightarrow> bool" where
  "dimension_ok maximum s \<longleftrightarrow> length s \<le> maximum \<and>
     (case s of [] \<Rightarrow> False | c # cs \<Rightarrow> ascii_alnum c \<and> list_all dimension_char cs) \<and>
     \<not> list_ex (\<lambda>part. part \<in> set SENSITIVE_DIMENSION_PARTS)
        (runs (\<lambda>c. ascii_lower c \<or> ascii_digit c) (py_lower s))"

text \<open>\<open>StepAuditEvent\<close>; the status and the error code are literals that fit each other.\<close>

definition make_step_event ::
  "string \<Rightarrow> string \<Rightarrow> string \<Rightarrow> string \<Rightarrow> string \<Rightarrow> string \<Rightarrow> int \<Rightarrow> step_event result" where
  "make_step_event connection_id tkey step_id operation_key status error_code cost =
     (if \<not> dimension_ok 64 connection_id \<or> \<not> dimension_ok 128 tkey \<or> \<not> dimension_ok 64 step_id
         \<or> \<not> dimension_ok 128 operation_key
      then Inl (Exc ValueError ''must be a safe identifier'')
      else Inr \<lparr>se_connection = connection_id, se_tool = tkey, se_step = step_id, se_operation = operation_key,
                se_status = status, se_error = error_code, se_cost = cost\<rparr>)"

record active_step =
  ac_step :: string
  ac_operation :: string
  ac_started :: time
  ac_audited :: bool

text \<open>\<open>_emit_step_audit\<close>; what the sink raises is ignored.\<close>

definition emit_step_audit ::
  "'d world \<Rightarrow> bool \<Rightarrow> conn_context \<Rightarrow> string \<Rightarrow> active_step \<Rightarrow> string \<Rightarrow> string \<Rightarrow> (session, unit) action" where
  "emit_step_audit w has_sink cx tkey a status error_code s =
     (if \<not> has_sink then (Inr (), s)
      else case make_step_event (cx_connection cx) tkey (ac_step a) (ac_operation a) status error_code
          (min MAX_STEP_AUDIT_COST_MS (max 0 \<lfloor>(wd_time w (ss_calls s) - ac_started a) * 1000\<rfloor>)) of
        Inl e \<Rightarrow> (Inl e, s)
      | Inr event \<Rightarrow> (Inr (), s\<lparr>ss_audits := ss_audits s @ [event]\<rparr>))"

section \<open>The steps of a tool\<close>

text \<open>The arguments of a step; an input the caller left out is left out.\<close>

definition step_arguments ::
  "(pyval \<times> pyval) list \<Rightarrow> step_outputs \<Rightarrow> decl_step \<Rightarrow> (pyval \<times> pyval) list result" where
  "step_arguments args outputs step =
     bindR (mapR (\<lambda>(name, r). bindR (resolve_ref args outputs r) (\<lambda>v. Inr (PStr name, v)))
       (filter (\<lambda>(_, r). \<not> (vr_source r = ''input'' \<and> \<not> has_key args (vr_field r))) (st_inputs step))) Inr"

definition step_result :: "decl_step \<Rightarrow> (string \<times> pyval) list \<Rightarrow> (string, pyval) dict result" where
  "step_result step data =
     mapR (\<lambda>(name, output). case map_of data output of
         Some v \<Rightarrow> Inr (name, v) | None \<Rightarrow> Inl (Exc KeyError output)) (st_outputs step)"

definition step_timeout_ms :: "operation \<Rightarrow> decl_step \<Rightarrow> int" where
  "step_timeout_ms p step = (case st_timeout step of Some t \<Rightarrow> t | None \<Rightarrow> op_timeout p)"

text \<open>
  The loop over the steps.  Besides the outputs or the exception it leaves the step that was active, which
  the handlers of \<open>execute\<close> audit.
\<close>

definition started_step :: "'d world \<Rightarrow> operation \<Rightarrow> decl_step \<Rightarrow> session \<Rightarrow> active_step" where
  "started_step w p step s =
     \<lparr>ac_step = st_id step, ac_operation = op_key p, ac_started = wd_time w (ss_calls s), ac_audited = False\<rparr>"

fun run_steps ::
  "'d world \<Rightarrow> bool \<Rightarrow> revision \<Rightarrow> conn_context \<Rightarrow> string \<Rightarrow> (pyval \<times> pyval) list \<Rightarrow> decl_step list \<Rightarrow> step_outputs
     \<Rightarrow> active_step option \<Rightarrow> session \<Rightarrow> step_outputs result \<times> active_step option \<times> session" where
  "run_steps w has_sink rv cx tkey args [] outputs active s = (Inr outputs, active, s)"
| "run_steps w has_sink rv cx tkey args (step # steps) outputs active s =
     (case operation_for rv (st_operation step) of
        Inl e \<Rightarrow> (Inl e, active, s)
      | Inr p \<Rightarrow>
          (let a = started_step w p step s in
           case step_arguments args outputs step of
             Inl _ \<Rightarrow> (Inl (step_failure ''mapping_error''), Some a, s)
           | Inr step_args \<Rightarrow>
               (case execute_operation w (step_timeout_ms p step) (rv_auth rv) cx p step_args s of
                  (Inl e, s1) \<Rightarrow> (Inl e, Some a, s1)
                | (Inr data, s1) \<Rightarrow>
                    (case step_result step data of
                       Inl _ \<Rightarrow> (Inl (step_failure ''mapping_error''), Some a, s1)
                     | Inr out \<Rightarrow>
                         (case emit_step_audit w has_sink cx tkey a ''ok'' '''' s1 of
                            (Inl e, s2) \<Rightarrow> (Inl e, Some (a\<lparr>ac_audited := True\<rparr>), s2)
                          | (Inr _, s2) \<Rightarrow>
                              run_steps w has_sink rv cx tkey args steps (AList.update (st_id step) out outputs)
                                (Some (a\<lparr>ac_audited := True\<rparr>)) s2)))))"

section \<open>The result of a tool\<close>

record exec_outcome =
  eo_data :: "(string \<times> pyval) list"
  eo_status :: string

definition exec_error :: exec_outcome where
  "exec_error = \<lparr>eo_data = [(''error'', PStr ''declarative operation failed'')], eo_status = ''error''\<rparr>"

definition exec_done :: "(string \<times> pyval) list \<Rightarrow> exec_outcome" where
  "exec_done data = \<lparr>eo_data = data, eo_status = ''ok''\<rparr>"

text \<open>An event for the active step, if it has none yet, and then the result.\<close>

definition audit_then ::
  "'d world \<Rightarrow> bool \<Rightarrow> conn_context \<Rightarrow> string \<Rightarrow> active_step option \<Rightarrow> string \<Rightarrow> 'a result \<Rightarrow> (session, 'a) action" where
  "audit_then w has_sink cx tkey active code r =
     (case active of
        None \<Rightarrow> liftA r
      | Some a \<Rightarrow>
          (if ac_audited a then liftA r
           else bindA (emit_step_audit w has_sink cx tkey a ''error'' code) (\<lambda>_. liftA r)))"

text \<open>The \<open>except\<close> clauses of \<open>execute\<close>; the timer of the tool turns its cancellation into a \<open>TimeoutError\<close>.\<close>

definition failed_tool ::
  "'d world \<Rightarrow> bool \<Rightarrow> conn_context \<Rightarrow> string \<Rightarrow> active_step option \<Rightarrow> exc \<Rightarrow> (session, exec_outcome) action" where
  "failed_tool w has_sink cx tkey active e =
     (if exc_kind e = StepExecutionFailure
      then (case active of
              None \<Rightarrow> pureA exec_error
            | Some a \<Rightarrow>
                bindA (emit_step_audit w has_sink cx tkey a ''error'' (exc_msg e)) (\<lambda>_. pureA exec_error))
      else if e = deadline \<or> exc_kind e = TimeoutError
      then audit_then w has_sink cx tkey active ''timeout'' (Inr exec_error)
      else if exc_kind e = CancelledError
      then audit_then w has_sink cx tkey active ''cancelled'' (Inl e)
      else audit_then w has_sink cx tkey active ''mapping_error'' (Inr exec_error))"

definition result_of_map ::
  "decl_tool \<Rightarrow> (pyval \<times> pyval) list \<Rightarrow> step_outputs \<Rightarrow> (string \<times> pyval) list result" where
  "result_of_map tool args outputs =
     mapR (\<lambda>(name, r). bindR (resolve_ref args outputs r) (\<lambda>v. Inr (name, v))) (dt_result_map tool)"

definition run_tool ::
  "'d world \<Rightarrow> bool \<Rightarrow> revision \<Rightarrow> conn_context \<Rightarrow> decl_tool \<Rightarrow> (pyval \<times> pyval) list \<Rightarrow> (session, exec_outcome) action" where
  "run_tool w has_sink rv cx tool args s =
     (case run_steps w has_sink rv cx (dt_key tool) args (dt_steps tool) [] None s of
        (Inl e, active, s') \<Rightarrow> failed_tool w has_sink cx (dt_key tool) active e s'
      | (Inr outputs, active, s') \<Rightarrow>
          (case result_of_map tool args outputs of
             Inr data \<Rightarrow> (Inr (exec_done data), s')
           | Inl e \<Rightarrow> failed_tool w has_sink cx (dt_key tool) active e s'))"

section \<open>execute\<close>

definition revision_for_context :: "revision \<Rightarrow> conn_context \<Rightarrow> unit result" where
  "revision_for_context rv cx =
     (if truthy (rv_connection_id rv) \<and> rv_connection_id rv \<noteq> PStr (cx_connection cx)
      then Inl (Exc PermissionError ''declarative revision is unavailable'')
      else if truthy (rv_tenant_id rv) \<and> rv_tenant_id rv \<noteq> PStr (cx_tenant cx)
      then Inl (Exc PermissionError ''declarative revision is unavailable'')
      else assert_data_mode_allowed rv (cx_mode cx))"

text \<open>The rows the record store holds for a resource of the connection, each a mapping.\<close>

type_synonym stored_rows = "string \<Rightarrow> string \<Rightarrow> (string \<times> pyval) list list result"

definition stored_read ::
  "stored_rows \<Rightarrow> revision \<Rightarrow> conn_context \<Rightarrow> string \<Rightarrow> exec_outcome option result" where
  "stored_read rows rv cx tkey =
     (case rv_sync rv of
        None \<Rightarrow> Inr None
      | Some sy \<Rightarrow>
          (if cx_mode cx \<noteq> PStr ''stored'' then Inr None
           else case operation_for rv (sy_operation_key sy) of
             Inl _ \<Rightarrow> Inr None
           | Inr p \<Rightarrow>
               (if tkey \<notin> {op_key p, op_mcp p} then Inr None
                else bindR (rows (cx_connection cx) (sy_resource_key sy)) (\<lambda>payloads.
                  if \<not> truthy (sy_items_pointer sy)
                  then Inr (Some (exec_done (case payloads of [] \<Rightarrow> [] | row # _ \<Rightarrow> row)))
                  else let field = field_of_pointer p (sy_items_pointer sy) in
                    if field = [] then Inr None
                    else Inr (Some (exec_done [(field, PList (map pdict payloads))]))))))"

definition execute_declared ::
  "'d world \<Rightarrow> bool \<Rightarrow> stored_rows \<Rightarrow> revision \<Rightarrow> conn_context \<Rightarrow> string \<Rightarrow> pyval \<Rightarrow> (session, exec_outcome) action" where
  "execute_declared w has_sink rows rv cx tkey args =
     bindA (liftA (revision_for_context rv cx)) (\<lambda>_.
     bindA (liftA (tool_for rv tkey)) (\<lambda>tool.
     case args of
       PMap m \<Rightarrow>
         (case validate_public_input args (dt_input_schema tool) of
            Inl _ \<Rightarrow> pureA exec_error
          | Inr _ \<Rightarrow>
              (case stored_read rows rv cx tkey of
                 Inl _ \<Rightarrow> pureA exec_error
               | Inr (Some stored) \<Rightarrow> pureA stored
               | Inr None \<Rightarrow> run_tool w has_sink rv cx tool m))
     | _ \<Rightarrow> pureA exec_error))"

section \<open>The connector\<close>

text \<open>\<open>_canonical_revision\<close> and \<open>validate_revision\<close> of \<open>declarative/validator.py\<close> on a revision.\<close>

definition canonical_revision :: "py_env \<Rightarrow> revision \<Rightarrow> revision result" where
  "canonical_revision env rv =
     bindR (storage_document rv) (\<lambda>document.
     bindR (assert_safe_declaration_value document) (\<lambda>_.
     from_storage_document env (rv_spec_id rv) (PInt (rv_revision rv)) (rv_tenant_id rv) (rv_connection_id rv)
       (PStr (rv_status rv)) document))"

definition validate_revision :: "py_env \<Rightarrow> revision \<Rightarrow> pyval \<Rightarrow> revision result" where
  "validate_revision env rv mode =
     bindR (canonical_revision env rv) (\<lambda>compiled.
     bindR (if mode \<noteq> PNone then assert_data_mode_allowed compiled mode else Inr ()) (\<lambda>_. Inr compiled))"

record connector =
  dc_revision :: revision
  dc_client :: client

text \<open>\<open>_bind\<close>; the token cache, the record store and the audit sink belong to the session and the world.\<close>

definition make_connector :: "py_env \<Rightarrow> revision \<Rightarrow> client \<Rightarrow> bool \<Rightarrow> connector result" where
  "make_connector env rv cl allow_test_transport =
     bindR (validate_revision env rv PNone) (\<lambda>compiled.
     if \<not> cl_pinned cl \<and> \<not> allow_test_transport
     then Inl (guard_error ''HTTP client must use the pinned transport'')
     else if \<not> exactly_matches_hosts (env_idna env) (cl_guard cl) (PTuple (map PStr (rv_allowed_hosts compiled)))
     then Inl (guard_error ''HTTP client host policy must exactly match the revision'')
     else Inr \<lparr>dc_revision = compiled, dc_client = cl\<rparr>)"

end
