(* ===== verification/ToolDemo.thy ===== *)
theory ToolDemo
  imports DeclExec HttpBounds
begin

text \<open>
  Concrete runs for the witnesses: an upstream that answers the calls of the demo declaration, and an
  operation of two pages.
\<close>

definition demo_reply :: "nat list \<Rightarrow> wire" where
  "demo_reply content = demo_wire\<lparr>wr_chunks := [content]\<rparr>"

text \<open>The answer to a call is its number, and \<open>answers\<close> says which JSON that is.\<close>

definition world_with :: "(nat \<Rightarrow> pyval) \<Rightarrow> unit world" where
  "world_with answers =
     \<lparr>wd_env = demo_env,
      wd_network = (\<lambda>call. demo_network\<lparr>nw_send := (\<lambda>_ _ _. Some (demo_reply [call]))\<rparr>),
      wd_interrupt = (\<lambda>_ _. None), wd_time = (\<lambda>calls. of_nat calls),
      wd_json = (\<lambda>content. map_option answers (case content of c # _ \<Rightarrow> Some c | [] \<Rightarrow> None)),
      wd_digest = (\<lambda>_. ''digest''), wd_shared = (\<lambda>_. Inl timed_out)\<rparr>"

definition demo_world :: "unit world" where
  "demo_world = world_with (\<lambda>call. if call = 0 then pdict [(''id'', PInt 7)] else pdict [(''done'', PBool True)])"

definition demo_context :: conn_context where
  "demo_context = \<lparr>cx_tenant = ''t1'', cx_connection = ''c1'', cx_mode = PStr ''direct'', cx_credentials = []\<rparr>"

definition demo_session :: session where
  "demo_session = \<lparr>ss_client = demo_client, ss_tokens = empty_token_cache, ss_calls = 0, ss_sent = [], ss_audits = []\<rparr>"

definition demo_connector :: connector where
  "demo_connector = \<lparr>dc_revision = demo_revision, dc_client = demo_client\<rparr>"

lemma demo_connector_made: "make_connector demo_env demo_revision demo_client False = Inr demo_connector"
  by code_simp

definition no_rows :: stored_rows where "no_rows = (\<lambda>_ _. Inr [])"

definition demo_args :: pyval where "demo_args = pdict [(''item'', PStr ''a b'')]"

definition sent_to :: "string \<Rightarrow> string \<Rightarrow> pyval \<Rightarrow> sent" where
  "sent_to verb url json =
     \<lparr>sn_target = \<lparr>tg_host = ''api.example.com'', tg_port = 443, tg_addresses = [''93.184.215.14'']\<rparr>,
      sn_url = url, sn_request = \<lparr>ob_method = verb, ob_headers = [], ob_json = json, ob_content = None\<rparr>\<rparr>"

definition demo_event :: "string \<Rightarrow> string \<Rightarrow> step_event" where
  "demo_event step operation =
     \<lparr>se_connection = ''c1'', se_tool = ''copy'', se_step = step, se_operation = operation, se_status = ''ok'',
      se_error = '''', se_cost = 1000\<rparr>"

text \<open>A result with what can be compared of the session after it: all but the token cache.\<close>

definition observed :: "'a \<times> session \<Rightarrow> 'a \<times> client \<times> nat \<times> sent list \<times> step_event list" where
  "observed run = (fst run, ss_client (snd run), ss_calls (snd run), ss_sent (snd run), ss_audits (snd run))"

lemma observed_run: "observed run = (r, cl, n, sents, events) \<Longrightarrow>
   \<exists>s. run = (r, s) \<and> ss_client s = cl \<and> ss_calls s = n \<and> ss_sent s = sents \<and> ss_audits s = events"
  by (cases run) (simp add: observed_def)

lemma demo_executes:
  "observed (execute_declared demo_world True no_rows demo_revision demo_context ''copy_item'' demo_args demo_session)
     = (Inr (exec_done [(''done'', PBool True)]), demo_client\<lparr>cl_guard := demo_approved\<rparr>, 2,
        [sent_to ''GET'' ''https://api.example.com/v1/items/a%20b'' PNone,
         sent_to ''POST'' ''https://api.example.com/v1/items'' (pdict [(''id'', PInt 7)])],
        [demo_event ''one'' ''find'', demo_event ''two'' ''save''])"
  by code_simp

section \<open>Two pages\<close>

definition demo_list :: operation where
  "demo_list =
     \<lparr>op_key = ''list'', op_mcp = ''list_items'', op_description = ''List'', op_method = ''GET'',
      op_path = ''/items'', op_inputs = [],
      op_outputs = [\<lparr>om_name = ''items'', om_pointer = ''/items''\<rparr>], op_kind = ''read'', op_explicit_write = False,
      op_base_url = demo_base, op_timeout = 10000, op_cache_ttl = None,
      op_pagination = Some \<lparr>pg_max_pages = 5, pg_max_items = 3, pg_items_pointer = PStr ''/items'',
        pg_next_pointer = PStr ''/next'', pg_next_query_param = PStr ''cursor''\<rparr>\<rparr>"

definition paged_world :: "unit world" where
  "paged_world = world_with (\<lambda>call.
     pdict [(''items'', PList [PInt (2 * int call), PInt (2 * int call + 1)]), (''next'', PStr ''p&2'')])"

lemma demo_pages:
  "observed (execute_operation paged_world 10000 None demo_context demo_list [] demo_session)
     = (Inr [(''items'', PList [PInt 0, PInt 1, PInt 2])], demo_client\<lparr>cl_guard := demo_approved\<rparr>, 2,
        [sent_to ''GET'' ''https://api.example.com/v1/items'' PNone,
         sent_to ''GET'' ''https://api.example.com/v1/items?cursor=p%262'' PNone], [])"
  by code_simp

end
