(* ===== verification/DeclOutput.thy ===== *)
theory DeclOutput
  imports ToolDemo
begin

text \<open>
  What an operation returns is bounded: the binary search of \<open>_bounded_items\<close> finds the largest prefix of the
  items whose page fits the budget, and every result that leaves \<open>_execute_operation\<close> fits it.
\<close>

section \<open>The largest prefix that fits\<close>

lemma search_prefix_spec:
  assumes "low \<le> high" and "\<forall>m n. m \<le> n \<longrightarrow> fits n \<longrightarrow> fits m" and "fits low"
  shows "low \<le> search_prefix fits low high \<and> search_prefix fits low high \<le> high \<and>
    (\<forall>n \<le> high. fits n \<longleftrightarrow> n \<le> search_prefix fits low high)"
  using assms
proof (induction fits low high rule: search_prefix.induct)
  case (1 fits low high)
  define mid where "mid = (low + high + 1) div 2"
  show ?case
  proof (cases "low < high")
    case False
    then have "search_prefix fits low high = low" by (subst search_prefix.simps) simp
    then show ?thesis using "1.prems" False by auto
  next
    case True
    then have mid: "low < mid" "mid \<le> high" by (simp_all add: mid_def)
    show ?thesis
    proof (cases "fits mid")
      case fit: True
      have "search_prefix fits low high = search_prefix fits mid high"
        using True fit by (simp add: search_prefix.simps [of fits low high] mid_def)
      then show ?thesis
        using "1.IH"(1) [OF True mid_def fit mid(2) "1.prems"(2) fit] mid by simp
    next
      case unfit: False
      have rec: "search_prefix fits low high = search_prefix fits low (mid - 1)"
        using True unfit by (simp add: search_prefix.simps [of fits low high] mid_def)
      have out: "\<not> fits n" if "mid \<le> n" for n using "1.prems"(2) that unfit by blast
      have le: "low \<le> mid - 1" using mid(1) by simp
      note ih = "1.IH"(2) [OF True mid_def unfit le "1.prems"(2,3)]
      have "fits n \<longleftrightarrow> n \<le> search_prefix fits low (mid - 1)" for n
      proof (cases "mid \<le> n")
        case True
        then show ?thesis using out [OF True] ih mid(1) by linarith
      next
        case False
        then have "n \<le> mid - 1" by simp
        then show ?thesis using ih by blast
      qed
      then show ?thesis using ih mid(2) rec by (metis diff_le_self le_trans)
    qed
  qed
qed

text \<open>The text of a document does not grow when a list in it is cut short.\<close>

lemma json_len_nonneg:
  "json_len fr v = Some n \<Longrightarrow> 0 \<le> n"
  "items_len fr vs = Some k \<Longrightarrow> int (length vs) \<le> k"
  "members_len fr m = Some l \<Longrightarrow> int (length m) \<le> l"
  by (induction fr v and fr vs and fr m arbitrary: n and k and l rule: json_len_items_len_members_len.induct)
    (auto split: option.splits if_splits, force+)

lemma items_len_take:
  "items_len fr vs = Some k \<Longrightarrow> \<exists>k' \<le> k. items_len fr (take n vs) = Some k'"
proof (induction vs arbitrary: k n)
  case (Cons v vs)
  then obtain a k1 where a: "json_len fr v = Some a" "items_len fr vs = Some k1" "k = a + 1 + k1"
    by (auto split: option.splits)
  note nonneg = json_len_nonneg(1) [OF a(1)] json_len_nonneg(2) [OF a(2)]
  show ?case
  proof (cases n)
    case (Suc m)
    then show ?thesis using Cons.IH [OF a(2), of m] a by auto
  qed (use nonneg a(3) in auto)
qed simp

lemma list_len_take:
  assumes "json_len fr (PList vs) = Some k"
  shows "\<exists>k' \<le> k. json_len fr (PList (take n vs)) = Some k'"
proof -
  obtain a where a: "items_len fr vs = Some a" "k = (if vs = [] then 2 else a + 1)"
    using assms by auto
  obtain a' where a': "a' \<le> a" "items_len fr (take n vs) = Some a'" using items_len_take [OF a(1)] by blast
  have "vs \<noteq> [] \<Longrightarrow> 1 \<le> a" using json_len_nonneg(2) [OF a(1)] by (cases vs) auto
  then show ?thesis using a a' by auto
qed

lemma members_len_update:
  assumes "members_len fr (map (\<lambda>(k, v). (PStr k, v)) (AList.update f v fp)) = Some l"
    and "\<And>a. json_len fr v = Some a \<Longrightarrow> \<exists>a' \<le> a. json_len fr v' = Some a'"
  shows "\<exists>l' \<le> l. members_len fr (map (\<lambda>(k, v). (PStr k, v)) (AList.update f v' fp)) = Some l'"
  using assms(1)
proof (induction fp arbitrary: l)
  case Nil
  then show ?case using assms(2) by (fastforce simp: json_key_def split: option.splits)
next
  case (Cons p fp)
  obtain k u where p: "p = (k, u)" by (cases p)
  show ?case
  proof (cases "k = f")
    case True
    then show ?thesis using Cons.prems p assms(2) by (fastforce simp: json_key_def split: option.splits)
  next
    case False
    then obtain n l1 where "json_len fr u = Some n"
      "members_len fr (map (\<lambda>(k, v). (PStr k, v)) (AList.update f v fp)) = Some l1"
      "l = int (utf8_len (json_string k)) + 2 + n + l1"
      using Cons.prems p by (auto simp: json_key_def split: option.splits)
    then show ?thesis using Cons.IH [of l1] False p by (auto simp: json_key_def)
  qed
qed

lemma json_size_iff: "json_size fr v = Inr n \<longleftrightarrow> json_len fr v = Some (int n)"
  using json_len_nonneg(1) [of fr v] by (auto simp: json_size_def json_len_dumps split: option.splits)

lemma fits_prefix:
  assumes "fits_output_budget env fp field items" 
  shows "fits_output_budget env fp field (take n items)"
proof -
  obtain size where size: "json_size (env_float env) (pdict (AList.update field (PList items) fp)) = Inr size"
    "size \<le> MAX_OUTPUT_BYTES" "length items \<le> MAX_OUTPUT_ITEMS"
    using assms by (auto simp: fits_output_budget_def split: sum.splits)
  have ne: "AList.update field v fp \<noteq> []" for v :: pyval by (cases fp) auto
  obtain l where l: "members_len (env_float env) (map (\<lambda>(k, v). (PStr k, v)) (AList.update field (PList items) fp)) = Some l"
    "l + 1 = int size"
    using size(1) ne by (auto simp: json_size_iff pdict_def split: if_splits)
  from members_len_update [OF l(1) list_len_take] obtain l' where "l' \<le> l"
    "members_len (env_float env) (map (\<lambda>(k, v). (PStr k, v)) (AList.update field (PList (take n items)) fp)) = Some l'"
    by blast
  moreover from this(2) have "0 \<le> l'" using json_len_nonneg(3) by fastforce
  ultimately have "json_size (env_float env) (pdict (AList.update field (PList (take n items)) fp)) = Inr (nat (l' + 1))"
    "nat (l' + 1) \<le> size"
    using l(2) ne by (auto simp: json_size_iff pdict_def)
  then show ?thesis using size by (simp add: fits_output_budget_def)
qed

lemma fits_shorter:
  assumes "m \<le> n" and "fits_output_budget env fp field (take n items)"
  shows "fits_output_budget env fp field (take m items)"
  using fits_prefix [OF assms(2), of m] assms(1) by (simp add: min_def)

lemma bounded_items_spec:
  assumes "fits_output_budget env fp field []"
  obtains n where "bounded_items env fp field items max_items = take n items" "n \<le> length items"
    "n \<le> nat max_items" "n \<le> MAX_OUTPUT_ITEMS" "fits_output_budget env fp field (take n items)"
    "\<And>m. m \<le> length items \<Longrightarrow> m \<le> nat max_items \<Longrightarrow> fits_output_budget env fp field (take m items) \<Longrightarrow> m \<le> n"
proof -
  let ?fits = "\<lambda>n. fits_output_budget env fp field (take n items)"
  let ?high = "min (length items) (min (nat max_items) MAX_OUTPUT_ITEMS)"
  define n where "n = search_prefix ?fits 0 ?high"
  have "\<forall>m n. m \<le> n \<longrightarrow> ?fits n \<longrightarrow> ?fits m" using fits_shorter by blast
  from search_prefix_spec [of 0 ?high ?fits, OF _ this] assms
  have spec: "n \<le> ?high" "\<And>m. m \<le> ?high \<Longrightarrow> ?fits m \<longleftrightarrow> m \<le> n" by (simp_all add: n_def)
  have "m \<le> n" if "m \<le> length items" "m \<le> nat max_items" "?fits m" for m
  proof -
    have "length (take m items) \<le> MAX_OUTPUT_ITEMS" using that(3) by (simp add: fits_output_budget_def)
    then have "m \<le> ?high" using that(1,2) by simp
    then show ?thesis using spec(2) that(3) by blast
  qed
  moreover have "bounded_items env fp field items max_items = take n items"
    by (simp add: bounded_items_def n_def)
  moreover have "?fits n" using spec by blast
  ultimately show ?thesis using that spec(1) by auto
qed

section \<open>The output of an operation\<close>

lemma bindA_Inr: "bindA m f s = (Inr y, s') \<longleftrightarrow> (\<exists>x s1. m s = (Inr x, s1) \<and> f x s1 = (Inr y, s'))"
  by (auto simp: bindA_def split: prod.splits sum.splits)

lemma pureA_Inr [simp]: "pureA x s = (r, s') \<longleftrightarrow> r = Inr x \<and> s' = s"
  by (auto simp: pureA_def)

lemma raiseA_eq [simp]: "raiseA e s = (r, s') \<longleftrightarrow> r = Inl e \<and> s' = s"
  by (auto simp: raiseA_def)

lemma liftA_eq [simp]: "liftA m s = (r, s') \<longleftrightarrow> r = m \<and> s' = s"
  by (auto simp: liftA_def)

lemma catch_raise_Inr: "catchA m (\<lambda>e. raiseA (h e)) s = (Inr y, s') \<longleftrightarrow> m s = (Inr y, s')"
  by (auto simp: catchA_def split: prod.splits sum.splits)

text \<open>Items within the budget of a result, and short enough.\<close>

definition items_fit :: "py_env \<Rightarrow> (string \<times> pyval) list \<Rightarrow> string \<Rightarrow> pagination \<Rightarrow> pyval list \<Rightarrow> bool" where
  "items_fit env fp field pg items \<longleftrightarrow> fits_output_budget env fp field items \<and> length items \<le> item_limit pg"

lemma bounded_items_fit:
  assumes "fits_output_budget env fp field []"
  shows "items_fit env fp field pg (bounded_items env fp field items (pg_max_items pg))"
  using assms
proof (rule bounded_items_spec [where items = items and ?max_items = "pg_max_items pg"])
  fix n assume "bounded_items env fp field items (pg_max_items pg) = take n items"
    "fits_output_budget env fp field (take n items)" "n \<le> nat (pg_max_items pg)" "n \<le> MAX_OUTPUT_ITEMS"
  then show ?thesis by (auto simp: items_fit_def item_limit_def)
qed

lemma listed_Some [simp]: "listed selected field = Some vs \<longleftrightarrow> map_of selected field = Some (PList vs)"
  by (auto simp: listed_def split: option.splits pyval.splits)

lemma more_pages_Cons:
  assumes "more_pages w timeout scheme cx p pg rq declared fp (page # pages) document collected s = (Inr items, s')"
  obtains (stop) "items = collected"
  | (cut) combined where "items = bounded_items (wd_env w) fp (pagination_items_field p) combined (pg_max_items pg)"
  | (more) document' combined s1 where
      "more_pages w timeout scheme cx p pg rq declared fp pages document'
         (bounded_items (wd_env w) fp (pagination_items_field p) combined (pg_max_items pg)) s1 = (Inr items, s')"
  using assms by (auto simp: bindA_Inr Let_def split: if_splits option.splits)

lemma more_pages_fit:
  assumes "more_pages w timeout scheme cx p pg rq declared fp pages document collected s = (Inr items, s')"
    and "items_fit (wd_env w) fp (pagination_items_field p) pg collected"
    and "fits_output_budget (wd_env w) fp (pagination_items_field p) []"
  shows "items_fit (wd_env w) fp (pagination_items_field p) pg items"
  using assms(1,2)
proof (induction pages arbitrary: document collected s)
  case (Cons page pages)
  from Cons.prems(1) show ?case
  proof (cases rule: more_pages_Cons)
    case (more document' combined s1)
    then show ?thesis using Cons.IH bounded_items_fit [OF assms(3)] by blast
  qed (use Cons.prems(2) bounded_items_fit [OF assms(3)] in simp_all)
qed simp

lemma paged_result_fit:
  assumes "paged_result w timeout scheme cx p pg rq declared fp document first_items s = (Inr data, s')"
  shows "\<exists>items. data = AList.update (pagination_items_field p) (PList items) fp \<and>
    items_fit (wd_env w) fp (pagination_items_field p) pg items"
proof -
  have none: "fits_output_budget (wd_env w) fp (pagination_items_field p) []"
    using assms by (auto simp: paged_result_def Let_def split: if_splits)
  have cut: "items_fit (wd_env w) fp (pagination_items_field p) pg (take n items)"
    if "items_fit (wd_env w) fp (pagination_items_field p) pg items" for n items
    using that fits_prefix by (auto simp: items_fit_def)
  show ?thesis
    using assms none bounded_items_fit [OF none] more_pages_fit [OF _ bounded_items_fit [OF none] none] cut
    by (auto simp: paged_result_def Let_def bindA_Inr split: if_splits)
qed

lemma fits_size:
  "fits_output_budget env fp field items \<Longrightarrow>
    \<exists>n \<le> MAX_OUTPUT_BYTES. json_size (env_float env) (pdict (AList.update field (PList items) fp)) = Inr n"
  by (auto simp: fits_output_budget_def split: sum.splits)

lemma extracted_size:
  assumes "extract_safe_output env p document = Inr out"
  shows "\<exists>data n. out = pdict data \<and> json_size (env_float env) (pdict data) = Inr n \<and> n \<le> MAX_OUTPUT_BYTES"
  using assms by (auto simp: extract_safe_output_def not_less split: if_splits)

lemma text_entries [simp]: "map (\<lambda>(k, v). (case k of PStr s \<Rightarrow> s | _ \<Rightarrow> [], v)) (map (\<lambda>(k, v). (PStr k, v)) kvs) = kvs"
  by (induction kvs) auto

lemma single_page_size:
  assumes "safe_output env p document = Inr data" and "\<not> multi_page p"
  shows "\<exists>n \<le> MAX_OUTPUT_BYTES. json_size (env_float env) (pdict data) = Inr n"
proof -
  obtain out where out: "extract_safe_output env p document = Inr out"
    and data: "data = (case out of PMap m \<Rightarrow> map (\<lambda>(k, v). (case k of PStr s \<Rightarrow> s | _ \<Rightarrow> [], v)) m | _ \<Rightarrow> [])"
    using assms by (auto simp: safe_output_def split: sum.splits)
  obtain kvs n where "out = pdict kvs" "json_size (env_float env) (pdict kvs) = Inr n" "n \<le> MAX_OUTPUT_BYTES"
    using extracted_size [OF out] by blast
  moreover from this(1) have "data = kvs" unfolding data pdict_def by (simp del: map_map)
  ultimately show ?thesis by blast
qed

text \<open>C30: What an operation returns takes at most 65536 bytes of JSON, and the items of one that may fetch several
  pages are at most the declared limit and 1000, provided that what its items pointer selects is a list: otherwise
  the first page is returned without that budget.\<close>

theorem operation_output_bounded:
  assumes "execute_operation w timeout scheme cx p args s = (Inr data, s')"
    and "multi_page p \<Longrightarrow> \<exists>vs. map_of data (pagination_items_field p) = Some (PList vs)"
  shows "(\<exists>n \<le> MAX_OUTPUT_BYTES. json_size (env_float (wd_env w)) (pdict data) = Inr n) \<and>
    (\<forall>vs. multi_page p \<longrightarrow> map_of data (pagination_items_field p) = Some (PList vs) \<longrightarrow>
       (\<exists>pg. op_pagination p = Some pg \<and> length vs \<le> nat (pg_max_items pg)) \<and> length vs \<le> MAX_OUTPUT_ITEMS)"
proof -
  have run: "execute_pages w timeout scheme cx p args s = (Inr data, s')"
    using assms(1) by (simp add: execute_operation_def catch_raise_Inr)
  show ?thesis
  proof (cases "multi_page p")
    case False
    then have "\<exists>document. safe_output (wd_env w) p document = Inr data"
      using run by (auto simp: execute_pages_def bindA_Inr multi_page_def split: option.splits if_splits)
    then show ?thesis using single_page_size False by blast
  next
    case True
    then obtain pg where pg: "op_pagination p = Some pg" "pg_max_pages pg > 1"
      by (auto simp: multi_page_def split: option.splits)
    obtain vs where vs: "map_of data (pagination_items_field p) = Some (PList vs)"
      using assms(2) [OF True] by blast
    obtain rq declared fp document first_items s1 where
      "paged_result w timeout scheme cx p pg rq declared fp document first_items s1 = (Inr data, s')"
      using run pg vs by (auto simp: execute_pages_def bindA_Inr split: option.splits)
    from paged_result_fit [OF this] obtain items where
      data: "data = AList.update (pagination_items_field p) (PList items) fp"
      and fit: "items_fit (wd_env w) fp (pagination_items_field p) pg items" by blast
    then show ?thesis using fits_size pg
      by (auto simp: items_fit_def item_limit_def)
  qed
qed

lemma operation_output_bounded_witness:
  "\<exists>n \<le> MAX_OUTPUT_BYTES. json_size (env_float demo_env)
     (pdict [(''items'', PList [PInt 0, PInt 1, PInt 2])]) = Inr n"
proof -
  obtain s' where "execute_operation paged_world 10000 None demo_context demo_list [] demo_session
      = (Inr [(''items'', PList [PInt 0, PInt 1, PInt 2])], s')"
    using observed_run [OF demo_pages] by blast
  from operation_output_bounded [OF this] show ?thesis
    by (simp add: pagination_items_field_def demo_list_def paged_world_def world_with_def)
qed

text \<open>The items kept for a result are the largest prefix of what was collected that stays within the declared
  item limit, 1000 items and 65536 bytes together with the rest of the page.\<close>

theorem bounded_items_largest:
  assumes "fits_output_budget env first_page field []"
  shows "\<exists>n \<le> length items. bounded_items env first_page field items max_items = take n items \<and>
    n \<le> nat max_items \<and> fits_output_budget env first_page field (take n items) \<and>
    (\<forall>m. m \<le> length items \<and> m \<le> nat max_items \<and> fits_output_budget env first_page field (take m items) \<longrightarrow> m \<le> n)"
  using assms
proof (rule bounded_items_spec [where items = items and ?max_items = max_items])
  fix n
  assume "bounded_items env first_page field items max_items = take n items" "n \<le> length items" "n \<le> nat max_items"
    "fits_output_budget env first_page field (take n items)"
    "\<And>m. m \<le> length items \<Longrightarrow> m \<le> nat max_items \<Longrightarrow> fits_output_budget env first_page field (take m items) \<Longrightarrow> m \<le> n"
  then show ?thesis by blast
qed

lemma bounded_items_largest_witness:
  "\<exists>n \<le> 3. bounded_items demo_env [(''rest'', PNone)] ''items'' [PInt 1, PInt 2, PInt 3] 2 = take n [PInt 1, PInt 2, PInt 3] \<and>
    n \<le> 2"
proof -
  have "fits_output_budget demo_env [(''rest'', PNone)] ''items'' []" by code_simp
  from bounded_items_largest [OF this, of "[PInt 1, PInt 2, PInt 3]" 2]
  obtain n where "bounded_items demo_env [(''rest'', PNone)] ''items'' [PInt 1, PInt 2, PInt 3] 2 = take n [PInt 1, PInt 2, PInt 3]"
    "n \<le> 2" by auto
  then show ?thesis by (intro exI [of _ n]) simp
qed

end
