(* ===== verification/DeclRun.thy ===== *)
theory DeclRun
  imports DeclOutput
begin

text \<open>
  What a run of a tool does to its session.  The locale \<open>session_relation\<close> carries a relation between the
  session before and after from one client call to whole operations; its interpretations say that an operation
  writes no audit event (\<open>audits\<close>) and that every request goes to a target the guard approved
  (\<open>targets\<close>).
\<close>

section \<open>What an action does to the session\<close>

locale session_relation =
  fixes w :: "'d world" and R :: "session \<Rightarrow> session \<Rightarrow> bool"
  assumes R_refl: "R s s"
    and R_trans: "R s s' \<Longrightarrow> R s' s'' \<Longrightarrow> R s s''"
    and R_tokens: "R s (s\<lparr>ss_tokens := c\<rparr>)"
    and R_call: "client_call w timeout verb url headers json_body page_count form_body allow s = (r, s') \<Longrightarrow> R s s'"
begin

definition confined :: "(session, 'a) action \<Rightarrow> bool" where
  "confined m \<longleftrightarrow> (\<forall>s r s'. m s = (r, s') \<longrightarrow> R s s')"

lemma confinedD: "confined m \<Longrightarrow> m s = (r, s') \<Longrightarrow> R s s'"
  by (simp add: confined_def)

lemma confined_pure: "confined (pureA x)" "confined (raiseA e)" "confined (liftA q)"
  by (simp_all add: confined_def R_refl pureA_def raiseA_def liftA_def)

lemma confined_bind: "confined m \<Longrightarrow> (\<And>x. confined (f x)) \<Longrightarrow> confined (bindA m f)"
  unfolding confined_def bindA_def using R_trans by (auto split: prod.splits sum.splits) blast+

lemma confined_catch: "confined m \<Longrightarrow> (\<And>e. confined (h e)) \<Longrightarrow> confined (catchA m h)"
  unfolding confined_def catchA_def using R_trans by (auto split: prod.splits sum.splits) blast+

lemma confined_if: "confined m \<Longrightarrow> confined n \<Longrightarrow> confined (if b then m else n)"
  by simp

lemma confined_call: "confined (client_call w timeout verb url headers json_body page_count form_body allow)"
  by (auto simp: confined_def intro: R_call)

lemma confined_discard: "confined (discard_token key)"
  by (auto simp: confined_def discard_token_def R_tokens)

lemma confined_exchange: "confined (exchange_oauth_token w timeout a cid secret)"
  unfolding exchange_oauth_token_def by (intro confined_bind confined_if confined_call confined_pure)

lemma confined_get_or_exchange: "confined exchange \<Longrightarrow> confined (get_or_exchange w key exchange)"
  unfolding confined_def get_or_exchange_def
proof (intro allI impI)
  fix s r s'
  assume ex: "\<forall>s r s'. exchange s = (r, s') \<longrightarrow> R s s'"
    and run: "(case exchange_begin (wd_time w (ss_calls s)) (ss_tokens s) key of
        (TDone r, c) \<Rightarrow> (r, s\<lparr>ss_tokens := c\<rparr>)
      | (TWaiting k f, c) \<Rightarrow> (wd_shared w (ss_calls s), s\<lparr>ss_tokens := c\<rparr>)
      | (Exchanging k f generation, c) \<Rightarrow>
          (case exchange (s\<lparr>ss_tokens := c\<rparr>) of
             (outcome, s') \<Rightarrow>
               (case exchange_finish (wd_time w (ss_calls s')) (ss_tokens s') k f generation outcome of
                  (r, c') \<Rightarrow> (r, s'\<lparr>ss_tokens := c'\<rparr>)))) = (r, s')"
  show "R s s'"
    using run ex R_tokens R_trans by (auto split: prod.splits ttask.splits) metis+
qed

lemma confined_auth_headers: "confined (auth_headers w timeout scheme cx)"
  unfolding auth_headers_def
  by (cases scheme) (auto intro!: confined_bind confined_pure confined_get_or_exchange confined_exchange split: prod.splits)

lemma confined_attempt: "confined (attempt w timeout scheme cx rq declared page_count)"
  unfolding attempt_def by (intro confined_bind confined_auth_headers confined_call)

lemma confined_send: "confined (send_authorized w timeout scheme cx rq declared page_count)"
  unfolding send_authorized_def
  by (auto intro!: confined_bind confined_attempt confined_pure confined_discard split: option.splits)

lemma confined_fetch: "confined (fetch_page w timeout scheme cx rq declared page_count)"
  unfolding fetch_page_def by (auto intro!: confined_bind confined_send confined_pure split: option.splits)

lemma confined_more: "confined (more_pages w timeout scheme cx p pg rq declared fp pages document collected)"
proof (induction pages arbitrary: document collected)
  case (Cons page pages)
  then show ?case
    by (auto intro!: confined_bind confined_fetch confined_pure simp: Let_def split: option.splits)
qed (simp add: confined_pure)

lemma confined_pages: "confined (execute_pages w timeout scheme cx p args)"
  unfolding execute_pages_def paged_result_def Let_def
  by (auto intro!: confined_bind confined_fetch confined_pure confined_more split: option.splits)

lemma confined_operation: "confined (execute_operation w timeout scheme cx p args)"
  unfolding execute_operation_def by (intro confined_catch confined_pages confined_pure)

end

section \<open>Interpretations\<close>

text \<open>The audit events are left alone.\<close>

interpretation audits: session_relation w "\<lambda>s s'. ss_audits s' = ss_audits s" for w
  by unfold_locales (auto simp: client_call_def split: prod.splits)

text \<open>The client keeps its limits and its policy, and each URL it sends was freshly checked.\<close>

definition sent_ok :: "'d world \<Rightarrow> guard \<Rightarrow> sent \<Rightarrow> bool" where
  "sent_ok w g x \<longleftrightarrow> (\<exists>call hop.
     fresh_approval (env_idna (wd_env w)) (nw_resolve (wd_network w call) hop) g (sn_url x) (sn_target x))"

definition session_ok :: "'d world \<Rightarrow> guard \<Rightarrow> session \<Rightarrow> bool" where
  "session_ok w g s \<longleftrightarrow>
     client_ok (ss_client s) \<and> same_policy g (cl_guard (ss_client s)) \<and> list_all (sent_ok w g) (ss_sent s)"

lemma hops_ok_mem:
  "hops_ok env nw cl g ob hp k url xs \<Longrightarrow> x \<in> set xs
     \<Longrightarrow> \<exists>hop. fresh_approval (env_idna env) (nw_resolve nw hop) g (sn_url x) (sn_target x)"
  by (induction xs arbitrary: k url) fastforce+

lemma http_send_session:
  assumes "http_send env nw cl m url hs jb pc fb ar = (outcome, cl', sents)" and "client_ok cl"
    and "same_policy g (cl_guard cl)"
  shows "client_ok cl' \<and> same_policy g (cl_guard cl') \<and>
    (\<forall>x \<in> set sents. \<exists>hop. fresh_approval (env_idna env) (nw_resolve nw hop) g (sn_url x) (sn_target x))"
  using assms(1)
proof (cases rule: http_send_run)
  case (refused e)
  then show ?thesis using assms by simp
next
  case (sent ob gd)
  have c: "guard_inv (cl_guard cl)" "int 0 \<le> cl_max_redirects cl" using assms(2) by (simp_all add: client_ok_def)
  note loop = request_loop_ok [OF sent(3) c]
  then obtain hp where "hops_ok env nw cl (cl_guard cl) ob hp 0 url sents" by blast
  then have "\<forall>x \<in> set sents. \<exists>hop. fresh_approval (env_idna env) (nw_resolve nw hop) g (sn_url x) (sn_target x)"
    using hops_ok_mem hops_same_policy [OF assms(3)] by metis
  then show ?thesis using loop assms(2,3) same_policy_trans sent(2) by (auto simp: client_ok_def)
qed

lemma client_call_session:
  assumes "client_call w timeout verb url headers json_body page_count form_body allow s = (r, s')"
    and "session_ok w g s"
  shows "session_ok w g s'"
proof -
  obtain outcome cl' sents where run: "http_send (wd_env w) (wd_network w (ss_calls s)) (ss_client s) (PStr verb)
      (PStr url) (pdict (map (\<lambda>(k, v). (k, PStr v)) headers)) json_body (PInt page_count) form_body (PBool allow) = (outcome, cl', sents)" by (metis prod_cases3)
  have "client_ok cl' \<and> same_policy g (cl_guard cl') \<and> list_all (sent_ok w g) sents"
    using http_send_session [OF run, of g] assms(2) unfolding session_ok_def sent_ok_def list_all_iff by blast
  then show ?thesis using assms run by (auto simp: client_call_def session_ok_def split: prod.splits)
qed

interpretation targets: session_relation w "\<lambda>s s'. session_ok w g s \<longrightarrow> session_ok w g s'" for w g
proof unfold_locales
  show "session_ok w g s \<longrightarrow> session_ok w g s'"
    if "client_call w timeout verb url headers json_body page_count form_body allow s = (r, s')"
    for timeout verb url headers json_body page_count form_body allow s r s'
    using client_call_session [OF that] by blast
qed (simp_all add: session_ok_def)

section \<open>Whole tools\<close>

lemma emit_audit_state: "emit_step_audit w has_sink cx tkey a status code s = (r, s') \<Longrightarrow> \<exists>es. s' = s\<lparr>ss_audits := ss_audits s @ es\<rparr>"
proof -
  have same: "\<exists>es. s = s\<lparr>ss_audits := ss_audits s @ es\<rparr>" by (rule exI [of _ "[]"]) simp
  assume "emit_step_audit w has_sink cx tkey a status code s = (r, s')"
  then show ?thesis using same by (auto simp: emit_step_audit_def split: if_splits sum.splits)
qed

lemma session_ok_audits [simp]: "session_ok w g (s\<lparr>ss_audits := es\<rparr>) = session_ok w g s"
  by (simp add: session_ok_def)

lemma emit_audit_ok: "emit_step_audit w has_sink cx tkey a status code s = (r, s') \<Longrightarrow> session_ok w g s' = session_ok w g s"
  by (auto dest: emit_audit_state)

lemma operation_targets:
  "execute_operation w timeout scheme cx p args s = (r, s') \<Longrightarrow> session_ok w g s \<Longrightarrow> session_ok w g s'"
  using targets.confinedD [OF targets.confined_operation] by blast

lemma run_steps_Cons:
  assumes "run_steps w has_sink rv cx tkey args (step # steps) outputs active s = (res, active', s')"
  obtains (unknown) e where "operation_for rv (st_operation step) = Inl e" "res = Inl e" "active' = active" "s' = s"
  | (arguments) p where "operation_for rv (st_operation step) = Inr p" "res = Inl (step_failure ''mapping_error'')"
      "active' = Some (started_step w p step s)" "s' = s" "\<forall>sa. step_arguments args outputs step \<noteq> Inr sa"
  | (operation) p sa e where "operation_for rv (st_operation step) = Inr p" "step_arguments args outputs step = Inr sa"
      "execute_operation w (step_timeout_ms p step) (rv_auth rv) cx p sa s = (Inl e, s')" "res = Inl e"
      "active' = Some (started_step w p step s)"
  | (outcome) p sa data where "operation_for rv (st_operation step) = Inr p" "step_arguments args outputs step = Inr sa"
      "execute_operation w (step_timeout_ms p step) (rv_auth rv) cx p sa s = (Inr data, s')"
      "res = Inl (step_failure ''mapping_error'')" "active' = Some (started_step w p step s)"
      "\<forall>out. step_result step data \<noteq> Inr out"
  | (audit) p sa data s1 e where "operation_for rv (st_operation step) = Inr p" "step_arguments args outputs step = Inr sa"
      "execute_operation w (step_timeout_ms p step) (rv_auth rv) cx p sa s = (Inr data, s1)"
      "emit_step_audit w has_sink cx tkey (started_step w p step s) ''ok'' '''' s1 = (Inl e, s')" "res = Inl e"
      "active' = Some (started_step w p step s\<lparr>ac_audited := True\<rparr>)"
  | (more) p sa data s1 out s2 where "operation_for rv (st_operation step) = Inr p"
      "step_arguments args outputs step = Inr sa"
      "execute_operation w (step_timeout_ms p step) (rv_auth rv) cx p sa s = (Inr data, s1)"
      "step_result step data = Inr out"
      "emit_step_audit w has_sink cx tkey (started_step w p step s) ''ok'' '''' s1 = (Inr (), s2)"
      "run_steps w has_sink rv cx tkey args steps (AList.update (st_id step) out outputs)
         (Some (started_step w p step s\<lparr>ac_audited := True\<rparr>)) s2 = (res, active', s')"
proof (cases "operation_for rv (st_operation step)")
  case (Inl e)
  then show ?thesis using assms unknown by (simp add: run_steps.simps)
next
  case op: (Inr p)
  note run = assms [unfolded run_steps.simps op sum.case Let_def]
  show ?thesis
  proof (cases "step_arguments args outputs step")
    case (Inl e)
    show ?thesis by (rule arguments [OF op]) (use run in \<open>auto simp: Inl\<close>)
  next
    case sa: (Inr sa)
    obtain er s1 where ex: "execute_operation w (step_timeout_ms p step) (rv_auth rv) cx p sa s = (er, s1)"
      by (rule prod.exhaust)
    note run = run [unfolded sa ex sum.case prod.case]
    show ?thesis
    proof (cases er)
      case (Inl e)
      show ?thesis by (rule operation [OF op sa]) (use run ex in \<open>auto simp: Inl\<close>)
    next
      case er: (Inr data)
      note run = run [unfolded er sum.case]
      show ?thesis
      proof (cases "step_result step data")
        case (Inl e)
        show ?thesis by (rule outcome [OF op sa]) (use run ex in \<open>auto simp: er Inl\<close>)
      next
        case out: (Inr out)
        obtain ar s2 where em: "emit_step_audit w has_sink cx tkey (started_step w p step s) ''ok'' '''' s1 = (ar, s2)"
          by (rule prod.exhaust)
        note run = run [unfolded out em sum.case prod.case]
        show ?thesis
        proof (cases ar)
          case (Inl e)
          show ?thesis by (rule audit [OF op sa]) (use run ex em in \<open>auto simp: er Inl\<close>)
        next
          case (Inr u)
          show ?thesis by (rule more [OF op sa]) (use run ex em out in \<open>auto simp: er Inr\<close>)
        qed
      qed
    qed
  qed
qed

lemma run_steps_targets:
  "run_steps w has_sink rv cx tkey args steps outputs active s = (r, active', s') \<Longrightarrow> session_ok w g s \<Longrightarrow> session_ok w g s'"
proof (induction steps arbitrary: outputs active s)
  case (Cons step steps)
  from Cons.prems(1) show ?case
  proof (cases rule: run_steps_Cons)
    case (more p sa data s1 out s2)
    have "session_ok w g s1" by (rule operation_targets [OF more(3) Cons.prems(2)])
    then have "session_ok w g s2" using emit_audit_ok [OF more(5)] by blast
    then show ?thesis by (rule Cons.IH [OF more(6)])
  next
    case (audit p sa data s1 e)
    have "session_ok w g s1" by (rule operation_targets [OF audit(3) Cons.prems(2)])
    then show ?thesis using emit_audit_ok [OF audit(4)] by blast
  next
    case (operation p sa e)
    show ?thesis by (rule operation_targets [OF operation(3) Cons.prems(2)])
  next
    case (outcome p sa data)
    show ?thesis by (rule operation_targets [OF outcome(3) Cons.prems(2)])
  qed (use Cons.prems(2) in simp_all)
qed simp

lemma failed_tool_targets: "failed_tool w has_sink cx tkey active e s = (r, s') \<Longrightarrow> session_ok w g s' = session_ok w g s"
  by (auto simp: failed_tool_def audit_then_def bindA_def pureA_def liftA_def
      split: if_splits option.splits prod.splits sum.splits dest: emit_audit_ok)

lemma run_tool_targets: "run_tool w has_sink rv cx tool args s = (r, s') \<Longrightarrow> session_ok w g s \<Longrightarrow> session_ok w g s'"
  by (auto simp: run_tool_def split: prod.splits sum.splits dest: run_steps_targets failed_tool_targets)

lemma execute_targets: "execute_declared w has_sink rows rv cx tkey args s = (r, s') \<Longrightarrow> session_ok w g s \<Longrightarrow> session_ok w g s'"
  by (auto simp: execute_declared_def bindA_def liftA_def pureA_def
      split: pyval.splits sum.splits option.splits dest: run_tool_targets)

section \<open>Where a tool sends requests\<close>

lemma fresh_session_ok: "client_ok (ss_client s) \<Longrightarrow> ss_sent s = [] \<Longrightarrow> session_ok w (cl_guard (ss_client s)) s"
  by (simp add: session_ok_def)

lemma connector_policy:
  assumes "make_connector env rv cl allow = Inr dc"
  shows "dc_client dc = cl" "\<not> g_allow_ip (cl_guard cl)" "set (g_ports (cl_guard cl)) = {443}"
    "host \<in> set (g_hosts (cl_guard cl)) \<Longrightarrow>
       \<exists>h \<in> set (rv_allowed_hosts (dc_revision dc)). normalize_host (env_idna env) (PStr h) = Inr host"
proof -
  have m: "exactly_matches_hosts (env_idna env) (cl_guard cl) (PTuple (map PStr (rv_allowed_hosts (dc_revision dc))))"
    and c: "dc_client dc = cl"
    using assms by (auto simp: make_connector_def split: if_splits)
  then obtain expected where
    e: "mapR (normalize_host (env_idna env)) (map PStr (rv_allowed_hosts (dc_revision dc))) = Inr expected"
    and rest: "set expected = set (g_hosts (cl_guard cl))" "\<not> g_allow_ip (cl_guard cl)" "set (g_ports (cl_guard cl)) = {443}"
    by (auto simp: exactly_matches_hosts_def iterated_def split: sum.splits)
  show "dc_client dc = cl" "\<not> g_allow_ip (cl_guard cl)" "set (g_ports (cl_guard cl)) = {443}" by (fact c rest)+
  assume "host \<in> set (g_hosts (cl_guard cl))"
  then have "host \<in> set expected" using rest(1) by simp
  then show "\<exists>h \<in> set (rv_allowed_hosts (dc_revision dc)). normalize_host (env_idna env) (PStr h) = Inr host"
    using mapR_mem [OF e] by auto
qed

text \<open>C24: Whatever the upstream answers, every URL a declared tool sends, redirects and token exchanges included, is
  an https URL without user information that names port 443 of a host the revision allows, and was checked with
  a resolver's answer for that host: addresses that are all public or site-local.\<close>

theorem tool_requests_confined:
  assumes "make_connector (wd_env w) rv cl allow_test_transport = Inr dc" and "client_ok cl"
    and "ss_client s = dc_client dc" and "ss_sent s = []"
    and "execute_declared w has_sink rows (dc_revision dc) cx tkey args s = (r, s')" and "x \<in> set (ss_sent s')"
  shows "\<exists>host. (\<exists>h \<in> set (rv_allowed_hosts (dc_revision dc)). normalize_host (env_idna (wd_env w)) (PStr h) = Inr host) \<and>
    url_names (env_idna (wd_env w)) (sn_url x) host 443 \<and>
    sn_target x = \<lparr>tg_host = host, tg_port = 443, tg_addresses = tg_addresses (sn_target x)\<rparr> \<and>
    tg_addresses (sn_target x) \<noteq> [] \<and> list_all outbound_address (tg_addresses (sn_target x)) \<and>
    (\<exists>call hop. resolve_addresses (nw_resolve (wd_network w call) hop) host 443 = Inr (tg_addresses (sn_target x)))"
proof -
  note policy = connector_policy [OF assms(1)]
  have "session_ok w (cl_guard cl) s" using fresh_session_ok assms(2,3,4) policy(1) by metis
  then have "session_ok w (cl_guard cl) s'" by (rule execute_targets [OF assms(5)])
  then have "sent_ok w (cl_guard cl) x" using assms(6) by (simp add: session_ok_def list_all_iff)
  then obtain call hop where ok: "fresh_approval (env_idna (wd_env w)) (nw_resolve (wd_network w call) hop)
      (cl_guard cl) (sn_url x) (sn_target x)" by (auto simp: sent_ok_def)
  have "tg_port (sn_target x) = 443" using ok policy(3) by (auto simp: fresh_approval_def)
  then show ?thesis using ok policy(2,4)
    by (intro exI [of _ "tg_host (sn_target x)"]) (auto simp: fresh_approval_def split: option.splits)
qed

lemma tool_requests_confined_witness:
  "url_names (env_idna (wd_env demo_world)) ''https://api.example.com/v1/items/a%20b'' ''api.example.com'' 443"
proof -
  obtain s' where run: "execute_declared demo_world True no_rows (dc_revision demo_connector) demo_context ''copy_item''
      demo_args demo_session = (Inr (exec_done [(''done'', PBool True)]), s')"
    and sent: "ss_sent s' = [sent_to ''GET'' ''https://api.example.com/v1/items/a%20b'' PNone,
      sent_to ''POST'' ''https://api.example.com/v1/items'' (pdict [(''id'', PInt 7)])]"
    using observed_run [OF demo_executes] by (auto simp: demo_connector_def)
  have made: "make_connector (wd_env demo_world) demo_revision demo_client False = Inr demo_connector"
    using demo_connector_made by (simp add: demo_world_def world_with_def)
  define x where "x = sent_to ''GET'' ''https://api.example.com/v1/items/a%20b'' PNone"
  have "x \<in> set (ss_sent s')" by (simp add: sent x_def)
  with run have "\<exists>host. url_names (env_idna (wd_env demo_world)) (sn_url x) host 443 \<and>
      sn_target x = \<lparr>tg_host = host, tg_port = 443, tg_addresses = tg_addresses (sn_target x)\<rparr>"
    using tool_requests_confined [OF made demo_client_ok, of demo_session] by (force simp: demo_session_def demo_connector_def)
  then show ?thesis by (auto simp: x_def sent_to_def)
qed

end
