(* ===== verification/DeclTool.thy ===== *)
theory DeclTool
  imports DeclRun DeclClaims
begin

text \<open>
  Whole tools of loaded revisions: what the constructor of a revision checks is enough for its steps to run.
  Every reference resolves and every output is there, so a step fails only by its operation; the audit trail
  follows the steps; and the caller sees the declared results or a fixed error.  The rules
  \<open>run_tool_cases\<close> and \<open>execute_cases\<close> carry the properties.
\<close>

section \<open>The operation of a step\<close>

lemma claim_names_Inr: "claim_names msg seen (k, m) = Inr seen' \<longleftrightarrow> k \<notin> set seen \<and> m \<notin> set seen \<and> seen' = seen @ remdups [k, m]"
  by (auto simp: claim_names_def)

lemma claimed_unambiguous:
  assumes "foldR (\<lambda>seen p. if PStr (op_base_url p) \<noteq> base_url
             then Inl (spec_error ''operation base URL does not match revision'')
             else claim_names ''duplicate operation identifier'' seen (op_key p, op_mcp p)) seen ops = Inr seen'"
    and "map_of (map (\<lambda>p. (op_key p, p)) ops) key = Some p"
  shows "find (\<lambda>q. key \<in> {op_key q, op_mcp q}) ops = Some p \<and> key \<notin> set seen"
  using assms
proof (induction ops arbitrary: seen)
  case (Cons q ops)
  from Cons.prems(1) obtain seen1 where one: "claim_names ''duplicate operation identifier'' seen (op_key q, op_mcp q) = Inr seen1"
    and rest: "foldR (\<lambda>seen p. if PStr (op_base_url p) \<noteq> base_url
             then Inl (spec_error ''operation base URL does not match revision'')
             else claim_names ''duplicate operation identifier'' seen (op_key p, op_mcp p)) seen1 ops = Inr seen'"
    by (auto split: if_splits)
  show ?case
  proof (cases "key = op_key q")
    case True
    then show ?thesis using Cons.prems(2) one by (simp add: claim_names_Inr)
  next
    case False
    then have "map_of (map (\<lambda>p. (op_key p, p)) ops) key = Some p" using Cons.prems(2) by simp
    from Cons.IH [OF rest this] have "find (\<lambda>q. key \<in> {op_key q, op_mcp q}) ops = Some p" "key \<notin> set seen1" by simp_all
    then show ?thesis using False one by (auto simp: claim_names_Inr split: if_splits)
  qed
qed simp

lemma revision_operation_found:
  assumes "revision_ok env rv" and "operation_of (rv_operations rv) key = Some p"
  shows "operation_for rv key = Inr p" and "op_key p = key"
proof -
  from assms(1) have "make_revision env (raw_of_revision rv) = Inr rv" by (simp add: revision_ok_def)
  then obtain seen' where "check_operations (PStr (rv_base_url rv)) (rv_operations rv) = Inr seen'"
    by (auto simp: make_revision_def raw_of_revision_def split: if_splits)
  then have "foldR (\<lambda>seen p. if PStr (op_base_url p) \<noteq> PStr (rv_base_url rv)
             then Inl (spec_error ''operation base URL does not match revision'')
             else claim_names ''duplicate operation identifier'' seen (op_key p, op_mcp p)) [] (rv_operations rv) = Inr seen'"
    unfolding check_operations_def by (simp split: if_splits)
  then have "find (\<lambda>q. key \<in> {op_key q, op_mcp q}) (rv_operations rv) = Some p"
    using assms(2) unfolding operation_of_def by (rule claimed_unambiguous [THEN conjunct1])
  then show "operation_for rv key = Inr p" by (simp add: operation_for_def)
  show "op_key p = key" using assms(2) by (auto simp: operation_of_def dest!: map_of_SomeD)
qed

lemma tool_for_mem: "tool_for rv name = Inr t \<Longrightarrow> t \<in> set (rv_tools rv) \<and> name \<in> {dt_key t, dt_mcp t}"
  by (auto simp: tool_for_def find_Some_iff split: option.splits)

section \<open>The output of an operation has the declared fields\<close>

lemma mapR_names: "mapR (\<lambda>x. bindR (f x) (\<lambda>v. Inr (name x, v))) xs = Inr ys \<Longrightarrow> map fst ys = map name xs"
  by (induction xs arbitrary: ys) auto

lemma bindR_assoc: "bindR (bindR m f) g = bindR m (\<lambda>x. bindR (f x) g)"
  by (cases m) auto

lemma safe_output_names:
  assumes "safe_output env p document = Inr data"
  shows "map fst data = map om_name (op_outputs p)"
proof (cases "multi_page p")
  case True
  then obtain ip where "mapR (page_selection ip document) (op_outputs p) = Inr data"
    using assms by (auto simp: safe_output_def split: sum.splits)
  then show ?thesis
    unfolding page_selection_def bindR_assoc [symmetric] by (rule mapR_names)
next
  case False
  then obtain out where out: "extract_safe_output env p document = Inr out"
    and data: "data = (case out of PMap m \<Rightarrow> map (\<lambda>(k, v). (case k of PStr s \<Rightarrow> s | _ \<Rightarrow> [], v)) m | _ \<Rightarrow> [])"
    using assms by (auto simp: safe_output_def split: sum.splits)
  obtain selected where sel: "mapR (\<lambda>o'. bindR (read_pointer document (om_pointer o')) (\<lambda>v.
         bindR (selected_copy 0 v) (\<lambda>w. Inr (om_name o', w)))) (op_outputs p) = Inr selected" and "out = pdict selected"
    using out by (auto simp: extract_safe_output_def split: if_splits)
  then have "data = selected" unfolding data pdict_def by (simp del: map_map)
  then show ?thesis using mapR_names [OF sel [folded bindR_assoc]] by simp
qed

lemma paged_names:
  assumes "paged_result w timeout scheme cx p pg rq declared fp document first_items s = (Inr data, s')"
  shows "set (map fst fp) \<subseteq> set (map fst data)"
proof -
  obtain items where "data = AList.update (pagination_items_field p) (PList items) fp"
    using paged_result_fit [OF assms] by blast
  then show ?thesis using dom_update [of "pagination_items_field p" "PList items" fp] by (metis Un_upper2 set_map)
qed

lemma operation_names:
  assumes "execute_operation w timeout scheme cx p args s = (Inr data, s')"
  shows "set (map om_name (op_outputs p)) \<subseteq> set (map fst data)"
proof -
  have run: "execute_pages w timeout scheme cx p args s = (Inr data, s')"
    using assms by (simp add: execute_operation_def catch_raise_Inr)
  obtain rq declared document fp s1 where fp: "Inr fp = safe_output (wd_env w) p document"
    and rest: "(case op_pagination p of
       None \<Rightarrow> pureA fp
     | Some pg \<Rightarrow>
         (if pg_max_pages pg \<le> 1 then pureA fp
          else case listed fp (pagination_items_field p) of
            Some first_items \<Rightarrow> paged_result w timeout scheme cx p pg rq declared fp document first_items
          | None \<Rightarrow> pureA fp)) s1 = (Inr data, s')"
    using run unfolding execute_pages_def bindA_Inr liftA_eq by blast
  have last: "data = fp \<or> (\<exists>pg first_items. paged_result w timeout scheme cx p pg rq declared fp document first_items s1 = (Inr data, s'))"
  proof (cases "op_pagination p")
    case (Some pg)
    then show ?thesis using rest
      by (cases "pg_max_pages pg \<le> 1"; cases "listed fp (pagination_items_field p)") auto
  qed (use rest in simp)
  from last show ?thesis
  proof
    assume "data = fp"
    then show ?thesis using safe_output_names [OF fp [symmetric]] by simp
  next
    assume "\<exists>pg first_items. paged_result w timeout scheme cx p pg rq declared fp document first_items s1 = (Inr data, s')"
    then show ?thesis using safe_output_names [OF fp [symmetric]] paged_names by metis
  qed
qed


section \<open>Every reference of a loaded tool resolves\<close>

text \<open>The steps so far left their declared outputs.\<close>

definition outputs_from :: "decl_step list \<Rightarrow> step_outputs \<Rightarrow> bool" where
  "outputs_from earlier outputs \<longleftrightarrow>
     (\<forall>step \<in> set earlier. \<exists>out. map_of outputs (st_id step) = Some out \<and> map fst out = map fst (st_outputs step))"

lemma map_of_names: "map fst m = names \<Longrightarrow> n \<in> set names \<Longrightarrow> \<exists>v. map_of m n = Some v"
  by (metis map_of_eq_None_iff not_Some_eq set_map)

lemma reference_resolves:
  assumes "reference_reaches ischema earlier r" and "outputs_from earlier outputs"
    and "vr_source r = ''input'' \<Longrightarrow> has_key args (vr_field r)"
  shows "\<exists>v. resolve_ref args outputs r = Inr v"
proof (cases "vr_source r = ''input''")
  case True
  then show ?thesis using assms(3) by (auto simp: resolve_ref_def has_key_def)
next
  case False
  then obtain step where step: "step \<in> set earlier" "vr_step r = Some (st_id step)"
    "vr_field r \<in> set (map fst (st_outputs step))"
    using assms(1) by (auto simp: reference_reaches_def list_ex_iff)
  then obtain out where out: "map_of outputs (st_id step) = Some out" "map fst out = map fst (st_outputs step)"
    using assms(2) by (auto simp: outputs_from_def)
  obtain v where "map_of out (vr_field r) = Some v" using map_of_names [OF out(2) step(3)] by blast
  then show ?thesis using False step(2) out(1) by (simp add: resolve_ref_def)
qed

lemma mapR_defined: "(\<And>x. x \<in> set xs \<Longrightarrow> \<exists>y. f x = Inr y) \<Longrightarrow> \<exists>ys. mapR f xs = Inr ys"
  by (induction xs) fastforce+

lemma step_arguments_defined:
  assumes "\<forall>(n, r)\<in>set (st_inputs step). reference_reaches ischema earlier r" and "outputs_from earlier outputs"
  shows "\<exists>sa. step_arguments args outputs step = Inr sa"
proof -
  have "\<exists>sa. mapR (\<lambda>(name, r). bindR (resolve_ref args outputs r) (\<lambda>v. Inr (PStr name, v)))
       (filter (\<lambda>(_, r). \<not> (vr_source r = ''input'' \<and> \<not> has_key args (vr_field r))) (st_inputs step)) = Inr sa"
  proof (rule mapR_defined)
    fix x
    assume x: "x \<in> set (filter (\<lambda>(_, r). \<not> (vr_source r = ''input'' \<and> \<not> has_key args (vr_field r))) (st_inputs step))"
    obtain name r where r: "x = (name, r)" by (cases x)
    then have "reference_reaches ischema earlier r" "vr_source r = ''input'' \<Longrightarrow> has_key args (vr_field r)"
      using x assms(1) by auto
    from reference_resolves [OF this(1) assms(2) this(2)]
    show "\<exists>y. (case x of (name, r) \<Rightarrow> bindR (resolve_ref args outputs r) (\<lambda>v. Inr (PStr name, v))) = Inr y"
      using r by auto
  qed
  then show ?thesis by (auto simp: step_arguments_def)
qed

lemma result_of_map_names: "result_of_map tool args outputs = Inr data \<Longrightarrow> map fst data = map fst (dt_result_map tool)"
  unfolding result_of_map_def case_prod_beta by (rule mapR_names)

lemma result_of_map_defined:
  assumes "\<forall>(n, r)\<in>set (dt_result_map tool). reference_reaches ischema earlier r" and "outputs_from earlier outputs"
    and "\<forall>(n, r)\<in>set (dt_result_map tool). vr_source r = ''input'' \<longrightarrow> has_key args (vr_field r)"
  shows "\<exists>data. result_of_map tool args outputs = Inr data \<and> map fst data = map fst (dt_result_map tool)"
proof -
  have "\<exists>data. result_of_map tool args outputs = Inr data"
    unfolding result_of_map_def
  proof (rule mapR_defined)
    fix x
    assume x: "x \<in> set (dt_result_map tool)"
    obtain name r where r: "x = (name, r)" by (cases x)
    then have "reference_reaches ischema earlier r" "vr_source r = ''input'' \<Longrightarrow> has_key args (vr_field r)"
      using x assms(1,3) by auto
    from reference_resolves [OF this(1) assms(2) this(2)]
    show "\<exists>y. (case x of (name, r) \<Rightarrow> bindR (resolve_ref args outputs r) (\<lambda>v. Inr (name, v))) = Inr y"
      using r by auto
  qed
  then obtain data where "result_of_map tool args outputs = Inr data" by blast
  then show ?thesis using result_of_map_names by blast
qed

lemma step_result_defined:
  assumes "list_all (\<lambda>(_, out). out \<in> set (map om_name (op_outputs p))) (st_outputs step)"
    and "set (map om_name (op_outputs p)) \<subseteq> set (map fst data)"
  shows "\<exists>out. step_result step data = Inr out \<and> map fst out = map fst (st_outputs step)"
proof -
  let ?f = "\<lambda>(name, field). case map_of data field of Some v \<Rightarrow> Inr (name, v) | None \<Rightarrow> Inl (Exc KeyError field)"
  have "\<exists>out. mapR ?f (st_outputs step) = Inr out"
  proof (rule mapR_defined)
    fix x assume x: "x \<in> set (st_outputs step)"
    obtain name field where r: "x = (name, field)" by (cases x)
    then have "field \<in> set (map fst data)" using x assms by (auto simp: list_all_iff)
    then obtain v where "map_of data field = Some v" using map_of_names by metis
    then show "\<exists>y. ?f x = Inr y" using r by simp
  qed
  then obtain out where out: "mapR ?f (st_outputs step) = Inr out" by blast
  moreover have "mapR ?f xs = Inr ys \<Longrightarrow> map fst ys = map fst xs" for xs ys
    by (induction xs arbitrary: ys) (auto split: option.splits)
  ultimately show ?thesis by (simp add: step_result_def)
qed


section \<open>Audit names\<close>

text \<open>The names that go into the audit events of a tool are acceptable, or nobody listens.\<close>

definition auditable :: "bool \<Rightarrow> conn_context \<Rightarrow> decl_tool \<Rightarrow> bool" where
  "auditable has_sink cx tool \<longleftrightarrow> (has_sink \<longrightarrow>
     dimension_ok 64 (cx_connection cx) \<and> dimension_ok 128 (dt_key tool) \<and>
     list_all (\<lambda>step. dimension_ok 64 (st_id step) \<and> dimension_ok 128 (st_operation step)) (dt_steps tool))"

definition step_auditable :: "bool \<Rightarrow> conn_context \<Rightarrow> string \<Rightarrow> active_step \<Rightarrow> bool" where
  "step_auditable has_sink cx tkey a \<longleftrightarrow> (has_sink \<longrightarrow>
     dimension_ok 64 (cx_connection cx) \<and> dimension_ok 128 tkey \<and> dimension_ok 64 (ac_step a) \<and>
     dimension_ok 128 (ac_operation a))"

text \<open>An event of a step.\<close>

definition event_of :: "conn_context \<Rightarrow> string \<Rightarrow> string \<Rightarrow> string \<Rightarrow> string \<Rightarrow> step_event \<Rightarrow> bool" where
  "event_of cx tkey step operation status event \<longleftrightarrow>
     se_connection event = cx_connection cx \<and> se_tool event = tkey \<and> se_step event = step \<and>
     se_operation event = operation \<and> se_status event = status \<and> 0 \<le> se_cost event \<and> se_cost event \<le> 300000"

lemma emit_auditable:
  assumes "step_auditable has_sink cx tkey a"
  shows "\<exists>events. emit_step_audit w has_sink cx tkey a status code s = (Inr (), s\<lparr>ss_audits := ss_audits s @ events\<rparr>) \<and>
    (if has_sink then \<exists>event. events = [event] \<and> event_of cx tkey (ac_step a) (ac_operation a) status event \<and> se_error event = code
     else events = [])"
proof (cases has_sink)
  case True
  then show ?thesis using assms
    by (auto simp: emit_step_audit_def make_step_event_def step_auditable_def event_of_def MAX_STEP_AUDIT_COST_MS_def)
next
  case False
  have "s\<lparr>ss_audits := ss_audits s @ []\<rparr> = s" by simp
  then show ?thesis using False by (auto simp: emit_step_audit_def)
qed

section \<open>The steps of a loaded tool\<close>

text \<open>
  A step as it ran in a session: with the arguments its references give, its operation succeeded and its declared outputs
  were there.  A step that fails had its arguments and the operation failed.
\<close>

definition step_completes ::
  "'d world \<Rightarrow> revision \<Rightarrow> conn_context \<Rightarrow> (pyval \<times> pyval) list \<Rightarrow> decl_step \<Rightarrow> step_outputs \<Rightarrow> session
     \<Rightarrow> (string, pyval) dict \<Rightarrow> session \<Rightarrow> bool" where
  "step_completes w rv cx args step outputs s out s' \<longleftrightarrow>
     (\<exists>p step_args data. operation_for rv (st_operation step) = Inr p \<and> step_arguments args outputs step = Inr step_args \<and>
        execute_operation w (step_timeout_ms p step) (rv_auth rv) cx p step_args s = (Inr data, s') \<and>
        step_result step data = Inr out)"

definition step_fails ::
  "'d world \<Rightarrow> revision \<Rightarrow> conn_context \<Rightarrow> (pyval \<times> pyval) list \<Rightarrow> decl_step \<Rightarrow> step_outputs \<Rightarrow> session \<Rightarrow> exc \<Rightarrow> session \<Rightarrow> bool" where
  "step_fails w rv cx args step outputs s e s' \<longleftrightarrow>
     (\<exists>p step_args. operation_for rv (st_operation step) = Inr p \<and> step_arguments args outputs step = Inr step_args \<and>
        execute_operation w (step_timeout_ms p step) (rv_auth rv) cx p step_args s = (Inl e, s'))"

definition event_for :: "conn_context \<Rightarrow> string \<Rightarrow> decl_step \<Rightarrow> string \<Rightarrow> step_event \<Rightarrow> bool" where
  "event_for cx tkey step status event \<longleftrightarrow> event_of cx tkey (st_id step) (st_operation step) status event"

definition audited :: "bool \<Rightarrow> conn_context \<Rightarrow> string \<Rightarrow> decl_step \<Rightarrow> string \<Rightarrow> session \<Rightarrow> session \<Rightarrow> bool" where
  "audited has_sink cx tkey step status s s' \<longleftrightarrow>
     (if has_sink then \<exists>event. s' = s\<lparr>ss_audits := ss_audits s @ [event]\<rparr> \<and> event_for cx tkey step status event
      else s' = s)"

text \<open>The steps that are complete, each with its ok event before the next began, with their outputs.\<close>

inductive steps_complete ::
  "'d world \<Rightarrow> bool \<Rightarrow> revision \<Rightarrow> conn_context \<Rightarrow> string \<Rightarrow> (pyval \<times> pyval) list \<Rightarrow> session
     \<Rightarrow> decl_step list \<Rightarrow> step_outputs \<Rightarrow> session \<Rightarrow> bool"
  for w has_sink rv cx tkey args s0 where
  none: "steps_complete w has_sink rv cx tkey args s0 [] [] s0"
| one_more: "steps_complete w has_sink rv cx tkey args s0 earlier outputs s \<Longrightarrow>
     step_completes w rv cx args step outputs s out s1 \<Longrightarrow> audited has_sink cx tkey step ''ok'' s1 s2 \<Longrightarrow>
     steps_complete w has_sink rv cx tkey args s0 (earlier @ [step]) (AList.update (st_id step) out outputs) s2"

text \<open>The steps before \<open>steps\<close> are \<open>earlier\<close>; all together are well wired.\<close>

definition steps_wired :: "revision \<Rightarrow> (pyval \<times> pyval) list \<Rightarrow> decl_step list \<Rightarrow> decl_step list \<Rightarrow> bool" where
  "steps_wired rv ischema earlier steps \<longleftrightarrow>
     (\<forall>i < length steps. \<forall>(n, r)\<in>set (st_inputs (steps ! i)). reference_reaches ischema (earlier @ take i steps) r) \<and>
     list_all (step_fits (rv_operations rv)) steps \<and> distinct (map st_id (earlier @ steps))"

lemma steps_wired_Cons:
  assumes "steps_wired rv ischema earlier (step # steps)"
  shows "\<forall>(n, r)\<in>set (st_inputs step). reference_reaches ischema earlier r" "step_fits (rv_operations rv) step"
    "st_id step \<notin> st_id ` set earlier" "steps_wired rv ischema (earlier @ [step]) steps"
proof -
  have refs: "\<forall>i < length (step # steps). \<forall>(n, r)\<in>set (st_inputs ((step # steps) ! i)).
      reference_reaches ischema (earlier @ take i (step # steps)) r"
    using assms unfolding steps_wired_def by blast
  from refs [rule_format, of 0] show "\<forall>(n, r)\<in>set (st_inputs step). reference_reaches ischema earlier r" by auto
  have "\<forall>i < length steps. \<forall>(n, r)\<in>set (st_inputs (steps ! i)). reference_reaches ischema ((earlier @ [step]) @ take i steps) r"
    using refs [rule_format, of "Suc i" for i] by fastforce
  then show "steps_wired rv ischema (earlier @ [step]) steps" "step_fits (rv_operations rv) step"
    "st_id step \<notin> st_id ` set earlier"
    using assms by (auto simp: steps_wired_def)
qed

lemma outputs_update:
  assumes "outputs_from earlier outputs" and "map fst out = map fst (st_outputs step)" and "st_id step \<notin> st_id ` set earlier"
  shows "outputs_from (earlier @ [step]) (AList.update (st_id step) out outputs)"
  unfolding outputs_from_def
proof
  fix t assume "t \<in> set (earlier @ [step])"
  then show "\<exists>o'. map_of (AList.update (st_id step) out outputs) (st_id t) = Some o' \<and> map fst o' = map fst (st_outputs t)"
    using assms by (cases "st_id t = st_id step") (auto simp: outputs_from_def update_conv rev_image_eqI)
qed

lemma step_fits_found:
  assumes "revision_ok env rv" and "step_fits (rv_operations rv) step"
  obtains p where "operation_for rv (st_operation step) = Inr p" "op_key p = st_operation step"
    "list_all (\<lambda>(_, out). out \<in> set (map om_name (op_outputs p))) (st_outputs step)"
  using assms revision_operation_found [OF assms(1)] by (auto simp: step_fits_def split: option.splits)

definition active_at :: "decl_step \<Rightarrow> active_step \<Rightarrow> bool" where
  "active_at step a \<longleftrightarrow> ac_step a = st_id step \<and> ac_operation a = st_operation step"

text \<open>The first step that did not complete.\<close>

definition steps_stopped ::
  "'d world \<Rightarrow> bool \<Rightarrow> revision \<Rightarrow> conn_context \<Rightarrow> string \<Rightarrow> (pyval \<times> pyval) list \<Rightarrow> session \<Rightarrow> decl_step list \<Rightarrow> nat
     \<Rightarrow> exc \<Rightarrow> session \<Rightarrow> bool" where
  "steps_stopped w has_sink rv cx tkey args s0 steps n e s' \<longleftrightarrow> n < length steps \<and>
     (\<exists>outputs s. steps_complete w has_sink rv cx tkey args s0 (take n steps) outputs s \<and>
        step_fails w rv cx args (steps ! n) outputs s e s')"

definition auditable_step :: "bool \<Rightarrow> conn_context \<Rightarrow> string \<Rightarrow> decl_step \<Rightarrow> bool" where
  "auditable_step has_sink cx tkey step \<longleftrightarrow> step_auditable has_sink cx tkey
     \<lparr>ac_step = st_id step, ac_operation = st_operation step, ac_started = 0, ac_audited = False\<rparr>"

lemma auditable_active: "active_at step a \<Longrightarrow> step_auditable has_sink cx tkey a = auditable_step has_sink cx tkey step"
  by (simp add: auditable_step_def step_auditable_def active_at_def)

lemma emit_audited:
  assumes "auditable_step has_sink cx tkey step" and "active_at step a"
  shows "\<exists>s'. emit_step_audit w has_sink cx tkey a status code s = (Inr (), s') \<and> audited has_sink cx tkey step status s s'"
proof -
  have "step_auditable has_sink cx tkey a" using assms auditable_active by simp
  from emit_auditable [OF this, of w status code s] assms(2) show ?thesis
    by (cases has_sink) (auto simp: audited_def event_for_def active_at_def)
qed

lemma run_steps_progress:
  assumes "revision_ok env rv" and "run_steps w has_sink rv cx tkey args steps outputs active s = (res, active', s')"
    and "steps_wired rv ischema earlier steps" and "outputs_from earlier outputs"
    and "list_all (auditable_step has_sink cx tkey) steps" and "\<forall>a. active = Some a \<longrightarrow> ac_audited a"
    and "steps_complete w has_sink rv cx tkey args s0 earlier outputs s"
  shows "case res of
      Inr outputs' \<Rightarrow> outputs_from (earlier @ steps) outputs' \<and> (\<forall>a. active' = Some a \<longrightarrow> ac_audited a) \<and>
        steps_complete w has_sink rv cx tkey args s0 (earlier @ steps) outputs' s'
    | Inl e \<Rightarrow> \<exists>n a. length earlier \<le> n \<and> steps_stopped w has_sink rv cx tkey args s0 (earlier @ steps) n e s' \<and>
        active' = Some a \<and> \<not> ac_audited a \<and> active_at ((earlier @ steps) ! n) a"
  using assms(2-7)
proof (induction steps arbitrary: earlier outputs active s)
  case (Cons step steps)
  note wired = steps_wired_Cons [OF Cons.prems(2)]
  obtain q where q: "operation_for rv (st_operation step) = Inr q" "op_key q = st_operation step"
    "list_all (\<lambda>(_, out). out \<in> set (map om_name (op_outputs q))) (st_outputs step)"
    using step_fits_found [OF assms(1) wired(2)] by blast
  obtain sa' where sa': "step_arguments args outputs step = Inr sa'"
    using step_arguments_defined [OF wired(1) Cons.prems(3)] by blast
  have here: "active_at step (started_step w q step s)" "\<not> ac_audited (started_step w q step s)"
    using q by (simp_all add: active_at_def started_step_def)
  have auditable: "auditable_step has_sink cx tkey step" using Cons.prems(4) by simp
  from Cons.prems(1) show ?case
  proof (cases rule: run_steps_Cons)
    case (operation p sa e)
    then have "step_fails w rv cx args step outputs s e s'" by (auto simp: step_fails_def)
    then have "steps_stopped w has_sink rv cx tkey args s0 (earlier @ step # steps) (length earlier) e s'"
      using Cons.prems(6) by (auto simp: steps_stopped_def)
    then show ?thesis using operation here q by (auto intro!: exI [of _ "length earlier"])
  next
    case (outcome p sa data)
    then have "list_all (\<lambda>(_, out). out \<in> set (map om_name (op_outputs p))) (st_outputs step)" using q by simp
    from step_result_defined [OF this operation_names [OF outcome(3)]] outcome(6) show ?thesis by blast
  next
    case (audit p sa data s1 e)
    then show ?thesis using emit_audited [OF auditable here(1)] q by (metis Inr_inject Pair_inject sum.distinct(1))
  next
    case (more p sa data s1 out s2)
    then have p: "p = q" using q by simp
    have "list_all (\<lambda>(_, out). out \<in> set (map om_name (op_outputs p))) (st_outputs step)" using p q by simp
    from step_result_defined [OF this operation_names [OF more(3)]] more(4)
    have "map fst out = map fst (st_outputs step)" by simp
    from outputs_update [OF Cons.prems(3) this wired(3)]
    have outs: "outputs_from (earlier @ [step]) (AList.update (st_id step) out outputs)" .
    have "audited has_sink cx tkey step ''ok'' s1 s2"
      using emit_audited [OF auditable here(1), of w "''ok''" "''''" s1] more(5) p by auto
    moreover have "step_completes w rv cx args step outputs s out s1" using more by (auto simp: step_completes_def)
    ultimately have fin: "steps_complete w has_sink rv cx tkey args s0 (earlier @ [step])
        (AList.update (st_id step) out outputs) s2"
      using Cons.prems(6) by (blast intro: one_more)
    have settled: "\<forall>a. Some (started_step w p step s\<lparr>ac_audited := True\<rparr>) = Some a \<longrightarrow> ac_audited a" by simp
    from Cons.IH [OF more(6) wired(4) outs _ settled fin] Cons.prems(4) show ?thesis
      by (cases res) (auto dest: Suc_leD)
  qed (use q sa' in simp_all)
qed auto

text \<open>The events of the steps that are complete.\<close>

lemma complete_trail:
  assumes "steps_complete w True rv cx tkey args s0 earlier outputs s"
  shows "\<exists>events. ss_audits s = ss_audits s0 @ events \<and> list_all2 (\<lambda>step. event_for cx tkey step ''ok'') earlier events"
  using assms
proof induction
  case (one_more earlier outputs s step out s1 s2)
  from one_more.IH obtain events where events: "ss_audits s = ss_audits s0 @ events"
    "list_all2 (\<lambda>step. event_for cx tkey step ''ok'') earlier events" by blast
  have "ss_audits s1 = ss_audits s"
    using one_more.hyps(2) audits.confinedD [OF audits.confined_operation] unfolding step_completes_def by metis
  then obtain event where "ss_audits s2 = ss_audits s0 @ events @ [event]" "event_for cx tkey step ''ok'' event"
    using one_more.hyps(3) events(1) by (auto simp: audited_def)
  then show ?case using events(2) by (intro exI [of _ "events @ [event]"]) (simp add: list_all2_appendI)
qed simp

lemma stopped_trail:
  assumes "steps_stopped w True rv cx tkey args s0 steps n e s'"
  shows "\<exists>events. ss_audits s' = ss_audits s0 @ events \<and> list_all2 (\<lambda>step. event_for cx tkey step ''ok'') (take n steps) events"
proof -
  obtain outputs s where all: "steps_complete w True rv cx tkey args s0 (take n steps) outputs s"
    and fails: "step_fails w rv cx args (steps ! n) outputs s e s'"
    using assms by (auto simp: steps_stopped_def)
  have "ss_audits s' = ss_audits s"
    using fails audits.confinedD [OF audits.confined_operation] unfolding step_fails_def by metis
  then show ?thesis using complete_trail [OF all] by simp
qed

section \<open>The outcome\<close>

text \<open>What \<open>execute\<close> makes of an exception: a fixed result, unless it is a cancellation from outside.\<close>

definition outcome_of :: "exc \<Rightarrow> exec_outcome result" where
  "outcome_of e = (if exc_kind e = CancelledError \<and> e \<noteq> deadline then Inl e else Inr exec_error)"

lemma pureA_lift: "pureA x = liftA (Inr x)"
  by (rule ext) (simp add: pureA_def liftA_def)

lemma failed_tool_active:
  assumes "\<not> ac_audited a"
  shows "\<exists>code. failed_tool w has_sink cx tkey (Some a) e
    = bindA (emit_step_audit w has_sink cx tkey a ''error'' code) (\<lambda>_. liftA (outcome_of e))"
proof -
  have "exc_kind deadline = CancelledError" by (simp add: deadline_def)
  then show ?thesis
    using assms by (cases "exc_kind e = StepExecutionFailure"; cases "e = deadline \<or> exc_kind e = TimeoutError";
      cases "exc_kind e = CancelledError") (auto simp: failed_tool_def audit_then_def outcome_of_def pureA_lift)
qed

lemma failed_tool_settled:
  assumes "\<forall>a. active = Some a \<longrightarrow> ac_audited a" and "exc_kind e \<noteq> StepExecutionFailure"
  shows "failed_tool w has_sink cx tkey active e = liftA (outcome_of e)"
proof -
  have "exc_kind deadline = CancelledError" by (simp add: deadline_def)
  then show ?thesis
    using assms by (cases active) (auto simp: failed_tool_def audit_then_def outcome_of_def pureA_lift)
qed

lemma failed_tool_outcome:
  assumes "failed_tool w has_sink cx tkey (Some a) e s = (r, s')" and "auditable_step has_sink cx tkey step"
    and "active_at step a" and "\<not> ac_audited a"
  shows "r = outcome_of e \<and> audited has_sink cx tkey step ''error'' s s'"
proof -
  obtain code where run: "bindA (emit_step_audit w has_sink cx tkey a ''error'' code) (\<lambda>_. liftA (outcome_of e)) s = (r, s')"
    using failed_tool_active [OF assms(4), of w has_sink cx tkey e] assms(1) by auto
  show ?thesis using emit_audited [OF assms(2,3), of w "''error''" code s] run by (auto simp: bindA_def liftA_def)
qed

lemma mapR_Inl: "mapR f xs = Inl e \<Longrightarrow> \<exists>x \<in> set xs. f x = Inl e"
  by (induction xs) (auto simp: bindR_Inl_iff)

lemma result_of_map_error: "result_of_map tool args outputs = Inl e \<Longrightarrow> exc_kind e = KeyError"
  unfolding result_of_map_def
  by (drule mapR_Inl) (auto simp: bindR_Inl_iff resolve_ref_def split: if_splits option.splits)

lemma auditable_steps: "auditable has_sink cx tool \<Longrightarrow> list_all (auditable_step has_sink cx (dt_key tool)) (dt_steps tool)"
  by (auto simp: auditable_def auditable_step_def step_auditable_def list_all_iff)

lemma loaded_tool_wired:
  assumes "revision_ok env rv" and "tool \<in> set (rv_tools rv)"
  shows "steps_wired rv (dt_input_schema tool) [] (dt_steps tool)" "list_all (step_fits (rv_operations rv)) (dt_steps tool)"
proof -
  have fits: "tool_fits (rv_operations rv) tool" "tool_ok tool"
    using assms revision_tools_fit by (auto simp: revision_ok_def parts_ok_def)
  then show "list_all (step_fits (rv_operations rv)) (dt_steps tool)" by (simp add: tool_fits_def)
  show "steps_wired rv (dt_input_schema tool) [] (dt_steps tool)"
    using fits tool_ok_reaches by (simp add: steps_wired_def tool_fits_def)
qed

lemma run_tool_cases:
  assumes "revision_ok env rv" and "tool \<in> set (rv_tools rv)" and "auditable has_sink cx tool"
    and "run_tool w has_sink rv cx tool args s = (r, s')"
  obtains (complete) outputs where "steps_complete w has_sink rv cx (dt_key tool) args s (dt_steps tool) outputs s'"
      "outputs_from (dt_steps tool) outputs"
      "r = (case result_of_map tool args outputs of Inr data \<Rightarrow> Inr (exec_done data) | Inl _ \<Rightarrow> Inr exec_error)"
  | (failed) n e s1 where "steps_stopped w has_sink rv cx (dt_key tool) args s (dt_steps tool) n e s1"
      "audited has_sink cx (dt_key tool) (dt_steps tool ! n) ''error'' s1 s'" "r = outcome_of e"
proof -
  obtain res active s1 where run: "run_steps w has_sink rv cx (dt_key tool) args (dt_steps tool) [] None s = (res, active, s1)"
    by (rule prod_cases3)
  note progress = run_steps_progress [OF assms(1) run loaded_tool_wired(1) [OF assms(1,2)] _ auditable_steps [OF assms(3)]
      _ steps_complete.none]
  show ?thesis
  proof (cases res)
    case (Inl e)
    then obtain n a where n: "steps_stopped w has_sink rv cx (dt_key tool) args s (dt_steps tool) n e s1"
      and a: "active = Some a" "\<not> ac_audited a" "active_at (dt_steps tool ! n) a"
      using progress by (auto simp: outputs_from_def)
    have ftool: "failed_tool w has_sink cx (dt_key tool) (Some a) e s1 = (r, s')"
      using assms(4) run Inl a by (simp add: run_tool_def)
    have "auditable_step has_sink cx (dt_key tool) (dt_steps tool ! n)"
      using auditable_steps [OF assms(3)] n by (simp add: steps_stopped_def list_all_length)
    from failed_tool_outcome [OF ftool this a(3,2)] show ?thesis using failed n by blast
  next
    case (Inr outputs)
    then have out: "outputs_from (dt_steps tool) outputs" and settled: "\<forall>a. active = Some a \<longrightarrow> ac_audited a"
      and all: "steps_complete w has_sink rv cx (dt_key tool) args s (dt_steps tool) outputs s1"
      using progress by (auto simp: outputs_from_def)
    have "s' = s1 \<and> r = (case result_of_map tool args outputs of Inr data \<Rightarrow> Inr (exec_done data) | Inl _ \<Rightarrow> Inr exec_error)"
    proof (cases "result_of_map tool args outputs")
      case (Inl e)
      then have k: "exc_kind e = KeyError" by (rule result_of_map_error)
      have "failed_tool w has_sink cx (dt_key tool) active e = liftA (outcome_of e)"
        by (rule failed_tool_settled [OF settled]) (simp add: k)
      then show ?thesis using assms(4) run Inr Inl k by (simp add: run_tool_def outcome_of_def liftA_def)
    qed (use assms(4) run Inr in \<open>simp add: run_tool_def\<close>)
    then show ?thesis using complete [OF _ out] all by blast
  qed
qed

section \<open>Names the audit log refuses\<close>







lemma execute_cases:
  assumes "execute_declared w has_sink rows rv cx name args s = (r, s')"
  obtains (refused) e where "revision_for_context rv cx = Inl e \<or> tool_for rv name = Inl e" "r = Inl e" "s' = s"
  | (rejected) "r = Inr exec_error" "s' = s"
      "\<forall>tool m. tool_for rv name = Inr tool \<longrightarrow> args = PMap m \<longrightarrow> validate_public_input args (dt_input_schema tool) = Inr () \<longrightarrow>
         stored_read rows rv cx name \<noteq> Inr None"
  | (stored) data where "stored_read rows rv cx name = Inr (Some data)" "r = Inr data" "s' = s"
  | (ran) tool m where "tool_for rv name = Inr tool" "args = PMap m" "validate_public_input args (dt_input_schema tool) = Inr ()"
      "stored_read rows rv cx name = Inr None" "revision_for_context rv cx = Inr ()" "run_tool w has_sink rv cx tool m s = (r, s')"
proof (cases "revision_for_context rv cx")
  case (Inl e)
  then show ?thesis using assms by (intro refused [of e]) (auto simp: execute_declared_def bindA_def liftA_def)
next
  case allowed: (Inr u)
  show ?thesis
  proof (cases "tool_for rv name")
    case (Inl e)
    then show ?thesis using assms allowed by (intro refused [of e]) (auto simp: execute_declared_def bindA_def liftA_def)
  next
    case tool: (Inr tool)
    show ?thesis
    proof (cases "\<exists>m. args = PMap m \<and> validate_public_input args (dt_input_schema tool) = Inr ()")
      case False
      then have "r = Inr exec_error \<and> s' = s"
        using assms allowed tool by (auto simp: execute_declared_def bindA_def liftA_def pureA_def split: pyval.splits sum.splits)
      then show ?thesis using rejected tool False by auto
    next
      case True
      then obtain m where m: "args = PMap m" "validate_public_input args (dt_input_schema tool) = Inr ()" by blast
      show ?thesis
      proof (cases "stored_read rows rv cx name")
        case (Inl e)
        then show ?thesis using assms allowed tool m rejected by (auto simp: execute_declared_def bindA_def liftA_def pureA_def)
      next
        case (Inr found)
        then show ?thesis using assms allowed tool m stored ran
          by (cases found) (simp_all add: execute_declared_def bindA_def liftA_def pureA_def)
      qed
    qed
  qed
qed

section \<open>Properties\<close>

text \<open>Whether \<open>execute\<close> gets as far as the steps of the tool.\<close>

definition tool_starts :: "stored_rows \<Rightarrow> revision \<Rightarrow> conn_context \<Rightarrow> string \<Rightarrow> decl_tool \<Rightarrow> pyval \<Rightarrow> (pyval \<times> pyval) list \<Rightarrow> bool" where
  "tool_starts rows rv cx name tool args m \<longleftrightarrow> revision_for_context rv cx = Inr () \<and> args = PMap m \<and>
     validate_public_input args (dt_input_schema tool) = Inr () \<and> stored_read rows rv cx name = Inr None"

text \<open>C25: A tool of a loaded revision, with a sink that accepts its names, either does not start, and then leaves
  no event and changes nothing, or it runs its steps in order and leaves an event for each step it started, with
  the names of the step and its operation: ok for the steps that completed, each written before the next began, and
  an error for the step whose operation failed, if one did, in which case it is the last and the caller gets no data.\<close>

theorem tool_steps_audited:
  assumes "from_storage_document env spec_id number tenant_id connection_id status document = Inr rv"
    and "tool_for rv name = Inr tool" and "auditable True cx tool"
    and "execute_declared w True rows rv cx name args s = (r, s')"
  shows "s' = s \<and> (\<forall>m. \<not> tool_starts rows rv cx name tool args m) \<or>
    (\<exists>m events. tool_starts rows rv cx name tool args m \<and> ss_audits s' = ss_audits s @ events \<and>
      ((\<exists>outputs. steps_complete w True rv cx (dt_key tool) m s (dt_steps tool) outputs s' \<and>
          list_all2 (\<lambda>step. event_for cx (dt_key tool) step ''ok'') (dt_steps tool) events) \<or>
       (\<exists>n e s1 earlier event. steps_stopped w True rv cx (dt_key tool) m s (dt_steps tool) n e s1 \<and>
          events = earlier @ [event] \<and>
          list_all2 (\<lambda>step. event_for cx (dt_key tool) step ''ok'') (take n (dt_steps tool)) earlier \<and>
          event_for cx (dt_key tool) (dt_steps tool ! n) ''error'' event \<and> (\<forall>data. r \<noteq> Inr (exec_done data)))))"
  using assms(4)
proof (cases rule: execute_cases)
  case (ran tool' m)
  then have tool: "tool' = tool" and starts: "tool_starts rows rv cx name tool args m" using assms(2) by (simp_all add: tool_starts_def)
  have mem: "tool \<in> set (rv_tools rv)" using tool_for_mem [OF assms(2)] by blast
  from ran(6) [unfolded tool] show ?thesis
  proof (rule run_tool_cases [OF loaded_revision_ok [OF assms(1)] mem assms(3)])
    fix outputs
    assume all: "steps_complete w True rv cx (dt_key tool) m s (dt_steps tool) outputs s'"
    from complete_trail [OF this] show ?thesis using starts all by blast
  next
    fix n e s1
    assume stopped: "steps_stopped w True rv cx (dt_key tool) m s (dt_steps tool) n e s1" and r: "r = outcome_of e"
      and last: "audited True cx (dt_key tool) (dt_steps tool ! n) ''error'' s1 s'"
    obtain event where event: "ss_audits s' = ss_audits s1 @ [event]" "event_for cx (dt_key tool) (dt_steps tool ! n) ''error'' event"
      using last by (auto simp: audited_def)
    obtain earlier where "ss_audits s1 = ss_audits s @ earlier"
      "list_all2 (\<lambda>step. event_for cx (dt_key tool) step ''ok'') (take n (dt_steps tool)) earlier"
      using stopped_trail [OF stopped] by blast
    moreover have "\<forall>data. r \<noteq> Inr (exec_done data)" by (simp add: r outcome_of_def exec_error_def exec_done_def)
    ultimately have "\<exists>n e s1 earlier' event'. steps_stopped w True rv cx (dt_key tool) m s (dt_steps tool) n e s1 \<and>
          earlier @ [event] = earlier' @ [event'] \<and>
          list_all2 (\<lambda>step. event_for cx (dt_key tool) step ''ok'') (take n (dt_steps tool)) earlier' \<and>
          event_for cx (dt_key tool) (dt_steps tool ! n) ''error'' event' \<and> (\<forall>data. r \<noteq> Inr (exec_done data))"
      "ss_audits s' = ss_audits s @ earlier @ [event]" using stopped event by (blast, simp)
    then show ?thesis using starts by blast
  qed
qed (use assms(2) in \<open>auto simp: tool_starts_def\<close>)


text \<open>C32: When the operations of its steps succeed, so does a tool of a loaded revision whose names may be audited, as
  long as the caller supplied the inputs its result map repeats: it returns all its declared results, unless
  one of its steps, started with the arguments its references resolve to after the steps before it completed, had its operation fail.\<close>

theorem tool_completes:
  assumes "from_storage_document env spec_id number tenant_id connection_id status document = Inr rv"
    and "tool \<in> set (rv_tools rv)" and "auditable has_sink cx tool"
    and "run_tool w has_sink rv cx tool args s = (r, s')"
    and "\<forall>(n, ref)\<in>set (dt_result_map tool). vr_source ref = ''input'' \<longrightarrow> has_key args (vr_field ref)"
  shows "(\<exists>data. r = Inr (exec_done data) \<and> map fst data = map fst (dt_result_map tool)) \<or>
    (\<exists>n e s1. steps_stopped w has_sink rv cx (dt_key tool) args s (dt_steps tool) n e s1 \<and> r = outcome_of e)"
  using assms(4)
proof (rule run_tool_cases [OF loaded_revision_ok [OF assms(1)] assms(2,3)])
  fix outputs
  assume out: "outputs_from (dt_steps tool) outputs"
    and r: "r = (case result_of_map tool args outputs of Inr data \<Rightarrow> Inr (exec_done data) | Inl _ \<Rightarrow> Inr exec_error)"
  have "tool_ok tool" using loaded_revision_ok [OF assms(1)] assms(2) by (simp add: revision_ok_def parts_ok_def)
  then have "\<forall>(n, ref)\<in>set (dt_result_map tool). reference_reaches (dt_input_schema tool) (dt_steps tool) ref"
    by (rule tool_ok_reaches(2))
  from result_of_map_defined [OF this out assms(5)] show ?thesis using r by auto
qed blast

section \<open>A tool that cannot be audited\<close>

text \<open>A tool of one write step, whose key contains a word the audit log refuses.\<close>

definition token_tool :: decl_tool where
  "token_tool =
     \<lparr>dt_key = ''rotate_token'', dt_mcp = ''rotate_token'', dt_description = ''Rotate'',
      dt_input_schema =
        [(PStr ''type'', PStr ''object''),
         (PStr ''properties'', pdict [(''id'', pdict [(''type'', PStr ''string'')])]),
         (PStr ''additionalProperties'', PBool False)],
      dt_output_schema =
        [(PStr ''type'', PStr ''object''), (PStr ''properties'', pdict [(''done'', PMap [])]),
         (PStr ''additionalProperties'', PBool False)],
      dt_steps =
        [\<lparr>st_id = ''one'', st_operation = ''save'',
          st_inputs = [(''id'', \<lparr>vr_source = ''input'', vr_field = ''id'', vr_step = None\<rparr>)],
          st_outputs = [(''done'', ''done'')], st_timeout = None\<rparr>],
      dt_result_map = [(''done'', \<lparr>vr_source = ''steps'', vr_field = ''done'', vr_step = Some ''one''\<rparr>)],
      dt_cache_ttl = None\<rparr>"

definition token_revision :: revision where
  "token_revision = demo_revision\<lparr>rv_tools := [token_tool]\<rparr>"

lemma token_revision_valid: "validate_revision demo_env token_revision PNone = Inr token_revision"
  by code_simp

lemma token_tool_run:
  "observed (execute_declared (world_with (\<lambda>_. pdict [(''done'', PBool True)])) True no_rows token_revision demo_context
       ''rotate_token'' (pdict [(''id'', PStr ''x'')]) demo_session)
     = (Inr exec_error, demo_client\<lparr>cl_guard := demo_approved\<rparr>, 1,
        [sent_to ''POST'' ''https://api.example.com/v1/items'' (pdict [(''id'', PStr ''x'')])], [])"
  by code_simp


lemma unauditable_steps:
  assumes "run_steps w True rv cx tkey args (step # steps) outputs active s = (res, active', s')"
    and "\<not> dimension_ok 128 tkey"
  shows "\<exists>e. res = Inl e"
  using assms(1)
proof (cases rule: run_steps_Cons)
  case (more p sa data s1 out s2)
  then show ?thesis using assms(2) by (simp add: emit_step_audit_def make_step_event_def)
qed simp_all

lemma failed_tool_no_data: "failed_tool w has_sink cx tkey active e s = (r, s') \<Longrightarrow> r \<noteq> Inr (exec_done data)"
  by (auto simp: failed_tool_def audit_then_def bindA_def exec_error_def exec_done_def
      split: if_splits option.splits prod.splits sum.splits)

text \<open>C34: A tool whose key holds a word such as token or secret never succeeds while step audits are on, whatever
  the upstream answers: the audit event of its first step is refused outside the code that ignores the failures
  of the sink.  The one exception is a tool that is answered from the stored records, before any step.\<close>

theorem unauditable_tool_fails:
  assumes "tool_for rv name = Inr tool" and "dt_steps tool \<noteq> []" and "\<not> dimension_ok 128 (dt_key tool)"
    and "execute_declared w True rows rv cx name args s = (r, s')"
  shows "r \<noteq> Inr (exec_done data) \<or> stored_read rows rv cx name = Inr (Some (exec_done data)) \<and> s' = s"
  using assms(4)
proof (cases rule: execute_cases)
  case (ran tool' m)
  then have tool: "tool' = tool" using assms(1) by simp
  obtain step steps where steps: "dt_steps tool = step # steps" using assms(2) by (cases "dt_steps tool") auto
  obtain res active s1 where run: "run_steps w True rv cx (dt_key tool) m (dt_steps tool) [] None s = (res, active, s1)"
    by (rule prod_cases3)
  obtain e where "res = Inl e" using unauditable_steps [OF run [unfolded steps] assms(3)] by blast
  then have "failed_tool w True cx (dt_key tool) active e s1 = (r, s')" using ran(6) run unfolding tool by (simp add: run_tool_def)
  then show ?thesis using failed_tool_no_data by blast
qed (auto simp: exec_error_def exec_done_def)

text \<open>The write it made was sent all the same.\<close>

lemma unauditable_tool_fails_witness:
  "\<exists>s'. execute_declared (world_with (\<lambda>_. pdict [(''done'', PBool True)])) True no_rows token_revision demo_context
       ''rotate_token'' (pdict [(''id'', PStr ''x'')]) demo_session = (Inr exec_error, s') \<and>
     ss_sent s' = [sent_to ''POST'' ''https://api.example.com/v1/items'' (pdict [(''id'', PStr ''x'')])] \<and>
     Inr exec_error \<noteq> (Inr (exec_done []) :: exec_outcome result)"
proof -
  obtain s' where run: "execute_declared (world_with (\<lambda>_. pdict [(''done'', PBool True)])) True no_rows token_revision demo_context
       ''rotate_token'' (pdict [(''id'', PStr ''x'')]) demo_session = (Inr exec_error, s')"
    and sent: "ss_sent s' = [sent_to ''POST'' ''https://api.example.com/v1/items'' (pdict [(''id'', PStr ''x'')])]"
    using observed_run [OF token_tool_run] by blast
  have "tool_for token_revision ''rotate_token'' = Inr token_tool" "dt_steps token_tool \<noteq> []"
    "\<not> dimension_ok 128 (dt_key token_tool)" by code_simp+
  from unauditable_tool_fails [OF this run, of "[]"] run sent show ?thesis by (auto simp: exec_error_def exec_done_def)
qed

section \<open>Witnesses\<close>

lemma demo_copy_found: "tool_for demo_revision ''copy_item'' = Inr demo_copy"
  by code_simp

lemma demo_copy_auditable: "auditable True demo_context demo_copy"
  by code_simp

lemma tool_steps_audited_witness:
  "\<exists>m outputs s'. steps_complete demo_world True demo_revision demo_context (dt_key demo_copy) m demo_session (dt_steps demo_copy) outputs s' \<and>
    ss_audits s' = [demo_event ''one'' ''find'', demo_event ''two'' ''save'']"
proof -
  obtain s' where run: "execute_declared demo_world True no_rows demo_revision demo_context ''copy_item''
      demo_args demo_session = (Inr (exec_done [(''done'', PBool True)]), s')"
    and audits: "ss_audits s' = [demo_event ''one'' ''find'', demo_event ''two'' ''save'']"
    using observed_run [OF demo_executes] by blast
  have "s' \<noteq> demo_session" using audits by (auto simp: demo_session_def)
  with tool_steps_audited [OF demo_loads demo_copy_found demo_copy_auditable run] audits show ?thesis by blast
qed


lemma tool_completes_witness:
  "\<exists>r s'. run_tool demo_world True demo_revision demo_context demo_copy [(PStr ''item'', PStr ''a b'')] demo_session = (r, s') \<and>
    ((\<exists>data. r = Inr (exec_done data)) \<or>
     (\<exists>n e s1. steps_stopped demo_world True demo_revision demo_context (dt_key demo_copy) [(PStr ''item'', PStr ''a b'')]
        demo_session (dt_steps demo_copy) n e s1 \<and> r = outcome_of e))"
proof -
  obtain r s' where run: "run_tool demo_world True demo_revision demo_context demo_copy [(PStr ''item'', PStr ''a b'')] demo_session = (r, s')"
    by (rule prod.exhaust)
  have mem: "demo_copy \<in> set (rv_tools demo_revision)" by (simp add: demo_revision_def)
  have "\<forall>(n, ref)\<in>set (dt_result_map demo_copy). vr_source ref = ''input'' \<longrightarrow> has_key [(PStr ''item'', PStr ''a b'')] (vr_field ref)"
    by (simp add: demo_copy_def)
  from tool_completes [OF demo_loads mem demo_copy_auditable run this] run show ?thesis by blast
qed

end
