(* ===== verification/Canonical.thy ===== *)
theory Canonical
  imports DeclExec DeclDemo
begin

text \<open>
  The canonical form of a revision: writing it to a storage document and reading that back either fails or
  gives the same revision, since a document that is read holds no value reference at an ordinary position.
\<close>

lemma non_reference_dest:
  "non_reference v = Inr () \<Longrightarrow> reference_free v"
  "non_reference_items vs = Inr () \<Longrightarrow> \<forall>v\<in>set vs. reference_free v"
  "non_reference_members m = Inr () \<Longrightarrow> \<forall>(k, v)\<in>set m. reference_free k \<and> reference_free v"
  by (induction v and vs and m rule: non_reference_non_reference_items_non_reference_members.induct)
    (auto simp: no_reference_def reference_free_def list_all_iff)

lemma mapR_each: "mapR f xs = Inr ys \<Longrightarrow> x \<in> set xs \<Longrightarrow> \<exists>y\<in>set ys. f x = Inr y"
  unfolding mapR_Inr_iff list_all2_conv_all_nth by (metis in_set_conv_nth)

lemma plain_free: "plain_json_value v = Inr p \<Longrightarrow> reference_free p \<Longrightarrow> reference_free v"
  using plain_json_Inr reference_free_plain by blast

text \<open>An object that is read without value references.\<close>

lemma stored_object_free:
  assumes "bindR (stored_object keys d) (\<lambda>m. bindR (non_reference (PMap m)) (f m)) = Inr q"
  shows "reference_free d"
proof -
  obtain m where m: "stored_object keys d = Inr m" and "bindR (non_reference (PMap m)) (f m) = Inr q"
    using assms by (cases "stored_object keys d") auto
  then have "non_reference (PMap m) = Inr ()"
    by (cases "non_reference (PMap m)") (simp_all del: non_reference.simps)
  moreover have "d = PMap m" using m by (auto simp: stored_object_def split: pyval.splits if_splits)
  ultimately show ?thesis using non_reference_dest(1) by blast
qed

lemma input_schema_free:
  assumes "input_document i = Inr e" and "reference_free e"
  shows "reference_free (PMap (im_schema i))"
proof -
  obtain s where s: "plain_json_value (PMap (im_schema i)) = Inr s"
    and e: "e = pdict [(''arg_name'', PStr (im_arg_name i)), (''location'', PStr (im_location i)),
                 (''target'', PStr (im_target i)), (''required'', PBool (im_required i)), (''schema'', s)]"
    using assms(1) unfolding input_document_def by auto
  show ?thesis using assms(2) unfolding e reference_free_pdict by (intro plain_free [OF s]) simp
qed

lemma read_operation_free:
  assumes "operation_document p = Inr d" and "read_operation base d = Inr q"
  shows "\<forall>v\<in>set (operation_ordinary p). reference_free v"
proof -
  obtain ds where ds: "mapR input_document (op_inputs p) = Inr ds"
    and d: "d = pdict [(''tool_key'', PStr (op_key p)), (''mcp_name'', PStr (op_mcp p)),
                 (''description'', PStr (op_description p)), (''method'', PStr (op_method p)),
                 (''path'', PStr (op_path p)), (''input_mappings'', PList ds),
                 (''output_mappings'', PList (map output_document (op_outputs p))),
                 (''operation_kind'', PStr (op_kind p)),
                 (''explicit_write_enabled'', PBool (op_explicit_write p)),
                 (''timeout_ms'', PInt (op_timeout p)), (''cache_ttl_seconds'', opt_int (op_cache_ttl p)),
                 (''pagination'', pagination_document (op_pagination p))]"
    using assms(1) by (auto simp: operation_document_def)
  have free: "reference_free d"
    by (rule stored_object_free [OF assms(2) [unfolded read_operation_def]])
  have parts: "reference_free (PStr (op_description p))" "reference_free (PStr (op_path p))"
    "\<forall>e\<in>set ds. reference_free e" "\<forall>m\<in>set (op_outputs p). reference_free (output_document m)"
    "reference_free (pagination_document (op_pagination p))"
    using free unfolding d reference_free_pdict by simp_all
  have "reference_free (PMap (im_schema i))" if i: "i \<in> set (op_inputs p)" for i
  proof -
    obtain e where e: "input_document i = Inr e" "e \<in> set ds" using mapR_each [OF ds i] by blast
    show ?thesis by (rule input_schema_free [OF e(1) bspec [OF parts(3) e(2)]])
  qed
  moreover have "reference_free (PStr (om_pointer m))" if "m \<in> set (op_outputs p)" for m
    using bspec [OF parts(4) that] by (simp add: output_document_def)
  moreover have "reference_free (pg_items_pointer g) \<and> reference_free (pg_next_pointer g) \<and>
      reference_free (pg_next_query_param g)" if "op_pagination p = Some g" for g
    using parts(5) that by (simp add: pagination_document_def)
  ultimately show ?thesis
    using parts(1,2) by (auto simp: operation_ordinary_def simp del: reference_free_simps split: option.splits)
qed

lemma read_tool_free:
  assumes "tool_document t = Inr d" and "read_tool_document d = Inr q"
  shows "\<forall>v\<in>set (tool_ordinary t). reference_free v"
proof -
  obtain i o' where i: "plain_json_value (PMap (dt_input_schema t)) = Inr i"
    and o': "plain_json_value (PMap (dt_output_schema t)) = Inr o'"
    and d: "d = pdict [(''tool_key'', PStr (dt_key t)), (''mcp_name'', PStr (dt_mcp t)),
                 (''description'', PStr (dt_description t)), (''input_schema'', i),
                 (''output_schema'', o'), (''steps'', PList (map step_document (dt_steps t))),
                 (''result_map'', refs_document (dt_result_map t)),
                 (''cache_ttl_seconds'', opt_int (dt_cache_ttl t))]"
    using assms(1) by (auto simp: tool_document_def)
  obtain m where "stored_object TOOL_KEYS d = Inr m"
    and m: "non_reference (mget_none m ''description'') = Inr ()"
      "non_reference (mget_none m ''input_schema'') = Inr ()" "non_reference (mget_none m ''output_schema'') = Inr ()"
    using assms(2) unfolding read_tool_document_def bindR_Inr_iff by (metis (full_types) unit.exhaust)
  then have "PMap m = d" by (auto simp: stored_object_def split: pyval.splits if_splits)
  then have "mget_none m ''description'' = PStr (dt_description t)" "mget_none m ''input_schema'' = i"
    "mget_none m ''output_schema'' = o'"
    by (simp_all add: d pdict_names)
  then have "reference_free (PStr (dt_description t))" "reference_free i" "reference_free o'"
    using m non_reference_dest(1) by metis+
  then show ?thesis using plain_free [OF i] plain_free [OF o'] by (simp add: tool_ordinary_def del: reference_free_simps)
qed

lemma read_sync_free:
  assumes "sync_document (Some y) = Inr d" and "read_sync d = Inr s"
  shows "\<forall>v\<in>{PStr (sy_primary_key y), PMap (sy_field_mappings y), sy_items_pointer y}. reference_free v"
proof -
  obtain p where p: "plain_json_value (PMap (sy_field_mappings y)) = Inr p"
    and d: "d = pdict [(''resource_key'', PStr (sy_resource_key y)),
       (''primary_key_pointer'', PStr (sy_primary_key y)), (''field_mappings'', p),
       (''operation_key'', PStr (sy_operation_key y)), (''items_pointer'', sy_items_pointer y)]"
    using assms(1) by (auto simp: sync_document_def)
  have "d \<noteq> PNone" by (simp add: d pdict_def)
  then have "reference_free d"
    using assms(2) unfolding read_sync_def if_not_P [OF \<open>d \<noteq> PNone\<close>] by (intro stored_object_free)
  then show ?thesis using plain_free [OF p] unfolding d by simp
qed

lemma read_auth_free:
  assumes "read_auth (auth_document (Some a)) = Inr s"
  shows "reference_free (auth_document (Some a))"
proof -
  have "auth_document (Some a) \<noteq> PNone" by (simp add: auth_document_def pdict_def)
  then show ?thesis
    using assms unfolding read_auth_def if_not_P [OF \<open>auth_document (Some a) \<noteq> PNone\<close>] by (intro stored_object_free)
qed

lemma loaded_document_free:
  assumes "storage_document rv = Inr d"
    and "from_storage_document env spec_id number tenant_id connection_id status d = Inr rv'"
  shows "\<forall>v\<in>set (ordinary_parts rv). reference_free v"
proof -
  obtain sync ops tools where sync: "sync_document (rv_sync rv) = Inr sync"
    and ops: "mapR operation_document (rv_operations rv) = Inr ops"
    and tools: "mapR tool_document (rv_tools rv) = Inr tools"
    and d: "d = pdict (written_document rv sync ops tools)"
    using storage_document_Inr [OF assms(1)] by blast
  define m where "m = py_names (written_document rv sync ops tools)"
  note get = written_fields [of rv sync ops tools, folded m_def]
  have m: "stored_document d = Inr m" unfolding d m_def by (rule written_stored_document)
  obtain hosts raw auth y ps ts where shape: "document_shape m = Inr (hosts, raw)"
    and nr: "non_reference (PStr (rv_base_url rv)) = Inr ()"
      "non_reference (PList (map PStr (rv_allowed_hosts rv))) = Inr ()"
    and auth: "read_auth (auth_document (rv_auth rv)) = Inr auth" and y: "read_sync sync = Inr y"
    and ps: "mapR (read_operation (PStr (rv_base_url rv))) raw = Inr ps" and ts: "read_tools m = Inr ts"
    using assms(2) unfolding from_storage_document_def
    by (auto simp: m get simp del: non_reference.simps split: if_splits)
  have raw: "raw = ops" using shape by (auto simp: document_shape_def get split: if_splits)
  have ts: "mapR read_tool_document tools = Inr ts"
    using ts by (auto simp: read_tools_def get as_list_upto_def as_list_def split: if_splits)
  have "reference_free v" if "p \<in> set (rv_operations rv)" "v \<in> set (operation_ordinary p)" for p v
    using mapR_each [OF ops that(1)] mapR_each [OF ps [unfolded raw]] read_operation_free that(2) by blast
  moreover have "reference_free v" if "t \<in> set (rv_tools rv)" "v \<in> set (tool_ordinary t)" for t v
    using mapR_each [OF tools that(1)] mapR_each [OF ts] read_tool_free that(2) by blast
  moreover have "reference_free (auth_document (rv_auth rv))" if "rv_auth rv \<noteq> None"
    using read_auth_free auth that by (cases "rv_auth rv") auto
  moreover have "\<forall>v\<in>{PStr (sy_primary_key z), PMap (sy_field_mappings z), sy_items_pointer z}. reference_free v"
    if "rv_sync rv = Some z" for z
    using read_sync_free sync y that by metis
  moreover have "reference_free (PStr (rv_base_url rv))" "\<forall>h\<in>set (rv_allowed_hosts rv). reference_free (PStr h)"
    using nr [THEN non_reference_dest(1)] by simp_all
  ultimately show ?thesis unfolding ordinary_parts_def
    by (auto simp del: reference_free_simps split: option.splits)
qed

lemma canonical_same:
  assumes "revision_ok env rv" and "canonical_revision env rv = Inr rv'"
  shows "rv' = rv"
proof -
  obtain d where d: "storage_document rv = Inr d"
    and loaded: "from_storage_document env (rv_spec_id rv) (PInt (rv_revision rv)) (rv_tenant_id rv) (rv_connection_id rv)
       (PStr (rv_status rv)) d = Inr rv'"
    using assms(2) by (auto simp: canonical_revision_def)
  obtain n where "json_size (env_float env) d = Inr n" "n \<le> MAX_DOCUMENT_BYTES"
    using from_storage_size [OF loaded] by blast
  from stored_revision_reads_back [OF assms(1) d this loaded_document_free [OF d loaded]] loaded
  show ?thesis by simp
qed

end
