(* ===== verification/ToolTraffic.thy ===== *)
theory ToolTraffic
  imports DeclTool Canonical
begin

text \<open>
  How much a tool sends: \<open>calls_at_most\<close> counts the client calls of an action, and the interpretation
  \<open>traffic\<close> of \<open>session_relation\<close> the requests of each call.  And which revision it runs.
\<close>

section \<open>How many calls an action makes\<close>

definition calls_at_most :: "nat \<Rightarrow> (session, 'a) action \<Rightarrow> bool" where
  "calls_at_most n m \<longleftrightarrow> (\<forall>s r s'. m s = (r, s') \<longrightarrow> ss_calls s' \<le> ss_calls s + n)"

lemma calls_at_mostD: "calls_at_most n m \<Longrightarrow> m s = (r, s') \<Longrightarrow> ss_calls s' \<le> ss_calls s + n"
  by (simp add: calls_at_most_def)

lemma calls_pure: "calls_at_most n (pureA x)" "calls_at_most n (raiseA e)" "calls_at_most n (liftA q)"
  by (simp_all add: calls_at_most_def)

lemma calls_bind:
  assumes "calls_at_most n m" and "\<And>x. calls_at_most k (f x)"
  shows "calls_at_most (n + k) (bindA m f)"
  unfolding calls_at_most_def
proof (intro allI impI)
  fix s r s' assume run: "bindA m f s = (r, s')"
  obtain q s1 where m: "m s = (q, s1)" by (rule prod.exhaust)
  have le: "ss_calls s1 \<le> ss_calls s + n" by (rule calls_at_mostD [OF assms(1) m])
  show "ss_calls s' \<le> ss_calls s + (n + k)"
  proof (cases q)
    case (Inl e)
    then show ?thesis using run m le by (simp add: bindA_def)
  next
    case (Inr x)
    then have "f x s1 = (r, s')" using run m by (simp add: bindA_def)
    from calls_at_mostD [OF assms(2) this] le show ?thesis by simp
  qed
qed

lemma calls_more: "calls_at_most n m \<Longrightarrow> n \<le> k \<Longrightarrow> calls_at_most k m"
  by (fastforce simp: calls_at_most_def)

lemma calls_then: "calls_at_most n m \<Longrightarrow> (\<And>x. calls_at_most 0 (f x)) \<Longrightarrow> calls_at_most n (bindA m f)"
  using calls_bind [of n m 0 f] by simp

lemma calls_after: "calls_at_most 0 m \<Longrightarrow> (\<And>x. calls_at_most n (f x)) \<Longrightarrow> calls_at_most n (bindA m f)"
  using calls_bind [of 0 m n f] by simp

lemma calls_catch: "calls_at_most n m \<Longrightarrow> calls_at_most n (catchA m (\<lambda>e. raiseA (h e)))"
  by (auto simp: calls_at_most_def catchA_def split: prod.splits sum.splits)

lemma calls_call: "calls_at_most 1 (client_call w timeout verb url headers json_body page_count form_body allow)"
  by (auto simp: calls_at_most_def client_call_def split: prod.splits)

lemma calls_exchange: "calls_at_most 1 (exchange_oauth_token w timeout a cid secret)"
  unfolding exchange_oauth_token_def by (intro calls_then calls_call) (auto intro: calls_pure)

lemma calls_get_or_exchange:
  assumes "calls_at_most n exchange"
  shows "calls_at_most n (get_or_exchange w key exchange)"
  unfolding calls_at_most_def get_or_exchange_def
  using calls_at_mostD [OF assms] by (auto split: prod.splits ttask.splits) fastforce

lemma calls_auth_headers: "calls_at_most 1 (auth_headers w timeout scheme cx)"
proof -
  have token: "calls_at_most 1 (bindA (get_or_exchange w key (exchange_oauth_token w timeout a cid secret)) (\<lambda>token. pureA (f token)))"
    for key a cid secret and f :: "string \<Rightarrow> headers"
    by (intro calls_then calls_get_or_exchange calls_exchange calls_pure)
  have oauth: "calls_at_most 1 (bindA (liftA q) (\<lambda>(cid, secret, key).
      bindA (get_or_exchange w key (exchange_oauth_token w timeout a cid secret)) (\<lambda>token.
      pureA [(''Authorization'', ''Bearer '' @ token)])))" for q a
    by (rule calls_after [OF calls_pure(3)]) (auto simp: token [unfolded One_nat_def] split: prod.splits)
  show ?thesis by (cases scheme) (simp_all add: auth_headers_def calls_pure oauth del: append_Cons append_Nil One_nat_def)
qed

lemma calls_attempt: "calls_at_most 2 (attempt w timeout scheme cx rq declared page_count)"
  unfolding attempt_def using calls_bind [OF calls_auth_headers calls_call] by (simp add: numeral_2_eq_2)

lemma calls_send: "calls_at_most 4 (send_authorized w timeout scheme cx rq declared page_count)"
proof -
  have "calls_at_most 2 (if rs_status response \<noteq> 401 then pureA response
     else case oauth_cache_key w scheme cx of
       None \<Rightarrow> pureA response
     | Some key \<Rightarrow> bindA (discard_token key) (\<lambda>_. attempt w timeout scheme cx rq declared page_count))" for response
    by (auto intro!: calls_after calls_attempt calls_pure split: option.splits) (simp add: calls_at_most_def discard_token_def)
  from calls_bind [OF calls_attempt this] show ?thesis by (simp add: send_authorized_def)
qed

lemma calls_fetch: "calls_at_most 4 (fetch_page w timeout scheme cx rq declared page_count)"
  unfolding fetch_page_def by (intro calls_then calls_send) (auto intro: calls_pure split: option.splits)

lemma calls_more_pages:
  "calls_at_most (4 * length pages) (more_pages w timeout scheme cx p pg rq declared fp pages document collected)"
proof (induction pages arbitrary: document collected)
  case Nil
  then show ?case by (simp add: calls_pure)
next
  case (Cons page pages)
  show ?case
  proof (cases "int (length collected) \<ge> pg_max_items pg \<or> cursor_value document (pg_next_pointer pg) = None")
    case True
    then show ?thesis by (auto intro: calls_pure)
  next
    case False
    then obtain cursor where c: "\<not> int (length collected) \<ge> pg_max_items pg"
      "cursor_value document (pg_next_pointer pg) = Some cursor" by auto
    have rest: "calls_at_most (4 * length pages) (bindA (liftA (safe_output (wd_env w) p next_document)) (\<lambda>selected.
          let page_items = (case listed selected (pagination_items_field p) of Some vs \<Rightarrow> vs | None \<Rightarrow> []);
              combined = collected @ page_items;
              candidate = bounded_items (wd_env w) fp (pagination_items_field p) combined (pg_max_items pg) in
          if page_items = [] \<or> length candidate = length collected then pureA collected
          else if length candidate < min (length combined) (item_limit pg) then pureA candidate
          else more_pages w timeout scheme cx p pg rq declared fp pages next_document candidate))" for next_document
      by (rule calls_after) (auto simp: Let_def intro: calls_pure Cons.IH)
    show ?thesis
      unfolding more_pages.simps(2) c(2) option.case if_not_P [OF c(1)]
      using calls_after [OF calls_pure(3) calls_bind [OF calls_fetch rest]] by simp
  qed
qed

text \<open>The pages of an operation.\<close>

definition page_limit :: "operation \<Rightarrow> nat" where
  "page_limit p = (case op_pagination p of None \<Rightarrow> 1 | Some pg \<Rightarrow> max 1 (nat (pg_max_pages pg)))"

lemma calls_pages: "calls_at_most (4 * page_limit p) (execute_pages w timeout scheme cx p args)"
proof -
  have rest: "calls_at_most (4 * (page_limit p - 1)) (case op_pagination p of
       None \<Rightarrow> pureA first_page
     | Some pg \<Rightarrow>
         (if pg_max_pages pg \<le> 1 then pureA first_page
          else case listed first_page (pagination_items_field p) of
            Some first_items \<Rightarrow> paged_result w timeout scheme cx p pg rq declared first_page document first_items
          | None \<Rightarrow> pureA first_page))" for rq declared document first_page
  proof (cases "op_pagination p")
    case None
    then show ?thesis by (simp add: calls_pure)
  next
    case (Some pg)
    have "calls_at_most (4 * (page_limit p - 1)) (paged_result w timeout scheme cx p pg rq declared first_page document first_items)"
      if "\<not> pg_max_pages pg \<le> 1" for first_items
    proof -
      have le: "4 * length [2..pg_max_pages pg] \<le> 4 * (page_limit p - 1)" using that Some by (simp add: page_limit_def)
      have more: "calls_at_most (4 * (page_limit p - 1))
          (more_pages w timeout scheme cx p pg rq declared first_page [2..pg_max_pages pg] document collected)" for collected
        by (rule calls_more [OF calls_more_pages le])
      show ?thesis
        unfolding paged_result_def Let_def by (auto simp del: One_nat_def intro!: calls_then more calls_pure)
    qed
    then show ?thesis using Some by (auto simp: calls_pure split: option.splits)
  qed
  have "calls_at_most (4 + 4 * (page_limit p - 1)) (execute_pages w timeout scheme cx p args)"
    unfolding execute_pages_def
    by (rule calls_after [OF calls_pure(3)], rule calls_after [OF calls_pure(3)], rule calls_bind [OF calls_fetch],
      rule calls_after [OF calls_pure(3)], rule rest)
  moreover have "1 \<le> page_limit p" by (simp add: page_limit_def split: option.splits)
  ultimately show ?thesis by (simp add: diff_mult_distrib2)
qed

lemma calls_operation: "calls_at_most (4 * page_limit p) (execute_operation w timeout scheme cx p args)"
  unfolding execute_operation_def by (rule calls_catch [OF calls_pages])

lemma emit_audit_calls: "emit_step_audit w has_sink cx tkey a status code s = (r, s') \<Longrightarrow> ss_calls s' = ss_calls s"
  by (auto dest: emit_audit_state)

definition step_calls :: "revision \<Rightarrow> decl_step \<Rightarrow> nat" where
  "step_calls rv step = (case operation_for rv (st_operation step) of Inl _ \<Rightarrow> 0 | Inr p \<Rightarrow> 4 * page_limit p)"

lemma run_steps_calls:
  "run_steps w has_sink rv cx tkey args steps outputs active s = (res, active', s') \<Longrightarrow>
     ss_calls s' \<le> ss_calls s + sum_list (map (step_calls rv) steps)"
proof (induction steps arbitrary: outputs active s)
  case (Cons step steps)
  have ran: "ss_calls s1 \<le> ss_calls s + step_calls rv step"
    if "operation_for rv (st_operation step) = Inr p" "execute_operation w t (rv_auth rv) cx p sa s = (q, s1)" for p t sa q s1
    using calls_at_mostD [OF calls_operation that(2)] that(1) by (simp add: step_calls_def)
  from Cons.prems show ?case
  proof (cases rule: run_steps_Cons)
    case (operation p sa e)
    then show ?thesis using ran by fastforce
  next
    case (outcome p sa data)
    then show ?thesis using ran by fastforce
  next
    case (audit p sa data s1 e)
    then show ?thesis using ran [OF audit(1,3)] emit_audit_calls by fastforce
  next
    case (more p sa data s1 out s2)
    then show ?thesis using ran [OF more(1,3)] emit_audit_calls [OF more(5)] Cons.IH [OF more(6)] by simp
  qed simp_all
qed simp

lemma failed_tool_calls: "failed_tool w has_sink cx tkey active e s = (r, s') \<Longrightarrow> ss_calls s' = ss_calls s"
  by (auto simp: failed_tool_def audit_then_def bindA_def pureA_def liftA_def
      split: if_splits option.splits prod.splits sum.splits dest: emit_audit_calls)

lemma run_tool_calls:
  "run_tool w has_sink rv cx tool args s = (r, s') \<Longrightarrow>
     ss_calls s' \<le> ss_calls s + sum_list (map (step_calls rv) (dt_steps tool))"
  by (auto simp: run_tool_def split: prod.splits sum.splits dest!: run_steps_calls failed_tool_calls)


section \<open>How many requests a call sends\<close>

text \<open>Each client call sends at most eleven requests.\<close>

definition traffic_ok :: "session \<Rightarrow> session \<Rightarrow> bool" where
  "traffic_ok s s' \<longleftrightarrow> (client_ok (ss_client s) \<longrightarrow> client_ok (ss_client s') \<and> ss_calls s \<le> ss_calls s' \<and>
     length (ss_sent s') + 11 * ss_calls s \<le> length (ss_sent s) + 11 * ss_calls s')"

lemma http_send_traffic:
  assumes "http_send env nw cl m url hs jb pc fb ar = (outcome, cl', sents)" and "client_ok cl"
  shows "client_ok cl' \<and> length sents \<le> 11"
  using assms(1)
proof (cases rule: http_send_run)
  case (refused e)
  then show ?thesis using assms by simp
next
  case (sent ob g)
  have c: "guard_inv (cl_guard cl)" "int 0 \<le> cl_max_redirects cl" "cl_max_redirects cl \<le> 10"
    using assms(2) by (simp_all add: client_ok_def)
  from request_loop_ok [OF sent(3) c(1,2)] c(3) assms(2) sent(2) show ?thesis by (auto simp: client_ok_def loop_result_ok_def)
qed

interpretation traffic: session_relation w traffic_ok for w
proof unfold_locales
  show "traffic_ok s s'"
    if "client_call w timeout verb url headers json_body page_count form_body allow s = (r, s')"
    for timeout verb url headers json_body page_count form_body allow s r s'
    using that http_send_traffic [of "wd_env w" "wd_network w (ss_calls s)" "ss_client s"]
    by (fastforce simp: client_call_def traffic_ok_def split: prod.splits)
qed (auto simp: traffic_ok_def)

lemma traffic_audits: "traffic_ok s (s'\<lparr>ss_audits := es\<rparr>) = traffic_ok s s'"
  by (simp add: traffic_ok_def)

lemma emit_traffic: "emit_step_audit w has_sink cx tkey a status code s1 = (r, s') \<Longrightarrow> traffic_ok s s1 \<Longrightarrow> traffic_ok s s'"
  using emit_audit_state traffic_audits by metis

lemma run_steps_traffic:
  "run_steps w has_sink rv cx tkey args steps outputs active s = (res, active', s') \<Longrightarrow> traffic_ok s s'"
proof (induction steps arbitrary: outputs active s)
  case (Cons step steps)
  note ran = traffic.confinedD [OF traffic.confined_operation]
  from Cons.prems show ?case
  proof (cases rule: run_steps_Cons)
    case (audit p sa data s1 e)
    show ?thesis by (rule emit_traffic [OF audit(4) ran [OF audit(3)]])
  next
    case (more p sa data s1 out s2)
    show ?thesis
      by (rule traffic.R_trans [OF emit_traffic [OF more(5) ran [OF more(3)]] Cons.IH [OF more(6)]])
  next
    case (operation p sa e)
    show ?thesis by (rule ran [OF operation(3)])
  next
    case (outcome p sa data)
    show ?thesis by (rule ran [OF outcome(3)])
  qed (simp_all add: traffic.R_refl)
qed (simp add: traffic.R_refl)

lemma failed_tool_traffic: "failed_tool w has_sink cx tkey active e s1 = (r, s') \<Longrightarrow> traffic_ok s s1 \<Longrightarrow> traffic_ok s s'"
  by (auto simp: failed_tool_def audit_then_def bindA_def pureA_def liftA_def
      split: if_splits option.splits prod.splits sum.splits dest: emit_traffic)

lemma run_tool_traffic: "run_tool w has_sink rv cx tool args s = (r, s') \<Longrightarrow> traffic_ok s s'"
  by (auto simp: run_tool_def split: prod.splits sum.splits dest: run_steps_traffic failed_tool_traffic)

text \<open>C29: A call of a declared tool ends after at most four client calls per page of each of its steps' operations
  (a token and a request, and both again after a 401), of which each sends at most eleven requests.\<close>

theorem tool_traffic_bounded:
  assumes "tool_for rv name = Inr tool" and "client_ok (ss_client s)"
    and "execute_declared w has_sink rows rv cx name args s = (r, s')"
  shows "ss_calls s' \<le> ss_calls s + sum_list (map (step_calls rv) (dt_steps tool)) \<and>
    length (ss_sent s') \<le> length (ss_sent s) + 11 * sum_list (map (step_calls rv) (dt_steps tool))"
  using assms(3)
proof (cases rule: execute_cases)
  case (ran tool' m)
  then have run: "run_tool w has_sink rv cx tool m s = (r, s')" using assms(1) by simp
  have calls: "ss_calls s' \<le> ss_calls s + sum_list (map (step_calls rv) (dt_steps tool))" by (rule run_tool_calls [OF run])
  moreover have "length (ss_sent s') + 11 * ss_calls s \<le> length (ss_sent s) + 11 * ss_calls s'"
    using run_tool_traffic [OF run] assms(2) by (simp add: traffic_ok_def)
  ultimately show ?thesis by linarith
qed simp_all

lemma tool_traffic_bounded_witness:
  "sum_list (map (step_calls demo_revision) (dt_steps demo_copy)) = 8 \<and>
    (\<exists>s' :: session. ss_calls s' \<le> 8 \<and> length (ss_sent s') \<le> 88 \<and>
      ss_sent s' = [sent_to ''GET'' ''https://api.example.com/v1/items/a%20b'' PNone,
        sent_to ''POST'' ''https://api.example.com/v1/items'' (pdict [(''id'', PInt 7)])])"
proof -
  have eight: "sum_list (map (step_calls demo_revision) (dt_steps demo_copy)) = 8" by code_simp
  obtain s' where run: "execute_declared demo_world True no_rows demo_revision demo_context ''copy_item''
      demo_args demo_session = (Inr (exec_done [(''done'', PBool True)]), s')"
    and sent: "ss_sent s' = [sent_to ''GET'' ''https://api.example.com/v1/items/a%20b'' PNone,
        sent_to ''POST'' ''https://api.example.com/v1/items'' (pdict [(''id'', PInt 7)])]"
    using observed_run [OF demo_executes] by blast
  have "client_ok (ss_client demo_session)" using demo_client_ok by (simp add: demo_session_def)
  from tool_traffic_bounded [OF demo_copy_found this run] eight sent show ?thesis
    by (intro conjI exI [of _ s']) (auto simp: demo_session_def)
qed


section \<open>The connector keeps the revision\<close>

text \<open>A connector runs exactly the revision and the client it was made with: the constructor stores the
  revision and loads it again, which either fails or gives it back.\<close>

theorem connector_revision_kept:
  assumes "revision_ok env rv" and "make_connector env rv cl allow_test_transport = Inr dc"
  shows "dc_revision dc = rv \<and> dc_client dc = cl"
  using assms(2) canonical_same [OF assms(1)]
  by (auto simp: make_connector_def validate_revision_def split: if_splits)

lemma connector_revision_kept_witness: "dc_revision demo_connector = demo_revision"
  using connector_revision_kept [OF demo_revision_ok demo_connector_made] by blast

end
