(* ===== verification/DeclStore.thy ===== *)
theory DeclStore
  imports DeclSession
begin

text \<open>
  The records and page cursors of the synchronisation of a declared resource (\<open>connections/store.py\<close>).  The
  database is a parameter: the collation of its key columns as the weights a key compares by, whether a
  transaction fails, and Python's SHA-256 and JSON parser.  A transaction that fails changes nothing.
\<close>

section \<open>The tables\<close>

type_synonym weights = "nat list"

record database =
  dx_collate :: "string \<Rightarrow> weights"
  dx_fault :: "nat \<Rightarrow> exc option"
  dx_sha256 :: "string \<Rightarrow> string"
  dx_loads :: "string \<Rightarrow> pyval option"
  dx_float :: "rat \<Rightarrow> string"

text \<open>
  \<open>declarative_record\<close> and \<open>connection_sync_state\<close>, by the weights of their primary keys, and the number of
  transactions so far.
\<close>

record tables =
  tb_records :: "(weights \<times> weights \<times> weights, string) dict"
  tb_states :: "(weights \<times> weights, string) dict"
  tb_count :: nat

definition transaction :: "database \<Rightarrow> (tables \<Rightarrow> 'a \<times> tables) \<Rightarrow> (tables, 'a) action" where
  "transaction db body t =
     (let t' = t\<lparr>tb_count := Suc (tb_count t)\<rparr> in
      case dx_fault db (tb_count t) of
        Some e \<Rightarrow> (Inl e, t')
      | None \<Rightarrow> (case body t' of (x, t'') \<Rightarrow> (Inr x, t'')))"

section \<open>JSON with spaces\<close>

text \<open>\<open>json.dumps(v, ensure_ascii=False, allow_nan=False)\<close>\<close>

fun json_spaced :: "(rat \<Rightarrow> string) \<Rightarrow> pyval \<Rightarrow> string option"
  and spaced_items :: "(rat \<Rightarrow> string) \<Rightarrow> pyval list \<Rightarrow> string list option"
  and spaced_members :: "(rat \<Rightarrow> string) \<Rightarrow> (pyval \<times> pyval) list \<Rightarrow> string list option" where
  "json_spaced fr (PList vs) = map_option (\<lambda>ws. ''['' @ join_with '', '' ws @ '']'') (spaced_items fr vs)"
| "json_spaced fr (PTuple vs) = map_option (\<lambda>ws. ''['' @ join_with '', '' ws @ '']'') (spaced_items fr vs)"
| "json_spaced fr (PMap m) = map_option (\<lambda>ws. ''{'' @ join_with '', '' ws @ ''}'') (spaced_members fr m)"
| "json_spaced fr v = json_dumps fr v"
| "spaced_items fr [] = Some []"
| "spaced_items fr (v # vs) =
     (case json_spaced fr v of None \<Rightarrow> None | Some w \<Rightarrow> map_option (Cons w) (spaced_items fr vs))"
| "spaced_members fr [] = Some []"
| "spaced_members fr ((k, v) # m) =
     (case json_key fr k of None \<Rightarrow> None
      | Some ks \<Rightarrow>
        (case json_spaced fr v of None \<Rightarrow> None
         | Some w \<Rightarrow> map_option (Cons (json_string ks @ '': '' @ w)) (spaced_members fr m)))"

section \<open>Records\<close>

definition MAX_DECLARATIVE_RECORD_KEY :: nat where "MAX_DECLARATIVE_RECORD_KEY = 255"
definition MAX_DECLARATIVE_PAYLOAD_BYTES :: nat where "MAX_DECLARATIVE_PAYLOAD_BYTES = 65536"
definition MAX_DECLARATIVE_READ_LIMIT :: nat where "MAX_DECLARATIVE_READ_LIMIT = 1000"

text \<open>The row of a record: its key and the text of its payload, \<open>None\<close> where it is skipped.\<close>

definition record_row :: "database \<Rightarrow> (pyval \<times> pyval) list \<Rightarrow> (string \<times> string) option" where
  "record_row db m =
     (case (mget_none m ''record_key'', mget_none m ''payload'') of
        (PStr key, PMap payload) \<Rightarrow>
          (if key = [] \<or> length key > MAX_DECLARATIVE_RECORD_KEY \<or> contains_sensitive 0 (PMap payload) then None
           else case json_spaced (dx_float db) (PMap payload) of
             None \<Rightarrow> None
           | Some w \<Rightarrow> (if utf8_len w > MAX_DECLARATIVE_PAYLOAD_BYTES then None else Some (key, w)))
      | _ \<Rightarrow> None)"

definition record_id :: "database \<Rightarrow> string \<Rightarrow> string \<Rightarrow> string \<Rightarrow> weights \<times> weights \<times> weights" where
  "record_id db connection_id resource_key key =
     (dx_collate db connection_id, dx_collate db resource_key, dx_collate db key)"

text \<open>\<open>INSERT .. ON DUPLICATE KEY UPDATE\<close> of several rows\<close>

definition put_rows ::
  "database \<Rightarrow> string \<Rightarrow> string \<Rightarrow> (string \<times> string) list \<Rightarrow> (weights \<times> weights \<times> weights, string) dict
     \<Rightarrow> (weights \<times> weights \<times> weights, string) dict" where
  "put_rows db connection_id resource_key rows table =
     fold (\<lambda>(key, payload). AList.update (record_id db connection_id resource_key key) payload) rows table"

definition upsert_declarative_records ::
  "database \<Rightarrow> string \<Rightarrow> string \<Rightarrow> (pyval \<times> pyval) list list \<Rightarrow> (tables, int) action" where
  "upsert_declarative_records db connection_id resource_key records =
     (let rows = List.map_filter (record_row db) records in
      if rows = [] then pureA 0
      else transaction db (\<lambda>t.
        (int (length rows), t\<lparr>tb_records := put_rows db connection_id resource_key rows (tb_records t)\<rparr>)))"

definition read_limit :: "pyval \<Rightarrow> nat" where
  "read_limit v =
     (case v of
        PInt i \<Rightarrow> (if i < 1 then MAX_DECLARATIVE_READ_LIMIT else min (nat i) MAX_DECLARATIVE_READ_LIMIT)
      | _ \<Rightarrow> MAX_DECLARATIVE_READ_LIMIT)"

definition loaded_payload :: "database \<Rightarrow> string \<Rightarrow> (pyval \<times> pyval) list option" where
  "loaded_payload db w = (case dx_loads db w of Some (PMap m) \<Rightarrow> Some m | _ \<Rightarrow> None)"

definition selected_rows :: "database \<Rightarrow> string \<Rightarrow> string \<Rightarrow> tables \<Rightarrow> ((weights \<times> weights \<times> weights) \<times> string) list" where
  "selected_rows db connection_id resource_key t =
     sort_key (\<lambda>((_, _, key), _). key)
       (filter (\<lambda>((c, r, _), _). c = dx_collate db connection_id \<and> r = dx_collate db resource_key) (tb_records t))"

definition list_declarative_records ::
  "database \<Rightarrow> string \<Rightarrow> string \<Rightarrow> pyval \<Rightarrow> (tables, (pyval \<times> pyval) list list) action" where
  "list_declarative_records db connection_id resource_key limit =
     transaction db (\<lambda>t.
       (List.map_filter (\<lambda>(_, w). loaded_payload db w)
          (take (read_limit limit) (selected_rows db connection_id resource_key t)), t))"

section \<open>Cursors\<close>

definition MAX_DECLARATIVE_SYNC_CURSOR :: nat where "MAX_DECLARATIVE_SYNC_CURSOR = 512"

text \<open>\<open>casefold\<close> of a Latin-1 string gives \<open>service\<close> exactly when \<open>lower\<close> does.\<close>

definition validate_connection_id :: "string \<Rightarrow> unit result" where
  "validate_connection_id connection_id =
     (if py_lower connection_id = ''service'' then Inl (Exc ValueError ''reserved connection_id'') else Inr ())"

definition declarative_sync_state_key :: "database \<Rightarrow> string \<Rightarrow> string result" where
  "declarative_sync_state_key db resource_key =
     (if resource_key = [] \<or> length resource_key > 128
      then Inl (Exc ValueError ''invalid declarative resource key'')
      else Inr (''decl_sync_'' @ take 54 (dx_sha256 db resource_key)))"

definition cursor_ok :: "string \<Rightarrow> bool" where
  "cursor_ok cursor \<longleftrightarrow> cursor \<noteq> [] \<and> length cursor \<le> MAX_DECLARATIVE_SYNC_CURSOR"

definition cursor_of_state :: "database \<Rightarrow> string \<Rightarrow> string option \<Rightarrow> string option" where
  "cursor_of_state db resource_key raw =
     (case (case raw of None \<Rightarrow> None | Some w \<Rightarrow> dx_loads db w) of
        Some (PMap state) \<Rightarrow>
          (if mget_none state ''resource_key'' \<noteq> PStr resource_key then None
           else case mget_none state ''cursor'' of
             PStr cursor \<Rightarrow> (if cursor_ok cursor then Some cursor else None)
           | _ \<Rightarrow> None)
      | _ \<Rightarrow> None)"

definition get_declarative_sync_cursor :: "database \<Rightarrow> string \<Rightarrow> string \<Rightarrow> (tables, string option) action" where
  "get_declarative_sync_cursor db connection_id resource_key =
     bindA (liftA (validate_connection_id connection_id)) (\<lambda>_.
     bindA (liftA (declarative_sync_state_key db resource_key)) (\<lambda>state_key.
     transaction db (\<lambda>t. (cursor_of_state db resource_key
       (map_of (tb_states t) (dx_collate db connection_id, dx_collate db state_key)), t))))"

definition cursor_state :: "database \<Rightarrow> string \<Rightarrow> string \<Rightarrow> string" where
  "cursor_state db resource_key cursor =
     (case json_dumps (dx_float db) (pdict [(''resource_key'', PStr resource_key), (''cursor'', PStr cursor)]) of
        Some w \<Rightarrow> w | None \<Rightarrow> [])"

text \<open>An invalid cursor is found inside the transaction, which is rolled back.\<close>

definition save_declarative_sync_cursor :: "database \<Rightarrow> string \<Rightarrow> string \<Rightarrow> string option \<Rightarrow> (tables, unit) action" where
  "save_declarative_sync_cursor db connection_id resource_key cursor =
     bindA (liftA (validate_connection_id connection_id)) (\<lambda>_.
     bindA (liftA (declarative_sync_state_key db resource_key)) (\<lambda>state_key.
     let key = (dx_collate db connection_id, dx_collate db state_key) in
     case cursor of
       None \<Rightarrow> transaction db (\<lambda>t. ((), t\<lparr>tb_states := AList.delete key (tb_states t)\<rparr>))
     | Some c \<Rightarrow>
         (if \<not> cursor_ok c
          then bindA (transaction db (\<lambda>t. ((), t))) (\<lambda>_. raiseA (Exc ValueError ''invalid declarative sync cursor''))
          else transaction db (\<lambda>t.
            ((), t\<lparr>tb_states := AList.update key (cursor_state db resource_key c) (tb_states t)\<rparr>)))))"

text \<open>How the kernel compares with the limits.\<close>

lemma store_limits_code [code_unfold]:
  "(MAX_DECLARATIVE_PAYLOAD_BYTES < n) = ((65536 :: int) < int n)" "(MAX_DECLARATIVE_RECORD_KEY < n) = ((255 :: int) < int n)"
  "(n \<le> MAX_DECLARATIVE_SYNC_CURSOR) = (int n \<le> (512 :: int))"
  "(MAX_CURSOR_LENGTH < n) = ((512 :: int) < int n)" "(MAX_RECORD_KEY_LENGTH < n) = ((255 :: int) < int n)"
  by (simp_all add: MAX_DECLARATIVE_PAYLOAD_BYTES_def MAX_DECLARATIVE_RECORD_KEY_def MAX_DECLARATIVE_SYNC_CURSOR_def
    MAX_CURSOR_LENGTH_def MAX_RECORD_KEY_LENGTH_def)

end
