(* ===== verification/DeclSync.thy ===== *)
theory DeclSync
  imports DeclStore DeclExec
begin

text \<open>
  The synchronisation of a declared resource (\<open>sync\<close> and \<open>_sync_paginated\<close> of
  \<open>declarative/connector.py\<close>): the pages are fetched on the session, their records and the cursor of the next
  page go to the tables.
\<close>

section \<open>Session and tables\<close>

record sync_state =
  yn_session :: session
  yn_tables :: tables

definition on_session :: "(session, 'a) action \<Rightarrow> (sync_state, 'a) action" where
  "on_session m st = (case m (yn_session st) of (r, s) \<Rightarrow> (r, st\<lparr>yn_session := s\<rparr>))"

definition on_tables :: "(tables, 'a) action \<Rightarrow> (sync_state, 'a) action" where
  "on_tables m st = (case m (yn_tables st) of (r, t) \<Rightarrow> (r, st\<lparr>yn_tables := t\<rparr>))"

section \<open>Pages\<close>

record sync_counts =
  yc_pulled :: int
  yc_stored :: int
  yc_skipped :: int

definition no_counts :: sync_counts where
  "no_counts = \<lparr>yc_pulled = 0, yc_stored = 0, yc_skipped = 0\<rparr>"

definition record_map :: "string \<times> (pyval \<times> pyval) list \<Rightarrow> (pyval \<times> pyval) list" where
  "record_map r = [(PStr ''record_key'', PStr (fst r)), (PStr ''payload'', PMap (snd r))]"

text \<open>The page cut to the items that are left.\<close>

definition cut_page ::
  "operation \<Rightarrow> pagination \<Rightarrow> int \<Rightarrow> (string \<times> pyval) list \<Rightarrow> pyval list \<Rightarrow> (string \<times> pyval) list" where
  "cut_page p pg pulled selected items =
     (let remaining = nat (max 0 (pg_max_items pg - pulled)) in
      if length items > remaining
      then AList.update (pagination_items_field p) (PList (take remaining items)) selected else selected)"

definition add_page :: "sync_counts \<Rightarrow> int \<Rightarrow> int \<Rightarrow> sync_counts" where
  "add_page counts pulled stored =
     \<lparr>yc_pulled = yc_pulled counts + pulled, yc_stored = yc_stored counts + stored,
      yc_skipped = yc_skipped counts + (pulled - stored)\<rparr>"

text \<open>
  What is done with a fetched page: its records are stored, then the cursor of the next page is saved, or cleared
  after the last one.  It leaves the counts, that cursor and whether the page was empty.
\<close>

definition store_page ::
  "'d world \<Rightarrow> database \<Rightarrow> conn_context \<Rightarrow> string \<Rightarrow> sync_spec \<Rightarrow> operation \<Rightarrow> pagination \<Rightarrow> sync_counts
     \<Rightarrow> pyval \<Rightarrow> (sync_state, sync_counts \<times> string option \<times> bool) action" where
  "store_page w db cx resource sy p pg counts document =
     bindA (liftA (safe_output (wd_env w) p document)) (\<lambda>selected.
     case listed selected (pagination_items_field p) of
       None \<Rightarrow> raiseA (step_failure ''mapping_error'')
     | Some items \<Rightarrow>
         (case project_records sy p (cut_page p pg (yc_pulled counts) selected items) of (pulled, records) \<Rightarrow>
          bindA (on_tables (upsert_declarative_records db (cx_connection cx) resource (map record_map records))) (\<lambda>stored.
          let cursor = cursor_value document (pg_next_pointer pg) in
          bindA (on_tables (save_declarative_sync_cursor db (cx_connection cx) resource cursor)) (\<lambda>_.
          pureA (add_page counts pulled stored, cursor, items = [])))))"

fun sync_pages ::
  "'d world \<Rightarrow> database \<Rightarrow> auth_scheme option \<Rightarrow> conn_context \<Rightarrow> string \<Rightarrow> sync_spec \<Rightarrow> operation \<Rightarrow> pagination
     \<Rightarrow> headers \<Rightarrow> int list \<Rightarrow> http_request \<Rightarrow> sync_counts \<Rightarrow> (sync_state, sync_counts) action" where
  "sync_pages w db scheme cx resource sy p pg declared [] rq counts = pureA counts"
| "sync_pages w db scheme cx resource sy p pg declared (page # pages) rq counts =
     bindA (on_session (fetch_page w (op_timeout p) scheme cx rq declared page)) (\<lambda>document.
     bindA (store_page w db cx resource sy p pg counts document) (\<lambda>(counts', cursor, nothing).
     case cursor of
       None \<Rightarrow> pureA counts'
     | Some c \<Rightarrow>
         (if yc_pulled counts' \<ge> pg_max_items pg \<or> nothing then pureA counts'
          else bindA (liftA (cursor_request pg rq c)) (\<lambda>request.
            sync_pages w db scheme cx resource sy p pg declared pages request counts'))))"

definition persisted_cursor :: "string option \<Rightarrow> string option" where
  "persisted_cursor raw = normalize_cursor (case raw of None \<Rightarrow> PNone | Some c \<Rightarrow> PStr c)"

definition sync_paginated ::
  "'d world \<Rightarrow> database \<Rightarrow> auth_scheme option \<Rightarrow> conn_context \<Rightarrow> string \<Rightarrow> sync_spec \<Rightarrow> operation \<Rightarrow> pagination
     \<Rightarrow> (sync_state, sync_counts) action" where
  "sync_paginated w db scheme cx resource sy p pg =
     bindA (liftA (build_request (wd_env w) p (PMap []))) (\<lambda>rq.
     bindA (liftA (declared_headers (wd_env w) p [])) (\<lambda>declared.
     bindA (on_tables (get_declarative_sync_cursor db (cx_connection cx) resource)) (\<lambda>raw.
     bindA (liftA (case persisted_cursor raw of None \<Rightarrow> Inr rq | Some c \<Rightarrow> cursor_request pg rq c)) (\<lambda>request.
     sync_pages w db scheme cx resource sy p pg declared [1..pg_max_pages pg] request no_counts))))"

section \<open>sync\<close>

record sync_result =
  yr_connection :: string
  yr_resource :: string
  yr_counts :: sync_counts
  yr_status :: string

definition sync_done :: "conn_context \<Rightarrow> string \<Rightarrow> sync_counts \<Rightarrow> sync_result" where
  "sync_done cx resource counts =
     \<lparr>yr_connection = cx_connection cx, yr_resource = resource, yr_counts = counts,
      yr_status = (if yc_skipped counts \<noteq> 0 then ''partial'' else ''ok'')\<rparr>"

definition sync_timed_out :: "conn_context \<Rightarrow> string \<Rightarrow> sync_result" where
  "sync_timed_out cx resource =
     \<lparr>yr_connection = cx_connection cx, yr_resource = resource, yr_counts = no_counts, yr_status = ''error''\<rparr>"

definition sync_declared ::
  "'d world \<Rightarrow> database \<Rightarrow> revision \<Rightarrow> conn_context \<Rightarrow> string \<Rightarrow> (sync_state, sync_result) action" where
  "sync_declared w db rv cx resource =
     bindA (liftA (revision_for_context rv cx)) (\<lambda>_.
     case rv_sync rv of
       None \<Rightarrow> raiseA (spec_error ''unknown declarative sync resource'')
     | Some sy \<Rightarrow>
         (if resource \<noteq> sy_resource_key sy then raiseA (spec_error ''unknown declarative sync resource'')
          else bindA (liftA (operation_for rv (sy_operation_key sy))) (\<lambda>p.
            if multi_page p
            then catchA (bindA (sync_paginated w db (rv_auth rv) cx resource sy p (the (op_pagination p)))
                          (\<lambda>counts. pureA (sync_done cx resource counts)))
                   (\<lambda>e. if e = deadline \<or> exc_kind e = TimeoutError
                        then pureA (sync_timed_out cx resource) else raiseA e)
            else bindA (on_session (execute_operation w (op_timeout p) (rv_auth rv) cx p [])) (\<lambda>document.
              case project_records sy p document of (pulled, records) \<Rightarrow>
              bindA (on_tables (upsert_declarative_records db (cx_connection cx) resource (map record_map records)))
                (\<lambda>stored. pureA (sync_done cx resource (add_page no_counts pulled stored)))))))"

text \<open>\<open>_stored_read\<close> over the tables.\<close>

definition stored_rows_of :: "database \<Rightarrow> tables \<Rightarrow> stored_rows" where
  "stored_rows_of db t connection_id resource =
     (case fst (list_declarative_records db connection_id resource (PInt (int MAX_DECLARATIVE_READ_LIMIT)) t) of
        Inl e \<Rightarrow> Inl e
      | Inr payloads \<Rightarrow> Inr (map (map (\<lambda>(k, v). (case k of PStr s \<Rightarrow> s | _ \<Rightarrow> [], v))) payloads))"

end
