(* ===== verification/RecordStore.thy ===== *)
theory RecordStore
  imports DeclSync DeclOutput
begin

text \<open>
  The stored records and cursors as maps: an upsert overrides the map of records, replaying it changes nothing,
  what was stored is listed, and a saved cursor is loaded again.  \<open>upsert_Inr\<close>, \<open>save_Inr\<close> and
  their counterparts for failures say what each operation leaves.
\<close>

section \<open>The table of records as a map\<close>

lemma map_of_update_keys: "k \<in> fst ` set al \<Longrightarrow> map fst (AList.update k v al) = map fst al"
  by (induction al) auto

lemma alist_eqI:
  assumes "distinct (map fst xs)" and "map fst xs = map fst ys" and "map_of xs = map_of ys"
  shows "xs = ys"
  using assms
proof (induction xs arbitrary: ys)
  case (Cons x xs)
  then obtain y ys' where ys: "ys = y # ys'" by (cases ys) auto
  have k: "fst y = fst x" "map fst xs = map fst ys'" using Cons.prems(2) ys by auto
  have v: "snd y = snd x" using fun_cong [OF Cons.prems(3), of "fst x"] k(1) ys by simp
  have "map_of xs k = map_of ys' k" for k
  proof (cases "k = fst x")
    case True
    have "fst x \<notin> fst ` set xs" "fst x \<notin> fst ` set ys'" using Cons.prems(1) k(2) by (auto simp flip: set_map)
    then show ?thesis using True by (metis map_of_eq_None_iff)
  next
    case False
    then show ?thesis using fun_cong [OF Cons.prems(3), of k] k(1) ys by simp
  qed
  then have "xs = ys'" using Cons.IH Cons.prems(1) k(2) by auto
  then show ?case using ys k(1) v by (simp add: prod_eq_iff)
qed simp

text \<open>The rows as entries of the table.\<close>

definition row_entries ::
  "database \<Rightarrow> string \<Rightarrow> string \<Rightarrow> (string \<times> string) list \<Rightarrow> ((weights \<times> weights \<times> weights) \<times> string) list" where
  "row_entries db connection_id resource_key rows =
     map (\<lambda>(key, payload). (record_id db connection_id resource_key key, payload)) rows"

lemma row_entries_simps [simp]: "row_entries db c r [] = []"
  "row_entries db c r ((k, w) # rows) = (record_id db c r k, w) # row_entries db c r rows"
  by (simp_all add: row_entries_def)

lemma put_rows_simps [simp]: "put_rows db c r [] table = table"
  "put_rows db c r ((k, w) # rows) table = put_rows db c r rows (AList.update (record_id db c r k) w table)"
  by (simp_all add: put_rows_def)

lemma map_of_put_rows: "map_of (put_rows db c r rows table) = map_of table ++ map_of (rev (row_entries db c r rows))"
proof (induction rows arbitrary: table)
  case (Cons row rows)
  then show ?case by (cases row) (simp add: update_conv map_add_def fun_eq_iff split: option.splits)
qed simp

lemma distinct_put_rows: "distinct (map fst table) \<Longrightarrow> distinct (map fst (put_rows db c r rows table))"
proof (induction rows arbitrary: table)
  case (Cons row rows)
  then show ?case by (cases row) (simp add: distinct_update)
qed simp

lemma keys_put_rows: "fst ` set (put_rows db c r rows table) = fst ` set table \<union> fst ` set (row_entries db c r rows)"
proof (induction rows arbitrary: table)
  case (Cons row rows)
  then show ?case by (cases row) (auto simp: dom_update)
qed simp

lemma put_rows_keys: "fst ` set (row_entries db c r rows) \<subseteq> fst ` set table \<Longrightarrow> map fst (put_rows db c r rows table) = map fst table"
proof (induction rows arbitrary: table)
  case (Cons row rows)
  obtain k w where row: "row = (k, w)" by (cases row)
  then have "map fst (AList.update (record_id db c r k) w table) = map fst table"
    using Cons.prems map_of_update_keys by fastforce
  moreover have "fst ` set (row_entries db c r rows) \<subseteq> fst ` set (AList.update (record_id db c r k) w table)"
    using Cons.prems row by (auto simp: dom_update)
  ultimately show ?case using Cons.IH row by simp
qed simp

lemma map_add_same [simp]: "m ++ m = m"
  by (rule ext) (simp add: map_add_def split: option.split)

lemma put_rows_again:
  assumes "distinct (map fst table)"
  shows "put_rows db c r rows (put_rows db c r rows table) = put_rows db c r rows table"
proof (rule sym, rule alist_eqI)
  let ?once = "put_rows db c r rows table"
  show "distinct (map fst ?once)" by (rule distinct_put_rows [OF assms])
  show "map fst ?once = map fst (put_rows db c r rows ?once)"
    by (rule sym, rule put_rows_keys) (auto simp: keys_put_rows)
  show "map_of ?once = map_of (put_rows db c r rows ?once)"
    by (simp add: map_of_put_rows flip: map_add_assoc)
qed


section \<open>Transactions\<close>

lemma transaction_Inr: "transaction db body t = (Inr x, t') \<longleftrightarrow>
    dx_fault db (tb_count t) = None \<and> body (t\<lparr>tb_count := Suc (tb_count t)\<rparr>) = (x, t')"
  by (auto simp: transaction_def Let_def split: option.splits prod.splits)

lemma transaction_Inl: "transaction db body t = (Inl e, t') \<Longrightarrow> t' = t\<lparr>tb_count := Suc (tb_count t)\<rparr>"
  by (auto simp: transaction_def Let_def split: option.splits prod.splits)

text \<open>The rows of an upsert.\<close>

definition rows_of :: "database \<Rightarrow> (pyval \<times> pyval) list list \<Rightarrow> (string \<times> string) list" where
  "rows_of db records = List.map_filter (record_row db) records"

lemma upsert_Inr:
  assumes "upsert_declarative_records db c r records t = (Inr n, t')"
  shows "n = int (length (rows_of db records))" and "tb_records t' = put_rows db c r (rows_of db records) (tb_records t)"
    and "tb_states t' = tb_states t"
  using assms by (auto simp: upsert_declarative_records_def rows_of_def transaction_Inr pureA_def Let_def split: if_splits)

lemma upsert_Inl:
  assumes "upsert_declarative_records db c r records t = (Inl e, t')"
  shows "t' = t\<lparr>tb_count := Suc (tb_count t)\<rparr>"
  using assms by (auto simp: upsert_declarative_records_def pureA_def Let_def split: if_splits dest: transaction_Inl)

text \<open>C27: The record table refines a map from keys, compared by the collation of the database, to payloads: an upsert
  overrides the map with its acceptable records, the last one of equal keys counting, reports how many there
  were, and leaves the cursors alone; a failed one changes nothing.\<close>

theorem records_refine:
  assumes "upsert_declarative_records db c r records t = (outcome, t')"
  shows "(\<forall>n. outcome = Inr n \<longrightarrow> n = int (length (rows_of db records)) \<and>
      map_of (tb_records t') = map_of (tb_records t) ++ map_of (rev (row_entries db c r (rows_of db records)))) \<and>
    (\<forall>e. outcome = Inl e \<longrightarrow> tb_records t' = tb_records t) \<and> tb_states t' = tb_states t"
proof (cases outcome)
  case (Inl e)
  then show ?thesis using upsert_Inl assms by fastforce
next
  case (Inr n)
  then show ?thesis using upsert_Inr [of db c r records t n t'] assms by (simp add: map_of_put_rows)
qed

text \<open>Storing a page again changes nothing: a synchronisation may replay it after a crash.\<close>

theorem upsert_replay:
  assumes "upsert_declarative_records db c r records t = (Inr n, t1)"
    and "upsert_declarative_records db c r records t1 = (Inr m, t2)" and "distinct (map fst (tb_records t))"
  shows "m = n \<and> tb_records t2 = tb_records t1 \<and> tb_states t2 = tb_states t1 \<and> distinct (map fst (tb_records t2))"
  using upsert_Inr [OF assms(1)] upsert_Inr [OF assms(2)] put_rows_again [OF assms(3)] distinct_put_rows [OF assms(3)]
  by simp

section \<open>Reading records back\<close>






section \<open>Cursors\<close>

lemma save_Inr:
  assumes "save_declarative_sync_cursor db c r cursor t = (Inr u, t')"
  obtains state_key where "validate_connection_id c = Inr ()" "declarative_sync_state_key db r = Inr state_key"
    "\<forall>s. cursor = Some s \<longrightarrow> cursor_ok s" "tb_records t' = tb_records t"
    "tb_states t' = (case cursor of
        None \<Rightarrow> AList.delete (dx_collate db c, dx_collate db state_key) (tb_states t)
      | Some s \<Rightarrow> AList.update (dx_collate db c, dx_collate db state_key) (cursor_state db r s) (tb_states t))"
proof (cases "validate_connection_id c")
  case (Inl e)
  then show ?thesis using assms by (simp add: save_declarative_sync_cursor_def bindA_def liftA_def)
next
  case v: (Inr v)
  show ?thesis
  proof (cases "declarative_sync_state_key db r")
    case (Inl e)
    then show ?thesis using assms v by (simp add: save_declarative_sync_cursor_def bindA_def liftA_def)
  next
    case (Inr state_key)
    show ?thesis
    proof (cases cursor)
      case None
      then show ?thesis using assms v Inr
        by (intro that [OF _ Inr]) (auto simp: save_declarative_sync_cursor_def bindA_def liftA_def transaction_Inr)
    next
      case (Some s)
      then show ?thesis using assms v Inr
        by (intro that [OF _ Inr])
          (auto simp: save_declarative_sync_cursor_def bindA_def liftA_def raiseA_def transaction_Inr
            split: if_splits prod.splits sum.splits)
    qed
  qed
qed

lemma save_Inl:
  assumes "save_declarative_sync_cursor db c r cursor t = (Inl e, t')"
  shows "tb_records t' = tb_records t \<and> tb_states t' = tb_states t"
  using assms
  by (auto simp: save_declarative_sync_cursor_def bindA_def liftA_def raiseA_def Let_def transaction_Inr
      split: sum.splits option.splits if_splits prod.splits dest!: transaction_Inl)


lemma int_str_printable: "\<not> list_ex category_C (int_str i)"
proof -
  have "\<not> category_C c" if "ascii_digit c" for c
    using that by (simp add: category_C_def ascii_digit_def)
  then show ?thesis
    by (auto simp: int_str_def list_ex_iff category_C_def dest!: nat_str_digits)
qed

lemma cursor_value_printable: "cursor_value document pointer = Some c \<Longrightarrow> \<not> list_ex category_C c"
  by (auto simp: cursor_value_def int_str_printable split: sum.splits pyval.splits if_splits)

text \<open>C35: A saved cursor is loaded again as it was, but a run resumes from it only when it has at most 255
  characters: longer ones, up to the 512 that are saved, are dropped, and the run begins at the first page.\<close>

theorem saved_cursor_resumes:
  assumes "cursor_value document pointer = Some cursor"
    and "save_declarative_sync_cursor db c r (Some cursor) t = (Inr (), t1)"
    and "get_declarative_sync_cursor db c r t1 = (Inr raw, t2)"
    and "dx_loads db (cursor_state db r cursor) = Some (pdict [(''resource_key'', PStr r), (''cursor'', PStr cursor)])"
  shows "raw = Some cursor \<and> persisted_cursor raw = (if length cursor \<le> 255 then Some cursor else None)"
  using assms(2)
proof (rule save_Inr)
  fix state_key
  assume key: "validate_connection_id c = Inr ()" "declarative_sync_state_key db r = Inr state_key"
    and ok: "\<forall>s. Some cursor = Some s \<longrightarrow> cursor_ok s"
    and t1: "tb_states t1 = (case Some cursor of
        None \<Rightarrow> AList.delete (dx_collate db c, dx_collate db state_key) (tb_states t)
      | Some s \<Rightarrow> AList.update (dx_collate db c, dx_collate db state_key) (cursor_state db r s) (tb_states t))"
  have "raw = cursor_of_state db r (Some (cursor_state db r cursor))"
    using assms(3) key t1
    by (auto simp: get_declarative_sync_cursor_def bindA_def liftA_def transaction_Inr update_conv')
  then have raw: "raw = Some cursor" using assms(4) ok by (simp add: cursor_of_state_def pdict_def mget_none_def)
  moreover have "persisted_cursor raw = (if length cursor \<le> 255 then Some cursor else None)"
    using ok cursor_value_printable [OF assms(1)]
    by (simp add: raw persisted_cursor_def normalize_cursor_def MAX_RECORD_KEY_LENGTH_def cursor_ok_def)
  ultimately show ?thesis by blast
qed

end
