(* ===== verification/SyncRun.thy ===== *)
theory SyncRun
  imports RecordStore ToolDemo
begin

text \<open>
  Runs of a paginated synchronisation: \<open>synced\<close> relates the tables before and after any run, page by page as the
  upstream answered; the counters add up; and what lies beyond the item limit is skipped, with a concrete
  upstream of three pages for the witnesses.  The witnesses of \<open>RecordStore\<close> are here too.
\<close>

section \<open>Runs of a synchronisation\<close>

text \<open>A complete page: its rows are stored, and then the cursor of the next page is saved or cleared.\<close>

type_synonym page_effect = "(string \<times> string) list \<times> string option"

text \<open>
  What a fetched document holds of a page when \<open>pulled\<close> items were pulled before: the number of items within the
  limit, their rows, and whether it had none.
\<close>

definition page_rows ::
  "'d world \<Rightarrow> database \<Rightarrow> sync_spec \<Rightarrow> operation \<Rightarrow> pagination \<Rightarrow> int \<Rightarrow> pyval
     \<Rightarrow> (int \<times> (string \<times> string) list \<times> bool) option" where
  "page_rows w db sy p pg pulled document =
     (case safe_output (wd_env w) p document of
        Inl _ \<Rightarrow> None
      | Inr selected \<Rightarrow>
          (case listed selected (pagination_items_field p) of
             None \<Rightarrow> None
           | Some items \<Rightarrow>
               (case project_records sy p (cut_page p pg pulled selected items) of
                  (n, records) \<Rightarrow> Some (n, rows_of db (map record_map records), items = []))))"

definition commit_rows ::
  "database \<Rightarrow> string \<Rightarrow> string \<Rightarrow> (string \<times> string) list \<Rightarrow> tables \<Rightarrow> tables" where
  "commit_rows db c r rows t = t\<lparr>tb_records := put_rows db c r rows (tb_records t)\<rparr>"

definition commit_page :: "database \<Rightarrow> string \<Rightarrow> string \<Rightarrow> string \<Rightarrow> page_effect \<Rightarrow> tables \<Rightarrow> tables" where
  "commit_page db c r state_key page t =
     (let key = (dx_collate db c, dx_collate db state_key);
          t' = commit_rows db c r (fst page) t in
      t'\<lparr>tb_states := (case snd page of
        None \<Rightarrow> AList.delete key (tb_states t')
      | Some cursor \<Rightarrow> AList.update key (cursor_state db r cursor) (tb_states t'))\<rparr>)"

text \<open>The tables without the number of transactions.\<close>

definition contents :: "tables \<Rightarrow> tables" where
  "contents t = t\<lparr>tb_count := 0\<rparr>"

lemma contents_eq: "contents t = contents t' \<longleftrightarrow> tb_records t = tb_records t' \<and> tb_states t = tb_states t'"
  by (cases t; cases t') (simp add: contents_def)

lemma contents_commit_rows: "contents t = contents t' \<Longrightarrow> contents (commit_rows db c r rows t) = contents (commit_rows db c r rows t')"
  by (simp add: contents_eq commit_rows_def)

lemma contents_commit_page: "contents t = contents t' \<Longrightarrow> contents (commit_page db c r k page t) = contents (commit_page db c r k page t')"
  by (cases "snd page") (simp_all add: contents_eq commit_page_def commit_rows_def Let_def)

text \<open>
  What a run may leave in the tables, from the request \<open>rq\<close> for its next page on.  Each document is the one the
  upstream answers that request with; its rows are stored, then the cursor the document itself names is saved,
  and only then that cursor is used in the request for the next page.  \<open>finished\<close> runs end after a last page
  or after the last page number; others end anywhere, with a page whose rows are stored and whose cursor is not
  at worst.
\<close>

inductive synced ::
  "'d world \<Rightarrow> database \<Rightarrow> auth_scheme option \<Rightarrow> conn_context \<Rightarrow> string \<Rightarrow> sync_spec \<Rightarrow> operation \<Rightarrow> pagination
     \<Rightarrow> headers \<Rightarrow> string \<Rightarrow> bool \<Rightarrow> int list \<Rightarrow> http_request \<Rightarrow> session \<Rightarrow> sync_counts \<Rightarrow> tables \<Rightarrow> tables \<Rightarrow> bool"
  for w db scheme cx resource sy p pg declared k finished where
  no_more: "synced w db scheme cx resource sy p pg declared k finished [] rq s counts t t'"
    if "contents t' = contents t"
| stopped: "synced w db scheme cx resource sy p pg declared k finished pages rq s counts t t'"
    if "\<not> finished" "contents t' = contents t"
| rows_only: "synced w db scheme cx resource sy p pg declared k finished (page # pages) rq s counts t t'"
    if "\<not> finished" "fetch_page w (op_timeout p) scheme cx rq declared page s = (Inr document, s')"
      "page_rows w db sy p pg (yc_pulled counts) document = Some (n, rows, nothing)"
      "contents t' = contents (commit_rows db (cx_connection cx) resource rows t)"
| last_page: "synced w db scheme cx resource sy p pg declared k finished (page # pages) rq s counts t t'"
    if "fetch_page w (op_timeout p) scheme cx rq declared page s = (Inr document, s')"
      "page_rows w db sy p pg (yc_pulled counts) document = Some (n, rows, nothing)"
      "cursor = cursor_value document (pg_next_pointer pg)"
      "finished \<Longrightarrow> cursor = None \<or> nothing \<or> yc_pulled counts + n \<ge> pg_max_items pg"
      "contents t' = contents (commit_page db (cx_connection cx) resource k (rows, cursor) t)"
| more: "synced w db scheme cx resource sy p pg declared k finished (page # pages) rq s counts t t'"
    if "fetch_page w (op_timeout p) scheme cx rq declared page s = (Inr document, s')"
      "page_rows w db sy p pg (yc_pulled counts) document = Some (n, rows, nothing)"
      "cursor_value document (pg_next_pointer pg) = Some cursor" "cursor_request pg rq cursor = Inr rq'"
      "\<not> nothing" "yc_pulled counts + n < pg_max_items pg"
      "synced w db scheme cx resource sy p pg declared k finished pages rq' s' (add_page counts n (int (length rows)))
         (commit_page db (cx_connection cx) resource k (rows, Some cursor) t) t'"

lemma synced_contents:
  "synced w db scheme cx resource sy p pg declared k finished pages rq s counts t t' \<Longrightarrow> contents t = contents u
     \<Longrightarrow> synced w db scheme cx resource sy p pg declared k finished pages rq s counts u t'"
proof (induction arbitrary: u rule: synced.induct)
  case (no_more t' t rq s counts)
  then show ?case by (simp add: synced.no_more)
next
  case (stopped t' t pages rq s counts)
  then show ?case by (simp add: synced.stopped)
next
  case (rows_only rq page s document s' counts n rows nothing t' t pages)
  then show ?case using contents_commit_rows [OF rows_only.prems] by (auto intro: synced.rows_only)
next
  case (last_page rq page s document s' counts n rows nothing cursor t' t pages)
  then show ?case using contents_commit_page [OF last_page.prems] by (auto intro: synced.last_page)
next
  case (more rq page s document s' counts n rows nothing cursor rq' pages t t')
  show ?case by (rule synced.more [OF more.hyps(1-6) more.IH]) (rule contents_commit_page [OF more.prems])
qed

lemma on_session_run: "on_session m st = (q, st1) \<longleftrightarrow> (\<exists>s. m (yn_session st) = (q, s) \<and> st1 = st\<lparr>yn_session := s\<rparr>)"
  by (auto simp: on_session_def split: prod.splits)

lemma on_tables_run: "on_tables m st = (q, st1) \<longleftrightarrow> (\<exists>t. m (yn_tables st) = (q, t) \<and> st1 = st\<lparr>yn_tables := t\<rparr>)"
  by (auto simp: on_tables_def split: prod.splits)

lemma bindA_cases:
  assumes "bindA m f s = (r, s')"
  obtains (raised) e where "m s = (Inl e, s')" "r = Inl e" | (cont) x s1 where "m s = (Inr x, s1)" "f x s1 = (r, s')"
  using assms by (auto simp: bindA_def split: prod.splits sum.splits)

definition is_error :: "'a result \<Rightarrow> bool" where
  "is_error r \<longleftrightarrow> (case r of Inl _ \<Rightarrow> True | Inr _ \<Rightarrow> False)"

lemma is_error_simps [simp]: "is_error (Inl e)" "\<not> is_error (Inr x)"
  by (simp_all add: is_error_def)

text \<open>The three ways the work on a fetched page ends: with no change, with its rows only, or complete.\<close>

lemma store_page_cases:
  assumes "store_page w db cx resource sy p pg counts document st = (r, st')"
    and "declarative_sync_state_key db resource = Inr k"
  obtains (nothing) e where "r = Inl e" "yn_session st' = yn_session st" "contents (yn_tables st') = contents (yn_tables st)"
  | (rows) e n rows nothing where "r = Inl e" "yn_session st' = yn_session st"
      "page_rows w db sy p pg (yc_pulled counts) document = Some (n, rows, nothing)"
      "contents (yn_tables st') = contents (commit_rows db (cx_connection cx) resource rows (yn_tables st))"
  | (complete) n rows nothing where "yn_session st' = yn_session st"
      "page_rows w db sy p pg (yc_pulled counts) document = Some (n, rows, nothing)"
      "r = Inr (add_page counts n (int (length rows)), cursor_value document (pg_next_pointer pg), nothing)"
      "contents (yn_tables st') = contents (commit_page db (cx_connection cx) resource k
         (rows, cursor_value document (pg_next_pointer pg)) (yn_tables st))"
proof (cases "\<exists>selected items. safe_output (wd_env w) p document = Inr selected \<and>
    listed selected (pagination_items_field p) = Some items")
  case False
  then have "st' = st \<and> is_error r" using assms(1)
    by (auto simp: store_page_def bindA_def liftA_def raiseA_def simp del: listed_Some split: sum.splits option.splits)
  then obtain e where "st' = st" "r = Inl e" by (cases r) auto
  then show ?thesis by (intro that(1)) simp_all
next
  case True
  then obtain selected items where sel: "safe_output (wd_env w) p document = Inr selected"
    "listed selected (pagination_items_field p) = Some items" by blast
  obtain pulled records where pr: "project_records sy p (cut_page p pg (yc_pulled counts) selected items) = (pulled, records)"
    by (rule prod.exhaust)
  let ?cursor = "cursor_value document (pg_next_pointer pg)"
  define rows where "rows = rows_of db (map record_map records)"
  have page: "page_rows w db sy p pg (yc_pulled counts) document = Some (pulled, rows, items = [])"
    by (simp add: page_rows_def sel pr rows_def del: listed_Some)
  from assms(1) [unfolded store_page_def] sel pr
  have "bindA (on_tables (upsert_declarative_records db (cx_connection cx) resource (map record_map records))) (\<lambda>stored.
          bindA (on_tables (save_declarative_sync_cursor db (cx_connection cx) resource ?cursor)) (\<lambda>_.
          pureA (add_page counts pulled stored, ?cursor, items = []))) st = (r, st')"
    by (simp add: bindA_def liftA_def Let_def)
  then show ?thesis
  proof (cases rule: bindA_cases)
    case (raised e)
    then show ?thesis using that(1) by (auto simp: on_tables_run contents_eq dest!: upsert_Inl)
  next
    case (cont stored st1)
    obtain t1 where t1: "upsert_declarative_records db (cx_connection cx) resource (map record_map records) (yn_tables st) = (Inr stored, t1)"
      "st1 = st\<lparr>yn_tables := t1\<rparr>" using cont(1) by (auto simp: on_tables_run)
    have rows1: "contents t1 = contents (commit_rows db (cx_connection cx) resource rows (yn_tables st))"
      and stored: "stored = int (length rows)"
      using upsert_Inr [OF t1(1)] by (simp_all add: contents_eq commit_rows_def rows_def)
    from cont(2) show ?thesis
    proof (cases rule: bindA_cases)
      case (raised e)
      then have "contents (yn_tables st') = contents (commit_rows db (cx_connection cx) resource rows (yn_tables st))"
        "yn_session st' = yn_session st"
        using t1(2) rows1 by (auto simp: on_tables_run contents_eq dest!: save_Inl)
      then show ?thesis using that(2) raised page by blast
    next
      case saved: (cont u st2)
      obtain t2 where t2: "save_declarative_sync_cursor db (cx_connection cx) resource ?cursor t1 = (Inr u, t2)"
        "st2 = st1\<lparr>yn_tables := t2\<rparr>" using saved(1) t1(2) by (auto simp: on_tables_run)
      have "contents t2 = contents (commit_page db (cx_connection cx) resource k (rows, ?cursor) (yn_tables st))"
        using t2(1) rows1 assms(2)
        by (elim save_Inr) (auto simp: contents_eq commit_page_def commit_rows_def Let_def split: option.splits)
      moreover have "r = Inr (add_page counts pulled (int (length rows)), ?cursor, items = [])" "st' = st\<lparr>yn_tables := t2\<rparr>"
        using saved(2) t2(2) t1(2) stored by (auto simp: pureA_def)
      ultimately show ?thesis by (intro that(3) [OF _ page]) simp_all
    qed
  qed
qed

lemma sync_pages_synced:
  assumes "sync_pages w db scheme cx resource sy p pg declared pages rq counts st = (r, st')"
    and "declarative_sync_state_key db resource = Inr k"
  shows "synced w db scheme cx resource sy p pg declared k (\<not> is_error r) pages rq (yn_session st) counts
    (yn_tables st) (yn_tables st')"
  using assms(1)
proof (induction pages arbitrary: rq counts st)
  case Nil
  then show ?case by (simp add: pureA_def synced.no_more)
next
  case (Cons page pages)
  show ?case
    using Cons.prems unfolding sync_pages.simps(2)
  proof (cases rule: bindA_cases)
    case (raised e)
    then show ?thesis by (auto simp: on_session_run intro: synced.stopped)
  next
    case (cont document st1)
    obtain s1 where fetch: "fetch_page w (op_timeout p) scheme cx rq declared page (yn_session st) = (Inr document, s1)"
      and st1: "st1 = st\<lparr>yn_session := s1\<rparr>" using cont(1) by (auto simp: on_session_run)
    from cont(2) show ?thesis
    proof (cases rule: bindA_cases)
      case (raised e)
      from raised(1) assms(2) show ?thesis
      proof (cases rule: store_page_cases)
        case (nothing e')
        then show ?thesis using raised st1 by (simp add: synced.stopped)
      next
        case (rows e' n rows nothing)
        then show ?thesis using raised(2) st1 by (intro synced.rows_only [OF _ fetch rows(3)]) simp_all
      qed simp
    next
      case stored: (cont out st2)
      from stored(1) assms(2) show ?thesis
      proof (cases rule: store_page_cases)
        case (complete n rows nothing)
        let ?cursor = "cursor_value document (pg_next_pointer pg)" and ?counts = "add_page counts n (int (length rows))"
        have now: "contents (yn_tables st2) = contents (commit_page db (cx_connection cx) resource k (rows, ?cursor) (yn_tables st))"
          and s2: "yn_session st2 = s1" using complete st1 by simp_all
        have out: "out = (?counts, ?cursor, nothing)" using complete(3) by simp
        have pulled: "yc_pulled ?counts = yc_pulled counts + n" by (simp add: add_page_def)
        show ?thesis
        proof (cases "?cursor = None \<or> yc_pulled ?counts \<ge> pg_max_items pg \<or> nothing")
          case True
          then have "st' = st2" using stored(2) out by (auto simp: pureA_def split: option.splits)
          then show ?thesis using True pulled now by (auto intro!: synced.last_page [OF fetch complete(2) refl])
        next
          case False
          then obtain c where c: "?cursor = Some c" by auto
          then have "bindA (liftA (cursor_request pg rq c)) (\<lambda>request.
              sync_pages w db scheme cx resource sy p pg declared pages request ?counts) st2 = (r, st')"
            using stored(2) out False by simp
          then show ?thesis
          proof (cases rule: bindA_cases)
            case (raised e)
            then have "st' = st2" by (simp add: liftA_def)
            then show ?thesis using raised(2) now by (auto intro!: synced.last_page [OF fetch complete(2) refl])
          next
            case request: (cont rq' st3)
            then have rq': "cursor_request pg rq c = Inr rq'" "st3 = st2" by (simp_all add: liftA_def)
            show ?thesis
            proof (rule synced.more [OF fetch complete(2) c rq'(1)])
              show "\<not> nothing" "yc_pulled counts + n < pg_max_items pg" using False pulled by simp_all
              show "synced w db scheme cx resource sy p pg declared k (\<not> is_error r) pages rq' s1 ?counts
                  (commit_page db (cx_connection cx) resource k (rows, Some c) (yn_tables st)) (yn_tables st')"
                using Cons.IH [OF request(2)] now s2 rq'(2) c synced_contents by fastforce
            qed
          qed
        qed
      qed simp_all
    qed
  qed
qed

lemma get_cursor_contents:
  assumes "get_declarative_sync_cursor db c r t = (q, t')"
  shows "contents t' = contents t"
  using assms
  by (cases q) (auto simp: get_declarative_sync_cursor_def bindA_def liftA_def transaction_Inr contents_eq
    split: sum.splits dest!: transaction_Inl)

text \<open>Where a run starts: at the page of the cursor that is saved, at the first one when there is none.\<close>

definition sync_start ::
  "'d world \<Rightarrow> database \<Rightarrow> conn_context \<Rightarrow> string \<Rightarrow> operation \<Rightarrow> pagination \<Rightarrow> tables \<Rightarrow> headers \<times> http_request \<Rightarrow> bool" where
  "sync_start w db cx resource p pg t start \<longleftrightarrow>
     (\<exists>rq raw. build_request (wd_env w) p (PMap []) = Inr rq \<and> declared_headers (wd_env w) p [] = Inr (fst start) \<and>
        fst (get_declarative_sync_cursor db (cx_connection cx) resource t) = Inr raw \<and>
        (case persisted_cursor raw of
           None \<Rightarrow> snd start = rq
         | Some c \<Rightarrow> cursor_request pg rq c = Inr (snd start)))"

text \<open>C26: However a paginated synchronisation ends, by success, an upstream failure, a time limit or a failing
  transaction, the tables hold what they held plus complete pages: those the upstream answered the requests of
  this very run with, from the page of the saved cursor on, the rows of each stored before the cursor that the
  page itself names is saved, and at most the rows of one more page, which the next run fetches again.  A run that
  returns leaves complete pages only, up to a last page, the item limit or the page limit.\<close>

theorem sync_checkpoint:
  assumes "sync_paginated w db scheme cx resource sy p pg st = (r, st')"
    and "declarative_sync_state_key db resource = Inr k"
  shows "is_error r \<and> contents (yn_tables st') = contents (yn_tables st) \<or>
    (\<exists>declared request. sync_start w db cx resource p pg (yn_tables st) (declared, request) \<and>
       synced w db scheme cx resource sy p pg declared k (\<not> is_error r) [1..pg_max_pages pg] request (yn_session st)
         no_counts (yn_tables st) (yn_tables st'))"
  using assms(1) unfolding sync_paginated_def
proof (cases rule: bindA_cases)
  case (raised e)
  then show ?thesis by (simp add: liftA_def)
next
  case rq: (cont rq st1)
  from rq(2) show ?thesis
  proof (cases rule: bindA_cases)
    case (raised e)
    then show ?thesis using rq(1) by (simp add: liftA_def)
  next
    case declared: (cont declared st2)
    have st2: "st2 = st" using rq(1) declared(1) by (simp add: liftA_def)
    from declared(2) show ?thesis
    proof (cases rule: bindA_cases)
      case (raised e)
      then show ?thesis using st2 by (auto simp: on_tables_run dest: get_cursor_contents)
    next
      case cursor: (cont raw st3)
      have st3: "contents (yn_tables st3) = contents (yn_tables st)" "yn_session st3 = yn_session st"
        and raw: "fst (get_declarative_sync_cursor db (cx_connection cx) resource (yn_tables st)) = Inr raw"
        using cursor(1) st2 by (auto simp: on_tables_run dest: get_cursor_contents)
      from cursor(2) show ?thesis
      proof (cases rule: bindA_cases)
        case (raised e)
        then show ?thesis using st3 by (simp add: liftA_def)
      next
        case request: (cont request st4)
        then have st4: "st4 = st3" and rq': "(case persisted_cursor raw of None \<Rightarrow> Inr rq | Some c \<Rightarrow> cursor_request pg rq c) = Inr request"
          by (simp_all add: liftA_def)
        have "sync_start w db cx resource p pg (yn_tables st) (declared, request)"
          using rq(1) declared(1) raw rq' by (auto simp: sync_start_def liftA_def split: option.splits)
        moreover have "synced w db scheme cx resource sy p pg declared k (\<not> is_error r) [1..pg_max_pages pg] request
            (yn_session st) no_counts (yn_tables st) (yn_tables st')"
          using synced_contents [OF sync_pages_synced [OF request(2) assms(2)] ] st3 st4 by simp
        ultimately show ?thesis by blast
      qed
    qed
  qed
qed

section \<open>Counts\<close>

definition counts_ok :: "sync_counts \<Rightarrow> bool" where
  "counts_ok counts \<longleftrightarrow> yc_pulled counts = yc_stored counts + yc_skipped counts \<and> 0 \<le> yc_stored counts \<and>
     0 \<le> yc_skipped counts"

text \<open>The records are taken from the very items the limit cuts.\<close>

definition syncs_items :: "sync_spec \<Rightarrow> operation \<Rightarrow> pagination \<Rightarrow> bool" where
  "syncs_items sy p pg \<longleftrightarrow>
     op_pagination p = Some pg \<and> sy_items_pointer sy = pg_items_pointer pg \<and> truthy (sy_items_pointer sy)"

lemma map_filter_length: "length (List.map_filter f xs) \<le> length xs"
  by (induction xs) (auto simp: map_filter_simps split: option.splits)

lemma items_field_eq:
  assumes "op_pagination p = Some pg" and "sy_items_pointer sy = pg_items_pointer pg"
  shows "field_of_pointer p (sy_items_pointer sy) = pagination_items_field p"
proof -
  have "(case find P xs of Some o' \<Rightarrow> om_name o' | None \<Rightarrow> []) = (case filter P xs of [] \<Rightarrow> [] | o' # _ \<Rightarrow> om_name o')"
    for P and xs :: "output_mapping list"
    by (induction xs) auto
  then show ?thesis using assms by (simp add: field_of_pointer_def pagination_items_field_def)
qed

text \<open>Then the rows of a page are its items up to the limit.\<close>

lemma cut_page_rows:
  assumes "syncs_items sy p pg" and "map_of selected (pagination_items_field p) = Some (PList items)"
  shows "sync_rows sy p (cut_page p pg pulled selected items) = take (nat (pg_max_items pg - pulled)) items"
  using assms items_field_eq [of p pg sy]
  by (auto simp: syncs_items_def sync_rows_def cut_page_def Let_def update_conv' max_def)

lemma page_rows_counts:
  assumes "page_rows w db sy p pg pulled document = Some (n, rows, nothing)"
  shows "int (length rows) \<le> n" "syncs_items sy p pg \<Longrightarrow> pulled \<le> pg_max_items pg \<Longrightarrow> pulled + n \<le> pg_max_items pg"
proof -
  obtain selected items records where
    items: "map_of selected (pagination_items_field p) = Some (PList items)"
    and pr: "project_records sy p (cut_page p pg pulled selected items) = (n, records)"
    and rows: "rows = rows_of db (map record_map records)"
    using assms by (auto simp: page_rows_def split: sum.splits option.splits prod.splits)
  have n: "n = int (length (sync_rows sy p (cut_page p pg pulled selected items)))" and records: "int (length records) \<le> n"
    using pr map_filter_length by (auto simp: project_records_def)
  then show "int (length rows) \<le> n" using map_filter_length [of "record_row db" "map record_map records"]
    by (simp add: rows rows_of_def)
  show "pulled + n \<le> pg_max_items pg" if "syncs_items sy p pg" "pulled \<le> pg_max_items pg"
    using n cut_page_rows [OF that(1) items, of pulled] that(2) by simp
qed

lemma store_page_counts:
  assumes "store_page w db cx resource sy p pg counts document st = (Inr (counts', cursor, nothing), st')"
  obtains n rows where "page_rows w db sy p pg (yc_pulled counts) document = Some (n, rows, nothing)"
    "counts' = add_page counts n (int (length rows))" "cursor = cursor_value document (pg_next_pointer pg)"
proof -
  obtain k where "declarative_sync_state_key db resource = Inr k"
    using assms by (auto simp: store_page_def bindA_Inr Let_def case_prod_beta on_tables_run split: option.splits elim!: save_Inr)
  from assms this show ?thesis by (cases rule: store_page_cases) (use that in auto)
qed

lemma sync_pages_counts:
  assumes "sync_pages w db scheme cx resource sy p pg declared pages rq counts st = (Inr counts', st')"
    and "counts_ok counts"
  shows "counts_ok counts' \<and>
    (syncs_items sy p pg \<longrightarrow> yc_pulled counts \<le> pg_max_items pg \<longrightarrow> yc_pulled counts' \<le> pg_max_items pg)"
  using assms
proof (induction pages arbitrary: rq counts st)
  case Nil
  then show ?case by simp
next
  case (Cons page pages)
  from Cons.prems(1) obtain document st1 c1 cursor nothing st2 where
    page: "store_page w db cx resource sy p pg counts document st1 = (Inr (c1, cursor, nothing), st2)"
    and rest: "(case cursor of
       None \<Rightarrow> pureA c1
     | Some c \<Rightarrow>
         (if yc_pulled c1 \<ge> pg_max_items pg \<or> nothing then pureA c1
          else bindA (liftA (cursor_request pg rq c)) (\<lambda>request.
            sync_pages w db scheme cx resource sy p pg declared pages request c1))) st2 = (Inr counts', st')"
    by (auto simp: bindA_Inr)
  from page have c1: "counts_ok c1 \<and>
      (syncs_items sy p pg \<longrightarrow> yc_pulled counts \<le> pg_max_items pg \<longrightarrow> yc_pulled c1 \<le> pg_max_items pg)"
    by (rule store_page_counts) (use Cons.prems(2) page_rows_counts in \<open>fastforce simp: counts_ok_def add_page_def\<close>)
  then show ?case using rest Cons.IH by (auto simp: bindA_Inr split: option.splits if_splits)
qed

text \<open>C33: The counters of a paginated synchronisation add up: what was pulled is what was stored and what was
  skipped.  It is at most the declared item limit when the records come from the items that the pagination names:
  a declared items pointer of the synchronisation that differs from that of the pagination escapes the limit.\<close>

theorem sync_counts_add_up:
  assumes "sync_paginated w db scheme cx resource sy p pg st = (Inr counts, st')"
  shows "yc_pulled counts = yc_stored counts + yc_skipped counts \<and> 0 \<le> yc_stored counts \<and> 0 \<le> yc_skipped counts \<and>
    (op_pagination p = Some pg \<and> sy_items_pointer sy = pg_items_pointer pg \<and> truthy (sy_items_pointer sy) \<and>
       0 \<le> pg_max_items pg \<longrightarrow> yc_pulled counts \<le> pg_max_items pg)"
proof -
  have "counts_ok no_counts" "yc_pulled no_counts = 0" by (simp_all add: counts_ok_def no_counts_def)
  moreover obtain declared request st1 where
    "sync_pages w db scheme cx resource sy p pg declared [1..pg_max_pages pg] request no_counts st1 = (Inr counts, st')"
    using assms unfolding sync_paginated_def bindA_Inr by blast
  ultimately show ?thesis using sync_pages_counts by (fastforce simp: counts_ok_def syncs_items_def)
qed

section \<open>Rows beyond the limit\<close>





section \<open>A concrete synchronisation\<close>

definition paged_sync :: sync_spec where
  "paged_sync = \<lparr>sy_resource_key = ''items'', sy_primary_key = ''/id'', sy_field_mappings = [(PStr ''id'', PStr ''/id'')],
     sy_operation_key = ''list'', sy_items_pointer = PStr ''/items''\<rparr>"

text \<open>Three pages of two items; the cursor in the address says which.\<close>

definition three_pages :: "nat \<Rightarrow> pyval" where
  "three_pages n = pdict ([(''items'', PList [pdict [(''id'', PInt (2 * int n))], pdict [(''id'', PInt (2 * int n + 1))]])]
     @ (if n < 2 then [(''next'', PStr (if n = 0 then ''p1'' else ''p2''))] else []))"

definition sync_world :: "unit world" where
  "sync_world = (world_with three_pages)\<lparr>wd_network := (\<lambda>call. demo_network\<lparr>nw_send := (\<lambda>_ url _.
     Some (demo_reply [if url = ''https://api.example.com/v1/items?cursor=p1'' then 1
                       else if url = ''https://api.example.com/v1/items?cursor=p2'' then 2 else 0]))\<rparr>)\<rparr>"

definition demo_database :: database where
  "demo_database =
     \<lparr>dx_collate = map of_char, dx_fault = (\<lambda>_. None), dx_sha256 = (\<lambda>_. ''5e''),
      dx_loads = (\<lambda>w. map_option (\<lambda>c. pdict [(''resource_key'', PStr ''items''), (''cursor'', PStr c)])
        (find (\<lambda>c. json_dumps (\<lambda>_. ''1.5'') (pdict [(''resource_key'', PStr ''items''), (''cursor'', PStr c)]) = Some w)
          [''p1'', ''p2''])),
      dx_float = (\<lambda>_. ''1.5'')\<rparr>"

definition empty_tables :: tables where
  "empty_tables = \<lparr>tb_records = [], tb_states = [], tb_count = 0\<rparr>"

definition demo_sync :: "sync_state \<Rightarrow> sync_counts result \<times> sync_state" where
  "demo_sync = sync_paginated sync_world demo_database None demo_context ''items'' paged_sync demo_list
     (the (op_pagination demo_list))"

definition before_sync :: sync_state where
  "before_sync = \<lparr>yn_session = demo_session, yn_tables = empty_tables\<rparr>"

definition stored_keys :: "sync_state \<Rightarrow> weights list" where
  "stored_keys st = map (\<lambda>((_, _, key), _). key) (tb_records (yn_tables st))"

lemma demo_sync_run:
  "(case demo_sync before_sync of (r, st) \<Rightarrow> (r, stored_keys st)) =
     (Inr \<lparr>yc_pulled = 3, yc_stored = 3, yc_skipped = 0\<rparr>, [[48], [49], [50]])"
  by code_simp

text \<open>With a limit of three items and pages of two the item with key 3 is skipped: the second run begins behind it.\<close>

lemma demo_row_skipped:
  "(case demo_sync before_sync of (_, st1) \<Rightarrow>
      case demo_sync st1 of (r, st2) \<Rightarrow> (r, stored_keys st2, tb_states (yn_tables st2))) =
     (Inr \<lparr>yc_pulled = 2, yc_stored = 2, yc_skipped = 0\<rparr>, [[48], [49], [50], [52], [53]], [])"
  by code_simp

section \<open>Witnesses\<close>

definition demo_records :: "(pyval \<times> pyval) list list" where
  "demo_records = map record_map [(''k1'', [(PStr ''id'', PInt 1)]), (''k2'', [(PStr ''id'', PInt 2)])]"

text \<open>A parser that knows the two texts.\<close>

definition record_database :: database where
  "record_database = demo_database\<lparr>dx_loads := (\<lambda>w. map_option (\<lambda>i. pdict [(''id'', PInt i)])
     (find (\<lambda>i. json_spaced (\<lambda>_. []) (pdict [(''id'', PInt i)]) = Some w) [1, 2]))\<rparr>"

definition demo_stored :: tables where
  "demo_stored = snd (upsert_declarative_records record_database ''c1'' ''items'' demo_records empty_tables)"

lemma demo_upsert: "upsert_declarative_records record_database ''c1'' ''items'' demo_records empty_tables = (Inr 2, demo_stored)"
proof -
  have "fst (upsert_declarative_records record_database ''c1'' ''items'' demo_records empty_tables) = Inr 2" by code_simp
  then show ?thesis by (simp add: demo_stored_def prod_eq_iff)
qed

lemma records_refine_witness:
  "map_of (tb_records demo_stored) = map_of [] ++ map_of (rev (row_entries record_database ''c1'' ''items'' (rows_of record_database demo_records)))"
  using records_refine [OF demo_upsert] by (simp add: empty_tables_def)

lemma upsert_replay_witness:
  "fst (upsert_declarative_records record_database ''c1'' ''items'' demo_records demo_stored) = Inr 2 \<and>
    tb_records (snd (upsert_declarative_records record_database ''c1'' ''items'' demo_records demo_stored)) = tb_records demo_stored"
proof -
  have two: "fst (upsert_declarative_records record_database ''c1'' ''items'' demo_records demo_stored) = Inr 2" by code_simp
  then obtain t2 where t2: "upsert_declarative_records record_database ''c1'' ''items'' demo_records demo_stored = (Inr 2, t2)"
    by (metis prod.collapse)
  from upsert_replay [OF demo_upsert t2] two t2 show ?thesis by (simp add: empty_tables_def)
qed



text \<open>A cursor of 300 characters.\<close>

definition long_cursor :: string where "long_cursor = replicate 300 CHR ''x''"

definition cursor_database :: database where
  "cursor_database = demo_database\<lparr>dx_loads := (\<lambda>_. Some (pdict [(''resource_key'', PStr ''items''), (''cursor'', PStr long_cursor)]))\<rparr>"

lemma saved_cursor_resumes_witness:
  "\<exists>raw t1 t2. save_declarative_sync_cursor cursor_database ''c1'' ''items'' (Some long_cursor) empty_tables = (Inr (), t1) \<and>
    get_declarative_sync_cursor cursor_database ''c1'' ''items'' t1 = (Inr raw, t2) \<and>
    raw = Some long_cursor \<and> persisted_cursor raw = None"
proof -
  have ok: "cursor_value (pdict [(''next'', PStr long_cursor)]) (PStr ''/next'') = Some long_cursor"
    "cursor_ok long_cursor" "length long_cursor = 300" "validate_connection_id ''c1'' = Inr ()"
    "declarative_sync_state_key cursor_database ''items'' = Inr ''decl_sync_5e''" by code_simp+
  obtain t1 where t1: "save_declarative_sync_cursor cursor_database ''c1'' ''items'' (Some long_cursor) empty_tables = (Inr (), t1)"
    using ok by (simp add: save_declarative_sync_cursor_def bindA_def liftA_def transaction_def cursor_database_def demo_database_def Let_def)
  obtain raw t2 where t2: "get_declarative_sync_cursor cursor_database ''c1'' ''items'' t1 = (Inr raw, t2)"
    using ok by (simp add: get_declarative_sync_cursor_def bindA_def liftA_def transaction_def cursor_database_def demo_database_def Let_def)
  have "dx_loads cursor_database (cursor_state cursor_database ''items'' long_cursor)
      = Some (pdict [(''resource_key'', PStr ''items''), (''cursor'', PStr long_cursor)])" by (simp add: cursor_database_def)
  from saved_cursor_resumes [OF ok(1) t1 t2 this] t1 t2 ok(3) show ?thesis by auto
qed

lemma demo_state_key: "declarative_sync_state_key demo_database ''items'' = Inr ''decl_sync_5e''"
  by code_simp

lemma demo_sync_result:
  "\<exists>st'. sync_paginated sync_world demo_database None demo_context ''items'' paged_sync demo_list
     (the (op_pagination demo_list)) before_sync = (Inr \<lparr>yc_pulled = 3, yc_stored = 3, yc_skipped = 0\<rparr>, st') \<and>
     stored_keys st' = [[48], [49], [50]]"
  using demo_sync_run by (cases "demo_sync before_sync") (auto simp: demo_sync_def)

lemma sync_checkpoint_witness:
  "\<exists>declared request t. sync_start sync_world demo_database demo_context ''items'' demo_list
      (the (op_pagination demo_list)) empty_tables (declared, request) \<and>
    synced sync_world demo_database None demo_context ''items'' paged_sync demo_list (the (op_pagination demo_list))
      declared ''decl_sync_5e'' True [1..5] request demo_session no_counts empty_tables t \<and>
    map (\<lambda>((_, _, key), _). key) (tb_records t) = [[48], [49], [50]]"
proof -
  obtain st' where run: "sync_paginated sync_world demo_database None demo_context ''items'' paged_sync demo_list
     (the (op_pagination demo_list)) before_sync = (Inr \<lparr>yc_pulled = 3, yc_stored = 3, yc_skipped = 0\<rparr>, st')"
    and keys: "stored_keys st' = [[48], [49], [50]]" using demo_sync_result by blast
  have five: "pg_max_pages (the (op_pagination demo_list)) = 5" by (simp add: demo_list_def)
  have start: "yn_tables before_sync = empty_tables" "yn_session before_sync = demo_session"
    by (simp_all add: before_sync_def)
  have "\<exists>declared request. sync_start sync_world demo_database demo_context ''items'' demo_list
      (the (op_pagination demo_list)) empty_tables (declared, request) \<and>
    synced sync_world demo_database None demo_context ''items'' paged_sync demo_list (the (op_pagination demo_list))
      declared ''decl_sync_5e'' True [1..5] request demo_session no_counts empty_tables (yn_tables st')"
    using sync_checkpoint [OF run demo_state_key] by (simp add: five start)
  then obtain declared request where "sync_start sync_world demo_database demo_context ''items'' demo_list
      (the (op_pagination demo_list)) empty_tables (declared, request)"
    "synced sync_world demo_database None demo_context ''items'' paged_sync demo_list (the (op_pagination demo_list))
      declared ''decl_sync_5e'' True [1..5] request demo_session no_counts empty_tables (yn_tables st')" by blast
  then show ?thesis
    by (intro exI [of _ declared] exI [of _ request] exI [of _ "yn_tables st'"] conjI keys [unfolded stored_keys_def])
qed

lemma sync_counts_add_up_witness: "(3 :: int) = 3 + 0 \<and> 3 \<le> pg_max_items (the (op_pagination demo_list))"
proof -
  obtain st' where run: "sync_paginated sync_world demo_database None demo_context ''items'' paged_sync demo_list
     (the (op_pagination demo_list)) before_sync = (Inr \<lparr>yc_pulled = 3, yc_stored = 3, yc_skipped = 0\<rparr>, st')"
    using demo_sync_result by blast
  have "op_pagination demo_list = Some (the (op_pagination demo_list)) \<and>
    sy_items_pointer paged_sync = pg_items_pointer (the (op_pagination demo_list)) \<and> truthy (sy_items_pointer paged_sync) \<and>
    0 \<le> pg_max_items (the (op_pagination demo_list))" by (simp add: demo_list_def paged_sync_def)
  then have "(3 :: int) \<le> pg_max_items (the (op_pagination demo_list))"
    using sync_counts_add_up [OF run] by (metis sync_counts.select_convs(1))
  then show ?thesis by simp
qed




end
