(* ===== verification/ApiDocument.thy ===== *)
theory ApiDocument
  imports DeclExec
begin

text \<open>
  The import of an OpenAPI document (\<open>declarative/validator.py\<close>), first part: reading the document, the guard
  against value references, the tools it declares, its server and hosts, and the schemas it may use.  The YAML
  library is a parameter: what it scans a text into, and what its safe loader, with the constructor of the
  module for mappings, makes of it.
\<close>

section \<open>Reading a document\<close>

datatype yaml_token = AliasToken | AnchorToken | TagToken | ScalarToken string | OtherToken

text \<open>
  \<open>yl_scan\<close> gives the tokens up to the exception that ends the scan, if one does; \<open>yl_error\<close> tells the
  instances of \<open>YAMLError\<close>; \<open>yl_decode\<close> is the strict decoding of UTF-8.
\<close>

record yaml_lib =
  yl_scan :: "string \<Rightarrow> yaml_token list \<times> exc option"
  yl_load :: "string \<Rightarrow> pyval result"
  yl_error :: "exc \<Rightarrow> bool"
  yl_decode :: "nat list \<Rightarrow> string option"

definition yaml_failure :: "yaml_lib \<Rightarrow> exc \<Rightarrow> exc" where
  "yaml_failure y e = (if yl_error y e then spec_error ''invalid specification document'' else e)"

definition scan_token :: "yaml_token \<Rightarrow> unit result" where
  "scan_token t =
     (case t of
        AliasToken \<Rightarrow> Inl (spec_error ''YAML aliases and tags are not supported'')
      | AnchorToken \<Rightarrow> Inl (spec_error ''YAML aliases and tags are not supported'')
      | TagToken \<Rightarrow> Inl (spec_error ''YAML aliases and tags are not supported'')
      | ScalarToken s \<Rightarrow> (if s = ''<<'' then Inl (spec_error ''YAML merge keys are not supported'') else Inr ())
      | OtherToken \<Rightarrow> Inr ())"

definition scan_yaml :: "yaml_lib \<Rightarrow> string \<Rightarrow> unit result" where
  "scan_yaml y s =
     (case yl_scan y s of
        (tokens, failure) \<Rightarrow>
          bindR (forR scan_token tokens) (\<lambda>_.
          case failure of None \<Rightarrow> Inr () | Some e \<Rightarrow> Inl (yaml_failure y e)))"

text \<open>
  \<open>_construct_unique_mapping\<close>, which the loader calls with its \<open>construct_object\<close> for every mapping.
\<close>

fun construct_unique_mapping ::
  "('n \<Rightarrow> pyval result) \<Rightarrow> (pyval \<times> pyval) list \<Rightarrow> ('n \<times> 'n) list \<Rightarrow> (pyval \<times> pyval) list result" where
  "construct_unique_mapping build m [] = Inr m"
| "construct_unique_mapping build m ((key_node, value_node) # nodes) =
     bindR (build key_node) (\<lambda>key.
     if \<not> hashable key then Inl (spec_error ''specification mapping keys must be scalar'')
     else if list_ex (\<lambda>(k, _). py_eq key k) m then Inl (spec_error ''duplicate specification mapping key'')
     else bindR (build value_node) (\<lambda>v. construct_unique_mapping build (m @ [(key, v)]) nodes))"

definition load_text :: "yaml_lib \<Rightarrow> string \<Rightarrow> pyval result" where
  "load_text y s =
     bindR (scan_yaml y s) (\<lambda>_.
     case yl_load y s of Inr v \<Rightarrow> Inr v | Inl e \<Rightarrow> Inl (yaml_failure y e))"

definition too_large :: exc where
  "too_large = spec_error ''specification document exceeds size limit''"

definition load_value :: "py_env \<Rightarrow> yaml_lib \<Rightarrow> pyval \<Rightarrow> pyval result" where
  "load_value env y document =
     (case document of
        PBytes b \<Rightarrow>
          (if length b > MAX_DOCUMENT_BYTES then Inl too_large
           else case yl_decode y b of
             None \<Rightarrow> Inl (spec_error ''specification document must be UTF-8'')
           | Some s \<Rightarrow> load_text y s)
      | PStr s \<Rightarrow> (if utf8_len s > MAX_DOCUMENT_BYTES then Inl too_large else load_text y s)
      | PMap m \<Rightarrow>
          (case json_size (env_float env) document of
             Inl _ \<Rightarrow> Inl (spec_error ''specification document must be JSON-compatible'')
           | Inr n \<Rightarrow> (if n > MAX_DOCUMENT_BYTES then Inl too_large else Inr document))
      | _ \<Rightarrow> Inl (spec_error ''specification document must be an object or text''))"

definition load_revision_document :: "py_env \<Rightarrow> yaml_lib \<Rightarrow> pyval \<Rightarrow> (pyval \<times> pyval) list result" where
  "load_revision_document env y document =
     bindR (load_value env y document) (\<lambda>v.
     bindR (assert_safe_declaration_value v) (\<lambda>_.
     case v of PMap m \<Rightarrow> Inr m | _ \<Rightarrow> Inl (spec_error ''specification document must be an object'')))"

section \<open>Value references\<close>

function no_value_references :: "pyval \<Rightarrow> unit result"
  and no_references_in :: "pyval list \<Rightarrow> unit result"
  and no_references_of :: "(pyval \<times> pyval) list \<Rightarrow> unit result" where
  "no_value_references (PStr s) = bindR (assert_safe_declaration_value (PStr s)) (\<lambda>_. no_reference s)"
| "no_value_references (PMap m) = no_references_of m"
| "no_value_references (PList vs) = no_references_in vs"
| "no_value_references (PTuple vs) = no_references_in vs"
| "no_value_references PNone = assert_safe_declaration_value PNone"
| "no_value_references (PBool b) = assert_safe_declaration_value (PBool b)"
| "no_value_references (PInt i) = assert_safe_declaration_value (PInt i)"
| "no_value_references (PFloat f) = assert_safe_declaration_value (PFloat f)"
| "no_value_references (PBytes b) = assert_safe_declaration_value (PBytes b)"
| "no_value_references (PObj c a) = assert_safe_declaration_value (PObj c a)"
| "no_references_in [] = Inr ()"
| "no_references_in (v # vs) = bindR (no_value_references v) (\<lambda>_. no_references_in vs)"
| "no_references_of [] = Inr ()"
| "no_references_of ((k, v) # m) =
     bindR (no_value_references k) (\<lambda>_. bindR (no_value_references v) (\<lambda>_. no_references_of m))"
  by pat_completeness auto
termination
  by (relation "measure (case_sum size (case_sum (size_list size) (size_list (size_prod size size))))") auto

section \<open>Declared tools\<close>

text \<open>A Python set has no order; the keys are checked in the order of their literal.\<close>

definition IMPORT_STEP_KEYS :: "string list" where
  "IMPORT_STEP_KEYS = [''step_id'', ''operation_key'', ''input_map'', ''output_mappings'']"

definition IMPORT_TOOL_KEYS :: "string list" where
  "IMPORT_TOOL_KEYS = [''tool_key'', ''mcp_name'', ''description'', ''input_schema'', ''output_schema'',
     ''steps'', ''result_map'']"

definition keys_are :: "(pyval \<times> pyval) list \<Rightarrow> string list \<Rightarrow> bool" where
  "keys_are m names \<longleftrightarrow> set (map fst m) = PStr ` set names"

text \<open>A mapping from names to references.\<close>

definition compile_refs :: "(pyval \<times> pyval) list \<Rightarrow> (pyval \<times> value_ref) list result" where
  "compile_refs m =
     mapR (\<lambda>(name, raw). bindR (no_value_references name) (\<lambda>_.
       bindR (parse_value_ref raw) (\<lambda>r. Inr (name, r)))) m"

definition compile_step :: "pyval \<Rightarrow> decl_step result" where
  "compile_step raw =
     (case raw of
        PMap m \<Rightarrow>
          (if \<not> keys_are m IMPORT_STEP_KEYS \<and> \<not> keys_are m (IMPORT_STEP_KEYS @ [''timeout_ms''])
           then Inl (spec_error ''invalid x-mcp-tools step'')
           else bindR (forR (\<lambda>key. no_value_references (mget_none m key))
                  [''step_id'', ''operation_key'', ''output_mappings'']) (\<lambda>_.
                bindR (no_value_references (mget_none m ''timeout_ms'')) (\<lambda>_.
                bindR (case mget_none m ''input_map'' of
                         PMap inputs \<Rightarrow> compile_refs inputs
                       | _ \<Rightarrow> Inl (spec_error ''step input map must be an object'')) (\<lambda>inputs.
                case mget_none m ''output_mappings'' of
                  PMap outputs \<Rightarrow>
                    make_step (mget_none m ''step_id'') (mget_none m ''operation_key'') inputs (PMap outputs)
                      (mget_none m ''timeout_ms'')
                | _ \<Rightarrow> Inl (spec_error ''step output mappings must be an object'')))))
      | _ \<Rightarrow> Inl (spec_error ''invalid x-mcp-tools step''))"

definition compile_tool :: "pyval \<Rightarrow> decl_tool result" where
  "compile_tool raw =
     (case raw of
        PMap m \<Rightarrow>
          (if \<not> keys_are m IMPORT_TOOL_KEYS then Inl (spec_error ''invalid x-mcp-tools declaration'')
           else bindR (forR (\<lambda>key. no_value_references (mget_none m key))
                  [''tool_key'', ''mcp_name'', ''description'', ''input_schema'', ''output_schema'']) (\<lambda>_.
                bindR (case mget_none m ''steps'' of
                         PList raw_steps \<Rightarrow>
                           (if raw_steps = [] \<or> length raw_steps > MAX_TOOL_STEPS
                            then Inl (spec_error ''invalid x-mcp-tools steps'') else mapR compile_step raw_steps)
                       | _ \<Rightarrow> Inl (spec_error ''invalid x-mcp-tools steps'')) (\<lambda>steps.
                bindR (case mget_none m ''result_map'' of
                         PMap results \<Rightarrow> compile_refs results
                       | _ \<Rightarrow> Inl (spec_error ''tool result map must be an object'')) (\<lambda>results.
                make_tool (mget_none m ''tool_key'') (mget_none m ''mcp_name'') (mget_none m ''description'')
                  (mget_none m ''input_schema'') (mget_none m ''output_schema'') steps results PNone))))
      | _ \<Rightarrow> Inl (spec_error ''invalid x-mcp-tools declaration''))"

definition compile_tools :: "pyval \<Rightarrow> decl_tool list result" where
  "compile_tools raw =
     (case raw of
        PList raw_tools \<Rightarrow>
          (if raw_tools = [] \<or> length raw_tools > MAX_OPERATION_COUNT
           then Inl (spec_error ''x-mcp-tools must be a non-empty bounded list'') else mapR compile_tool raw_tools)
      | _ \<Rightarrow> Inl (spec_error ''x-mcp-tools must be a non-empty bounded list''))"

section \<open>Server and hosts\<close>

definition bounded_string :: "string \<Rightarrow> nat \<Rightarrow> pyval \<Rightarrow> string result" where
  "bounded_string msg maximum = string_such (spec_error msg) (\<lambda>s. s \<noteq> [] \<and> length s \<le> maximum)"

definition base_path_ok :: "string \<Rightarrow> bool" where
  "base_path_ok path \<longleftrightarrow> \<not> unsafe_path path \<and> CHR 0x5C \<notin> set path"

definition safe_base_url :: "py_env \<Rightarrow> pyval \<Rightarrow> (string \<times> string) result" where
  "safe_base_url env v =
     bindR (bounded_string ''OpenAPI server URL is required'' 512 v) (\<lambda>url.
     let not_https = Inl (spec_error ''OpenAPI server URL must be HTTPS'') in
     if CHR ''{'' \<in> set url \<or> CHR ''}'' \<in> set url
     then Inl (spec_error ''OpenAPI server variables are not supported'')
     else if list_ex (\<lambda>c. py_isspace c \<or> c = CHR 0x5C) url then not_https
     else case urlsplit url of
       None \<Rightarrow> not_https
     | Some parts \<Rightarrow>
         (case (url_port parts, url_hostname parts) of
            (Inr port, Some host_value) \<Rightarrow>
              (if u_scheme parts \<noteq> ''https'' \<or> url_userinfo parts \<noteq> (None, None)
                  \<or> u_query parts \<noteq> [] \<or> u_fragment parts \<noteq> []
               then not_https
               else case idna_encode (env_idna env) host_value of
                 None \<Rightarrow> Inl (spec_error ''invalid OpenAPI server host'')
               | Some ascii \<Rightarrow>
                   (let host = rstrip_char CHR ''.'' (py_lower ascii);
                        base_path = rstrip_char CHR ''/'' (u_path parts) in
                    if ip_address host \<noteq> None
                    then Inl (spec_error ''OpenAPI server IP literals are not supported'')
                    else if port \<notin> {None, Some 443}
                    then Inl (spec_error ''OpenAPI server port is not supported'')
                    else if \<not> base_path_ok base_path then Inl (spec_error ''invalid OpenAPI server path'')
                    else Inr (''https://'' @ host @ base_path, host)))
          | _ \<Rightarrow> not_https))"

text \<open>The hosts without repetition; the host of the server if none is given.\<close>

definition normalize_allowed_hosts :: "py_env \<Rightarrow> pyval list \<Rightarrow> string \<Rightarrow> string list result" where
  "normalize_allowed_hosts env vs base_host =
     bindR (foldR (\<lambda>hosts v. bindR (normalize_declaration_host env v) (\<lambda>h.
       Inr (if h \<in> set hosts then hosts else hosts @ [h]))) [] vs) (\<lambda>found.
     let hosts = (if found = [] then [base_host] else found) in
     if base_host \<notin> set hosts then Inl (spec_error ''server host is absent from allowed hosts'') else Inr hosts)"

section \<open>Schemas\<close>

definition SCHEMA_KEYS :: "string list" where
  "SCHEMA_KEYS = [''type'', ''maxLength'', ''minimum'', ''maximum'', ''enum'', ''items'', ''properties'',
     ''required'', ''additionalProperties'']"

definition IMPORT_SCHEMA_TYPES :: "string list" where
  "IMPORT_SCHEMA_TYPES = [''string'', ''integer'', ''number'', ''boolean'', ''array'', ''object'']"

text \<open>The type, with the scalar controls the schema has.\<close>

definition schema_controls :: "(pyval \<times> pyval) list \<Rightarrow> string \<Rightarrow> (string \<times> pyval) list" where
  "schema_controls m t =
     (''type'', PStr t) # List.map_filter (\<lambda>key. map_option (Pair key) (mget m key))
       [''maxLength'', ''minimum'', ''maximum'', ''enum'']"

definition required_properties :: "(pyval \<times> pyval) list \<Rightarrow> string list \<Rightarrow> pyval list result" where
  "required_properties m properties =
     (case mget_or m ''required'' (PList []) of
        PList names \<Rightarrow>
          (if list_all (\<lambda>n. case n of PStr s \<Rightarrow> s \<in> set properties | _ \<Rightarrow> False) names then Inr names
           else Inl (spec_error ''invalid required schema property''))
      | _ \<Rightarrow> Inl (spec_error ''invalid required schema property''))"

text \<open>The first argument is what the nesting limit leaves, \<open>9 - depth\<close>; objects and lists nest.\<close>

fun simple_schema :: "nat \<Rightarrow> bool \<Rightarrow> bool \<Rightarrow> pyval \<Rightarrow> (string \<times> pyval) list result" where
  "simple_schema left allow_object strict v =
     (case v of
        PMap m \<Rightarrow>
          (case left of
             0 \<Rightarrow> Inl (spec_error ''schema exceeds mapping depth'')
           | Suc rest \<Rightarrow>
               (if \<not> list_all (\<lambda>(k, _). k \<in> PStr ` set SCHEMA_KEYS) m
                then Inl (spec_error ''unsupported schema control'')
                else bindR (in_strings (mget_none m ''type'') IMPORT_SCHEMA_TYPES) (\<lambda>known.
                if \<not> known then Inl (spec_error ''unsupported schema type'')
                else let t = (case mget_none m ''type'' of PStr s \<Rightarrow> s | _ \<Rightarrow> []); head = schema_controls m t in
                  if t \<in> {''array'', ''object''} \<and> \<not> allow_object
                  then Inl (spec_error ''complex parameter schemas are not supported'')
                  else if t = ''array''
                  then bindR (simple_schema rest allow_object strict (mget_none m ''items'')) (\<lambda>items.
                       Inr (head @ [(''items'', pdict items)]))
                  else if t = ''object''
                  then (if strict \<and> mget m ''additionalProperties'' \<noteq> Some (PBool False)
                        then Inl (spec_error ''object request schemas require closed properties'')
                        else case mget_none m ''properties'' of
                          PMap ps \<Rightarrow>
                            (if ps = [] then Inl (spec_error ''object request schemas require properties'')
                             else bindR (mapR (\<lambda>(name, sub).
                                 bindR (bounded_string ''invalid schema property'' 128 name) (\<lambda>n.
                                 bindR (simple_schema rest True strict sub) (\<lambda>s. Inr (n, pdict s)))) ps) (\<lambda>properties.
                               bindR (required_properties m (map fst properties)) (\<lambda>required.
                               Inr (head @ (if strict then [(''additionalProperties'', PBool False)] else []) @
                                    [(''properties'', pdict properties), (''required'', PList required)]))))
                        | _ \<Rightarrow> Inl (spec_error ''object request schemas require properties''))
                  else Inr head)))
      | _ \<Rightarrow> Inl (spec_error ''parameter schema is required''))"

declare simple_schema.simps [simp del]

definition import_schema :: "bool \<Rightarrow> bool \<Rightarrow> pyval \<Rightarrow> (string \<times> pyval) list result" where
  "import_schema allow_object strict v = simple_schema (Suc MAX_MAPPING_DEPTH) allow_object strict v"

end
