(* ===== verification/ApiImport.thy ===== *)
theory ApiImport
  imports ApiDocument
begin

text \<open>
  The import of an OpenAPI document (\<open>declarative/validator.py\<close>), second part: the parameters, the body, the
  responses, the pagination and the security of an operation, the operation itself, and the whole revision.
\<close>

section \<open>Parameters and body\<close>

definition PROTECTED_HEADERS :: "string list" where
  "PROTECTED_HEADERS = [''authorization'', ''cookie'', ''host'', ''content-length'', ''transfer-encoding'',
     ''connection'', ''proxy-authorization'', ''proxy-connection'', ''content-type'', ''forwarded'',
     ''x-forwarded-for'', ''x-forwarded-host'', ''x-forwarded-proto'', ''x-real-ip'']"

text \<open>By location and name: whether it is required, and the schema.\<close>

type_synonym declarations = "(string \<times> string, bool \<times> (string \<times> pyval) list) dict"

definition declare_parameter :: "declarations \<Rightarrow> pyval \<Rightarrow> declarations result" where
  "declare_parameter found parameter =
     (case parameter of
        PMap m \<Rightarrow>
          bindR (string_among (spec_error ''unsupported parameter location'') [''path'', ''query'', ''header'']
            (mget_none m ''in'')) (\<lambda>location.
          bindR (bounded_string ''invalid parameter name'' 128 (mget_none m ''name'')) (\<lambda>name.
          if location = ''header'' \<and> py_lower name \<in> set PROTECTED_HEADERS
          then Inl (spec_error ''protected headers must use typed authentication'')
          else bindR (bool_or (spec_error ''parameter required must be a bool'') (mget_or m ''required'' (PBool False)))
            (\<lambda>required.
            if location = ''path'' \<and> \<not> required then Inl (spec_error ''path parameters must be required'')
            else bindR (import_schema False True (mget_none m ''schema'')) (\<lambda>schema.
              Inr (AList.update (location, name) (required, schema) found)))))
      | _ \<Rightarrow> Inl (spec_error ''invalid operation parameter''))"

definition declare_source :: "declarations \<Rightarrow> pyval \<Rightarrow> declarations result" where
  "declare_source found source =
     (case source of
        PNone \<Rightarrow> Inr found
      | PList parameters \<Rightarrow> foldR declare_parameter found parameters
      | _ \<Rightarrow> Inl (spec_error ''operation parameters must be a list''))"

definition parameter_declarations ::
  "(pyval \<times> pyval) list \<Rightarrow> (pyval \<times> pyval) list \<Rightarrow> declarations result" where
  "parameter_declarations path_item m =
     foldR declare_source [] [mget_or path_item ''parameters'' (PList []), mget_or m ''parameters'' (PList [])]"

text \<open>The body is one JSON object, whose properties are the inputs.\<close>

definition body_properties :: "bool \<Rightarrow> (string \<times> pyval) list \<Rightarrow> declarations result" where
  "body_properties required_body schema =
     (if map_of schema ''type'' \<noteq> Some (PStr ''object'')
      then Inl (spec_error ''JSON request body must be an object'')
      else let required = (case map_of schema ''required'' of Some (PList names) \<Rightarrow> names | _ \<Rightarrow> []) in
        Inr (case map_of schema ''properties'' of
               Some (PMap ps) \<Rightarrow>
                 map (\<lambda>(name, sub).
                   ((''body'', py_str (\<lambda>_. []) name),
                    (name \<in> set required \<or> required_body,
                     case sub of PMap s \<Rightarrow> map (\<lambda>(k, v). (py_str (\<lambda>_. []) k, v)) s | _ \<Rightarrow> []))) ps
             | _ \<Rightarrow> []))"

definition body_declarations :: "(pyval \<times> pyval) list \<Rightarrow> declarations result" where
  "body_declarations m =
     (case mget_none m ''requestBody'' of
        PNone \<Rightarrow> Inr []
      | PMap body \<Rightarrow>
          bindR (bool_or (spec_error ''request body required must be a bool'') (mget_or body ''required'' (PBool False)))
            (\<lambda>required_body.
            case mget_none body ''content'' of
              PMap content \<Rightarrow>
                (if \<not> keys_are content [''application/json'']
                 then Inl (spec_error ''only JSON request bodies are supported'')
                 else case mget_none content ''application/json'' of
                   PMap media \<Rightarrow>
                     bindR (import_schema True True (mget_none media ''schema'')) (body_properties required_body)
                 | _ \<Rightarrow> Inl (spec_error ''invalid JSON request body''))
            | _ \<Rightarrow> Inl (spec_error ''only JSON request bodies are supported''))
      | _ \<Rightarrow> Inl (spec_error ''invalid request body''))"

definition mapping_config :: "pyval \<Rightarrow> (string \<times> (pyval \<times> pyval) list) list result" where
  "mapping_config v =
     (case v of
        PList items \<Rightarrow>
          mapR (\<lambda>item. case item of
              PMap m \<Rightarrow>
                bindR (string_such (spec_error ''invalid input mapping name'') (\<lambda>_. True)
                  (mget_or m ''arg_name'' (mget_none m ''arg''))) (\<lambda>name. Inr (name, m))
            | _ \<Rightarrow> Inl (spec_error ''invalid input mapping'')) items
      | PMap items \<Rightarrow>
          mapR (\<lambda>(name, item).
              bindR (bounded_string ''invalid input mapping name'' 128 name) (\<lambda>n.
              Inr (n, case item of PMap m \<Rightarrow> m | _ \<Rightarrow> [])))
            (filter (\<lambda>(_, item). is_mapping item) items)
      | _ \<Rightarrow> Inl (spec_error ''input mappings must be an object or list''))"

definition default_mappings :: "declarations \<Rightarrow> input_mapping list result" where
  "default_mappings declared =
     mapR (\<lambda>((location, name), required, schema).
       make_input_mapping (PStr name) (PStr location) (PStr name) (PBool required) (pdict schema)) declared"

definition explicit_mapping :: "declarations \<Rightarrow> string \<times> (pyval \<times> pyval) list \<Rightarrow> input_mapping result" where
  "explicit_mapping declared entry =
     (case (mget_or (snd entry) ''location'' (mget_none (snd entry) ''in''),
            mget_or (snd entry) ''target'' (mget_none (snd entry) ''name'')) of
        (PStr location, PStr target) \<Rightarrow>
          (case map_of declared (location, target) of
             None \<Rightarrow> Inl (spec_error ''input mapping target is not declared'')
           | Some (required, schema) \<Rightarrow>
               (if has_key (snd entry) ''required'' \<and> mget_none (snd entry) ''required'' \<noteq> PBool required
                then Inl (spec_error ''input mapping cannot weaken declaration'')
                else make_input_mapping (PStr (fst entry)) (PStr location) (PStr target) (PBool required)
                       (pdict schema)))
      | _ \<Rightarrow> Inl (spec_error ''invalid input mapping''))"

text \<open>
  \<open>findall\<close> and \<open>sub\<close> of \<open>_PATH_PARAMETER_RE\<close>: the names in braces, and what is left of the path.  No brace is a
  character of a name, so that a match ends at the first closing brace.
\<close>

function path_parameters :: "string \<Rightarrow> string list \<times> string" where
  "path_parameters [] = ([], [])"
| "path_parameters (c # s) =
     (let name = takeWhile ident_rest s; rest = dropWhile ident_rest s in
      if c = CHR ''{'' \<and> ident_re name \<and> prefix ''}'' rest
      then (case path_parameters (tl rest) of (names, left) \<Rightarrow> (name # names, left))
      else (case path_parameters s of (names, left) \<Rightarrow> (names, c # left)))"
  by pat_completeness auto
termination
  by (relation "measure length") (auto simp: le_imp_less_Suc length_dropWhile_le le_diff_conv
    intro!: le_imp_less_Suc order_trans [OF diff_le_self length_dropWhile_le])

declare path_parameters.simps [simp del]

definition placeholders_match :: "string \<Rightarrow> input_mapping list \<Rightarrow> bool" where
  "placeholders_match path mappings \<longleftrightarrow>
     set (fst (path_parameters path)) = set (map im_target (filter (\<lambda>i. im_location i = ''path'') mappings)) \<and>
     CHR ''{'' \<notin> set (snd (path_parameters path))"

definition input_mappings ::
  "(pyval \<times> pyval) list \<Rightarrow> (pyval \<times> pyval) list \<Rightarrow> string \<Rightarrow> input_mapping list result" where
  "input_mappings m path_item path =
     bindR (parameter_declarations path_item m) (\<lambda>parameters.
     bindR (body_declarations m) (\<lambda>body.
     let declared = fold (\<lambda>(k, v). AList.update k v) body parameters in
     bindR (case mget_none m ''x-input-mappings'' of
              PNone \<Rightarrow> default_mappings declared
            | raw \<Rightarrow>
                bindR (mapping_config raw) (\<lambda>entries.
                bindR (mapR (explicit_mapping declared) entries) (\<lambda>mappings.
                if set (map (\<lambda>i. (im_location i, im_target i)) mappings) \<noteq> set (map fst declared)
                then Inl (spec_error ''all declared inputs require a fixed mapping'') else Inr mappings))) (\<lambda>mappings.
     if \<not> placeholders_match path mappings
     then Inl (spec_error ''path parameter mappings do not match path'') else Inr mappings)))"

section \<open>Responses\<close>

definition response_schema :: "(pyval \<times> pyval) list \<Rightarrow> (string \<times> pyval) list result" where
  "response_schema m =
     (case mget_none m ''responses'' of
        PMap responses \<Rightarrow>
          (case find (has_key responses) [''200'', ''201'', ''202'', ''default''] of
             None \<Rightarrow> Inl (spec_error ''operation requires successful JSON response'')
           | Some status \<Rightarrow>
               (case mget_none responses status of
                  PMap response \<Rightarrow>
                    (case mget_none response ''content'' of
                       PMap content \<Rightarrow>
                         (if \<not> has_key content ''application/json''
                          then Inl (spec_error ''operation requires JSON response declaration'')
                          else case mget_none content ''application/json'' of
                            PMap media \<Rightarrow> import_schema True False (mget_none media ''schema'')
                          | _ \<Rightarrow> Inl (spec_error ''invalid JSON response declaration''))
                     | _ \<Rightarrow> Inl (spec_error ''operation requires JSON response declaration''))
                | _ \<Rightarrow> Inl (spec_error ''operation requires successful JSON response'')))
      | _ \<Rightarrow> Inl (spec_error ''operation requires JSON response declaration''))"

text \<open>\<open>_schema_has_pointer\<close>: the loop over the tokens, then the routine.\<close>

definition digit_token :: "string \<Rightarrow> bool" where
  "digit_token t \<longleftrightarrow> t \<noteq> [] \<and> list_all py_isdigit t"

fun has_tokens :: "(pyval \<times> pyval) list \<Rightarrow> string list \<Rightarrow> bool" where
  "has_tokens schema [] = True"
| "has_tokens schema (token # tokens) =
     (if mget schema ''type'' = Some (PStr ''object'')
      then (case mget_none schema ''properties'' of
              PMap ps \<Rightarrow> (case mget ps token of Some (PMap sub) \<Rightarrow> has_tokens sub tokens | _ \<Rightarrow> False)
            | _ \<Rightarrow> False)
      else if mget schema ''type'' = Some (PStr ''array'') \<and> digit_token token
      then (case mget_none schema ''items'' of PMap sub \<Rightarrow> has_tokens sub tokens | _ \<Rightarrow> False)
      else False)"

definition pointer_parts :: "string \<Rightarrow> string list" where
  "pointer_parts pointer = map unescape_token (split_on CHR ''/'' (tl pointer))"

definition schema_has_pointer :: "(string \<times> pyval) list \<Rightarrow> string \<Rightarrow> bool" where
  "schema_has_pointer schema pointer \<longleftrightarrow>
     prefix ''/'' pointer \<and> has_tokens (map (\<lambda>(k, v). (PStr k, v)) schema) (pointer_parts pointer)"

text \<open>\<open>_schema_node_at_pointer\<close>\<close>

definition child_node :: "(pyval \<times> pyval) list \<Rightarrow> string \<Rightarrow> pyval option" where
  "child_node schema token =
     (if mget schema ''type'' = Some (PStr ''object'')
      then (case mget_none schema ''properties'' of PMap ps \<Rightarrow> mget ps token | _ \<Rightarrow> None)
      else if mget schema ''type'' = Some (PStr ''array'') \<and> digit_token token then Some (mget_none schema ''items'')
      else None)"

fun node_at_tokens :: "(pyval \<times> pyval) list \<Rightarrow> string list \<Rightarrow> (pyval \<times> pyval) list option" where
  "node_at_tokens schema [] = Some schema"
| "node_at_tokens schema (token # tokens) =
     (case child_node schema token of Some (PMap sub) \<Rightarrow> node_at_tokens sub tokens | _ \<Rightarrow> None)"

definition schema_node_at_pointer :: "(string \<times> pyval) list \<Rightarrow> pyval \<Rightarrow> (pyval \<times> pyval) list option" where
  "schema_node_at_pointer schema pointer =
     (case pointer of
        PStr p \<Rightarrow>
          (if prefix ''/'' p then node_at_tokens (map (\<lambda>(k, v). (PStr k, v)) schema) (pointer_parts p) else None)
      | _ \<Rightarrow> None)"

definition escape_token :: "string \<Rightarrow> string" where
  "escape_token t = py_replace ''/'' ''~1'' (py_replace ''~'' ''~0'' t)"

text \<open>What follows the last slash.\<close>

definition last_token :: "string \<Rightarrow> string" where
  "last_token pointer = (case rpartition_at CHR ''/'' pointer of (_, _, token) \<Rightarrow> unescape_token token)"

definition declared_outputs :: "(string \<times> pyval) list \<Rightarrow> pyval \<Rightarrow> output_mapping list result" where
  "declared_outputs schema raw =
     (case raw of
        PNone \<Rightarrow>
          (case (map_of schema ''type'', map_of schema ''properties'') of
             (Some (PStr t), Some (PMap ps)) \<Rightarrow>
               (if t \<noteq> ''object'' then Inl (spec_error ''operation requires explicit output mappings'')
                else mapR (\<lambda>(name, _). let n = py_str (\<lambda>_. []) name in
                       make_output_mapping (PStr n) (PStr (''/'' @ escape_token n))) ps)
           | _ \<Rightarrow> Inl (spec_error ''operation requires explicit output mappings''))
      | PMap m \<Rightarrow>
          mapR (\<lambda>(name, pointer). bindR (bounded_string ''invalid output mapping name'' 128 name) (\<lambda>n.
            make_output_mapping (PStr n) pointer)) m
      | PList pointers \<Rightarrow>
          mapR (\<lambda>pointer.
            bindR (string_such (spec_error ''invalid output pointer'') (prefix ''/'') pointer) (\<lambda>p.
            make_output_mapping (PStr (last_token p)) (PStr p))) pointers
      | _ \<Rightarrow> Inl (spec_error ''invalid output mappings''))"

definition output_mappings :: "(pyval \<times> pyval) list \<Rightarrow> output_mapping list result" where
  "output_mappings m =
     bindR (response_schema m) (\<lambda>schema.
     let named = mget_or m ''x-output-mappings'' (mget_none m ''x-output-mapping'');
         raw = (if named = PNone then mget_none m ''x-output-pointers'' else named) in
     bindR (declared_outputs schema raw) (\<lambda>mappings.
     if mappings = [] \<or> \<not> list_all (\<lambda>o'. schema_has_pointer schema (om_pointer o')) mappings
     then Inl (spec_error ''output mapping is not declared by response schema'') else Inr mappings))"

section \<open>Pagination\<close>

definition IMPORT_PAGINATION_KEYS :: "string list" where
  "IMPORT_PAGINATION_KEYS = [''max_pages'', ''max_items'', ''items_pointer'', ''next_pointer'', ''next_query_param'']"

definition compile_pagination :: "(pyval \<times> pyval) list \<Rightarrow> pagination option result" where
  "compile_pagination m =
     (case mget_none m ''x-pagination'' of
        PNone \<Rightarrow> Inr None
      | PMap raw \<Rightarrow>
          (if \<not> list_all (\<lambda>(k, _). k \<in> PStr ` set IMPORT_PAGINATION_KEYS) raw
           then Inl (spec_error ''unsupported pagination declaration'')
           else bindR (make_pagination (mget_or raw ''max_pages'' (PInt 1)) (mget_or raw ''max_items'' (PInt MAX_PAGE_LIMIT))
                  (mget_or raw ''items_pointer'' (PStr [])) (mget_or raw ''next_pointer'' (PStr []))
                  (mget_or raw ''next_query_param'' (PStr []))) (\<lambda>policy.
             if pg_max_pages policy \<le> 1 then Inr (Some policy)
             else bindR (response_schema m) (\<lambda>schema.
               case schema_node_at_pointer schema (pg_items_pointer policy) of
                 None \<Rightarrow> Inl (spec_error ''pagination items pointer must address a declared array'')
               | Some node \<Rightarrow>
                   (if mget node ''type'' \<noteq> Some (PStr ''array'')
                    then Inl (spec_error ''pagination items pointer must address a declared array'')
                    else if schema_node_at_pointer schema (pg_next_pointer policy) = None
                    then Inl (spec_error ''pagination cursor pointer is not declared by the response schema'')
                    else Inr (Some policy)))))
      | _ \<Rightarrow> Inl (spec_error ''invalid pagination declaration''))"

section \<open>Authentication and synchronisation\<close>

text \<open>The defaults of the dataclass.\<close>

definition auth_of_kind :: "string \<Rightarrow> auth_scheme" where
  "auth_of_kind kind =
     \<lparr>au_kind = PStr kind, au_credential_key = PStr [], au_header_name = PStr [], au_username_key = PStr [],
      au_password_key = PStr [], au_token_url = PStr [], au_client_id_key = PStr [], au_client_secret_key = PStr [],
      au_access_token_key = PStr ''access_token'', au_scopes = []\<rparr>"

definition compile_scheme :: "py_env \<Rightarrow> string \<Rightarrow> (pyval \<times> pyval) list \<Rightarrow> auth_scheme result" where
  "compile_scheme env name scheme =
     (let field = (\<lambda>key suffix. mget_or scheme key (PStr (name @ suffix))) in
      if mget_none scheme ''type'' = PStr ''apiKey''
      then (if mget_none scheme ''in'' \<noteq> PStr ''header'' then Inl (spec_error ''API keys must use a declared header'')
            else make_auth_scheme ((auth_of_kind ''api_key'')
              \<lparr>au_credential_key := field ''x-credential-key'' [], au_header_name := mget_none scheme ''name''\<rparr>))
      else if mget_none scheme ''type'' = PStr ''http'' \<and> mget_none scheme ''scheme'' = PStr ''basic''
      then make_auth_scheme ((auth_of_kind ''basic'')
              \<lparr>au_username_key := field ''x-username-credential-key'' ''_username'',
               au_password_key := field ''x-password-credential-key'' ''_password''\<rparr>)
      else if mget_none scheme ''type'' = PStr ''oauth2''
      then (case (case mget_none scheme ''flows'' of PMap flows \<Rightarrow> mget_none flows ''clientCredentials'' | _ \<Rightarrow> PNone) of
              PMap flow \<Rightarrow>
                bindR (safe_base_url env (mget_none flow ''tokenUrl'')) (\<lambda>(token_url, _).
                case mget_or flow ''scopes'' (PMap []) of
                  PMap scopes \<Rightarrow>
                    make_auth_scheme ((auth_of_kind ''oauth2_client_credentials'')
                      \<lparr>au_token_url := PStr token_url,
                       au_client_id_key := field ''x-client-id-credential-key'' ''_client_id'',
                       au_client_secret_key := field ''x-client-secret-credential-key'' ''_client_secret'',
                       au_access_token_key := mget_or scheme ''x-access-token-field'' (PStr ''access_token''),
                       au_scopes := map fst scopes\<rparr>)
                | _ \<Rightarrow> Inl (spec_error ''invalid OAuth scopes''))
            | _ \<Rightarrow> Inl (spec_error ''only OAuth client credentials is supported''))
      else Inl (spec_error ''unsupported authentication scheme''))"

text \<open>The name of the one scheme an operation requires, \<open>None\<close> if it requires none.\<close>

definition security_name :: "pyval \<Rightarrow> pyval option result" where
  "security_name security =
     (let bad = Inl (spec_error ''operation requires one declared authentication scheme'') in
      case security of
        PNone \<Rightarrow> Inr None
      | PList vs \<Rightarrow>
          (if vs = [] then Inr None
           else if length vs \<noteq> 1 then bad
           else case hd vs of
             PMap m \<Rightarrow> (if length m \<noteq> 1 then bad else Inr (Some (fst (hd m))))
           | _ \<Rightarrow> bad)
      | _ \<Rightarrow> bad)"

definition declared_scheme :: "(pyval \<times> pyval) list \<Rightarrow> string \<Rightarrow> (pyval \<times> pyval) list result" where
  "declared_scheme document name =
     (case (case mget_or document ''components'' (PMap []) of
              PMap components \<Rightarrow> mget_or components ''securitySchemes'' (PMap []) | _ \<Rightarrow> PMap []) of
        PMap schemes \<Rightarrow>
          (case mget_none schemes name of
             PMap scheme \<Rightarrow> Inr scheme
           | _ \<Rightarrow> Inl (spec_error ''declared authentication scheme is absent''))
      | _ \<Rightarrow> Inl (spec_error ''declared authentication scheme is absent''))"

definition operation_auth ::
  "py_env \<Rightarrow> (pyval \<times> pyval) list \<Rightarrow> (pyval \<times> pyval) list \<Rightarrow> auth_scheme option result" where
  "operation_auth env document m =
     bindR (security_name (mget_or m ''security'' (mget_none document ''security''))) (\<lambda>name.
     case name of
       None \<Rightarrow> Inr None
     | Some key \<Rightarrow>
         bindR (string_such (spec_error ''invalid authentication scheme'') (\<lambda>_. True) key) (\<lambda>scheme_name.
         bindR (declared_scheme document scheme_name) (\<lambda>scheme.
         bindR (compile_scheme env scheme_name scheme) (\<lambda>a. Inr (Some a)))))"

definition compile_sync :: "pyval \<Rightarrow> sync_spec option result" where
  "compile_sync v =
     (case v of
        PNone \<Rightarrow> Inr None
      | PMap m \<Rightarrow>
          bindR (make_sync_spec (mget_none m ''resource_key'')
            (mget_or m ''primary_key_pointer'' (mget_none m ''primary_key''))
            (mget_or m ''field_mappings'' (mget_none m ''fields''))
            (mget_or m ''operation_key'' (PStr [])) (mget_or m ''items_pointer'' (PStr []))) (\<lambda>s. Inr (Some s))
      | _ \<Rightarrow> Inl (spec_error ''invalid sync specification''))"

section \<open>Operations\<close>

definition validate_operation :: "operation \<Rightarrow> unit result" where
  "validate_operation p =
     (if op_method p \<notin> set ALLOWED_METHODS then Inl (spec_error ''unsupported HTTP method'')
      else if op_kind p = ''write'' \<and> \<not> op_explicit_write p
      then Inl (spec_error ''write operation requires explicit enablement'') else Inr ())"

definition DEFAULT_TIMEOUT_MS :: int where "DEFAULT_TIMEOUT_MS = 10000"

definition or_empty :: "pyval \<Rightarrow> pyval" where
  "or_empty v = (if truthy v then v else PStr [])"

definition compile_operation ::
  "pyval \<Rightarrow> string \<Rightarrow> (pyval \<times> pyval) list \<Rightarrow> (pyval \<times> pyval) list \<Rightarrow> string \<Rightarrow> operation result" where
  "compile_operation path method m path_item base_url =
     bindR (string_such (spec_error ''invalid OpenAPI path'') operation_path_ok path) (\<lambda>p.
     let tool_key = mget_or m ''x-tool-key'' (mget_none m ''operationId'');
         mcp_name = mget_or m ''x-mcp-name'' tool_key in
     bindR (input_mappings m path_item p) (\<lambda>inputs.
     let declared_kind = mget_none m ''x-operation-kind'';
         kind = (if declared_kind = PNone then PStr (if method = ''GET'' then ''read'' else ''write'') else declared_kind) in
     bindR (bool_or (spec_error ''write enablement must be a bool'') (mget_or m ''x-write-enabled'' (PBool False)))
       (\<lambda>explicit.
     bindR (compile_pagination m) (\<lambda>pg.
     bindR (output_mappings m) (\<lambda>outputs.
     bindR (make_operation
       \<lparr>ro_tool_key = tool_key, ro_mcp_name = mcp_name,
        ro_description = mget_or m ''summary'' (mget_or m ''description'' (or_empty tool_key)),
        ro_method = PStr method, ro_path = PStr p, ro_inputs = inputs, ro_outputs = outputs, ro_kind = kind,
        ro_explicit_write = PBool explicit, ro_base_url = PStr base_url,
        ro_timeout = mget_or m ''x-timeout-ms'' (PInt DEFAULT_TIMEOUT_MS),
        ro_cache_ttl = mget_none m ''x-cache-ttl-seconds'', ro_pagination = pg\<rparr>) (\<lambda>compiled.
     bindR (validate_operation compiled) (\<lambda>_. Inr compiled)))))))"

end
