(* ===== verification/OpenApi.thy ===== *)
theory OpenApi
  imports ApiImport
begin

text \<open>
  The import of a whole OpenAPI document (\<open>import_openapi_revision\<close> of \<open>declarative/validator.py\<close>) and the
  validation of a raw document.
\<close>

section \<open>Operations of the document\<close>

definition OPENAPI_METHODS :: "string list" where
  "OPENAPI_METHODS = [''get'', ''post'', ''put'', ''patch'', ''delete'']"

definition UNSUPPORTED_METHODS :: "string list" where
  "UNSUPPORTED_METHODS = [''head'', ''options'', ''trace'', ''connect'']"

text \<open>\<open>upper\<close> of ASCII letters; no other letter of Latin-1 becomes one of a method.\<close>

definition upper_char :: "char \<Rightarrow> char" where
  "upper_char c = (if ascii_lower c then char_of (of_char c - (32 :: nat)) else c)"

definition upper_method :: "string \<Rightarrow> string" where
  "upper_method s = map upper_char s"

text \<open>The keys of a path item that declare an operation; keys are strings in a document that was loaded.\<close>

definition skipped_key :: "pyval \<Rightarrow> bool" where
  "skipped_key k = (case k of PStr s \<Rightarrow> s = ''parameters'' \<or> prefix ''x-'' s | _ \<Rightarrow> False)"

definition item_operation ::
  "pyval \<Rightarrow> (pyval \<times> pyval) list \<Rightarrow> string \<Rightarrow> pyval \<times> pyval \<Rightarrow> operation result" where
  "item_operation path path_item base_url entry =
     (case fst entry of
        PStr raw_method \<Rightarrow>
          (if raw_method \<in> set UNSUPPORTED_METHODS \<or> upper_method raw_method \<notin> set ALLOWED_METHODS
           then Inl (spec_error ''unsupported HTTP method'')
           else if raw_method \<notin> set OPENAPI_METHODS then Inl (spec_error ''invalid OpenAPI operation'')
           else case snd entry of
             PMap m \<Rightarrow> compile_operation path (upper_method raw_method) m path_item base_url
           | _ \<Rightarrow> Inl (spec_error ''invalid OpenAPI operation''))
      | _ \<Rightarrow> Inl (spec_error ''unsupported HTTP method''))"

definition add_operation ::
  "pyval \<Rightarrow> (pyval \<times> pyval) list \<Rightarrow> string \<Rightarrow> operation list \<Rightarrow> pyval \<times> pyval \<Rightarrow> operation list result" where
  "add_operation path path_item base_url found entry =
     (if skipped_key (fst entry) then Inr found
      else bindR (item_operation path path_item base_url entry) (\<lambda>p.
        if Suc (length found) > MAX_OPERATION_COUNT then Inl (spec_error ''too many OpenAPI operations'')
        else Inr (found @ [p])))"

definition add_path_item :: "string \<Rightarrow> operation list \<Rightarrow> pyval \<times> pyval \<Rightarrow> operation list result" where
  "add_path_item base_url found entry =
     (case snd entry of
        PMap path_item \<Rightarrow> foldR (add_operation (fst entry) path_item base_url) found path_item
      | _ \<Rightarrow> Inl (spec_error ''invalid OpenAPI path item''))"

definition import_operations :: "string \<Rightarrow> pyval \<Rightarrow> operation list result" where
  "import_operations base_url paths =
     (case paths of
        PMap items \<Rightarrow>
          (if items = [] then Inl (spec_error ''OpenAPI paths are required'')
           else bindR (foldR (add_path_item base_url) [] items) (\<lambda>found.
             if found = [] then Inl (spec_error ''OpenAPI document has no supported operations'') else Inr found))
      | _ \<Rightarrow> Inl (spec_error ''OpenAPI paths are required''))"

section \<open>The one authentication scheme\<close>

definition secured_operations :: "pyval \<Rightarrow> (pyval \<times> pyval) list list" where
  "secured_operations paths =
     concat (map (\<lambda>(_, item). case item of
         PMap path_item \<Rightarrow>
           List.map_filter (\<lambda>(k, v). case (k, v) of
               (PStr s, PMap m) \<Rightarrow> (if s \<in> set OPENAPI_METHODS then Some m else None) | _ \<Rightarrow> None) path_item
       | _ \<Rightarrow> []) (case paths of PMap items \<Rightarrow> items | _ \<Rightarrow> []))"

definition import_auth :: "py_env \<Rightarrow> (pyval \<times> pyval) list \<Rightarrow> string list \<Rightarrow> auth_scheme option result" where
  "import_auth env document hosts =
     bindR (mapR (operation_auth env document) (secured_operations (mget_none document ''paths''))) (\<lambda>schemes.
     case remdups schemes of
       [] \<Rightarrow> Inr None
     | [None] \<Rightarrow> Inr None
     | [Some a] \<Rightarrow>
         (if au_kind a \<noteq> PStr ''oauth2_client_credentials'' then Inr (Some a)
          else bindR (safe_base_url env (au_token_url a)) (\<lambda>(_, token_host).
            if token_host \<notin> set hosts
            then Inl (spec_error ''OAuth token host is absent from allowed hosts'') else Inr (Some a)))
     | _ \<Rightarrow> Inl (spec_error ''revision supports one authentication scheme''))"

section \<open>The revision\<close>

text \<open>The identity a caller gives the revision, and what it sets in place of the document.\<close>

record import_scope =
  is_spec_id :: pyval
  is_revision :: pyval
  is_tenant_id :: pyval
  is_connection_id :: pyval
  is_status :: pyval
  is_hosts :: "pyval list option"
  is_sync :: pyval

definition default_scope :: import_scope where
  "default_scope =
     \<lparr>is_spec_id = PStr [], is_revision = PInt 1, is_tenant_id = PStr [], is_connection_id = PStr [],
      is_status = PStr ''draft'', is_hosts = None, is_sync = PNone\<rparr>"

definition openapi_version_ok :: "pyval \<Rightarrow> bool" where
  "openapi_version_ok v = (case v of PStr s \<Rightarrow> prefix ''3.'' s | _ \<Rightarrow> False)"

definition import_server :: "py_env \<Rightarrow> pyval \<Rightarrow> (string \<times> string) result" where
  "import_server env servers =
     (case servers of
        PList [PMap server] \<Rightarrow> safe_base_url env (mget_none server ''url'')
      | _ \<Rightarrow> Inl (spec_error ''exactly one OpenAPI server is required''))"

definition import_hosts :: "py_env \<Rightarrow> import_scope \<Rightarrow> (pyval \<times> pyval) list \<Rightarrow> string \<Rightarrow> string list result" where
  "import_hosts env scope document base_host =
     bindR (case is_hosts scope of
              Some hosts \<Rightarrow> Inr hosts
            | None \<Rightarrow>
                (case mget_or document ''x-allowed-hosts'' (PList [PStr base_host]) of
                   PList hosts \<Rightarrow> Inr hosts | _ \<Rightarrow> Inl (spec_error ''allowed hosts must be a list''))) (\<lambda>hosts.
     normalize_allowed_hosts env hosts base_host)"

definition ordinary_members :: "(pyval \<times> pyval) list \<Rightarrow> (pyval \<times> pyval) list" where
  "ordinary_members document =
     (if has_key document ''x-mcp-tools'' then filter (\<lambda>(k, _). k \<noteq> PStr ''x-mcp-tools'') document else document)"

text \<open>What is compiled, before it is written to a storage document and read back.\<close>

definition compile_revision :: "py_env \<Rightarrow> import_scope \<Rightarrow> (pyval \<times> pyval) list \<Rightarrow> revision result" where
  "compile_revision env scope document =
     bindR (no_value_references (PMap (ordinary_members document))) (\<lambda>_.
     if \<not> openapi_version_ok (mget_none document ''openapi'') then Inl (spec_error ''OpenAPI 3 document is required'')
     else
     bindR (import_server env (mget_none document ''servers'')) (\<lambda>(base_url, base_host).
     bindR (import_hosts env scope document base_host) (\<lambda>hosts.
     bindR (import_operations base_url (mget_none document ''paths'')) (\<lambda>operations.
     bindR (import_auth env document hosts) (\<lambda>auth.
     bindR (compile_sync (if is_sync scope \<noteq> PNone then is_sync scope else mget_none document ''x-sync-spec''))
       (\<lambda>sync.
     bindR (case mget document ''x-mcp-tools'' of None \<Rightarrow> Inr [] | Some raw \<Rightarrow> compile_tools raw) (\<lambda>tools.
     make_revision env
       \<lparr>rr_spec_id = is_spec_id scope, rr_revision = is_revision scope, rr_tenant_id = is_tenant_id scope,
        rr_connection_id = is_connection_id scope, rr_status = is_status scope, rr_base_url = PStr base_url,
        rr_allowed_hosts = map PStr hosts, rr_operations = operations, rr_tools = tools, rr_auth = auth,
        rr_sync = sync\<rparr>)))))))"

definition import_openapi_revision :: "py_env \<Rightarrow> yaml_lib \<Rightarrow> import_scope \<Rightarrow> pyval \<Rightarrow> revision result" where
  "import_openapi_revision env y scope document =
     bindR (load_revision_document env y document) (\<lambda>data.
     bindR (compile_revision env scope data) (canonical_revision env))"

text \<open>\<open>validate_revision\<close> of a raw document\<close>

definition validate_document :: "py_env \<Rightarrow> yaml_lib \<Rightarrow> pyval \<Rightarrow> pyval \<Rightarrow> revision result" where
  "validate_document env y document mode =
     bindR (load_revision_document env y document) (\<lambda>data.
     if \<not> has_key data ''openapi'' then Inl (spec_error ''OpenAPI 3 document is required'')
     else bindR (import_openapi_revision env y default_scope (PMap data)) (\<lambda>compiled.
          bindR (if mode \<noteq> PNone then assert_data_mode_allowed compiled mode else Inr ()) (\<lambda>_. Inr compiled)))"

end
