(* ===== verification/ApiFacts.thy ===== *)
theory ApiFacts
  imports OpenApi Canonical
begin

text \<open>
  What the importer compiles is well formed: every part is a fixed point of its constructor, so that the
  canonical form of the revision is the revision itself.
\<close>

section \<open>Tools\<close>

lemma compile_refs_ok: "compile_refs m = Inr rs \<Longrightarrow> \<forall>(n, r)\<in>set rs. ref_ok r"
  unfolding compile_refs_def by (auto dest!: mapR_mem intro: parse_value_ref_ok simp del: no_value_references.simps)

lemma compile_step_ok:
  assumes "compile_step raw = Inr s"
  shows "step_ok s"
proof -
  obtain m where raw: "raw = PMap m" using assms by (cases raw) (simp_all add: compile_step_def)
  obtain ins where refs: "(case mget_none m ''input_map'' of PMap inputs \<Rightarrow> compile_refs inputs
        | _ \<Rightarrow> Inl (spec_error ''step input map must be an object'')) = Inr ins"
    and made: "(case mget_none m ''output_mappings'' of PMap outputs \<Rightarrow>
        make_step (mget_none m ''step_id'') (mget_none m ''operation_key'') ins (PMap outputs)
          (mget_none m ''timeout_ms'')
      | _ \<Rightarrow> Inl (spec_error ''step output mappings must be an object'')) = Inr s"
    using assms unfolding raw compile_step_def pyval.case if_raise_Inr
    by (elim conjE bindR_InrE) (rule that)
  have "\<forall>(n, r)\<in>set ins. ref_ok r" using refs compile_refs_ok by (auto split: pyval.splits)
  then show ?thesis using made make_step_ok by (auto split: pyval.splits)
qed

lemma compile_tool_ok:
  assumes "compile_tool raw = Inr t"
  shows "tool_ok t"
proof -
  obtain m where raw: "raw = PMap m" using assms by (cases raw) (simp_all add: compile_tool_def)
  obtain steps results where steps: "(case mget_none m ''steps'' of
        PList raw_steps \<Rightarrow>
          (if raw_steps = [] \<or> length raw_steps > MAX_TOOL_STEPS
           then Inl (spec_error ''invalid x-mcp-tools steps'') else mapR compile_step raw_steps)
      | _ \<Rightarrow> Inl (spec_error ''invalid x-mcp-tools steps'')) = Inr steps"
    and results: "(case mget_none m ''result_map'' of PMap rs \<Rightarrow> compile_refs rs
      | _ \<Rightarrow> Inl (spec_error ''tool result map must be an object'')) = Inr results"
    and made: "make_tool (mget_none m ''tool_key'') (mget_none m ''mcp_name'') (mget_none m ''description'')
        (mget_none m ''input_schema'') (mget_none m ''output_schema'') steps results PNone = Inr t"
    using assms unfolding raw compile_tool_def pyval.case if_raise_Inr
    by (elim conjE bindR_InrE) (rule that)
  obtain raws where raws: "mapR compile_step raws = Inr steps"
    using steps by (cases "mget_none m ''steps''") auto
  have "\<forall>s\<in>set steps. step_ok s" using mapR_mem [OF raws] compile_step_ok by blast
  moreover have "\<forall>(n, r)\<in>set results. ref_ok r" using results compile_refs_ok by (auto split: pyval.splits)
  ultimately show ?thesis using make_tool_ok [OF made] by blast
qed

lemma compile_tools_ok: "compile_tools raw = Inr ts \<Longrightarrow> \<forall>t\<in>set ts. tool_ok t"
  unfolding compile_tools_def using mapR_mem compile_tool_ok by (fastforce split: pyval.splits if_splits)

section \<open>Operations\<close>

lemma explicit_mapping_ok: "explicit_mapping declared entry = Inr i \<Longrightarrow> input_ok i"
  unfolding explicit_mapping_def
  by (auto intro: make_input_ok split: pyval.splits option.splits if_splits)

lemma input_mappings_ok:
  assumes "input_mappings m path_item path = Inr inputs"
  shows "\<forall>i\<in>set inputs. input_ok i" and "placeholders_match path inputs"
proof -
  obtain declared where inputs: "(case mget_none m ''x-input-mappings'' of
              PNone \<Rightarrow> default_mappings declared
            | raw \<Rightarrow>
                bindR (mapping_config raw) (\<lambda>entries.
                bindR (mapR (explicit_mapping declared) entries) (\<lambda>mappings.
                if set (map (\<lambda>i. (im_location i, im_target i)) mappings) \<noteq> set (map fst declared)
                then Inl (spec_error ''all declared inputs require a fixed mapping'') else Inr mappings))) = Inr inputs"
    and match: "placeholders_match path inputs"
    using assms unfolding input_mappings_def Let_def bindR_Inr_iff if_raise_Inr sum.inject by blast
  show "placeholders_match path inputs" by (rule match)
  have "default_mappings declared = Inr inputs \<or> (\<exists>es. mapR (explicit_mapping declared) es = Inr inputs)"
    using inputs by (auto split: pyval.splits)
  then show "\<forall>i\<in>set inputs. input_ok i"
  proof
    assume "default_mappings declared = Inr inputs"
    then show "\<forall>i\<in>set inputs. input_ok i"
      unfolding default_mappings_def using mapR_mem make_input_ok by fastforce
  next
    assume "\<exists>es. mapR (explicit_mapping declared) es = Inr inputs"
    then obtain es where es: "mapR (explicit_mapping declared) es = Inr inputs" ..
    show "\<forall>i\<in>set inputs. input_ok i" using mapR_mem [OF es] explicit_mapping_ok by blast
  qed
qed

lemma mapR_outputs_ok:
  assumes "mapR f xs = Inr outputs" and "\<And>x o'. f x = Inr o' \<Longrightarrow> \<exists>a b. make_output_mapping a b = Inr o'"
  shows "\<forall>m\<in>set outputs. output_ok m"
  using mapR_mem [OF assms(1)] assms(2) make_output_ok by metis

lemma declared_outputs_ok:
  assumes "declared_outputs schema raw = Inr outputs"
  shows "\<forall>m\<in>set outputs. output_ok m"
proof (cases raw)
  case PNone
  then obtain ps where "mapR (\<lambda>(name, u :: pyval). let n = py_str (\<lambda>_. []) name in
      make_output_mapping (PStr n) (PStr (''/'' @ escape_token n))) ps = Inr outputs"
    using assms unfolding declared_outputs_def pyval.case
    by (cases "map_of schema ''type''"; cases "map_of schema ''properties''")
      (simp_all split: pyval.splits if_splits del: append_Cons)
  then show ?thesis by (rule mapR_outputs_ok) (auto simp: Let_def)
next
  case (PMap entries)
  show ?thesis
    using assms unfolding PMap declared_outputs_def pyval.case by (rule mapR_outputs_ok) (auto, blast)
next
  case (PList pointers)
  show ?thesis
    using assms unfolding PList declared_outputs_def pyval.case
    by (rule mapR_outputs_ok) (elim bindR_InrE, blast)
qed (use assms in \<open>simp_all add: declared_outputs_def\<close>)

lemma output_mappings_ok:
  assumes "output_mappings m = Inr outputs"
  shows "\<forall>o'\<in>set outputs. output_ok o'"
    and "\<exists>schema. response_schema m = Inr schema \<and> (\<forall>o'\<in>set outputs. schema_has_pointer schema (om_pointer o'))"
  using assms declared_outputs_ok unfolding output_mappings_def by (auto simp: Let_def list_all_iff split: if_splits)

lemma compile_pagination_ok: "compile_pagination m = Inr (Some pg) \<Longrightarrow> paging_ok pg"
  unfolding compile_pagination_def
  by (auto intro: make_pagination_ok split: pyval.splits if_splits option.splits)

lemma compile_operation_Inr:
  assumes "compile_operation path method m path_item base_url = Inr p"
  shows "operation_ok p" "path = PStr (op_path p)" "op_method p = method" "op_base_url p = base_url"
    "placeholders_match (op_path p) (op_inputs p)" "input_mappings m path_item (op_path p) = Inr (op_inputs p)"
    "output_mappings m = Inr (op_outputs p)" "compile_pagination m = Inr (op_pagination p)"
    "mget_or m ''x-write-enabled'' (PBool False) = PBool (op_explicit_write p)"
proof -
  obtain q inputs explicit pg outputs k n d t c where q: "path = PStr q" and inputs: "input_mappings m path_item q = Inr inputs"
    and explicit: "mget_or m ''x-write-enabled'' (PBool False) = PBool explicit"
    and pg: "compile_pagination m = Inr pg" and outputs: "output_mappings m = Inr outputs"
    and made: "make_operation
       \<lparr>ro_tool_key = k, ro_mcp_name = n, ro_description = d,
        ro_method = PStr method, ro_path = PStr q, ro_inputs = inputs, ro_outputs = outputs, ro_kind = c,
        ro_explicit_write = PBool explicit, ro_base_url = PStr base_url, ro_timeout = t,
        ro_cache_ttl = mget_none m ''x-cache-ttl-seconds'', ro_pagination = pg\<rparr> = Inr p"
    using assms unfolding compile_operation_def Let_def bindR_Inr_iff string_such_Inr bool_or_Inr by blast
  have ok: "operation_ok p"
    by (rule make_operation_ok [OF made])
      (use input_mappings_ok(1) [OF inputs] output_mappings_ok(1) [OF outputs] compile_pagination_ok [of m] pg in auto)
  have same: "op_path p = q" "op_method p = method" "op_base_url p = base_url" "op_inputs p = inputs"
    "op_outputs p = outputs" "op_pagination p = pg" "op_explicit_write p = explicit"
    using make_operation_raw [OF made] by (simp_all add: raw_of_operation_def)
  show "operation_ok p" "path = PStr (op_path p)" "op_method p = method" "op_base_url p = base_url"
    "placeholders_match (op_path p) (op_inputs p)" "input_mappings m path_item (op_path p) = Inr (op_inputs p)"
    "output_mappings m = Inr (op_outputs p)" "compile_pagination m = Inr (op_pagination p)"
    "mget_or m ''x-write-enabled'' (PBool False) = PBool (op_explicit_write p)"
    using ok q inputs explicit pg outputs input_mappings_ok(2) [OF inputs] by (simp_all add: same)
qed


section \<open>The document\<close>

text \<open>The operations a document declares, as path, key of the path item and its object, in document order.\<close>

definition declared_routes :: "pyval \<Rightarrow> (pyval \<times> (pyval \<times> pyval) list \<times> pyval \<times> pyval) list" where
  "declared_routes paths =
     concat (map (\<lambda>(path, item). case item of
         PMap path_item \<Rightarrow> map (\<lambda>entry. (path, path_item, entry)) (filter (\<lambda>(k, v). \<not> skipped_key k) path_item)
       | _ \<Rightarrow> []) (case paths of PMap items \<Rightarrow> items | _ \<Rightarrow> []))"

definition compiled_from ::
  "string \<Rightarrow> pyval \<times> (pyval \<times> pyval) list \<times> pyval \<times> pyval \<Rightarrow> operation \<Rightarrow> bool" where
  "compiled_from base_url route p \<longleftrightarrow>
     (case route of (path, path_item, k, v) \<Rightarrow>
        \<exists>name m. k = PStr name \<and> v = PMap m \<and> name \<in> set OPENAPI_METHODS \<and>
          compile_operation path (upper_method name) m path_item base_url = Inr p)"

lemma item_operation_Inr:
  assumes "item_operation path path_item base_url entry = Inr p"
  shows "compiled_from base_url (path, path_item, fst entry, snd entry) p"
  using assms unfolding item_operation_def compiled_from_def
  by (auto split: pyval.splits if_splits)

lemma add_operation_routes:
  assumes "foldR (add_operation path path_item base_url) found members = Inr found'"
  shows "\<exists>ps. found' = found @ ps \<and> list_all2 (compiled_from base_url)
    (map (\<lambda>entry. (path, path_item, entry)) (filter (\<lambda>(k, v). \<not> skipped_key k) members)) ps"
  using assms
proof (induction members arbitrary: found)
  case (Cons entry members)
  obtain k v where e: "entry = (k, v)" by (cases entry)
  from Cons.prems obtain f where f: "add_operation path path_item base_url found entry = Inr f"
    and rest: "foldR (add_operation path path_item base_url) f members = Inr found'" by auto
  obtain ps where ps: "found' = f @ ps" "list_all2 (compiled_from base_url)
    (map (\<lambda>entry. (path, path_item, entry)) (filter (\<lambda>(k, v). \<not> skipped_key k) members)) ps"
    using Cons.IH [OF rest] by blast
  show ?case
  proof (cases "skipped_key k")
    case True
    then have "f = found" using f by (simp add: add_operation_def e)
    then show ?thesis using ps True e by auto
  next
    case False
    then obtain p where p: "item_operation path path_item base_url entry = Inr p" "f = found @ [p]"
      using f by (auto simp: add_operation_def e)
    have "compiled_from base_url (path, path_item, k, v) p" using item_operation_Inr [OF p(1)] by (simp add: e)
    then show ?thesis using ps p(2) False by (intro exI [of _ "p # ps"]) (simp add: e)
  qed
qed simp

lemma add_path_item_routes:
  assumes "foldR (add_path_item base_url) found items = Inr found'"
  shows "\<exists>ps. found' = found @ ps \<and> list_all2 (compiled_from base_url) (declared_routes (PMap items)) ps"
  using assms
proof (induction items arbitrary: found)
  case Nil
  then show ?case by (simp add: declared_routes_def)
next
  case (Cons entry items)
  obtain path item where e: "entry = (path, item)" by (cases entry)
  from Cons.prems obtain f where f: "add_path_item base_url found entry = Inr f"
    and rest: "foldR (add_path_item base_url) f items = Inr found'" by auto
  obtain path_item where item: "item = PMap path_item"
    and fold: "foldR (add_operation path path_item base_url) found path_item = Inr f"
    using f by (cases item) (simp_all add: add_path_item_def e)
  obtain ps where ps: "f = found @ ps" "list_all2 (compiled_from base_url)
    (map (\<lambda>entry. (path, path_item, entry)) (filter (\<lambda>(k, v). \<not> skipped_key k) path_item)) ps"
    using add_operation_routes [OF fold] by blast
  obtain qs where qs: "found' = f @ qs" "list_all2 (compiled_from base_url) (declared_routes (PMap items)) qs"
    using Cons.IH [OF rest] by blast
  have "declared_routes (PMap (entry # items)) =
      map (\<lambda>entry. (path, path_item, entry)) (filter (\<lambda>(k, v). \<not> skipped_key k) path_item) @
      declared_routes (PMap items)"
    by (simp add: declared_routes_def e item)
  then show ?case using ps qs by (intro exI [of _ "ps @ qs"]) (simp add: list_all2_appendI)
qed

lemma import_operations_routes:
  assumes "import_operations base_url paths = Inr ps"
  shows "list_all2 (compiled_from base_url) (declared_routes paths) ps"
proof (cases paths)
  case (PMap items)
  then have "foldR (add_path_item base_url) [] items = Inr ps"
    using assms by (auto simp: import_operations_def)
  then show ?thesis using add_path_item_routes PMap by fastforce
qed (use assms in \<open>simp_all add: import_operations_def\<close>)

lemma list_all2_right: "list_all2 P xs ys \<Longrightarrow> y \<in> set ys \<Longrightarrow> \<exists>x\<in>set xs. P x y"
  unfolding list_all2_conv_all_nth by (metis in_set_conv_nth)

lemma import_operations_ok:
  assumes "import_operations base_url paths = Inr ps" and "p \<in> set ps"
  shows "operation_ok p"
  using list_all2_right [OF import_operations_routes [OF assms(1)] assms(2)] compile_operation_Inr(1)
  by (auto simp: compiled_from_def)

lemma auth_scheme_again: "make_auth_scheme a = Inr b \<Longrightarrow> make_auth_scheme b = Inr b"
  by (auto simp: make_auth_scheme_def)

lemma compile_scheme_ok:
  assumes "compile_scheme env name scheme = Inr a"
  shows "make_auth_scheme a = Inr a"
  using assms unfolding compile_scheme_def Let_def
  by (auto intro: auth_scheme_again split: if_splits pyval.splits prod.splits)

lemma operation_auth_ok:
  assumes "operation_auth env document m = Inr (Some a)"
  shows "make_auth_scheme a = Inr a"
proof -
  have "\<exists>name scheme. compile_scheme env name scheme = Inr a"
    using assms unfolding operation_auth_def
    by (elim bindR_InrE) (auto split: option.splits)
  then show ?thesis using compile_scheme_ok by blast
qed

lemma import_auth_ok:
  assumes "import_auth env document hosts = Inr (Some a)"
  shows "make_auth_scheme a = Inr a"
proof -
  obtain schemes where s: "mapR (operation_auth env document) (secured_operations (mget_none document ''paths'')) = Inr schemes"
    and found: "(case remdups schemes of [] \<Rightarrow> Inr None | [None] \<Rightarrow> Inr None
      | [Some a] \<Rightarrow>
         (if au_kind a \<noteq> PStr ''oauth2_client_credentials'' then Inr (Some a)
          else bindR (safe_base_url env (au_token_url a)) (\<lambda>(_, token_host).
            if token_host \<notin> set hosts
            then Inl (spec_error ''OAuth token host is absent from allowed hosts'') else Inr (Some a)))
      | _ \<Rightarrow> Inl (spec_error ''revision supports one authentication scheme'')) = Inr (Some a)"
    using assms unfolding import_auth_def by (elim bindR_InrE) (rule that)
  have "remdups schemes = [Some a]"
  proof (cases "remdups schemes")
    case (Cons x xs)
    then show ?thesis
      using found by (cases x; cases xs) (auto split: if_splits prod.splits)
  qed (use found in simp)
  then have "Some a \<in> set schemes" by (metis list.set_intros(1) set_remdups)
  with mapR_mem [OF s] operation_auth_ok show ?thesis by blast
qed

lemma compile_sync_ok: "compile_sync v = Inr (Some y) \<Longrightarrow> sync_ok y"
  unfolding compile_sync_def by (auto intro: make_sync_ok split: pyval.splits)

lemma compile_revision_Inr:
  assumes "compile_revision env scope document = Inr rv"
  shows "revision_ok env rv"
    and "import_operations (rv_base_url rv) (mget_none document ''paths'') = Inr (rv_operations rv)"
proof -
  obtain base_url base_host hosts operations auth sync tools where
    operations: "import_operations base_url (mget_none document ''paths'') = Inr operations"
    and hosts: "import_hosts env scope document base_host = Inr hosts"
    and auth: "import_auth env document hosts = Inr auth"
    and sync: "compile_sync (if is_sync scope \<noteq> PNone then is_sync scope else mget_none document ''x-sync-spec'') = Inr sync"
    and tools: "(case mget document ''x-mcp-tools'' of None \<Rightarrow> Inr [] | Some raw \<Rightarrow> compile_tools raw) = Inr tools"
    and made: "make_revision env
       \<lparr>rr_spec_id = is_spec_id scope, rr_revision = is_revision scope, rr_tenant_id = is_tenant_id scope,
        rr_connection_id = is_connection_id scope, rr_status = is_status scope, rr_base_url = PStr base_url,
        rr_allowed_hosts = map PStr hosts, rr_operations = operations, rr_tools = tools, rr_auth = auth,
        rr_sync = sync\<rparr> = Inr rv"
    using assms unfolding compile_revision_def if_raise_Inr
    by (elim conjE bindR_InrE) (auto split: prod.splits elim!: bindR_InrE)
  have parts: "parts_ok operations tools auth sync"
    unfolding parts_ok_def
    using import_operations_ok [OF operations] import_auth_ok auth compile_sync_ok sync compile_tools_ok tools
    by (auto split: option.splits)
  then show "revision_ok env rv" using make_revision_ok [OF made] by simp
  have same: "rv_base_url rv = base_url" "rv_operations rv = operations" "rv_auth rv = auth"
    using made unfolding make_revision_Inr by simp_all
  show "import_operations (rv_base_url rv) (mget_none document ''paths'') = Inr (rv_operations rv)"
    using operations by (simp add: same)
qed

end
