(* ===== verification/ApiSchema.thy ===== *)
theory ApiSchema
  imports OpenApi DeclParts
begin

text \<open>
  The schemas the importer accepts: what it keeps of one is closed where that is asked for, and accepting it
  again keeps all of it.
\<close>

section \<open>Controls\<close>

abbreviation schema_names :: "(string \<times> pyval) list \<Rightarrow> (pyval \<times> pyval) list" where
  "schema_names s \<equiv> map (\<lambda>(k, v). (PStr k, v)) s"

definition CONTROLS :: "string list" where
  "CONTROLS = [''maxLength'', ''minimum'', ''maximum'', ''enum'']"

lemma map_of_controls:
  "map_of (schema_controls m t) k =
     (if k = ''type'' then Some (PStr t) else if k \<in> set CONTROLS then mget m k else None)"
  unfolding schema_controls_def CONTROLS_def
  by (cases "mget m ''maxLength''"; cases "mget m ''minimum''"; cases "mget m ''maximum''"; cases "mget m ''enum''")
    (auto simp: List.map_filter_simps)

lemma controls_eq:
  assumes "\<And>k. k \<in> set CONTROLS \<Longrightarrow> mget m k = mget m' k"
  shows "schema_controls m t = schema_controls m' t"
proof -
  have "List.map_filter (\<lambda>key. map_option (Pair key) (mget m key)) CONTROLS =
      List.map_filter (\<lambda>key. map_option (Pair key) (mget m' key)) CONTROLS"
    unfolding List.map_filter_def using assms by (intro map_cong filter_cong) auto
  then show ?thesis by (simp add: schema_controls_def CONTROLS_def)
qed

lemma controls_keys: "fst ` set (schema_controls m t) \<subseteq> set SCHEMA_KEYS"
  unfolding schema_controls_def SCHEMA_KEYS_def by (auto simp: List.map_filter_simps split: option.splits)

lemma controls_again:
  assumes "set (map fst extra) \<inter> set (''type'' # CONTROLS) = {}"
  shows "schema_controls (schema_names (schema_controls m t @ extra)) t = schema_controls m t"
proof (rule controls_eq)
  fix k assume k: "k \<in> set CONTROLS"
  then have "map_of extra k = None" using assms by (auto simp: map_of_eq_None_iff)
  then show "mget (schema_names (schema_controls m t @ extra)) k = mget m k"
    using k by (auto simp: mget_pdict map_add_def map_of_controls CONTROLS_def simp del: map_append split: option.splits)
qed

section \<open>Cases\<close>

lemma simple_schema_cases:
  assumes "simple_schema left allow_object strict v = Inr s"
  obtains (scalar) rest m t where "left = Suc rest" "v = PMap m" "t \<in> set IMPORT_SCHEMA_TYPES" "t \<noteq> ''array''" "t \<noteq> ''object''"
      "s = schema_controls m t"
  | (items) rest m sub where "left = Suc rest" "v = PMap m" "allow_object"
      "simple_schema rest allow_object strict (mget_none m ''items'') = Inr sub"
      "s = schema_controls m ''array'' @ [(''items'', pdict sub)]"
  | (properties) rest m ps properties required where "left = Suc rest" "v = PMap m" "allow_object"
      "strict \<Longrightarrow> mget m ''additionalProperties'' = Some (PBool False)" "ps \<noteq> []"
      "mapR (\<lambda>(name, sub). bindR (bounded_string ''invalid schema property'' 128 name) (\<lambda>n.
         bindR (simple_schema rest True strict sub) (\<lambda>s. Inr (n, pdict s)))) ps = Inr properties"
      "required_properties m (map fst properties) = Inr required"
      "s = schema_controls m ''object'' @ (if strict then [(''additionalProperties'', PBool False)] else []) @
         [(''properties'', pdict properties), (''required'', PList required)]"
proof -
  obtain m rest where v: "v = PMap m" and left: "left = Suc rest"
    using assms by (cases v; cases left) (simp_all add: simple_schema.simps)
  obtain t where t: "mget_none m ''type'' = PStr t" "t \<in> set IMPORT_SCHEMA_TYPES"
    using assms unfolding v left by (auto simp: simple_schema.simps in_strings_True split: if_splits)
  have body: "(if t \<in> {''array'', ''object''} \<and> \<not> allow_object
        then Inl (spec_error ''complex parameter schemas are not supported'')
        else if t = ''array''
        then bindR (simple_schema rest allow_object strict (mget_none m ''items'')) (\<lambda>items.
             Inr (schema_controls m t @ [(''items'', pdict items)]))
        else if t = ''object''
        then (if strict \<and> mget m ''additionalProperties'' \<noteq> Some (PBool False)
              then Inl (spec_error ''object request schemas require closed properties'')
              else case mget_none m ''properties'' of
                PMap ps \<Rightarrow>
                  (if ps = [] then Inl (spec_error ''object request schemas require properties'')
                   else bindR (mapR (\<lambda>(name, sub).
                       bindR (bounded_string ''invalid schema property'' 128 name) (\<lambda>n.
                       bindR (simple_schema rest True strict sub) (\<lambda>s. Inr (n, pdict s)))) ps) (\<lambda>properties.
                     bindR (required_properties m (map fst properties)) (\<lambda>required.
                     Inr (schema_controls m t @ (if strict then [(''additionalProperties'', PBool False)] else []) @
                          [(''properties'', pdict properties), (''required'', PList required)]))))
              | _ \<Rightarrow> Inl (spec_error ''object request schemas require properties''))
        else Inr (schema_controls m t)) = Inr s"
    using assms t unfolding v left by (subst (asm) simple_schema.simps) (simp add: Let_def)
  consider "t = ''array''" | "t = ''object''" | "t \<noteq> ''array''" "t \<noteq> ''object''" by blast
  then show thesis
  proof cases
    case 1
    then show thesis using body items [OF left v] by auto
  next
    case 2
    note obj = body [unfolded 2]
    then have ao: "allow_object" by (auto split: if_splits)
    obtain ps where ps: "mget_none m ''properties'' = PMap ps" "ps \<noteq> []"
      using obj ao by (cases "mget_none m ''properties''") (auto split: if_splits)
    have props: "strict \<longrightarrow> mget m ''additionalProperties'' = Some (PBool False)"
      "bindR (mapR (\<lambda>(name, sub).
           bindR (bounded_string ''invalid schema property'' 128 name) (\<lambda>n.
           bindR (simple_schema rest True strict sub) (\<lambda>s. Inr (n, pdict s)))) ps) (\<lambda>properties.
         bindR (required_properties m (map fst properties)) (\<lambda>required.
         Inr (schema_controls m ''object'' @ (if strict then [(''additionalProperties'', PBool False)] else []) @
              [(''properties'', pdict properties), (''required'', PList required)]))) = Inr s"
      using obj ao ps by (simp_all only: if_True if_False pyval.case HOL.simp_thms char.inject if_raise_Inr
        insert_iff empty_iff not_not list.distinct list.inject) (auto split: if_splits)
    show thesis
      using props(2) by (elim bindR_InrE) (rule properties [OF left v ao _ ps(2)]; use props(1) in auto)
  next
    case 3
    then show thesis using body scalar [OF left v t(2)] by simp
  qed
qed


section \<open>Accepting a schema again\<close>

text \<open>Every object in a closed schema is closed.\<close>

inductive closed_schema :: "(string \<times> pyval) list \<Rightarrow> bool" where
  scalar: "map_of s ''type'' = Some (PStr t) \<Longrightarrow> t \<noteq> ''array'' \<Longrightarrow> t \<noteq> ''object'' \<Longrightarrow> closed_schema s"
| items: "map_of s ''type'' = Some (PStr ''array'') \<Longrightarrow> map_of s ''items'' = Some (pdict sub) \<Longrightarrow>
    closed_schema sub \<Longrightarrow> closed_schema s"
| properties: "map_of s ''type'' = Some (PStr ''object'') \<Longrightarrow> map_of s ''additionalProperties'' = Some (PBool False) \<Longrightarrow>
    map_of s ''properties'' = Some (pdict ps) \<Longrightarrow>
    (\<forall>(n, v)\<in>set ps. \<exists>sub. v = pdict sub \<and> closed_schema sub) \<Longrightarrow> closed_schema s"

lemma simple_schema_intro:
  assumes "fst ` set s \<subseteq> set SCHEMA_KEYS" and "map_of s ''type'' = Some (PStr t)" and "t \<in> set IMPORT_SCHEMA_TYPES"
  shows "simple_schema (Suc rest) allow_object strict (pdict s) =
    (if t \<in> {''array'', ''object''} \<and> \<not> allow_object
     then Inl (spec_error ''complex parameter schemas are not supported'')
     else if t = ''array''
     then bindR (simple_schema rest allow_object strict (mget_none (schema_names s) ''items'')) (\<lambda>items.
          Inr (schema_controls (schema_names s) t @ [(''items'', pdict items)]))
     else if t = ''object''
     then (if strict \<and> mget (schema_names s) ''additionalProperties'' \<noteq> Some (PBool False)
           then Inl (spec_error ''object request schemas require closed properties'')
           else case mget_none (schema_names s) ''properties'' of
             PMap ps \<Rightarrow>
               (if ps = [] then Inl (spec_error ''object request schemas require properties'')
                else bindR (mapR (\<lambda>(name, sub).
                    bindR (bounded_string ''invalid schema property'' 128 name) (\<lambda>n.
                    bindR (simple_schema rest True strict sub) (\<lambda>s. Inr (n, pdict s)))) ps) (\<lambda>properties.
                  bindR (required_properties (schema_names s) (map fst properties)) (\<lambda>required.
                  Inr (schema_controls (schema_names s) t @
                       (if strict then [(''additionalProperties'', PBool False)] else []) @
                       [(''properties'', pdict properties), (''required'', PList required)]))))
           | _ \<Rightarrow> Inl (spec_error ''object request schemas require properties''))
     else Inr (schema_controls (schema_names s) t))"
proof -
  have "list_all (\<lambda>(k, _). k \<in> PStr ` set SCHEMA_KEYS) (schema_names s)"
    using assms(1) by (force simp: list_all_iff)
  moreover have "mget_none (schema_names s) ''type'' = PStr t" using assms(2) by (simp add: mget_none_def)
  ultimately show ?thesis
    using assms(3) by (subst simple_schema.simps) (simp add: pdict_def Let_def)
qed

lemma controls_same:
  "schema_controls (schema_names (schema_controls m t @ [(''items'', v)])) t = schema_controls m t"
  "schema_controls (schema_names (schema_controls m t @ (if strict then [(''additionalProperties'', a)] else []) @
     [(''properties'', p), (''required'', r)])) t = schema_controls m t"
  "schema_controls (schema_names (schema_controls m t)) t = schema_controls m t"
  using controls_again [of "[(''items'', v)]" m t] controls_again [of "[]" m t]
    controls_again [of "(if strict then [(''additionalProperties'', a)] else []) @ [(''properties'', p), (''required'', r)]" m t]
  by (auto simp: CONTROLS_def simp del: map_append split: if_splits)

lemma mapR_back:
  assumes "\<And>y. y \<in> set ys \<Longrightarrow> f (g y) = Inr y"
  shows "mapR f (map g ys) = Inr ys"
  using assms by (induction ys) auto

lemma simple_schema_again:
  assumes "simple_schema left allow_object strict v = Inr s"
  shows "simple_schema left allow_object strict (pdict s) = Inr s \<and> (strict \<longrightarrow> closed_schema s)"
  using assms
proof (induction left arbitrary: allow_object v s)
  case 0
  then show ?case by (cases v) (simp_all add: simple_schema.simps)
next
  case (Suc left)
  from Suc.prems show ?case
  proof (cases rule: simple_schema_cases)
    case (scalar rest m t)
    have t: "map_of s ''type'' = Some (PStr t)" by (simp add: scalar(6) map_of_controls)
    have "simple_schema (Suc left) allow_object strict (pdict s) = Inr s"
      using scalar controls_keys controls_same(3) by (subst simple_schema_intro [OF _ t]) simp_all
    then show ?thesis using closed_schema.scalar [OF t] scalar by simp
  next
    case (items rest m sub)
    note s = items(5)
    have t: "map_of s ''type'' = Some (PStr ''array'')" "map_of s ''items'' = Some (pdict sub)"
      by (simp_all add: s map_of_controls map_add_def CONTROLS_def)
    have keys: "fst ` set s \<subseteq> set SCHEMA_KEYS"
      using controls_keys [of m "''array''"] by (auto simp: s SCHEMA_KEYS_def)
    have ih: "simple_schema left allow_object strict (pdict sub) = Inr sub" "strict \<longrightarrow> closed_schema sub"
      using Suc.IH items(1,4) by auto
    have "schema_controls (schema_names s) ''array'' = schema_controls m ''array''"
      unfolding s by (rule controls_same(1))
    moreover have "mget_none (schema_names s) ''items'' = pdict sub" using t(2) by (simp add: mget_none_def)
    ultimately have "simple_schema (Suc left) allow_object strict (pdict s) = Inr s"
      using ih(1) items(3) s
      by (subst simple_schema_intro [OF keys t(1)]) (simp_all add: IMPORT_SCHEMA_TYPES_def)
    then show ?thesis using closed_schema.items [OF t] ih(2) by simp
  next
    case (properties rest m ps props required)
    note s = properties(8)
    have t: "map_of s ''type'' = Some (PStr ''object'')" "map_of s ''properties'' = Some (pdict props)"
      "map_of s ''required'' = Some (PList required)" "strict \<Longrightarrow> map_of s ''additionalProperties'' = Some (PBool False)"
      by (simp_all add: s map_of_controls map_add_def CONTROLS_def)
    have keys: "fst ` set s \<subseteq> set SCHEMA_KEYS"
      using controls_keys [of m "''object''"] by (auto simp: s SCHEMA_KEYS_def split: if_splits)
    have each: "n \<noteq> [] \<and> length n \<le> 128 \<and> (\<exists>sub. w = pdict sub \<and>
        simple_schema left True strict (pdict sub) = Inr sub \<and> (strict \<longrightarrow> closed_schema sub))"
      if nw: "(n, w) \<in> set props" for n w
    proof -
      obtain name x sub where "bounded_string ''invalid schema property'' 128 name = Inr n"
        "simple_schema left True strict x = Inr sub" "w = pdict sub"
        using mapR_mem [OF properties(6) nw] properties(1) by auto
      then show ?thesis using Suc.IH by (auto simp: bounded_string_def)
    qed
    have again: "mapR (\<lambda>(name, sub). bindR (bounded_string ''invalid schema property'' 128 name) (\<lambda>n.
         bindR (simple_schema left True strict sub) (\<lambda>s. Inr (n, pdict s)))) (schema_names props) = Inr props"
    proof (rule mapR_back)
      fix y assume y: "y \<in> set props"
      then have "(fst y, snd y) \<in> set props" by simp
      from each [OF this] obtain n sub where y: "y = (n, pdict sub)" "n \<noteq> []" "length n \<le> 128"
        "simple_schema left True strict (pdict sub) = Inr sub"
        by (metis prod.collapse)
      then show "(case (case y of (k, v) \<Rightarrow> (PStr k, v)) of (name, sub) \<Rightarrow>
          bindR (bounded_string ''invalid schema property'' 128 name) (\<lambda>n.
          bindR (simple_schema left True strict sub) (\<lambda>s. Inr (n, pdict s)))) = Inr y"
        by (simp add: bounded_string_def)
    qed
    have ne: "props \<noteq> []" using properties(5) mapR_Inr_length [OF properties(6)] by auto
    have req: "required_properties (schema_names s) (map fst props) = Inr required"
      using properties(7) t(3) by (auto simp: required_properties_def mget_or_def split: pyval.splits if_splits option.splits)
    have "simple_schema (Suc left) allow_object strict (pdict s) = Inr s"
      using properties(3) t(2,4) again req ne controls_same(2)
      by (subst simple_schema_intro [OF keys t(1)])
        (simp_all add: IMPORT_SCHEMA_TYPES_def mget_none_def pdict_def s del: map_append)
    then show ?thesis using closed_schema.properties [OF t(1) t(4) t(2)] each by fastforce
  qed
qed

end
