(* ===== verification/ApiDemo.thy ===== *)
theory ApiDemo
  imports OpenApi DeclDemo
begin

text \<open>An OpenAPI document for the witnesses: it declares the operations and the tool of \<open>DeclDemo\<close>.\<close>

definition demo_yaml :: yaml_lib where
  "demo_yaml = \<lparr>yl_scan = (\<lambda>_. ([], None)), yl_load = (\<lambda>_. Inr PNone), yl_error = (\<lambda>_. False), yl_decode = (\<lambda>_. None)\<rparr>"

definition json_content :: "pyval \<Rightarrow> pyval" where
  "json_content schema = pdict [(''application/json'', pdict [(''schema'', schema)])]"

definition found_schema :: pyval where
  "found_schema = pdict [(''type'', PStr ''object''),
     (''properties'', pdict [(''id'', pdict [(''type'', PStr ''integer'')])])]"

definition saved_schema :: pyval where
  "saved_schema = pdict [(''type'', PStr ''object''),
     (''properties'', pdict [(''done'', pdict [(''type'', PStr ''boolean'')])])]"

definition body_schema :: pyval where
  "body_schema = pdict [(''type'', PStr ''object''), (''additionalProperties'', PBool False),
     (''properties'', pdict [(''id'', pdict [(''type'', PStr ''integer'')])]), (''required'', PList [PStr ''id''])]"

definition get_operation :: pyval where
  "get_operation = pdict
     [(''operationId'', PStr ''find''), (''x-mcp-name'', PStr ''find_item''), (''summary'', PStr ''Find''),
      (''parameters'', PList [pdict [(''in'', PStr ''path''), (''name'', PStr ''item''), (''required'', PBool True),
         (''schema'', pdict [(''type'', PStr ''string'')])]]),
      (''responses'', pdict [(''200'', pdict [(''content'', json_content found_schema)])])]"

definition post_operation :: pyval where
  "post_operation = pdict
     [(''operationId'', PStr ''save''), (''x-mcp-name'', PStr ''save_item''), (''summary'', PStr ''Save''),
      (''x-write-enabled'', PBool True), (''x-timeout-ms'', PInt 20000),
      (''requestBody'', pdict [(''content'', json_content body_schema)]),
      (''responses'', pdict [(''201'', pdict [(''content'', json_content saved_schema)])])]"

definition tool_declaration :: pyval where
  "tool_declaration = pdict
     [(''tool_key'', PStr ''copy''), (''mcp_name'', PStr ''copy_item''), (''description'', PStr ''Copy''),
      (''input_schema'', PMap (dt_input_schema demo_copy)), (''output_schema'', PMap (dt_output_schema demo_copy)),
      (''steps'', PList
         [pdict [(''step_id'', PStr ''one''), (''operation_key'', PStr ''find''),
                 (''input_map'', pdict [(''item'', PStr ''$input.item'')]),
                 (''output_mappings'', pdict [(''id'', PStr ''id'')])],
          pdict [(''step_id'', PStr ''two''), (''operation_key'', PStr ''save''),
                 (''input_map'', pdict [(''id'', PStr ''$steps.one.id'')]),
                 (''output_mappings'', pdict [(''done'', PStr ''done'')]), (''timeout_ms'', PInt 25000)]]),
      (''result_map'', pdict [(''done'', PStr ''$steps.two.done'')])]"

definition demo_openapi :: "(string \<times> pyval) list" where
  "demo_openapi =
     [(''openapi'', PStr ''3.0.3''), (''servers'', PList [pdict [(''url'', PStr demo_base)]]),
      (''paths'', pdict [(''/items/{item}'', pdict [(''get'', get_operation)]),
                         (''/items'', pdict [(''post'', post_operation)])]),
      (''x-mcp-tools'', PList [tool_declaration])]"

definition demo_scope :: import_scope where
  "demo_scope = default_scope\<lparr>is_spec_id := PStr ''spec'', is_revision := PInt 3, is_tenant_id := PStr ''t1'',
     is_connection_id := PStr ''c1'', is_status := PStr ''published''\<rparr>"

definition imported_save :: operation where
  "imported_save = demo_save\<lparr>op_inputs :=
     [\<lparr>im_arg_name = ''id'', im_location = ''body'', im_target = ''id'', im_required = True,
       im_schema = [(PStr ''type'', PStr ''integer'')]\<rparr>]\<rparr>"

definition imported_revision :: revision where
  "imported_revision = demo_revision\<lparr>rv_operations := [demo_find, imported_save]\<rparr>"

lemma demo_document_loads:
  "load_revision_document demo_env demo_yaml (pdict demo_openapi) = Inr (map (\<lambda>(k, v). (PStr k, v)) demo_openapi)"
  by code_simp

lemma demo_compiles:
  "compile_revision demo_env demo_scope (map (\<lambda>(k, v). (PStr k, v)) demo_openapi) = Inr imported_revision"
  by code_simp

lemma demo_imports:
  "import_openapi_revision demo_env demo_yaml demo_scope (pdict demo_openapi) = Inr imported_revision"
proof -
  have "canonical_revision demo_env imported_revision = Inr imported_revision" by code_simp
  then show ?thesis by (simp add: import_openapi_revision_def demo_document_loads demo_compiles)
qed

end
