(* ===== verification/ApiClaims.thy ===== *)
theory ApiClaims
  imports ApiFacts ApiSchema ApiDemo DeclRequest
begin

text \<open>The properties of the OpenAPI importer.\<close>

section \<open>What is imported\<close>

text \<open>C38: An imported revision is the one compiled from the document: writing it to a storage document and reading
  it back, which the importer does last, changes nothing, and doing it again on validation does not either.\<close>

theorem import_is_canonical:
  assumes "import_openapi_revision env y scope document = Inr rv"
  shows "(\<exists>data. load_revision_document env y document = Inr data \<and> compile_revision env scope data = Inr rv) \<and>
    revision_ok env rv \<and> validate_revision env rv PNone = Inr rv"
proof -
  obtain data compiled where data: "load_revision_document env y document = Inr data"
    and compiled: "compile_revision env scope data = Inr compiled"
    and canonical: "canonical_revision env compiled = Inr rv"
    using assms unfolding import_openapi_revision_def bindR_Inr_iff by blast
  have ok: "revision_ok env compiled" by (rule compile_revision_Inr(1) [OF compiled])
  with canonical have "rv = compiled" by (simp add: canonical_same)
  then show ?thesis using data compiled canonical ok by (auto simp: validate_revision_def)
qed

lemma import_is_canonical_witness:
  "revision_ok demo_env imported_revision \<and> validate_revision demo_env imported_revision PNone = Inr imported_revision"
  using import_is_canonical [OF demo_imports] by blast

text \<open>A declaration of the document and the operation it became.\<close>

definition declared_as :: "pyval \<times> (pyval \<times> pyval) list \<times> pyval \<times> pyval \<Rightarrow> operation \<Rightarrow> bool" where
  "declared_as route p \<longleftrightarrow>
     (case route of (path, path_item, k, v) \<Rightarrow>
        path = PStr (op_path p) \<and>
        (\<exists>name m. k = PStr name \<and> v = PMap m \<and> upper_method name = op_method p \<and>
           (op_method p \<noteq> ''GET'' \<longrightarrow> mget m ''x-write-enabled'' = Some (PBool True)) \<and>
           placeholders_match (op_path p) (op_inputs p) \<and>
           (\<exists>schema. response_schema m = Inr schema \<and>
              (\<forall>o'\<in>set (op_outputs p). schema_node_at_pointer schema (PStr (om_pointer o')) \<noteq> None) \<and>
              (\<forall>pg. op_pagination p = Some pg \<and> pg_max_pages pg > 1 \<longrightarrow>
                 (\<exists>node. schema_node_at_pointer schema (pg_items_pointer pg) = Some node \<and>
                    mget node ''type'' = Some (PStr ''array'')) \<and>
                 schema_node_at_pointer schema (pg_next_pointer pg) \<noteq> None))))"

lemma has_tokens_node: "has_tokens schema tokens \<longleftrightarrow> node_at_tokens schema tokens \<noteq> None"
proof (induction schema tokens rule: has_tokens.induct)
  case (2 schema token tokens)
  then show ?case
    by (auto simp: child_node_def split: pyval.splits option.splits)
qed simp

lemma pointer_node: "schema_has_pointer schema pointer \<longleftrightarrow> schema_node_at_pointer schema (PStr pointer) \<noteq> None"
  by (simp add: schema_has_pointer_def schema_node_at_pointer_def has_tokens_node)

lemma compile_pagination_nodes:
  assumes "compile_pagination m = Inr (Some pg)" and "pg_max_pages pg > 1" and "response_schema m = Inr schema"
  shows "\<exists>node. schema_node_at_pointer schema (pg_items_pointer pg) = Some node \<and> mget node ''type'' = Some (PStr ''array'')"
    and "schema_node_at_pointer schema (pg_next_pointer pg) \<noteq> None"
  using assms unfolding compile_pagination_def
  by (auto split: pyval.splits if_splits option.splits elim!: bindR_InrE)

lemma compiled_declared_as:
  assumes "compiled_from base_url route p"
  shows "declared_as route p"
proof -
  obtain path path_item k v where route: "route = (path, path_item, k, v)" by (cases route)
  obtain name m where k: "k = PStr name" "v = PMap m"
    and p: "compile_operation path (upper_method name) m path_item base_url = Inr p"
    using assms unfolding route compiled_from_def by auto
  note c = compile_operation_Inr [OF p]
  obtain schema where schema: "response_schema m = Inr schema"
    "\<forall>o'\<in>set (op_outputs p). schema_has_pointer schema (om_pointer o')"
    using output_mappings_ok(2) [OF c(7)] by blast
  have "mget m ''x-write-enabled'' = Some (PBool True)" if "op_method p \<noteq> ''GET''"
  proof -
    have "make_operation (raw_of_operation p) = Inr p" using c(1) by (simp add: operation_ok_def)
    then have "op_explicit_write p"
      using operation_facts(5,6,7) [of "raw_of_operation p" p] that by (auto simp: ALLOWED_OPERATION_KINDS_def)
    then show ?thesis using c(9) by (auto simp: mget_or_def split: option.splits)
  qed
  then show ?thesis
    using c(2,3,5) schema k pointer_node compile_pagination_nodes [OF _ _ schema(1)] c(8)
    unfolding route declared_as_def by auto
qed

text \<open>C37: The operations of an imported revision are those the document declares, in its order, each with its path
  and method: any but a GET was enabled for writing in the document, the names in braces in the path are those of
  the path inputs, and outputs and page pointers address nodes of the declared response schema, the items an
  array.\<close>

theorem imported_operations_declared:
  assumes "import_openapi_revision env y scope document = Inr rv"
  shows "\<exists>data. load_revision_document env y document = Inr data \<and>
    list_all2 declared_as (declared_routes (mget_none data ''paths'')) (rv_operations rv)"
proof -
  obtain data compiled where data: "load_revision_document env y document = Inr data"
    and compiled: "compile_revision env scope data = Inr compiled"
    and canonical: "canonical_revision env compiled = Inr rv"
    using assms unfolding import_openapi_revision_def bindR_Inr_iff by blast
  have "rv = compiled" using canonical_same compile_revision_Inr(1) [OF compiled] canonical by blast
  then have "import_operations (rv_base_url rv) (mget_none data ''paths'') = Inr (rv_operations rv)"
    using compile_revision_Inr(2) [OF compiled] by simp
  then have "list_all2 (compiled_from (rv_base_url rv)) (declared_routes (mget_none data ''paths'')) (rv_operations rv)"
    by (rule import_operations_routes)
  then show ?thesis using data compiled_declared_as by (auto elim: list_all2_mono)
qed

lemma imported_operations_declared_witness:
  "list_all2 declared_as
     [(PStr ''/items/{item}'', [(PStr ''get'', get_operation)], PStr ''get'', get_operation),
      (PStr ''/items'', [(PStr ''post'', post_operation)], PStr ''post'', post_operation)]
     [demo_find, imported_save]"
proof -
  have "declared_routes (mget_none (map (\<lambda>(k, v). (PStr k, v)) demo_openapi) ''paths'') =
     [(PStr ''/items/{item}'', [(PStr ''get'', get_operation)], PStr ''get'', get_operation),
      (PStr ''/items'', [(PStr ''post'', post_operation)], PStr ''post'', post_operation)]"
    by (simp add: mget_none_def demo_openapi_def declared_routes_def pdict_def skipped_key_def)
  then show ?thesis
    using imported_operations_declared [OF demo_imports] by (auto simp: demo_document_loads imported_revision_def)
qed


section \<open>Schemas\<close>

text \<open>C39: Accepting an accepted schema again keeps all of it, and in one accepted for a request every object is
  closed, however deep.\<close>

theorem imported_schema_stable:
  assumes "import_schema allow_object strict v = Inr s"
  shows "import_schema allow_object strict (pdict s) = Inr s \<and> (strict \<longrightarrow> closed_schema s)"
  using assms simple_schema_again unfolding import_schema_def by blast

lemma imported_schema_stable_witness:
  "closed_schema [(''type'', PStr ''object''), (''additionalProperties'', PBool False),
     (''properties'', pdict [(''id'', pdict [(''type'', PStr ''integer'')])]), (''required'', PList [PStr ''id''])]"
proof -
  have "import_schema True True body_schema = Inr [(''type'', PStr ''object''), (''additionalProperties'', PBool False),
     (''properties'', pdict [(''id'', pdict [(''type'', PStr ''integer'')])]), (''required'', PList [PStr ''id''])]"
    by code_simp
  from imported_schema_stable [OF this] show ?thesis by blast
qed

section \<open>A path with a stray brace\<close>

definition occurrences :: "char \<Rightarrow> string \<Rightarrow> nat" where
  "occurrences c s = length (filter (\<lambda>d. d = c) s)"

lemma occurrences_simps [simp]: "occurrences c [] = 0" "occurrences c (s @ t) = occurrences c s + occurrences c t"
  "occurrences c (d # s) = (if d = c then Suc (occurrences c s) else occurrences c s)"
  by (simp_all add: occurrences_def)

lemma occurrences_0: "c \<notin> set s \<Longrightarrow> occurrences c s = 0"
  by (auto simp: occurrences_def filter_empty_conv)

text \<open>More of one brace than of the other, which replacing a placeholder by a quoted value does not change.\<close>

definition brace_excess :: "string \<Rightarrow> int" where
  "brace_excess s = int (occurrences CHR ''}'' s) - int (occurrences CHR ''{'' s)"

lemma brace_excess_append: "brace_excess (s @ t) = brace_excess s + brace_excess t"
  by (simp add: brace_excess_def)

lemma py_replace_excess:
  "brace_excess old = 0 \<Longrightarrow> brace_excess new = 0 \<Longrightarrow> brace_excess (py_replace old new s) = brace_excess s"
proof (induction old new s rule: py_replace.induct)
  case (2 old new x s)
  show ?case
  proof (cases "old \<noteq> [] \<and> prefix old (x # s)")
    case True
    then obtain rest where rest: "x # s = old @ rest" by (auto simp: prefix_def)
    have "drop (length old - 1) s = rest" using rest True by (cases old) auto
    moreover have "brace_excess (x # s) = brace_excess rest" using rest 2(3) brace_excess_append [of old rest] by simp
    ultimately show ?thesis using 2(1) [OF True 2(3,4)] True 2(4) by (simp add: brace_excess_append)
  next
    case False
    then have "brace_excess (py_replace old new (x # s)) = brace_excess ([x] @ py_replace old new s)" by auto
    also have "\<dots> = brace_excess ([x] @ s)" unfolding brace_excess_append using 2(2) [OF False 2(3,4)] by simp
    finally show ?thesis by simp
  qed
qed simp

lemma quoted_no_brace: "brace_excess (quote s) = 0"
proof -
  have "\<not> quoted_char CHR ''{''" "\<not> quoted_char CHR ''}''" by code_simp+
  then have "CHR ''{'' \<notin> set (quote s)" "CHR ''}'' \<notin> set (quote s)"
    using quote_chars [of s] by (auto simp: list_all_iff)
  then show ?thesis by (simp add: brace_excess_def occurrences_0)
qed

lemma placeholder_balanced:
  assumes "input_ok i" and "im_location i = ''path''"
  shows "brace_excess (placeholder (im_target i)) = 0"
proof -
  have "ident_re (im_target i)"
    using assms unfolding input_ok_def make_input_mapping_Inr target_ok_def by auto
  moreover have "\<not> ascii_alpha CHR ''{''" "\<not> ident_rest CHR ''{''" "\<not> ascii_alpha CHR ''}''" "\<not> ident_rest CHR ''}''"
    by code_simp+
  ultimately have "CHR ''{'' \<notin> set (im_target i)" "CHR ''}'' \<notin> set (im_target i)"
    using first_rest_no unfolding ident_re_def by metis+
  then show ?thesis by (simp add: placeholder_def brace_excess_def occurrences_0)
qed

lemma place_argument_excess:
  assumes "place_argument env args q i = Inr q'" and "input_ok i"
  shows "brace_excess (rp_path q') = brace_excess (rp_path q)"
  using assms placeholder_balanced [OF assms(2)] py_replace_excess quoted_no_brace
  by (auto simp: place_argument_def place_value_def split: option.splits if_splits)

lemma place_arguments_excess:
  "foldR (place_argument env args) q is = Inr q' \<Longrightarrow> \<forall>i \<in> set is. input_ok i
     \<Longrightarrow> brace_excess (rp_path q') = brace_excess (rp_path q)"
proof (induction "is" arbitrary: q)
  case (Cons i "is")
  then obtain q1 where "place_argument env args q i = Inr q1" "foldR (place_argument env args) q1 is = Inr q'" by auto
  then show ?case using Cons place_argument_excess by fastforce
qed simp

lemma unbalanced_path:
  assumes "\<forall>i \<in> set (op_inputs p). input_ok i" and "brace_excess (op_path p) \<noteq> 0"
  shows "build_request env p arguments \<noteq> Inr rq"
proof
  assume "build_request env p arguments = Inr rq"
  then show False
  proof (rule build_request_Inr)
    fix args q
    assume run: "foldR (place_argument env args) \<lparr>rp_path = op_path p, rp_query = [], rp_body = []\<rparr> (op_inputs p) = Inr q"
      and free: "CHR ''{'' \<notin> set (rp_path q)" "CHR ''}'' \<notin> set (rp_path q)"
    have "brace_excess (rp_path q) = brace_excess (op_path p)" using place_arguments_excess [OF run assms(1)] by simp
    moreover have "brace_excess (rp_path q) = 0" using free by (simp add: brace_excess_def occurrences_0)
    ultimately show False using assms(2) by simp
  qed
qed

text \<open>C40: The importer checks only that no opening brace of a path is left over: an operation whose path has more
  closing than opening braces is imported (the witness), but whatever the document it came from and whatever the
  arguments, no call of an imported operation with unequal numbers of braces in its path ever builds a request.\<close>

theorem stray_brace_uncallable:
  assumes "import_openapi_revision env y scope document = Inr rv" and "p \<in> set (rv_operations rv)"
    and "occurrences CHR ''{'' (op_path p) \<noteq> occurrences CHR ''}'' (op_path p)"
  shows "build_request env' p arguments \<noteq> Inr rq"
proof -
  obtain data compiled where compiled: "compile_revision env scope data = Inr compiled"
    and canonical: "canonical_revision env compiled = Inr rv"
    using assms(1) unfolding import_openapi_revision_def bindR_Inr_iff by blast
  have "revision_ok env rv" using canonical_same compile_revision_Inr(1) [OF compiled] canonical by metis
  then have "operation_ok p" using assms(2) by (auto simp: revision_ok_def parts_ok_def)
  then have "\<forall>i \<in> set (op_inputs p). input_ok i" by (auto simp: operation_ok_def)
  then show ?thesis using unbalanced_path assms(3) by (simp add: brace_excess_def)
qed

definition stray_openapi :: "(string \<times> pyval) list" where
  "stray_openapi =
     [(''openapi'', PStr ''3.0.3''), (''servers'', PList [pdict [(''url'', PStr demo_base)]]),
      (''paths'', pdict [(''/items}'', pdict [(''get'', pdict [(''operationId'', PStr ''find''),
         (''responses'', pdict [(''200'', pdict [(''content'', json_content found_schema)])])])])])]"

lemma stray_document_loads:
  "load_revision_document demo_env demo_yaml (pdict stray_openapi) = Inr (map (\<lambda>(k, v). (PStr k, v)) stray_openapi)"
  by code_simp

lemma stray_brace_uncallable_witness:
  "\<exists>rv p. import_openapi_revision demo_env demo_yaml demo_scope (pdict stray_openapi) = Inr rv \<and>
     rv_operations rv = [p] \<and> op_path p = ''/items}'' \<and> (\<forall>env arguments rq. build_request env p arguments \<noteq> Inr rq)"
proof -
  have "case compile_revision demo_env demo_scope (map (\<lambda>(k, v). (PStr k, v)) stray_openapi) of
      Inr rv \<Rightarrow> canonical_revision demo_env rv = Inr rv \<and>
        (case rv_operations rv of [p] \<Rightarrow> op_path p = ''/items}'' | _ \<Rightarrow> False)
    | Inl _ \<Rightarrow> False" by code_simp
  then obtain rv p where c: "compile_revision demo_env demo_scope (map (\<lambda>(k, v). (PStr k, v)) stray_openapi) = Inr rv"
    "canonical_revision demo_env rv = Inr rv" "rv_operations rv = [p]" "op_path p = ''/items}''"
    by (auto split: sum.splits list.splits)
  then have i: "import_openapi_revision demo_env demo_yaml demo_scope (pdict stray_openapi) = Inr rv"
    by (simp add: import_openapi_revision_def stray_document_loads)
  then show ?thesis using stray_brace_uncallable [OF i, of p] c(3,4) by auto
qed

end
