(* ===== verification/Spec2Isabelle.thy ===== *)
theory Spec2Isabelle
  imports CacheRun TokenRun Discovery Listing HttpBounds ToolTraffic SyncRun ApiClaims
begin

text \<open>
  A model of the connector core of the WBSysC gateway (\<open>src/app/\<close>): the part that decides which tools of
  which connector an MCP client may call for a connection, runs the call, and serves it from a cache; and the
  declarative connector, which imports an OpenAPI document, calls the HTTP operations it declares and
  synchronises their records.

  The program.  An administrator creates connections of a tenant to a connector.  A connector is a Python
  package (found by \<open>connectors/discovery.py\<close>) or a declaration of HTTP operations, imported from an OpenAPI
  document (\<open>declarative/validator.py\<close>) and stored as JSON (\<open>declarative/models.py\<close>); either gives a manifest of
  tools (\<open>connectors/contracts.py\<close>).  The registry (\<open>connectors/registry.py\<close>) holds the connectors and their
  identifiers.  The runtime (\<open>connectors/runtime.py\<close>) resolves a connection, asks its policy guard, runs the
  tool, bounds its result, writes one audit event, and uses the response cache (\<open>connections/cache.py\<close>).  The
  declarative connector (\<open>declarative/connector.py\<close>) runs the steps of a tool through a client that only
  connects to addresses it has just validated (\<open>declarative/http_client.py\<close>), keeps the OAuth tokens of a
  connection in a cache of its own (\<open>declarative/token_cache.py\<close>), and stores synchronised records and the
  cursor of the next page in tables (\<open>connections/store.py\<close>).

  Foundations.
    \<^item> \<open>Prelude\<close>: exceptions as values (\<open>exc\<close>, with the class a Python \<open>except\<close> clause tests), code that
      may raise as \<open>'a result\<close> with \<open>bindR\<close>, \<open>mapR\<close>, \<open>forR\<close>, \<open>foldR\<close>, and dictionaries as association
      lists in insertion order.
    \<^item> \<open>PyStr\<close>, \<open>PyVal\<close>, \<open>PyNet\<close>, \<open>PyUrl\<close>: the standard library the program uses (Python 3.11): strings,
      dynamically typed values with equality, truth and JSON text, IP addresses, URLs.
    \<^item> \<open>EvalRules\<close>: code equations that let the kernel evaluate the model on concrete documents.

  Connections and connectors.
    \<^item> \<open>ConnCache\<close>, \<open>CacheRun\<close>: \<open>ConnectionCache\<close>.  State \<open>conn_cache\<close> (entries, in-flight futures);
      \<open>get_or_load\<close> is cut at its suspension points into \<open>load_begin\<close>, \<open>load_finish\<close> and \<open>load_wake\<close>, and
      \<open>cache_step\<close> interleaves them over any number of tasks.
    \<^item> \<open>TokenCache\<close>, \<open>TokenRun\<close>: \<open>OAuthTokenCache\<close> in the same way (\<open>exchange_begin\<close>, \<open>exchange_finish\<close>,
      \<open>token_step\<close>), with the generations of its connections.
    \<^item> \<open>TtlStore\<close>, \<open>SingleFlight\<close>: the contracts the two caches share, as locales.  \<open>ttl_store\<close> is
      interpreted on both stores (\<open>cc\<close>, \<open>tc\<close>), \<open>single_flight\<close> on both step relations (\<open>cf\<close>, \<open>tf\<close>).
    \<^item> \<open>Contracts\<close>, \<open>JsonTree\<close>, \<open>Registry\<close>, \<open>Discovery\<close>: manifests and their validation, the detached copy
      of a schema graph, the registry's operations (\<open>registry_step\<close> for histories), the allowlist and the
      discovery of installed packages.
    \<^item> \<open>Policy\<close>: the tool policy guard and the sliding window limiter (\<open>limiter_allow\<close>).
    \<^item> \<open>Runtime\<close>: \<open>list_enabled_tools\<close>, \<open>execute\<close> and the data modes, with the audit events as a list;
      \<open>Listing\<close>: that the two agree, for static connectors and for declarations.

  Declarations.
    \<^item> \<open>DeclValues\<close>, \<open>DeclTypes\<close>, \<open>DeclInput\<close>, \<open>DeclOperation\<close>, \<open>DeclRevision\<close>, \<open>DeclStorage\<close>: the declarative
      models in source order: guards on values, the immutable parts and their constructors, schema validation
      and output selection, requests, revisions and their manifest, the stored document.
    \<^item> \<open>DeclFacts\<close>, \<open>DeclParts\<close>, \<open>DeclRoundTrip\<close>, \<open>DeclSafety\<close>, \<open>DeclRequest\<close>: their lemmas; every part is a
      fixed point of its constructor (\<open>input_ok\<close>, \<open>operation_ok\<close>, \<open>tool_ok\<close>, \<open>revision_ok\<close>).  \<open>DeclDemo\<close> is
      the declaration the witnesses use, \<open>DeclClaims\<close> the properties.
    \<^item> \<open>ApiDocument\<close>, \<open>ApiImport\<close>, \<open>OpenApi\<close>: the importer: documents, duplicate keys and schemas; parameters,
      bodies, responses and operations; tools, authentication, synchronisation and the whole revision
      (\<open>import_openapi_revision\<close>, \<open>validate_revision\<close>).  \<open>Canonical\<close>, \<open>ApiFacts\<close>, \<open>ApiSchema\<close>: their lemmas;
      \<open>ApiDemo\<close>: a document; \<open>ApiClaims\<close>: the properties.

  The declarative connector at run time.
    \<^item> \<open>HttpGuard\<close>, \<open>HttpClient\<close>: \<open>TargetGuard\<close> with its addresses, the pinned connection, and \<open>SafeHttpClient\<close>: the
      checks of a request, the loop over redirects (\<open>request_loop\<close>) and the bounded reading of a response.
      \<open>HttpBounds\<close>: what they keep; \<open>hops_ok\<close> says what every URL of one call was checked with.
    \<^item> \<open>DeclPages\<close>, \<open>DeclSession\<close>, \<open>DeclExec\<close>: the pure parts of the connector (cursors, record keys, public
      input, output budgets, projection); the session that its calls share (client, tokens, what was sent and
      audited) with credentials, token exchanges, the retry after 401 and the step audits; operations with
      pagination, the steps of a tool, and \<open>execute_declared\<close>.  \<open>ToolDemo\<close>: the calls of the witnesses.
    \<^item> \<open>DeclOutput\<close>: the budget of an output.  \<open>DeclRun\<close>: the locale \<open>session_relation\<close> carries a relation
      between sessions from a client call to whole operations; it is interpreted for the audit events
      (\<open>audits\<close>), for the targets of requests (\<open>targets\<close>) and in \<open>ToolTraffic\<close> for their number.
      \<open>DeclTool\<close>: the outcomes and audit events of a whole tool, by \<open>steps_complete\<close> and \<open>steps_stopped\<close>, which
      say which steps completed and which one failed, and why.
    \<^item> \<open>DeclStore\<close>, \<open>DeclSync\<close>: the tables of records and cursors with transactions that may fail; \<open>sync\<close>
      and its pages.  \<open>RecordStore\<close>: the record table refines a map from collated keys to payloads.
      \<open>SyncRun\<close>: what a run leaves in the tables however it ends (\<open>synced\<close>), its counters, and what it skips.

  What the theorems show.  Listing and admission of tools agree; identifiers stay unambiguous over every
  history of the registry; writes need an explicit policy; the limiter keeps its window bound; no waiter of a
  cache is stranded; invalidated tokens are never stored; only safe, bounded values are retained; every call is
  audited once; schema copies are bounded.  A stored declaration loads back to itself, and a loaded one is well
  formed, bounded, and confined to its base URL; an imported one is canonical and declares what its document
  declares.  Every request goes to a URL checked right before with the answers of its resolver, for an allowed
  host; responses, outputs, redirects and calls are bounded; the steps of a tool are audited as they ended, and a
  tool has no outcomes but the declared ones.  A synchronisation leaves complete pages, and at most the rows of
  one more.  Some theorems record what the code does against its intention: site-local addresses pass the check
  of a target, names with certain words make a tool fail after its step was sent, rows beyond the item limit are
  skipped, and a path with a stray brace is imported and can never be called.

  Conventions.
    \<^item> A string is a list of characters U+0000 to U+00FF.  A finite \<open>float\<close> is the rational it denotes; its
      \<open>repr\<close> is the parameter \<open>env_float\<close> (or \<open>fr\<close>).  Integers are unbounded, as in Python; the limit of
      4300 digits on their conversion to text is not modelled.
    \<^item> Parameters stand for what is not under \<open>src/\<close>.  A \<open>py_env\<close> holds \<open>idna\<close> on names outside ASCII and the
      text of floats; a \<open>host\<close> the hash functions; a \<open>world\<close> what happens to a declarative connector from call
      to call: resolvers, network and decoder, the clock, interruptions (a cancellation, or the passing of a time
      limit, which is the exception \<open>deadline\<close>), the JSON parser; a \<open>database\<close> its collation, its faults and
      its JSON parser; a \<open>yaml_lib\<close> the YAML scanner and loader.  The connector's own code, the policy store, the
      audit sink and the package entry points are parameters of the runtime and of the discovery.
    \<^item> A \<open>MappingProxyType\<close> and other mappings are the \<open>dict\<close> they show.  Mutable containers that the code copies
      on the way in and out are values.
    \<^item> The clock is a rational number, the steps between two \<open>await\<close>s are atomic (asyncio).  \<open>execute\<close> in
      \<open>Runtime\<close> and \<open>execute_declared\<close> run one call to its end, time passing only in the calls of the connector
      or the client; the interleaving of calls is in \<open>CacheRun\<close> and \<open>TokenRun\<close>.
    \<^item> Recursion is bounded by the structure of the data or the bounds of the code (the list of page numbers that
      are left, the redirects that are left); no fuel is used.

  Not modelled: in \<open>connections/store.py\<close> all but the records and cursors of declared resources (connections,
  revisions and policies are rows of SQL tables), encryption, the provider that builds a declarative connector
  from the rows, the scheduling of synchronisations, HTTP and administration handlers, the MCP servers, services
  and the call log, the WeCom connector and its synchronisation, configuration and application entry: I/O and
  glue on libraries outside the repository.
\<close>

end
